(* ===== verification/Prelude.thy ===== *)
theory Prelude
  imports Main "HOL-Library.Word"
begin

text \<open>
  Shared vocabulary of the development: bytes and big-endian numbers, Go strings, error
  values, and the state-and-error monad in which the handlers are written. Lemmas that
  every component needs are collected here, in the named collections \<open>go_defs\<close>
  (definitions unfolded when a handler is executed) and \<open>byte_laws\<close> (facts about
  encodings).
\<close>

named_theorems go_defs "definitions that an execution of a handler unfolds"
named_theorems byte_laws "laws of the byte encodings"

section \<open>Bytes\<close>

type_synonym byte = "8 word"
type_synonym bytes = "byte list"
type_synonym u16 = "16 word"
type_synonym u32 = "32 word"
type_synonym u64 = "64 word"

text \<open>
  Go converts freely between \<open>string\<close> and \<open>[]byte\<close>. HOL characters are bytes, so the two
  conversions are mutually inverse.
\<close>

definition byte_of_char :: "char \<Rightarrow> byte" where
  "byte_of_char c = of_nat (of_char c)"

definition char_of_byte :: "byte \<Rightarrow> char" where
  "char_of_byte b = char_of (unat b)"

definition str_bytes :: "string \<Rightarrow> bytes" where
  "str_bytes s = map byte_of_char s"

definition bytes_str :: "bytes \<Rightarrow> string" where
  "bytes_str bs = map char_of_byte bs"

lemma byte_less [simp]: "unat (b :: byte) < 256"
  using unsigned_less [of b, where 'a = nat] by simp

lemma u16_less [simp]: "unat (w :: u16) < 65536"
  using unsigned_less [of w, where 'a = nat] by simp

lemma u64_less: "unat (w :: u64) < 2 ^ 64"
  using unsigned_less [of w, where 'a = nat] by simp

lemma of_char_less_256: "(of_char c :: nat) < 256"
  by (cases c) (simp add: horner_sum_eq_sum_funpow of_char_def)

lemma char_of_byte_of_char [simp]: "char_of_byte (byte_of_char c) = c"
  by (simp add: byte_of_char_def char_of_byte_def unat_of_nat of_char_less_256)

lemma byte_of_char_of_byte [simp]: "byte_of_char (char_of_byte b) = b"
  by (simp add: byte_of_char_def char_of_byte_def of_char_of unat_of_nat)

lemma bytes_str_str_bytes [simp]: "bytes_str (str_bytes s) = s"
  by (induction s) (simp_all add: str_bytes_def bytes_str_def)

lemma str_bytes_bytes_str [simp]: "str_bytes (bytes_str bs) = bs"
  by (induction bs) (simp_all add: str_bytes_def bytes_str_def)

lemma length_str_bytes [simp]: "length (str_bytes s) = length s"
  by (simp add: str_bytes_def)

lemma length_bytes_str [simp]: "length (bytes_str bs) = length bs"
  by (simp add: bytes_str_def)

lemma str_bytes_inj [simp]: "str_bytes s = str_bytes t \<longleftrightarrow> s = t"
  by (metis bytes_str_str_bytes)

section \<open>Big-endian numbers\<close>

text \<open>
  \<open>nat_bytes n k\<close> is the low \<open>n\<close> bytes of \<open>k\<close>, most significant first; \<open>bytes_nat\<close> reads
  a byte string as a number. \<open>binary.BigEndian\<close> on a w-bit integer is the instance at
  \<open>w div 8\<close> bytes.
\<close>

primrec nat_bytes :: "nat \<Rightarrow> nat \<Rightarrow> bytes" where
  "nat_bytes 0 k = []"
| "nat_bytes (Suc n) k = of_nat (k div 256 ^ n) # nat_bytes n k"

definition bytes_nat :: "bytes \<Rightarrow> nat" where
  "bytes_nat bs = foldl (\<lambda>a b. a * 256 + unat b) 0 bs"

lemma length_nat_bytes [simp]: "length (nat_bytes n k) = n"
  by (induction n) simp_all

lemma nat_bytes_numeral:
  "nat_bytes (numeral v) k = of_nat (k div 256 ^ pred_numeral v) # nat_bytes (pred_numeral v) k"
  by (simp add: numeral_eq_Suc)

lemma bytes_nat_Nil [simp]: "bytes_nat [] = 0"
  by (simp add: bytes_nat_def)

lemma bytes_nat_snoc [simp]: "bytes_nat (bs @ [b]) = bytes_nat bs * 256 + unat b"
  by (simp add: bytes_nat_def)

lemma bytes_nat_append: "bytes_nat (xs @ ys) = bytes_nat xs * 256 ^ length ys + bytes_nat ys"
proof (induction ys rule: rev_induct)
  case Nil
  then show ?case by simp
next
  case (snoc y ys)
  have "bytes_nat (xs @ ys @ [y]) = bytes_nat (xs @ ys) * 256 + unat y"
    by (metis append.assoc bytes_nat_snoc)
  with snoc show ?case by (simp add: algebra_simps)
qed

lemma bytes_nat_Cons: "bytes_nat (b # bs) = unat b * 256 ^ length bs + bytes_nat bs"
  using bytes_nat_append [of "[b]" bs] by (simp add: bytes_nat_def)

lemma bytes_nat_less: "bytes_nat bs < 256 ^ length bs"
proof (induction bs)
  case Nil
  then show ?case by simp
next
  case (Cons b bs)
  have "unat b \<le> 255"
    using byte_less [of b] by linarith
  then have "unat b * 256 ^ length bs \<le> 255 * 256 ^ length bs"
    by (rule mult_le_mono1)
  with Cons have "unat b * 256 ^ length bs + bytes_nat bs < 255 * 256 ^ length bs + 256 ^ length bs"
    by linarith
  then show ?case by (simp add: bytes_nat_Cons)
qed

lemma bytes_nat_nat_bytes [byte_laws]: "bytes_nat (nat_bytes n k) = k mod 256 ^ n"
proof (induction n)
  case 0
  then show ?case by simp
next
  case (Suc n)
  have "k mod 256 ^ Suc n = 256 ^ n * (k div 256 ^ n mod 256) + k mod 256 ^ n"
    by (metis mod_mult2_eq power_Suc2)
  with Suc show ?case by (simp add: bytes_nat_Cons unat_of_nat)
qed

lemma nat_bytes_mod: "nat_bytes n (k mod 256 ^ n) = nat_bytes n k"
proof -
  have "nat_bytes m (k mod 256 ^ n) = nat_bytes m k" if "m \<le> n" for m
    using that
  proof (induction m)
    case 0
    then show ?case by simp
  next
    case (Suc m)
    then obtain d where d: "n = Suc m + d" using le_Suc_ex by blast
    have "k mod (256 ^ m * 256 ^ Suc d) div 256 ^ m = k div 256 ^ m mod 256 ^ Suc d"
      by (simp only: mod_mult2_eq) simp
    then have "k mod 256 ^ n div 256 ^ m mod 256 = k div 256 ^ m mod 256 ^ Suc d mod 256"
      by (simp only: d power_add [symmetric] add_Suc add_Suc_right)
    also have "\<dots> = k div 256 ^ m mod 256"
      by (rule mod_mod_cancel) simp
    finally have "of_nat (k mod 256 ^ n div 256 ^ m) = (of_nat (k div 256 ^ m) :: byte)"
      by (simp add: word_unat_eq_iff unat_of_nat)
    with Suc show ?case by simp
  qed
  then show ?thesis by simp
qed

lemma nat_bytes_bytes_nat [byte_laws]: "length bs = n \<Longrightarrow> nat_bytes n (bytes_nat bs) = bs"
proof (induction bs arbitrary: n)
  case Nil
  then show ?case by simp
next
  case (Cons b bs)
  then obtain m where n: "n = Suc m" and m: "length bs = m" by auto
  have lt: "bytes_nat bs < 256 ^ m"
    using bytes_nat_less [of bs] m by simp
  then have "(unat b * 256 ^ m + bytes_nat bs) div 256 ^ m = unat b" by simp
  moreover have "nat_bytes m (unat b * 256 ^ m + bytes_nat bs) = nat_bytes m (bytes_nat bs)"
    by (metis lt mod_less mod_mult_self3 nat_bytes_mod)
  ultimately show ?case
    using Cons.IH [OF m] by (simp add: n bytes_nat_Cons m)
qed

definition be16_put :: "u16 \<Rightarrow> bytes" where
  "be16_put w = nat_bytes 2 (unat w)"

definition be16_get :: "bytes \<Rightarrow> u16" where
  "be16_get bs = of_nat (bytes_nat (take 2 bs))"

definition be64_put :: "u64 \<Rightarrow> bytes" where
  "be64_put w = nat_bytes 8 (unat w)"

definition be64_get :: "bytes \<Rightarrow> u64" where
  "be64_get bs = of_nat (bytes_nat (take 8 bs))"

lemma length_be_put [simp]: "length (be16_put w) = 2" "length (be64_put v) = 8"
  by (simp_all add: be16_put_def be64_put_def)

lemma be16_get_put [simp]: "be16_get (be16_put w @ rest) = w"
  by (simp add: be16_get_def be16_put_def byte_laws)

lemma be64_get_put [simp]: "be64_get (be64_put w @ rest) = w"
  using u64_less [of w] by (simp add: be64_get_def be64_put_def byte_laws)

lemmas be_get_put' [simp] = be16_get_put [where rest = "[]", simplified]
  be64_get_put [where rest = "[]", simplified]

section \<open>Errors\<close>

text \<open>
  Error values of the program: the sentinels the code tests with \<open>errors.Is\<close>, errors made
  by \<open>errors.New\<close> and \<open>errors.Newf\<close>, \<open>errors.Append\<close> of two errors, and a run-time panic.
  \<open>WithStack\<close> only decorates an error and is the identity here.
\<close>

datatype goerr =
    EOF
  | UnexpectedEOF
  | NetClosed
  | ServerClosed
  | CtxCanceled
  | ErrNew string
  | ErrWrap string goerr
  | ErrBoth goerr goerr
  | Panic string

fun errIs :: "goerr \<Rightarrow> goerr \<Rightarrow> bool" where
  "errIs (ErrWrap m e) t = (ErrWrap m e = t \<or> errIs e t)"
| "errIs (ErrBoth a b) t = (ErrBoth a b = t \<or> errIs a t \<or> errIs b t)"
| "errIs e t = (e = t)"

definition IsIoEof :: "goerr \<Rightarrow> bool" where
  "IsIoEof e = errIs e EOF"

definition IsErrClosedOrContextCanceled :: "goerr \<Rightarrow> bool" where
  "IsErrClosedOrContextCanceled e = (errIs e NetClosed \<or> errIs e ServerClosed \<or> errIs e CtxCanceled)"

fun errAppend :: "goerr option \<Rightarrow> goerr option \<Rightarrow> goerr option" where
  "errAppend None e = e"
| "errAppend e None = e"
| "errAppend (Some a) (Some b) = Some (ErrBoth a b)"

type_synonym 'a res = "goerr + 'a"

section \<open>State and errors\<close>

text \<open>
  A handler reads and writes a state and returns a value or stops at the first error, as
  the \<open>if err != nil { return err }\<close> chains of the code do. \<open>io_bind\<close> is that chain.
\<close>

type_synonym ('s, 'a) io = "'s \<Rightarrow> 'a res \<times> 's"

definition io_ret :: "'a \<Rightarrow> ('s, 'a) io" where
  "io_ret x s = (Inr x, s)"

definition io_fail :: "goerr \<Rightarrow> ('s, 'a) io" where
  "io_fail e s = (Inl e, s)"

definition io_bind :: "('s, 'a) io \<Rightarrow> ('a \<Rightarrow> ('s, 'b) io) \<Rightarrow> ('s, 'b) io" where
  "io_bind m f s = (case m s of (Inl e, s') \<Rightarrow> (Inl e, s') | (Inr x, s') \<Rightarrow> f x s')"

definition io_lift :: "'a res \<Rightarrow> ('s, 'a) io" where
  "io_lift r s = (r, s)"

lemma io_ret_apply [simp]: "io_ret x s = (Inr x, s)"
  by (simp add: io_ret_def)

lemma io_fail_apply [simp]: "io_fail e s = (Inl e, s)"
  by (simp add: io_fail_def)

lemma io_lift_apply [simp]: "io_lift r s = (r, s)"
  by (simp add: io_lift_def)

lemma io_bind_Inr: "m s = (Inr x, s') \<Longrightarrow> io_bind m f s = f x s'"
  by (simp add: io_bind_def)

lemma io_bind_Inl: "m s = (Inl e, s') \<Longrightarrow> io_bind m f s = (Inl e, s')"
  by (simp add: io_bind_def)

lemma io_bind_eq_Inr:
  "io_bind m f s = (Inr y, t) \<longleftrightarrow> (\<exists>x s'. m s = (Inr x, s') \<and> f x s' = (Inr y, t))"
  by (auto simp: io_bind_def split: prod.splits sum.splits)

lemma io_bind_cases:
  obtains (err) e s' where "m s = (Inl e, s')" "io_bind m f s = (Inl e, s')"
  | (val) x s' where "m s = (Inr x, s')" "io_bind m f s = f x s'"
  by (cases "m s"; cases "fst (m s)") (auto simp: io_bind_def)

text \<open>\<open>on_field g u m\<close> runs an operation of a component on the field of the state that holds it.\<close>

definition on_field :: "('s \<Rightarrow> 't) \<Rightarrow> ('t \<Rightarrow> 's \<Rightarrow> 's) \<Rightarrow> ('t, 'a) io \<Rightarrow> ('s, 'a) io" where
  "on_field g u m s = (case m (g s) of (r, t) \<Rightarrow> (r, u t s))"

section \<open>Lookup or build\<close>

text \<open>
  Three caches of the program look a key up and build, and keep, the value only when it is
  missing. Such a getter is a \<open>memo\<close>: a hit changes nothing, a value that was built is kept
  under its key, and no entry is ever replaced. \<open>run_gets\<close> is a sequence of calls.
\<close>

fun run_gets :: "('k \<Rightarrow> ('s, 'v) io) \<Rightarrow> 'k list \<Rightarrow> 's \<Rightarrow> 'v res list \<times> 's" where
  "run_gets get [] s = ([], s)"
| "run_gets get (k # ks) s = (case get k s of (r, t) \<Rightarrow> (case run_gets get ks t of (rs, u) \<Rightarrow> (r # rs, u)))"

locale memo =
  fixes cache :: "'s \<Rightarrow> 'k \<rightharpoonup> 'v" and get :: "'k \<Rightarrow> ('s, 'v) io"
  assumes get_hit: "cache s k = Some v \<Longrightarrow> get k s = (Inr v, s)"
    and get_keeps: "get k s = (r, t) \<Longrightarrow> cache s j = Some v \<Longrightarrow> cache t j = Some v"
    and get_built: "get k s = (Inr v, t) \<Longrightarrow> cache t k = Some v"
begin

lemma get_again: "get k s = (Inr v, t) \<Longrightarrow> get k t = (Inr v, t)"
  by (rule get_hit) (rule get_built)

lemma run_gets_length: "run_gets get ks s = (rs, t) \<Longrightarrow> length rs = length ks"
  by (induction ks arbitrary: s rs) (auto split: prod.splits)

lemma run_gets_cached:
  "run_gets get ks s = (rs, t) \<Longrightarrow> cache s k = Some v \<Longrightarrow>
    cache t k = Some v \<and> (\<forall>i < length ks. ks ! i = k \<longrightarrow> rs ! i = Inr v)"
proof (induction ks arbitrary: s rs)
  case Nil
  then show ?case by simp
next
  case (Cons a ks)
  obtain r u rs' where get: "get a s = (r, u)" "run_gets get ks u = (rs', t)" "rs = r # rs'"
    using Cons.prems(1) by (auto split: prod.splits)
  have "a = k \<Longrightarrow> r = Inr v" using get_hit [OF Cons.prems(2)] get(1) by simp
  with Cons.IH [OF get(2) get_keeps [OF get(1) Cons.prems(2)]] get(3) show ?case
    by (auto simp: less_Suc_eq_0_disj)
qed

text \<open>Once a key was got, every later call for it returns the same value.\<close>

lemma run_gets_stable:
  "run_gets get ks s = (rs, t) \<Longrightarrow> i \<le> j \<Longrightarrow> j < length ks \<Longrightarrow> ks ! j = ks ! i \<Longrightarrow> rs ! i = Inr v \<Longrightarrow> rs ! j = Inr v"
proof (induction ks arbitrary: s rs i j)
  case Nil
  then show ?case by simp
next
  case (Cons a ks)
  obtain r u rs' where get: "get a s = (r, u)" "run_gets get ks u = (rs', t)" "rs = r # rs'"
    using Cons.prems(1) by (auto split: prod.splits)
  show ?case
  proof (cases i)
    case 0
    with Cons.prems get have "r = Inr v" by simp
    with get(1) have "cache u a = Some v" by (simp add: get_built)
    from run_gets_cached [OF get(2) this] Cons.prems 0 get(3) show ?thesis
      by (cases j) auto
  next
    case (Suc m)
    with Cons.prems get(3) Cons.IH [OF get(2), of m "j - 1"] show ?thesis by (cases j) auto
  qed
qed

lemma run_gets_final: "run_gets get ks s = (rs, t) \<Longrightarrow> i < length ks \<Longrightarrow> rs ! i = Inr v \<Longrightarrow> cache t (ks ! i) = Some v"
proof (induction ks arbitrary: s rs i)
  case Nil
  then show ?case by simp
next
  case (Cons a ks)
  obtain r u rs' where get: "get a s = (r, u)" "run_gets get ks u = (rs', t)" "rs = r # rs'"
    using Cons.prems(1) by (auto split: prod.splits)
  show ?case
  proof (cases i)
    case 0
    with Cons.prems get have "cache u a = Some v" by (simp add: get_built)
    from run_gets_cached [OF get(2) this] 0 show ?thesis by simp
  next
    case (Suc m)
    with Cons.prems get(3) Cons.IH [OF get(2), of m] show ?thesis by simp
  qed
qed

end

end
