(* ===== verification/IoUtil.thy ===== *)
theory IoUtil
  imports Prelude
begin

text \<open>
  The I/O layer: \<open>io.Reader\<close> and \<open>io.Writer\<close> as the program meets them, the read helpers
  of \<open>util/ioutil/util.go\<close>, the preloading connection of
  \<open>util/ioutil/bytes_read_preload_conn.go\<close> and \<open>io.Copy\<close>.

  A connection's incoming side is the script of what the network will deliver: the
  segments in order, the error that ends the stream (\<open>EOF\<close> when the peer closes), and
  whether the last segment arrives in the same call as that error. A theorem for every
  reader is a theorem for every way the bytes can be cut into reads. The locale
  \<open>byte_source\<close> states what a component may rely on when it reads from another one; the
  plain reader and the preloading connection are its first two instances.
\<close>

section \<open>Readers\<close>

record reader =
  segs :: "bytes list"
  fin :: goerr
  glue :: bool

definition contents :: "reader \<Rightarrow> bytes" where
  "contents r = concat (segs r)"

text \<open>A call \<open>r.Read(p)\<close> with \<open>len(p) = n\<close>: the bytes read, the error and the reader after it.\<close>

definition rd_read :: "nat \<Rightarrow> reader \<Rightarrow> bytes \<times> goerr option \<times> reader" where
  "rd_read n r =
     (if n = 0 then ([], None, r)
      else (case segs r of
        [] \<Rightarrow> ([], Some (fin r), r)
      | d # ds \<Rightarrow>
          if n < length d then (take n d, None, r\<lparr>segs := drop n d # ds\<rparr>)
          else if ds = [] \<and> glue r then (d, Some (fin r), r\<lparr>segs := []\<rparr>)
          else (d, None, r\<lparr>segs := ds\<rparr>)))"

definition rd_left :: "reader \<Rightarrow> nat" where
  "rd_left r = length (contents r) + length (segs r)"

lemma rd_read_data:
  assumes "rd_read n r = (d, e, r')"
  shows "contents r = d @ contents r'" "fin r' = fin r" "length d \<le> n"
  using assms by (auto simp: rd_read_def contents_def split: if_splits list.splits)

lemma rd_read_error:
  assumes "rd_read n r = (d, Some x, r')"
  shows "x = fin r" "segs r' = []"
  using assms by (auto simp: rd_read_def split: if_splits list.splits)

lemma rd_read_progress:
  "rd_read n r = (d, None, r') \<Longrightarrow> 0 < n \<Longrightarrow> rd_left r' < rd_left r"
  by (auto simp: rd_read_def rd_left_def contents_def split: if_splits list.splits)

lemma rd_read_partial:
  "rd_read n r = (d, None, r') \<Longrightarrow> length d < n \<Longrightarrow> length (segs r') < length (segs r)"
  by (auto simp: rd_read_def split: if_splits list.splits)

section \<open>Reading a given number of bytes\<close>

text \<open>
  \<open>io.ReadFull\<close>: read until \<open>n\<close> bytes have arrived or a read fails. An error that comes
  with the last byte needed is dropped; \<open>EOF\<close> in the middle is \<open>ErrUnexpectedEOF\<close>.
\<close>

function read_loop :: "nat \<Rightarrow> bytes \<Rightarrow> reader \<Rightarrow> bytes \<times> goerr option \<times> reader" where
  "read_loop n acc r =
     (if length acc < n
      then (case rd_read (n - length acc) r of
          (d, None, r') \<Rightarrow> read_loop n (acc @ d) r'
        | (d, Some e, r') \<Rightarrow> (acc @ d, Some e, r'))
      else (acc, None, r))"
  by pat_completeness auto
termination
proof (relation "measure (\<lambda>(n, acc, r). (n - length acc) + length (segs r))", goal_cases)
  case 1
  then show ?case by simp
next
  case (2 n acc r d p e r')
  then have eq: "rd_read (n - length acc) r = (d, None, r')" by simp
  show ?case
  proof (cases "length d < n - length acc")
    case True
    with rd_read_partial [OF eq] show ?thesis by simp
  next
    case False
    with rd_read_data(3) [OF eq] have "length d = n - length acc" by simp
    moreover have "length (segs r') \<le> length (segs r)"
      using eq by (auto simp: rd_read_def split: if_splits list.splits)
    ultimately show ?thesis using 2(1) by simp
  qed
qed

declare read_loop.simps [simp del]

definition read_result :: "nat \<Rightarrow> bytes \<Rightarrow> goerr option \<Rightarrow> bytes res" where
  "read_result n bs e =
     (if n \<le> length bs then Inr bs
      else (case e of
        Some x \<Rightarrow> Inl (if bs \<noteq> [] \<and> x = EOF then UnexpectedEOF else x)
      | None \<Rightarrow> Inr bs))"

definition ReadFull :: "nat \<Rightarrow> (reader, bytes) io" where
  "ReadFull n r = (case read_loop n [] r of (bs, e, r') \<Rightarrow> (read_result n bs e, r'))"

definition Read1 :: "(reader, byte) io" where
  "Read1 = io_bind (ReadFull 1) (\<lambda>bs. io_ret (hd bs))"

definition ReadN :: "nat \<Rightarrow> (reader, bytes) io" where
  "ReadN n = ReadFull n"

text \<open>One \<open>Read\<close> call that has to fill the whole buffer.\<close>

definition ReadOnceExpectFull :: "nat \<Rightarrow> (reader, bytes) io" where
  "ReadOnceExpectFull n r =
     (case rd_read n r of
        (d, None, r') \<Rightarrow>
          (if length d < n then (Inl (ErrWrap ''expect full read in one call'' UnexpectedEOF), r')
           else (Inr d, r'))
      | (d, Some e, r') \<Rightarrow> (Inl e, r'))"

definition ReadByUint8 :: "(reader, bytes) io" where
  "ReadByUint8 = io_bind Read1 (\<lambda>b. ReadFull (unat b))"

definition ReadStringByUint8 :: "(reader, string) io" where
  "ReadStringByUint8 = io_bind ReadByUint8 (\<lambda>bs. io_ret (bytes_str bs))"

text \<open>
  What \<open>ReadFull\<close> returns depends on the bytes of the stream only, not on how they are cut.
  \<open>rd_adv n r\<close> names the reader after \<open>n\<close> bytes have been taken from it.
\<close>

definition rd_adv :: "nat \<Rightarrow> reader \<Rightarrow> reader" where
  "rd_adv n r = snd (snd (read_loop n [] r))"

lemma read_loop_enough:
  "length acc \<le> n \<Longrightarrow> n \<le> length acc + length (contents r) \<Longrightarrow>
   \<exists>e r'. read_loop n acc r = (acc @ take (n - length acc) (contents r), e, r')
     \<and> contents r' = drop (n - length acc) (contents r) \<and> fin r' = fin r"
proof (induction n acc r rule: read_loop.induct)
  case (1 n acc r)
  show ?case
  proof (cases "length acc < n")
    case False
    with "1.prems" show ?thesis by (simp add: read_loop.simps [of n acc r])
  next
    case True
    obtain d e r' where rd: "rd_read (n - length acc) r = (d, e, r')"
      by (metis prod_cases3)
    note data = rd_read_data [OF rd]
    show ?thesis
    proof (cases e)
      case None
      have "length (acc @ d) \<le> n" "n \<le> length (acc @ d) + length (contents r')"
        using data "1.prems" True by simp_all
      from "1.IH" [OF True rd [symmetric] refl None this] show ?thesis
        using True rd None data by (auto simp: read_loop.simps [of n acc r])
    next
      case (Some x)
      with rd rd_read_error have "segs r' = []" by blast
      then have "contents r' = []" by (simp add: contents_def)
      with True rd Some data "1.prems" show ?thesis
        by (auto simp: read_loop.simps [of n acc r])
    qed
  qed
qed

lemma read_loop_short:
  "length acc \<le> n \<Longrightarrow> length acc + length (contents r) < n \<Longrightarrow>
   \<exists>r'. read_loop n acc r = (acc @ contents r, Some (fin r), r') \<and> contents r' = []
     \<and> fin r' = fin r"
proof (induction n acc r rule: read_loop.induct)
  case (1 n acc r)
  then have True: "length acc < n" by simp
  obtain d e r' where rd: "rd_read (n - length acc) r = (d, e, r')"
    by (metis prod_cases3)
  note data = rd_read_data [OF rd]
  show ?case
  proof (cases e)
    case None
    have "length (acc @ d) \<le> n" "length (acc @ d) + length (contents r') < n"
      using data "1.prems" True by simp_all
    from "1.IH" [OF True rd [symmetric] refl None this] show ?thesis
      using True rd None data by (auto simp: read_loop.simps [of n acc r])
  next
    case (Some x)
    with rd rd_read_error have "segs r' = []" "x = fin r" by blast+
    then have "contents r' = []" by (simp add: contents_def)
    with True rd Some data \<open>x = fin r\<close> show ?thesis
      by (auto simp: read_loop.simps [of n acc r])
  qed
qed

lemma rd_adv_contents [simp]:
  "n \<le> length (contents r) \<Longrightarrow> contents (rd_adv n r) = drop n (contents r)"
  using read_loop_enough [of "[]" n r] by (auto simp: rd_adv_def)

lemma rd_adv_fin [simp]: "fin (rd_adv n r) = fin r"
  using read_loop_enough [of "[]" n r] read_loop_short [of "[]" n r]
  by (cases "n \<le> length (contents r)") (auto simp: rd_adv_def)

lemma rd_adv_short: "length (contents r) < n \<Longrightarrow> contents (rd_adv n r) = []"
  using read_loop_short [of "[]" n r] by (auto simp: rd_adv_def)

lemma ReadFull_enough [simp]:
  "n \<le> length (contents r) \<Longrightarrow> ReadFull n r = (Inr (take n (contents r)), rd_adv n r)"
  using read_loop_enough [of "[]" n r]
  by (auto simp: ReadFull_def rd_adv_def read_result_def)

definition short_error :: "reader \<Rightarrow> goerr" where
  "short_error r = (if contents r \<noteq> [] \<and> fin r = EOF then UnexpectedEOF else fin r)"

lemma ReadFull_short [simp]:
  "length (contents r) < n \<Longrightarrow> ReadFull n r = (Inl (short_error r), rd_adv n r)"
  using read_loop_short [of "[]" n r]
  by (auto simp: ReadFull_def rd_adv_def read_result_def short_error_def)

lemma Read1_Cons [simp]:
  "contents r = b # bs \<Longrightarrow> Read1 r = (Inr b, rd_adv 1 r)"
  by (simp add: Read1_def io_bind_def)

lemma Read1_Nil [simp]: "contents r = [] \<Longrightarrow> Read1 r = (Inl (fin r), rd_adv 1 r)"
  by (simp add: Read1_def io_bind_def short_error_def)

lemma ReadN_enough [simp]:
  "n \<le> length (contents r) \<Longrightarrow> ReadN n r = (Inr (take n (contents r)), rd_adv n r)"
  by (simp add: ReadN_def)

lemma ReadN_short [simp]:
  "length (contents r) < n \<Longrightarrow> ReadN n r = (Inl (short_error r), rd_adv n r)"
  by (simp add: ReadN_def)

lemma ReadByUint8_enough:
  assumes "contents r = b # xs @ rest" "length xs = unat b"
  shows "ReadByUint8 r = (Inr xs, rd_adv (unat b) (rd_adv 1 r))"
proof -
  have c: "contents (rd_adv 1 r) = xs @ rest" using assms by simp
  then show ?thesis using assms by (simp add: ReadByUint8_def io_bind_def)
qed

lemma ReadOnceExpectFull_Inr:
  assumes "ReadOnceExpectFull n r = (Inr bs, r')"
  shows "contents r = bs @ contents r'" "length bs = n" "fin r' = fin r"
  using assms rd_read_data [of n r bs None r']
  by (auto simp: ReadOnceExpectFull_def split: prod.splits option.splits if_splits)

text \<open>What a successful read has taken from the stream.\<close>

lemma ReadFull_Inr:
  assumes "ReadFull n r = (Inr bs, r')"
  shows "contents r = bs @ contents r' \<and> length bs = n \<and> fin r' = fin r"
proof (cases "n \<le> length (contents r)")
  case True
  with assms have "bs = take n (contents r)" "r' = rd_adv n r" by simp_all
  with True show ?thesis by simp
next
  case False
  with assms show ?thesis by simp
qed

lemma ReadN_Inr:
  "ReadN n r = (Inr bs, r') \<Longrightarrow> contents r = bs @ contents r' \<and> length bs = n \<and> fin r' = fin r"
  unfolding ReadN_def by (rule ReadFull_Inr)

lemma Read1_Inr: "Read1 r = (Inr b, r') \<Longrightarrow> contents r = b # contents r' \<and> fin r' = fin r"
proof -
  assume "Read1 r = (Inr b, r')"
  then obtain bs where bs: "ReadFull 1 r = (Inr bs, r')" "b = hd bs"
    by (auto simp: Read1_def io_bind_eq_Inr)
  from ReadFull_Inr [OF bs(1)] have "length bs = 1" "contents r = bs @ contents r'" "fin r' = fin r" by auto
  with bs(2) show ?thesis by (cases bs) auto
qed

lemma ReadByUint8_Inr:
  "ReadByUint8 r = (Inr bs, r') \<Longrightarrow> \<exists>b. contents r = b # bs @ contents r' \<and> length bs = unat b \<and> fin r' = fin r"
  by (auto simp: ReadByUint8_def io_bind_eq_Inr dest!: ReadFull_Inr Read1_Inr)

lemma ReadStringByUint8_Inr:
  "ReadStringByUint8 r = (Inr s, r') \<Longrightarrow>
     \<exists>b. contents r = b # str_bytes s @ contents r' \<and> length s = unat b \<and> fin r' = fin r"
  by (auto simp: ReadStringByUint8_def io_bind_eq_Inr dest!: ReadByUint8_Inr)

text \<open>A read succeeds in one call exactly when the first segment holds enough bytes.\<close>

lemma ReadOnceExpectFull_first_seg:
  assumes "0 < n" "segs r = d # ds" "n \<le> length d" "\<not> (ds = [] \<and> glue r \<and> length d = n)"
  shows "ReadOnceExpectFull n r =
    (Inr (take n d), r\<lparr>segs := (if n < length d then drop n d # ds else ds)\<rparr>)"
  using assms by (auto simp: ReadOnceExpectFull_def rd_read_def)

lemma ReadOnceExpectFull_split_fails:
  assumes "segs r = d # ds" "length d < n"
  shows "\<exists>e r'. ReadOnceExpectFull n r = (Inl e, r')"
  using assms by (auto simp: ReadOnceExpectFull_def rd_read_def)

section \<open>Writers\<close>

text \<open>
  The outgoing side: the \<open>Write\<close> calls made so far, and the plan of the next ones, \<open>None\<close>
  for a call that succeeds and \<open>Some (k, e)\<close> for one that writes \<open>k\<close> bytes and fails with
  \<open>e\<close>. Calls beyond the plan succeed.
\<close>

record writer =
  wout :: "bytes list"
  wplan :: "(nat \<times> goerr) option list"

definition w_write :: "bytes \<Rightarrow> writer \<Rightarrow> nat \<times> goerr option \<times> writer" where
  "w_write bs w =
     (case wplan w of
        [] \<Rightarrow> (length bs, None, w\<lparr>wout := wout w @ [bs]\<rparr>)
      | None # ps \<Rightarrow> (length bs, None, w\<lparr>wout := wout w @ [bs], wplan := ps\<rparr>)
      | Some (k, e) # ps \<Rightarrow>
          (min k (length bs), Some e, w\<lparr>wout := wout w @ [take k bs], wplan := ps\<rparr>))"

definition sent :: "writer \<Rightarrow> bytes" where
  "sent w = concat (wout w)"

definition WriteAll :: "bytes \<Rightarrow> (writer, unit) io" where
  "WriteAll bs w = (case w_write bs w of
      (n, None, w') \<Rightarrow> (Inr (), w')
    | (n, Some e, w') \<Rightarrow> (Inl e, w'))"

lemma w_write_ok [simp]:
  "wplan w = [] \<Longrightarrow> w_write bs w = (length bs, None, w\<lparr>wout := wout w @ [bs]\<rparr>)"
  by (simp add: w_write_def)

lemma WriteAll_ok [simp]:
  "wplan w = [] \<Longrightarrow> WriteAll bs w = (Inr (), w\<lparr>wout := wout w @ [bs]\<rparr>)"
  by (simp add: WriteAll_def)

lemma w_write_sent:
  "w_write bs w = (n, e, w') \<Longrightarrow>
     sent w' = sent w @ take n bs \<and> n \<le> length bs \<and> (e = None \<longrightarrow> n = length bs)"
  by (auto simp: w_write_def sent_def min_def split: list.splits option.splits if_splits)

lemma WriteAll_Inr: "WriteAll bs w = (Inr (), w') \<Longrightarrow> sent w' = sent w @ bs"
  by (auto simp: WriteAll_def w_write_def sent_def split: list.splits option.splits)

section \<open>Connections\<close>

text \<open>A \<open>net.Conn\<close>: both sides, and what has been asked of the socket.\<close>

record netconn =
  cin :: reader
  cout :: writer
  cclosed :: bool
  cwclosed :: bool
  clinger0 :: bool

definition on_cin :: "(reader, 'a) io \<Rightarrow> (netconn, 'a) io" where
  "on_cin = on_field cin (\<lambda>r c. c\<lparr>cin := r\<rparr>)"

definition on_cout :: "(writer, 'a) io \<Rightarrow> (netconn, 'a) io" where
  "on_cout = on_field cout (\<lambda>w c. c\<lparr>cout := w\<rparr>)"

lemma on_cin_apply: "on_cin m c = (fst (m (cin c)), c\<lparr>cin := snd (m (cin c))\<rparr>)"
  by (simp add: on_cin_def on_field_def split: prod.splits)

lemma on_cout_apply: "on_cout m c = (fst (m (cout c)), c\<lparr>cout := snd (m (cout c))\<rparr>)"
  by (simp add: on_cout_def on_field_def split: prod.splits)

text \<open>A fresh connection over a script, and one whose writes all succeed.\<close>

definition mk_conn :: "reader \<Rightarrow> netconn" where
  "mk_conn r = \<lparr>cin = r, cout = \<lparr>wout = [], wplan = []\<rparr>,
     cclosed = False, cwclosed = False, clinger0 = False\<rparr>"

definition mk_reader :: "bytes list \<Rightarrow> reader" where
  "mk_reader ss = \<lparr>segs = ss, fin = EOF, glue = False\<rparr>"

lemma contents_mk_reader [simp]: "contents (mk_reader ss) = concat ss"
  by (simp add: contents_def mk_reader_def)

section \<open>The preloading connection\<close>

text \<open>
  \<open>bytesReadPreloadConn\<close>: bytes already read from the connection are handed out again
  before the connection itself is read.
\<close>

record preload =
  preloadBs :: bytes
  under :: reader

definition NewBytesReadPreloadConn :: "bytes \<Rightarrow> reader \<Rightarrow> preload" where
  "NewBytesReadPreloadConn bs r = \<lparr>preloadBs = bs, under = r\<rparr>"

definition preload_read :: "nat \<Rightarrow> preload \<Rightarrow> bytes \<times> goerr option \<times> preload" where
  "preload_read n c =
     (if preloadBs c \<noteq> []
      then (take n (preloadBs c), None, c\<lparr>preloadBs := drop n (preloadBs c)\<rparr>)
      else (case rd_read n (under c) of (d, e, r) \<Rightarrow> (d, e, c\<lparr>under := r\<rparr>)))"

text \<open>The same connection as one script: the preloaded bytes are its first segment.\<close>

definition preload_reader :: "preload \<Rightarrow> reader" where
  "preload_reader c =
     (if preloadBs c = [] then under c
      else (under c)\<lparr>segs := preloadBs c # segs (under c)\<rparr>)"

definition preload_contents :: "preload \<Rightarrow> bytes" where
  "preload_contents c = preloadBs c @ contents (under c)"

definition preload_left :: "preload \<Rightarrow> nat" where
  "preload_left c = length (preloadBs c) + rd_left (under c)"

lemma contents_preload_reader [simp]: "contents (preload_reader c) = preload_contents c"
  by (simp add: preload_reader_def preload_contents_def contents_def)

section \<open>The interface of a byte source\<close>

text \<open>
  What every \<open>io.Reader\<close> of the program promises: the bytes handed out are the next ones
  of its contents, at most as many as asked for; an error is the stream's final error and
  comes when the contents are exhausted; a read that reports no error makes progress. The
  invariant \<open>ok\<close> is what the source needs of its state.
\<close>

locale byte_source =
  fixes rd :: "nat \<Rightarrow> 's \<Rightarrow> bytes \<times> goerr option \<times> 's"
    and data :: "'s \<Rightarrow> bytes"
    and final :: "'s \<Rightarrow> goerr"
    and left :: "'s \<Rightarrow> nat"
    and ok :: "'s \<Rightarrow> bool"
  assumes rd_data: "ok s \<Longrightarrow> 0 < n \<Longrightarrow> rd n s = (d, e, s') \<Longrightarrow> data s = d @ data s'"
    and rd_final: "ok s \<Longrightarrow> 0 < n \<Longrightarrow> rd n s = (d, e, s') \<Longrightarrow> final s' = final s"
    and rd_bound: "ok s \<Longrightarrow> 0 < n \<Longrightarrow> rd n s = (d, e, s') \<Longrightarrow> length d \<le> n"
    and rd_ok: "ok s \<Longrightarrow> 0 < n \<Longrightarrow> rd n s = (d, e, s') \<Longrightarrow> ok s'"
    and rd_error: "ok s \<Longrightarrow> 0 < n \<Longrightarrow> rd n s = (d, Some x, s') \<Longrightarrow> x = final s \<and> data s' = []"
    and rd_progress: "ok s \<Longrightarrow> 0 < n \<Longrightarrow> rd n s = (d, None, s') \<Longrightarrow> left s' < left s"

text \<open>
  \<open>io.Copy\<close> with a buffer of \<open>n\<close> bytes: read, write what was read, stop at the first
  error; \<open>EOF\<close> is success. The fuel bounds the number of reads; \<open>None\<close> is running out of it.
\<close>

fun copy_loop :: "(nat \<Rightarrow> 's \<Rightarrow> bytes \<times> goerr option \<times> 's) \<Rightarrow> nat \<Rightarrow> nat \<Rightarrow> 's \<Rightarrow> writer
    \<Rightarrow> (goerr option \<times> 's \<times> writer) option" where
  "copy_loop rd n 0 s w = None"
| "copy_loop rd n (Suc k) s w =
     (case rd n s of (d, e, s') \<Rightarrow>
        (case (if d = [] then (0, None, w) else w_write d w) of
           (m, Some x, w') \<Rightarrow> Some (Some x, s', w')
         | (m, None, w') \<Rightarrow>
             (case e of
                None \<Rightarrow> copy_loop rd n k s' w'
              | Some x \<Rightarrow> Some (if x = EOF then None else Some x, s', w'))))"

context byte_source
begin

text \<open>
  A copy out of a source returns; it hands the writer a prefix of the contents, and all of
  them when the writer does not fail.
\<close>

lemma copy_terminates:
  "ok s \<Longrightarrow> 0 < n \<Longrightarrow> left s < k \<Longrightarrow> \<exists>e s' w'. copy_loop rd n k s w = Some (e, s', w')"
proof (induction k arbitrary: s w)
  case 0
  then show ?case by simp
next
  case (Suc k)
  obtain d e s' where rd: "rd n s = (d, e, s')" by (metis prod_cases3)
  obtain m x w' where wr: "(if d = [] then (0, None, w) else w_write d w) = (m, x, w')"
    by (metis prod_cases3)
  show ?case
  proof (cases "x = None \<and> e = None")
    case True
    then have "rd n s = (d, None, s')" using rd by simp
    from rd_progress [OF Suc.prems(1,2) this] have "left s' < k" using Suc.prems(3) by simp
    moreover have "ok s'" using rd Suc.prems rd_ok by blast
    ultimately show ?thesis using Suc.IH [of s' w'] Suc.prems rd wr True by simp
  next
    case False
    then show ?thesis using rd wr by (auto split: option.splits)
  qed
qed

lemma copy_delivers:
  "ok s \<Longrightarrow> 0 < n \<Longrightarrow> wplan w = [] \<Longrightarrow> copy_loop rd n k s w = Some (e, s', w') \<Longrightarrow>
   sent w' = sent w @ data s \<and> e = (if final s = EOF then None else Some (final s))"
proof (induction k arbitrary: s w)
  case 0
  then show ?case by simp
next
  case (Suc k)
  obtain d e1 s1 where rd: "rd n s = (d, e1, s1)" by (metis prod_cases3)
  define w1 where "w1 = (if d = [] then w else w\<lparr>wout := wout w @ [d]\<rparr>)"
  have w1: "(if d = [] then (0, None, w) else w_write d w) = (length d, None, w1)"
    using Suc.prems(3) by (simp add: w1_def)
  have sw: "sent w1 = sent w @ d" "wplan w1 = []"
    using Suc.prems(3) by (auto simp: w1_def sent_def)
  note facts = rd_data [OF Suc.prems(1,2) rd] rd_final [OF Suc.prems(1,2) rd]
    rd_ok [OF Suc.prems(1,2) rd]
  show ?case
  proof (cases e1)
    case None
    with Suc.prems rd w1 have "copy_loop rd n k s1 w1 = Some (e, s', w')" by simp
    with Suc.IH [OF facts(3) Suc.prems(2) sw(2)] facts sw show ?thesis by simp
  next
    case (Some x)
    with rd_error [OF Suc.prems(1,2)] rd have "x = final s" "data s1 = []" by blast+
    with Some Suc.prems(4) rd w1 facts sw show ?thesis by auto
  qed
qed

lemma copy_prefix:
  "ok s \<Longrightarrow> 0 < n \<Longrightarrow> copy_loop rd n k s w = Some (e, s', w') \<Longrightarrow>
   \<exists>p q. data s = p @ q \<and> sent w' = sent w @ p"
proof (induction k arbitrary: s w)
  case 0
  then show ?case by simp
next
  case (Suc k)
  obtain d e1 s1 where rd: "rd n s = (d, e1, s1)" by (metis prod_cases3)
  obtain m x w1 where wr: "(if d = [] then (0, None, w) else w_write d w) = (m, x, w1)"
    by (metis prod_cases3)
  note facts = rd_data [OF Suc.prems(1,2) rd] rd_ok [OF Suc.prems(1,2) rd]
  have m: "sent w1 = sent w @ take m d" "x = None \<Longrightarrow> m = length d"
    using wr w_write_sent [of d w m x w1] by (auto split: if_splits)
  have pre: "data s = take m d @ (drop m d @ data s1)"
    using facts(1) by simp
  show ?case
  proof (cases "x = None \<and> e1 = None")
    case True
    with Suc.prems rd wr have "copy_loop rd n k s1 w1 = Some (e, s', w')" by simp
    with Suc.IH [OF facts(2) Suc.prems(2)] obtain p q
      where "data s1 = p @ q" "sent w' = sent w1 @ p" by blast
    with facts m True show ?thesis by auto
  next
    case False
    with Suc.prems rd wr have "sent w' = sent w1"
      by (auto split: option.splits)
    with m(1) pre show ?thesis by metis
  qed
qed

end

interpretation tcp: byte_source rd_read contents fin rd_left "\<lambda>_. True"
proof (unfold_locales, goal_cases)
  case (1 s n d e s') then show ?case by (auto dest: rd_read_data(1))
next
  case (2 s n d e s') then show ?case by (auto dest: rd_read_data(2))
next
  case (3 s n d e s') then show ?case by (auto dest: rd_read_data(3))
next
  case (4 s n d e s') then show ?case by simp
next
  case (5 s n d x s') then show ?case using rd_read_error by (fastforce simp: contents_def)
next
  case (6 s n d s') then show ?case using rd_read_progress by blast
qed

interpretation pre: byte_source preload_read preload_contents "\<lambda>c. fin (under c)" preload_left
  "\<lambda>_. True"
proof (unfold_locales, goal_cases)
  case (1 s n d e s') then show ?case
    by (auto simp: preload_read_def preload_contents_def dest: rd_read_data(1)
        split: if_splits prod.splits)
next
  case (2 s n d e s') then show ?case
    by (auto simp: preload_read_def dest: rd_read_data(2) split: if_splits prod.splits)
next
  case (3 s n d e s') then show ?case
    by (auto simp: preload_read_def dest: rd_read_data(3) split: if_splits prod.splits)
next
  case (4 s n d e s') then show ?case by simp
next
  case (5 s n d x s') then show ?case
    using rd_read_error by (fastforce simp: preload_read_def preload_contents_def contents_def
        split: if_splits prod.splits)
next
  case (6 s n d s') then show ?case
    using rd_read_progress by (fastforce simp: preload_read_def preload_left_def
        split: if_splits prod.splits)
qed

text \<open>
  Reading the preloading connection is reading the script with the preloaded bytes in
  front: same bytes, same errors, call by call.
\<close>

lemma preload_read_refines:
  assumes "0 < n" "preload_read n c = (d, e, c')"
    and "segs (under c) \<noteq> [] \<or> \<not> glue (under c) \<or> preloadBs c = []"
  shows "rd_read n (preload_reader c) = (d, e, preload_reader c')"
  using assms
  by (auto simp: preload_read_def preload_reader_def rd_read_def split: if_splits list.splits)

section \<open>Writing a preloading connection out\<close>

text \<open>
  \<open>WriteTo\<close>: the preloaded bytes in one write, then a copy of the connection, with more fuel than
  there can be reads.
\<close>

definition preload_WriteTo :: "preload \<Rightarrow> writer \<Rightarrow> nat \<times> goerr option \<times> preload \<times> writer" where
  "preload_WriteTo c w =
     (case (if preloadBs c \<noteq> [] then w_write (preloadBs c) w else (0, None, w)) of
        (n, Some e, w1) \<Rightarrow> (n, Some e, c\<lparr>preloadBs := drop n (preloadBs c)\<rparr>, w1)
      | (n, None, w1) \<Rightarrow>
          (case copy_loop rd_read 32768 (Suc (rd_left (under c))) (under c) w1 of
             None \<Rightarrow> (n, None, c\<lparr>preloadBs := drop n (preloadBs c)\<rparr>, w1)
           | Some (e, r, w2) \<Rightarrow>
               (n + (length (sent w2) - length (sent w1)), e, c\<lparr>preloadBs := drop n (preloadBs c), under := r\<rparr>, w2)))"

definition preload_ReadFrom :: "reader \<Rightarrow> writer \<Rightarrow> (goerr option \<times> reader \<times> writer) option" where
  "preload_ReadFrom r w = copy_loop rd_read 32768 (Suc (rd_left r)) r w"

text \<open>It writes what reading the connection to its end would give, the preloaded bytes first.\<close>

lemma preload_WriteTo_delivers:
  assumes "wplan w = []" "preload_WriteTo c w = (n, e, c', w')"
  shows "sent w' = sent w @ preload_contents c" "n = length (preload_contents c)"
    "e = (if fin (under c) = EOF then None else Some (fin (under c)))" "preloadBs c' = []"
proof -
  define w1 where "w1 = (if preloadBs c \<noteq> [] then w\<lparr>wout := wout w @ [preloadBs c]\<rparr> else w)"
  have w1: "wplan w1 = []" "sent w1 = sent w @ preloadBs c" using assms(1) by (auto simp: w1_def sent_def)
  have start: "(if preloadBs c \<noteq> [] then w_write (preloadBs c) w else (0, None, w)) = (length (preloadBs c), None, w1)"
    using assms(1) by (simp add: w1_def)
  obtain e1 r w2 where copy: "copy_loop rd_read 32768 (Suc (rd_left (under c))) (under c) w1 = Some (e1, r, w2)"
    using tcp.copy_terminates [of 32768 "under c" "Suc (rd_left (under c))" w1] by auto
  have "sent w2 = sent w1 @ contents (under c)" "e1 = (if fin (under c) = EOF then None else Some (fin (under c)))"
    using tcp.copy_delivers [OF TrueI _ w1(1) copy] by auto
  with assms(2) w1(2) show "sent w' = sent w @ preload_contents c" "n = length (preload_contents c)"
    "e = (if fin (under c) = EOF then None else Some (fin (under c)))" "preloadBs c' = []"
    by (auto simp: preload_WriteTo_def start copy preload_contents_def simp del: copy_loop.simps)
qed

end
