(* ===== verification/SsUtil.thy ===== *)
theory SsUtil
  imports IoUtil "HOL-Library.Sublist"
begin

text \<open>
  The Shadowsocks 2022 helpers of \<open>transport/ss_carrier/salt_pool.go\<close> and
  \<open>transport/ss_carrier/util.go\<close>, the nonce counter of \<open>conn.go\<close> and the salt prefixes of
  \<open>client.go\<close>. BLAKE3, AES-GCM and the random source are not under \<open>src/\<close> and are
  arguments; the clock is an argument of every operation that reads it.
\<close>

section \<open>The salt pool\<close>

text \<open>Times are nanoseconds of the monotonic clock.\<close>

record 'a saltPool =
  pool :: "'a \<Rightarrow> int option"
  lastCleaned :: int

definition newSaltPool :: "int \<Rightarrow> 'a saltPool" where
  "newSaltPool now = \<lparr>pool = Map.empty, lastCleaned = now\<rparr>"

definition retainDuration :: int where
  "retainDuration = 60 * 1000000000"

definition clean_pool :: "int \<Rightarrow> 'a saltPool \<Rightarrow> 'a saltPool" where
  "clean_pool now p =
     (if retainDuration < now - lastCleaned p
      then \<lparr>pool = (\<lambda>s. case pool p s of
                 None \<Rightarrow> None
               | Some addedTime \<Rightarrow> if retainDuration < now - addedTime then None else Some addedTime),
            lastCleaned = now\<rparr>
      else p)"

definition checkAndAdd :: "int \<Rightarrow> 'a \<Rightarrow> 'a saltPool \<Rightarrow> bool \<times> 'a saltPool" where
  "checkAndAdd now salt p =
     (let p' = clean_pool now p in
      if pool p' salt \<noteq> None then (False, p')
      else (True, p'\<lparr>pool := (pool p')(salt \<mapsto> now)\<rparr>))"

text \<open>
  The lock serialises the calls of all sessions, and each call reads the clock while it
  holds the lock: any concurrent use of the pool is a sequence of calls at times that do
  not decrease.
\<close>

fun pool_run :: "(int \<times> 'a) list \<Rightarrow> 'a saltPool \<Rightarrow> bool list \<times> 'a saltPool" where
  "pool_run [] p = ([], p)"
| "pool_run ((now, salt) # calls) p =
     (let (ok, p1) = checkAndAdd now salt p; (oks, p2) = pool_run calls p1 in (ok # oks, p2))"

text \<open>Every entry was added by the last clean or later, up to one retention time before it.\<close>

definition pool_inv :: "int \<Rightarrow> 'a saltPool \<Rightarrow> bool" where
  "pool_inv now p \<longleftrightarrow> lastCleaned p \<le> now \<and>
     (\<forall>s t. pool p s = Some t \<longrightarrow> lastCleaned p - retainDuration \<le> t \<and> t \<le> now)"

lemma pool_inv_new: "pool_inv now (newSaltPool now)"
  by (simp add: pool_inv_def newSaltPool_def)

lemma pool_inv_checkAndAdd:
  assumes "pool_inv t p" "t \<le> now" "checkAndAdd now salt p = (ok, p')"
  shows "pool_inv now p'" "now - lastCleaned p' \<le> retainDuration"
  using assms
  by (auto simp: pool_inv_def checkAndAdd_def clean_pool_def Let_def retainDuration_def
      split: if_splits option.splits) force+

lemma checkAndAdd_keeps:
  assumes "pool p s = Some t" "now - t \<le> retainDuration" "checkAndAdd now salt p = (ok, p')"
  shows "pool p' s = Some t"
  using assms by (auto simp: checkAndAdd_def clean_pool_def Let_def split: if_splits)

lemma checkAndAdd_present:
  assumes "pool p s = Some t" "now - t \<le> retainDuration"
  shows "fst (checkAndAdd now s p) = False"
  using assms by (auto simp: checkAndAdd_def clean_pool_def Let_def)

lemma pool_run_Cons:
  "fst (pool_run ((now, x) # calls) p) =
     fst (checkAndAdd now x p) # fst (pool_run calls (snd (checkAndAdd now x p)))"
  "snd (pool_run ((now, x) # calls) p) = snd (pool_run calls (snd (checkAndAdd now x p)))"
  by (simp_all add: Let_def split: prod.splits)

lemma pool_run_append:
  "fst (pool_run (xs @ ys) p) = fst (pool_run xs p) @ fst (pool_run ys (snd (pool_run xs p)))"
proof (induction xs arbitrary: p)
  case Nil
  then show ?case by simp
next
  case (Cons c xs)
  then show ?case by (cases c) (simp add: pool_run_Cons del: pool_run.simps)
qed

lemma length_pool_run [simp]: "length (fst (pool_run calls p)) = length calls"
proof (induction calls arbitrary: p)
  case Nil
  then show ?case by simp
next
  case (Cons c calls)
  then show ?case by (cases c) (simp add: pool_run_Cons del: pool_run.simps)
qed

lemma pool_run_replay:
  assumes "pool p s = Some t" "sorted (map fst calls)"
    "\<forall>(now, x) \<in> set calls. now - t \<le> retainDuration" "j < length calls" "snd (calls ! j) = s"
  shows "\<not> fst (pool_run calls p) ! j"
  using assms
proof (induction calls p arbitrary: j rule: pool_run.induct)
  case (1 p)
  then show ?case by simp
next
  case (2 now salt calls p)
  obtain ok p1 where one: "checkAndAdd now salt p = (ok, p1)" by force
  show ?case
  proof (cases j)
    case 0
    with 2 checkAndAdd_present [of p s t now] one show ?thesis
      by (auto simp: Let_def split: prod.splits)
  next
    case (Suc i)
    have "pool p1 s = Some t" using checkAndAdd_keeps [OF _ _ one] 2 by auto
    with 2 one Suc show ?thesis by (fastforce simp: Let_def split: prod.splits)
  qed
qed

section \<open>The timestamp window\<close>

definition maxAllowedUnixTimeDiffInSecond :: int where
  "maxAllowedUnixTimeDiffInSecond = 30"

text \<open>\<open>int64\<close> subtraction wraps around.\<close>

definition int64 :: "int \<Rightarrow> int" where
  "int64 x = sint (word_of_int x :: u64)"

definition validateUnixTimeInRange :: "int \<Rightarrow> bytes \<Rightarrow> unit res" where
  "validateUnixTimeInRange now bs =
     (let compared = sint (be64_get bs);
          diff = int64 (max compared now - min compared now)
      in if maxAllowedUnixTimeDiffInSecond < diff
         then Inl (ErrNew ''unix time difference is over 30 seconds'') else Inr ())"

definition unix_time_bytes :: "int \<Rightarrow> bytes" where
  "unix_time_bytes now = be64_put (word_of_int now)"

lemma int64_small: "- (2 ^ 63) \<le> x \<Longrightarrow> x < 2 ^ 63 \<Longrightarrow> int64 x = x"
  by (simp add: int64_def sint_sbintrunc' signed_take_bit_int_eq_self)

lemma int64_wrap: "2 ^ 63 \<le> x \<Longrightarrow> x < 2 ^ 64 \<Longrightarrow> int64 x = x - 2 ^ 64"
proof -
  assume a: "2 ^ 63 \<le> x" "x < 2 ^ 64"
  have "x mod 2 ^ 64 = (x - 2 ^ 64) mod 2 ^ 64" by simp
  then have "(word_of_int x :: u64) = word_of_int (x - 2 ^ 64)"
    by (simp only: word_of_int_eq_iff take_bit_eq_mod len_of_numeral_defs) simp
  then have "int64 x = int64 (x - 2 ^ 64)" by (simp only: int64_def)
  with a show ?thesis using int64_small [of "x - 2 ^ 64"] by simp
qed

lemma sint_u64_range: "- (2 ^ 63) \<le> sint (w :: u64)" "sint (w :: u64) < 2 ^ 63"
  using sint_greater_eq [of w] sint_less [of w] by simp_all

lemma validateUnixTimeInRange_iff:
  assumes "0 \<le> now" "now < 2 ^ 63"
  shows "validateUnixTimeInRange now bs = Inr () \<longleftrightarrow>
    \<bar>sint (be64_get bs) - now\<bar> \<le> 30 \<or> sint (be64_get bs) \<le> now - 2 ^ 63"
proof -
  define c where "c = sint (be64_get bs)"
  have c: "- (2 ^ 63) \<le> c" "c < 2 ^ 63" using sint_u64_range by (simp_all add: c_def)
  show ?thesis
  proof (cases "c \<le> now - 2 ^ 63")
    case True
    with assms c have "max c now - min c now = now - c" "2 ^ 63 \<le> now - c" "now - c < 2 ^ 64"
      by (auto simp: max_def min_def)
    then show ?thesis
      using True assms c int64_wrap [of "now - c"]
      by (simp add: validateUnixTimeInRange_def maxAllowedUnixTimeDiffInSecond_def Let_def c_def [symmetric])
  next
    case False
    with assms c have "max c now - min c now = \<bar>c - now\<bar>" "int64 \<bar>c - now\<bar> = \<bar>c - now\<bar>"
      by (auto simp: max_def min_def intro!: int64_small)
    with False show ?thesis
      by (simp add: validateUnixTimeInRange_def maxAllowedUnixTimeDiffInSecond_def Let_def c_def [symmetric])
  qed
qed

lemma validate_unix_time_bytes:
  assumes "0 \<le> t" "t < 2 ^ 63" "0 \<le> now" "now < 2 ^ 63" "\<bar>t - now\<bar> \<le> 30"
  shows "validateUnixTimeInRange now (unix_time_bytes t @ rest) = Inr ()"
  using assms int64_small [of t]
  by (simp add: validateUnixTimeInRange_iff unix_time_bytes_def int64_def)

section \<open>The nonce counter\<close>

fun incNonce :: "bytes \<Rightarrow> bytes" where
  "incNonce [] = []"
| "incNonce (b # bs) = (if b + 1 \<noteq> 0 then (b + 1) # bs else (b + 1) # incNonce bs)"

definition le_nat :: "bytes \<Rightarrow> nat" where
  "le_nat bs = bytes_nat (rev bs)"

lemma le_nat_simps [simp]: "le_nat [] = 0" "le_nat (b # bs) = unat b + 256 * le_nat bs"
  by (simp_all add: le_nat_def)

lemma le_nat_less: "le_nat bs < 256 ^ length bs"
  using bytes_nat_less [of "rev bs"] by (simp add: le_nat_def)

lemma length_incNonce [simp]: "length (incNonce bs) = length bs"
  by (induction bs) simp_all

lemma byte_inc: "unat ((b :: byte) + 1) = (unat b + 1) mod 256"
  by (simp add: unat_word_ariths)

lemma byte_inc_wrap: "(b :: byte) + 1 = 0 \<longleftrightarrow> unat b = 255"
proof -
  have "(b + 1 = 0) = ((unat b + 1) mod 256 = 0)"
    by (simp only: byte_inc [symmetric] unat_eq_zero)
  also have "\<dots> \<longleftrightarrow> unat b = 255" using byte_less [of b] by presburger
  finally show ?thesis .
qed

lemma incNonce_le_nat: "le_nat (incNonce bs) = (le_nat bs + 1) mod 256 ^ length bs"
proof (induction bs)
  case Nil
  then show ?case by simp
next
  case (Cons b bs)
  show ?case
  proof (cases "b + 1 = 0")
    case True
    then have b: "unat b = 255" by (simp add: byte_inc_wrap)
    have "(256 * (le_nat bs + 1)) mod (256 * 256 ^ length bs) = 256 * ((le_nat bs + 1) mod 256 ^ length bs)"
      by (simp only: mult_mod_right)
    with True b Cons show ?thesis by (simp add: algebra_simps)
  next
    case False
    then have "unat b \<noteq> 255" by (simp add: byte_inc_wrap)
    then have "unat b < 255" using byte_less [of b] by arith
    then have "unat (b + 1) = Suc (unat b)" by (simp add: byte_inc)
    moreover have "Suc (unat b + 256 * le_nat bs) < 256 ^ length (b # bs)"
    proof -
      have "Suc (unat b + 256 * le_nat bs) < 256 * Suc (le_nat bs)"
        using \<open>unat b < 255\<close> by simp
      also have "\<dots> \<le> 256 * 256 ^ length bs"
        using le_nat_less [of bs] by (simp only: mult_le_mono2 Suc_leI)
      finally show ?thesis by simp
    qed
    ultimately show ?thesis using False by simp
  qed
qed

lemma incNonce_iterate:
  "le_nat ((incNonce ^^ k) bs) = (le_nat bs + k) mod 256 ^ length bs \<and>
   length ((incNonce ^^ k) bs) = length bs"
proof (induction k)
  case 0
  then show ?case using le_nat_less [of bs] by simp
next
  case (Suc k)
  then show ?case by (simp add: incNonce_le_nat mod_simps)
qed

section \<open>Keys, salts and the weighted picker\<close>

text \<open>
  The AEAD of a session is named by its subkey. \<open>aes.NewCipher\<close> accepts keys of 16, 24 and
  32 bytes; GCM nonces have 12 bytes.
\<close>

record ss_crypto =
  blake3_DeriveKey :: "string \<Rightarrow> bytes \<Rightarrow> nat \<Rightarrow> bytes"
  Seal :: "bytes \<Rightarrow> bytes \<Rightarrow> bytes \<Rightarrow> bytes"
  Open :: "bytes \<Rightarrow> bytes \<Rightarrow> bytes \<Rightarrow> bytes option"

definition gcmTagOverhead :: nat where "gcmTagOverhead = 16"

definition gcmNonceSize :: nat where "gcmNonceSize = 12"

definition deriveSubkey :: "ss_crypto \<Rightarrow> bytes \<Rightarrow> bytes \<Rightarrow> bytes" where
  "deriveSubkey env psk salt =
     blake3_DeriveKey env ''shadowsocks 2022 session subkey'' (psk @ salt) (length psk)"

definition aeadCipher :: "ss_crypto \<Rightarrow> bytes \<Rightarrow> bytes \<Rightarrow> bytes res" where
  "aeadCipher env psk salt =
     (let subkey = deriveSubkey env psk salt in
      if length subkey \<in> {16, 24, 32} then Inr subkey
      else Inl (ErrNew ''crypto/aes: invalid key size''))"

text \<open>
  Documented behaviour: \<open>Seal\<close> appends a tag of \<open>Overhead()\<close> bytes, \<open>Open\<close> inverts it under
  the same key and nonce and returns a text shorter by the tag, and \<open>DeriveKey\<close> fills the
  key it is given.
\<close>

definition crypto_ok :: "ss_crypto \<Rightarrow> bool" where
  "crypto_ok env \<longleftrightarrow>
     (\<forall>k n p. Open env k n (Seal env k n p) = Some p \<and> length (Seal env k n p) = length p + gcmTagOverhead) \<and>
     (\<forall>ctx m n. length (blake3_DeriveKey env ctx m n) = n)"

text \<open>\<open>customFirstReqPrefixes\<close>: the picked exemption, its random draws, and the salt.\<close>

definition ex5_patterns :: "bytes list" where
  "ex5_patterns = [str_bytes ''GET '', str_bytes ''HEAD '', str_bytes ''POST '', str_bytes ''PUT '',
     [0x16, 0x03, 0x02], [0x16, 0x03, 0x03]]"

definition copy_into :: "bytes \<Rightarrow> bytes \<Rightarrow> bytes" where
  "copy_into dst src = take (length dst) src @ drop (length src) dst"

definition customFirstReqPrefixes :: "nat \<Rightarrow> (nat \<Rightarrow> nat) \<Rightarrow> nat \<Rightarrow> bytes \<Rightarrow> bytes res" where
  "customFirstReqPrefixes ex draw6 pick bs =
     (if ex = 0 then
        (if length bs < 6 then Inl (Panic ''index out of range'')
         else Inr (copy_into bs (map (\<lambda>i. of_nat (draw6 i mod (0x7e - 0x20 + 1) + 0x20)) [0..<6])))
      else if ex = 1 then Inr (copy_into bs (ex5_patterns ! (pick mod 6)))
      else Inl (Panic ''unreachable code line''))"

text \<open>
  \<open>weightedIntN\<close>: the cumulative weights of \<open>n\<close> random 32-bit draws, as \<open>uint64\<close> sums, and
  \<open>sort.Search\<close> for the first one above a draw below the total.
\<close>

fun cumulative :: "nat \<Rightarrow> u32 list \<Rightarrow> nat list" where
  "cumulative acc [] = []"
| "cumulative acc (w # ws) =
     (let t = (acc + (unat w + 1)) mod 2 ^ 64 in t # cumulative t ws)"

function sort_Search :: "nat \<Rightarrow> nat \<Rightarrow> (nat \<Rightarrow> bool) \<Rightarrow> nat" where
  "sort_Search i j f =
     (if i < j
      then (let h = (i + j) div 2 in if f h then sort_Search i h f else sort_Search (h + 1) j f)
      else i)"
  by pat_completeness auto
termination
  by (relation "measure (\<lambda>(i, j, f). j - i)") auto

declare sort_Search.simps [simp del]

definition weightedIntN :: "u32 list \<Rightarrow> nat \<Rightarrow> nat" where
  "weightedIntN ws r = sort_Search 0 (length ws) (\<lambda>i. r < cumulative 0 ws ! i)"

lemma sort_Search_first:
  assumes "i \<le> j" "\<And>a b. a \<le> b \<Longrightarrow> b < j \<Longrightarrow> f a \<Longrightarrow> f b"
  shows "i \<le> sort_Search i j f \<and> sort_Search i j f \<le> j \<and>
    (\<forall>k. i \<le> k \<and> k < sort_Search i j f \<longrightarrow> \<not> f k) \<and> (sort_Search i j f < j \<longrightarrow> f (sort_Search i j f))"
  using assms
proof (induction i j f rule: sort_Search.induct)
  case (1 i j f)
  show ?case
  proof (cases "i < j")
    case False
    then have "sort_Search i j f = i" by (simp add: sort_Search.simps [of i j f])
    with 1(3) False show ?thesis by auto
  next
    case True
    define h where "h = (i + j) div 2"
    have h: "i \<le> h" "h < j" using True by (simp_all add: h_def)
    show ?thesis
    proof (cases "f h")
      case True
      let ?k = "sort_Search i h f"
      have eq: "sort_Search i j f = ?k"
        using \<open>i < j\<close> True by (simp add: sort_Search.simps [of i j f] h_def Let_def)
      have "i \<le> ?k \<and> ?k \<le> h \<and> (\<forall>k. i \<le> k \<and> k < ?k \<longrightarrow> \<not> f k) \<and> (?k < h \<longrightarrow> f ?k)"
        using 1(1) [OF \<open>i < j\<close> h_def True] h 1(4) by auto
      moreover from this True have "f ?k" by (cases "?k = h") auto
      ultimately show ?thesis using h eq by auto
    next
      case False
      let ?k = "sort_Search (h + 1) j f"
      have eq: "sort_Search i j f = ?k"
        using \<open>i < j\<close> False by (simp add: sort_Search.simps [of i j f] h_def Let_def)
      have ih: "h + 1 \<le> ?k \<and> ?k \<le> j \<and> (\<forall>k. h + 1 \<le> k \<and> k < ?k \<longrightarrow> \<not> f k) \<and> (?k < j \<longrightarrow> f ?k)"
        using 1(2) [OF \<open>i < j\<close> h_def False] h 1(4) by auto
      have "\<not> f k" if "k \<le> h" for k using 1(4) [of k h] that False h by blast
      then have "\<not> f k" if "k < ?k" for k
        using ih that by (cases "k \<le> h") auto
      with ih h eq show ?thesis by auto
    qed
  qed
qed

lemma cumulative_exact:
  "acc + length ws * 2 ^ 32 < 2 ^ 64 \<Longrightarrow> i < length ws \<Longrightarrow>
   cumulative acc ws ! i = acc + (\<Sum>k\<le>i. unat (ws ! k) + 1)"
proof (induction ws arbitrary: acc i)
  case Nil
  then show ?case by simp
next
  case (Cons w ws)
  have w: "unat w + 1 \<le> 2 ^ 32"
    using unsigned_less [of w, where 'a = nat] by simp
  have "length (w # ws) * 2 ^ 32 = 2 ^ 32 + length ws * 2 ^ 32" by simp
  with Cons.prems(1) w have lt: "acc + (unat w + 1) + length ws * 2 ^ 32 < 2 ^ 64" by linarith
  then have t: "(acc + (unat w + 1)) mod 2 ^ 64 = acc + (unat w + 1)" by simp
  show ?case
  proof (cases i)
    case 0
    with t show ?thesis by (simp add: Let_def)
  next
    case (Suc j)
    with Cons.IH [OF lt, of j] Cons.prems(2) t show ?thesis
      by (simp only: cumulative.simps Let_def t nth_Cons_Suc length_Cons Suc_less_eq
          sum.atMost_Suc_shift nth_Cons_0 add.assoc)
  qed
qed

section \<open>Properties\<close>

text \<open>
  C11. Replay protection: once the pool has accepted a salt, no later call within the
  retention time accepts it again, whatever other calls come between and whenever the pool
  is cleaned.
\<close>

theorem salt_replay_rejected:
  assumes "sorted (map fst calls)" "i < j" "j < length calls" "snd (calls ! i) = snd (calls ! j)"
    "fst (calls ! j) - fst (calls ! i) \<le> retainDuration" "fst (pool_run calls p) ! i"
  shows "\<not> fst (pool_run calls p) ! j"
proof -
  obtain t s where c: "calls ! i = (t, s)" by force
  define rest where "rest = take (j - i) (drop (Suc i) calls)"
  have split: "calls = take i calls @ (t, s) # drop (Suc i) calls"
    using assms(2,3) c id_take_nth_drop [of i calls] by simp
  define q where "q = snd (pool_run (take i calls) p)"
  obtain ok q1 where one: "checkAndAdd t s q = (ok, q1)" by force
  have res: "fst (pool_run calls p) =
      fst (pool_run (take i calls) p) @ ok # fst (pool_run (drop (Suc i) calls) q1)"
    by (subst split) (simp add: q_def [symmetric] pool_run_append pool_run_Cons one del: pool_run.simps)
  with assms(2,3,6) have "ok" by (simp add: nth_append)
  with one have "pool q1 s = Some t" by (auto simp: checkAndAdd_def Let_def split: if_splits)
  moreover have "sorted (map fst rest)"
    using assms(1) by (simp add: rest_def take_map [symmetric] drop_map [symmetric] sorted_wrt_take sorted_wrt_drop)
  moreover have "now - t \<le> retainDuration" if "(now, x) \<in> set rest" for now x
  proof -
    from that obtain k where k: "k < length rest" "rest ! k = (now, x)" by (auto simp: in_set_conv_nth)
    then have "Suc i + k \<le> j" "calls ! (Suc i + k) = (now, x)"
      using assms(2,3) by (auto simp: rest_def)
    with assms(1,3) sorted_nth_mono [of "map fst calls" "Suc i + k" j] have "now \<le> fst (calls ! j)"
      by auto
    with assms(5) c show ?thesis by simp
  qed
  moreover have "j - Suc i < length rest" "snd (rest ! (j - Suc i)) = s"
    using assms(2-4) c by (auto simp: rest_def)
  ultimately have "\<not> fst (pool_run rest q1) ! (j - Suc i)"
    using pool_run_replay [of q1 s t rest "j - Suc i"] by auto
  moreover have "drop (Suc i) calls = rest @ drop (Suc j) calls"
    using assms(2) append_take_drop_id [of "j - i" "drop (Suc i) calls"]
    by (simp add: rest_def add.commute)
  then have "fst (pool_run (drop (Suc i) calls) q1) ! (j - Suc i) = fst (pool_run rest q1) ! (j - Suc i)"
    using \<open>j - Suc i < length rest\<close>
    by (simp add: pool_run_append nth_append)
  ultimately show ?thesis
    using res assms(2,3) by (simp add: nth_append)
qed

theorem salt_replay_rejected_witness:
  "\<not> fst (pool_run [(0, 7 :: nat), (30 * 1000000000, 8), (60 * 1000000000, 7)] (newSaltPool 0)) ! 2"
  by (rule salt_replay_rejected [where i = 0])
     (simp_all add: retainDuration_def checkAndAdd_def clean_pool_def newSaltPool_def Let_def)

text \<open>
  The pool is bounded in time and refuses only what it holds: after any call no entry is
  older than twice the retention time, so a salt not presented during the last 120 seconds
  is accepted.
\<close>

theorem salt_pool_bounded:
  assumes "pool_inv t p" "t \<le> now"
  shows "pool_inv now (snd (checkAndAdd now salt p)) \<and>
    (\<forall>s. case pool (snd (checkAndAdd now salt p)) s of
       None \<Rightarrow> True | Some added \<Rightarrow> now - added \<le> 2 * retainDuration) \<and>
    (fst (checkAndAdd now salt p) \<or> (\<exists>added. pool p salt = Some added \<and> now - added \<le> 2 * retainDuration))"
proof -
  obtain ok p' where c: "checkAndAdd now salt p = (ok, p')" by force
  note inv = pool_inv_checkAndAdd [OF assms c]
  have bound: "pool p' s = Some a \<Longrightarrow> now - a \<le> 2 * retainDuration" for s a
    using inv by (fastforce simp: pool_inv_def)
  have "ok \<or> (\<exists>added. pool p salt = Some added \<and> pool p' salt = Some added)"
    using c by (auto simp: checkAndAdd_def clean_pool_def Let_def split: if_splits option.splits)
  with c inv bound show ?thesis by (auto split: option.splits)
qed

theorem salt_pool_bounded_witness:
  "fst (checkAndAdd 5 ''s'' (newSaltPool 0)) \<or>
     (\<exists>added. pool (newSaltPool 0) ''s'' = Some added \<and> 5 - added \<le> 2 * retainDuration)"
  by (rule salt_pool_bounded [where t = 0, THEN conjunct2, THEN conjunct2]) (simp_all add: pool_inv_new)

text \<open>
  C39. The timestamp check accepts exactly the times within 30 seconds of the clock, and, by
  the wrap-around of the 64-bit difference, also every time at least 2^63 seconds in the past.
\<close>

theorem timestamp_window:
  assumes "0 \<le> now" "now < 2 ^ 63"
  shows "validateUnixTimeInRange now bs = Inr () \<longleftrightarrow>
    \<bar>sint (be64_get bs) - now\<bar> \<le> 30 \<or> sint (be64_get bs) \<le> now - 2 ^ 63"
  using assms by (rule validateUnixTimeInRange_iff)

theorem timestamp_window_witness:
  "validateUnixTimeInRange 1700000000 (0x80 # replicate 7 0) = Inr () \<longleftrightarrow>
     \<bar>sint (be64_get (0x80 # replicate 7 0)) - 1700000000\<bar> \<le> 30 \<or>
     sint (be64_get (0x80 # replicate 7 0)) \<le> 1700000000 - 2 ^ 63"
  by (rule timestamp_window) simp_all

text \<open>
  C37. No nonce is used twice under one key: from the zero nonce of an AEAD session, the
  first 2^96 increments give pairwise different nonces.
\<close>

theorem nonces_distinct:
  "inj_on (\<lambda>i. (incNonce ^^ i) (replicate gcmNonceSize 0)) {..<256 ^ gcmNonceSize}"
proof (rule inj_onI)
  have "le_nat (replicate n 0) = 0" for n by (induction n) simp_all
  then have le: "le_nat ((incNonce ^^ k) (replicate gcmNonceSize 0)) = k mod 256 ^ gcmNonceSize" for k
    using incNonce_iterate [of k "replicate gcmNonceSize 0"] by simp
  fix i j :: nat
  assume "i \<in> {..<256 ^ gcmNonceSize}" "j \<in> {..<256 ^ gcmNonceSize}"
    "(incNonce ^^ i) (replicate gcmNonceSize 0) = (incNonce ^^ j) (replicate gcmNonceSize 0)"
  then show "i = j" by (metis le lessThan_iff mod_less)
qed

text \<open>
  The exemption picker is total and fair to its weights: for every draw below the total
  it returns an index of a weight, namely the one whose interval of cumulative weights holds
  the draw.
\<close>

theorem weighted_pick_interval:
  assumes "length ws < 2 ^ 31" "ws \<noteq> []" "r < (\<Sum>k<length ws. unat (ws ! k) + 1)"
  shows "weightedIntN ws r < length ws \<and>
    (\<Sum>k<weightedIntN ws r. unat (ws ! k) + 1) \<le> r \<and> r < (\<Sum>k\<le>weightedIntN ws r. unat (ws ! k) + 1)"
proof -
  let ?c = "\<lambda>i. \<Sum>k\<le>i. unat (ws ! k) + 1"
  have cum: "cumulative 0 ws ! i = ?c i" if "i < length ws" for i
    using cumulative_exact [of 0 ws i] that assms(1) by simp
  have mono: "?c a \<le> ?c b" if "a \<le> b" for a b
    using that by (intro sum_mono2) auto
  let ?f = "\<lambda>i. r < cumulative 0 ws ! i"
  have "?f b" if "a \<le> b" "b < length ws" "?f a" for a b
    using that cum [of a] cum [of b] mono [OF that(1)] by simp
  from sort_Search_first [of 0 "length ws" ?f, OF le0 this]
  have "weightedIntN ws r \<le> length ws \<and> (\<forall>i<weightedIntN ws r. \<not> ?f i) \<and>
      (weightedIntN ws r < length ws \<longrightarrow> ?f (weightedIntN ws r))"
    by (simp add: weightedIntN_def)
  then obtain k where k: "k = weightedIntN ws r" "k \<le> length ws"
    "\<forall>i<k. \<not> ?f i" "k < length ws \<longrightarrow> ?f k"
    by blast
  obtain n where n: "length ws = Suc n" using assms(2) by (cases ws) auto
  have "?f n" using cum [of n] assms(3) n by (simp add: lessThan_Suc_atMost)
  with k n have kn: "k < length ws" by (metis le_neq_implies_less lessI)
  have "(\<Sum>i<k. unat (ws ! i) + 1) \<le> r"
  proof (cases k)
    case (Suc m)
    then have "\<not> ?f m" "m < length ws" using k(3) kn by simp_all
    with Suc cum [of m] show ?thesis by (simp add: lessThan_Suc_atMost)
  qed simp
  with kn k cum [of k] show ?thesis by simp
qed

theorem weighted_pick_interval_witness:
  "weightedIntN [4, 9] 6 < length [4 :: u32, 9] \<and>
    (\<Sum>k<weightedIntN [4, 9] 6. unat ([4 :: u32, 9] ! k) + 1) \<le> 6 \<and>
    6 < (\<Sum>k\<le>weightedIntN [4, 9] 6. unat ([4 :: u32, 9] ! k) + 1)"
  by (rule weighted_pick_interval) (simp_all add: lessThan_nat_numeral)

end
