(* ===== verification/GoStd.thy ===== *)
theory GoStd
  imports Prelude
begin

text \<open>
  The parts of Go's standard library that the program's decisions go through: the
  \<open>strings\<close> helpers, decimal numbers, \<open>net.SplitHostPort\<close> and \<open>net.JoinHostPort\<close>, and
  \<open>net/netip\<close> addresses and prefixes. Strings are byte strings; letter case is folded on
  ASCII letters, which is what \<open>strings.ToLower\<close> does on ASCII text.
\<close>

section \<open>strings\<close>

definition is_upper :: "char \<Rightarrow> bool" where
  "is_upper c = (65 \<le> (of_char c :: nat) \<and> (of_char c :: nat) \<le> 90)"

definition ascii_lower :: "char \<Rightarrow> char" where
  "ascii_lower c = (if is_upper c then char_of ((of_char c :: nat) + 32) else c)"

definition ToLower :: "string \<Rightarrow> string" where
  "ToLower s = map ascii_lower s"

fun Split :: "string \<Rightarrow> char \<Rightarrow> string list" where
  "Split [] c = [[]]"
| "Split (x # xs) c =
     (if x = c then [] # Split xs c
      else (case Split xs c of [] \<Rightarrow> [[x]] | y # ys \<Rightarrow> (x # y) # ys))"

definition HasPrefix :: "string \<Rightarrow> string \<Rightarrow> bool" where
  "HasPrefix s p = (take (length p) s = p)"

definition TrimPrefix :: "string \<Rightarrow> string \<Rightarrow> string" where
  "TrimPrefix s p = (if HasPrefix s p then drop (length p) s else s)"

definition HasSuffix :: "string \<Rightarrow> string \<Rightarrow> bool" where
  "HasSuffix s p = (length p \<le> length s \<and> drop (length s - length p) s = p)"

definition TrimSuffix :: "string \<Rightarrow> string \<Rightarrow> string" where
  "TrimSuffix s p = (if HasSuffix s p then take (length s - length p) s else s)"

fun IndexByte :: "string \<Rightarrow> char \<Rightarrow> nat option" where
  "IndexByte [] c = None"
| "IndexByte (x # xs) c = (if x = c then Some 0 else map_option Suc (IndexByte xs c))"

definition LastIndexByte :: "string \<Rightarrow> char \<Rightarrow> nat option" where
  "LastIndexByte s c = map_option (\<lambda>i. length s - Suc i) (IndexByte (rev s) c)"

definition EqualFold :: "string \<Rightarrow> string \<Rightarrow> bool" where
  "EqualFold s t = (ToLower s = ToLower t)"

lemma Split_nonempty [simp]: "Split s c \<noteq> []"
  by (induction s) (auto split: list.splits)

lemma ascii_lower_idem [simp]: "ascii_lower (ascii_lower c) = ascii_lower c"
proof (cases "is_upper c")
  case True
  then have "(of_char c :: nat) + 32 < 256" by (simp add: is_upper_def)
  then have "of_char (char_of ((of_char c :: nat) + 32)) = (of_char c :: nat) + 32"
    by (simp add: of_char_of)
  with True show ?thesis by (simp add: ascii_lower_def is_upper_def)
next
  case False
  then show ?thesis by (simp add: ascii_lower_def)
qed

lemma ToLower_idem [simp]: "ToLower (ToLower s) = ToLower s"
  by (simp add: ToLower_def)

lemma ToLower_append [simp]: "ToLower (s @ t) = ToLower s @ ToLower t"
  by (simp add: ToLower_def)

lemma ascii_lower_dot [simp]: "ascii_lower c = CHR ''.'' \<longleftrightarrow> c = CHR ''.''"
proof
  assume a: "ascii_lower c = CHR ''.''"
  show "c = CHR ''.''"
  proof (cases "is_upper c")
    case True
    then have "(of_char c :: nat) + 32 < 256" by (simp add: is_upper_def)
    with a True have "(of_char c :: nat) + 32 = of_char (CHR ''.'')"
      by (metis ascii_lower_def of_char_of mod_less)
    with True show ?thesis by (simp add: is_upper_def)
  next
    case False
    with a show ?thesis by (simp add: ascii_lower_def)
  qed
next
  assume "c = CHR ''.''"
  then show "ascii_lower c = CHR ''.''" by (simp add: ascii_lower_def is_upper_def)
qed

lemma IndexByte_None [simp]: "IndexByte s c = None \<longleftrightarrow> c \<notin> set s"
  by (induction s) auto

lemma IndexByte_app [simp]: "c \<notin> set s \<Longrightarrow> IndexByte (s @ c # t) c = Some (length s)"
  by (induction s) auto

lemma LastIndexByte_None [simp]: "LastIndexByte s c = None \<longleftrightarrow> c \<notin> set s"
  by (simp add: LastIndexByte_def)

lemma LastIndexByte_app: "c \<notin> set t \<Longrightarrow> LastIndexByte (s @ c # t) c = Some (length s)"
  by (simp add: LastIndexByte_def)

section \<open>Decimal numbers\<close>

definition is_digit :: "char \<Rightarrow> bool" where
  "is_digit c = (48 \<le> (of_char c :: nat) \<and> (of_char c :: nat) \<le> 57)"

definition digit_val :: "char \<Rightarrow> nat" where
  "digit_val c = of_char c - 48"

definition digit_char :: "nat \<Rightarrow> char" where
  "digit_char n = char_of (48 + n)"

fun dec :: "nat \<Rightarrow> string" where
  "dec n = (if n < 10 then [digit_char n] else dec (n div 10) @ [digit_char (n mod 10)])"

declare dec.simps [simp del]

definition dec_val :: "string \<Rightarrow> nat" where
  "dec_val s = foldl (\<lambda>a c. a * 10 + digit_val c) 0 s"

text \<open>\<open>strconv.ParseUint(s, 10, 16)\<close>.\<close>

definition ParseUint16 :: "string \<Rightarrow> u16 option" where
  "ParseUint16 s =
     (if s \<noteq> [] \<and> list_all is_digit s \<and> dec_val s \<le> 65535 then Some (of_nat (dec_val s)) else None)"

lemma of_char_digit_char: "n < 10 \<Longrightarrow> (of_char (digit_char n) :: nat) = 48 + n"
  by (simp add: digit_char_def of_char_of)

lemma digit_char_simps [simp]:
  "n < 10 \<Longrightarrow> is_digit (digit_char n)"
  "n < 10 \<Longrightarrow> digit_val (digit_char n) = n"
  by (simp_all add: is_digit_def digit_val_def of_char_digit_char)

lemma dec_digits: "list_all is_digit (dec n)"
proof (induction n rule: dec.induct)
  case (1 n)
  then show ?case by (subst dec.simps) auto
qed

lemma dec_nonempty [simp]: "dec n \<noteq> []"
  by (subst dec.simps) simp

lemma dec_val_dec [simp]: "dec_val (dec n) = n"
proof (induction n rule: dec.induct)
  case (1 n)
  show ?case
  proof (cases "n < 10")
    case True
    then show ?thesis by (subst dec.simps) (simp add: dec_val_def)
  next
    case False
    with 1 show ?thesis by (subst dec.simps) (simp add: dec_val_def)
  qed
qed

lemma ParseUint16_dec [simp]: "ParseUint16 (dec (unat p)) = Some p"
  using u16_less [of p] by (simp add: ParseUint16_def dec_digits del: u16_less)

lemma dec_no_sep: "\<not> is_digit c \<Longrightarrow> c \<notin> set (dec n)"
  using dec_digits [of n] by (auto simp: list_all_iff)

lemma seps_no_digit [simp]:
  "\<not> is_digit CHR '':''" "\<not> is_digit CHR ''.''" "\<not> is_digit CHR ''[''" "\<not> is_digit CHR '']''"
  "\<not> is_digit CHR ''%''"
  by (simp_all add: is_digit_def)

section \<open>Host and port\<close>

definition SplitHostPort :: "string \<Rightarrow> (string \<times> string) res" where
  "SplitHostPort hp =
     (case LastIndexByte hp CHR '':'' of
        None \<Rightarrow> Inl (ErrNew ''missing port in address'')
      | Some i \<Rightarrow>
          if hd hp = CHR ''['' then
            (case IndexByte hp CHR '']'' of
               None \<Rightarrow> Inl (ErrNew ''missing ']' in address'')
             | Some end \<Rightarrow>
                 if end + 1 = length hp then Inl (ErrNew ''missing port in address'')
                 else if end + 1 \<noteq> i then
                   (if hp ! (end + 1) = CHR '':'' then Inl (ErrNew ''too many colons in address'')
                    else Inl (ErrNew ''missing port in address''))
                 else if CHR ''['' \<in> set (drop 1 hp) then Inl (ErrNew ''unexpected '[' in address'')
                 else if CHR '']'' \<in> set (drop (end + 1) hp) then
                   Inl (ErrNew ''unexpected ']' in address'')
                 else Inr (drop 1 (take end hp), drop (i + 1) hp))
          else if CHR '':'' \<in> set (take i hp) then Inl (ErrNew ''too many colons in address'')
          else if CHR ''['' \<in> set hp then Inl (ErrNew ''unexpected '[' in address'')
          else if CHR '']'' \<in> set hp then Inl (ErrNew ''unexpected ']' in address'')
          else Inr (take i hp, drop (i + 1) hp))"

definition net_JoinHostPort :: "string \<Rightarrow> string \<Rightarrow> string" where
  "net_JoinHostPort host port =
     (if CHR '':'' \<in> set host then ''['' @ host @ '']:'' @ port else host @ '':'' @ port)"

lemma SplitHostPort_JoinHostPort:
  assumes h: "CHR ''['' \<notin> set host" "CHR '']'' \<notin> set host"
    and p: "CHR '':'' \<notin> set port" "CHR ''['' \<notin> set port" "CHR '']'' \<notin> set port"
  shows "SplitHostPort (net_JoinHostPort host port) = Inr (host, port)"
proof (cases "CHR '':'' \<in> set host")
  case False
  have l: "LastIndexByte (host @ CHR '':'' # port) CHR '':'' = Some (length host)"
    using LastIndexByte_app [OF p(1)] by simp
  have hd: "hd (host @ CHR '':'' # port) \<noteq> CHR ''[''"
    using h by (cases host) auto
  show ?thesis
    using False h p hd by (simp add: SplitHostPort_def net_JoinHostPort_def l)
next
  case True
  let ?s = "CHR ''['' # host @ CHR '']'' # CHR '':'' # port"
  have l: "LastIndexByte ?s CHR '':'' = Some (length host + 2)"
    using LastIndexByte_app [OF p(1), of "CHR ''['' # host @ '']''"] by simp
  have e: "IndexByte ?s CHR '']'' = Some (Suc (length host))"
    using h by simp
  show ?thesis
    using True h p by (simp add: SplitHostPort_def net_JoinHostPort_def l e)
qed

section \<open>net/netip\<close>

text \<open>A valid \<open>netip.Addr\<close>: an IPv4 address, or an IPv6 address with its zone.\<close>

datatype addr = Addr4 u32 | Addr6 "128 word" string

definition Is4 :: "addr \<Rightarrow> bool" where
  "Is4 a = (case a of Addr4 _ \<Rightarrow> True | Addr6 _ _ \<Rightarrow> False)"

definition Is6 :: "addr \<Rightarrow> bool" where
  "Is6 a = (case a of Addr4 _ \<Rightarrow> False | Addr6 _ _ \<Rightarrow> True)"

definition Is4In6 :: "addr \<Rightarrow> bool" where
  "Is4In6 a = (case a of Addr4 _ \<Rightarrow> False | Addr6 w _ \<Rightarrow> unat w div 2 ^ 32 = 65535)"

definition Unmap :: "addr \<Rightarrow> addr" where
  "Unmap a = (if Is4In6 a then (case a of Addr6 w _ \<Rightarrow> Addr4 (of_nat (unat w mod 2 ^ 32)) | _ \<Rightarrow> a)
              else a)"

definition BitLen :: "addr \<Rightarrow> nat" where
  "BitLen a = (case a of Addr4 _ \<Rightarrow> 32 | Addr6 _ _ \<Rightarrow> 128)"

definition AsSlice :: "addr \<Rightarrow> bytes" where
  "AsSlice a = (case a of Addr4 w \<Rightarrow> nat_bytes 4 (unat w) | Addr6 w _ \<Rightarrow> nat_bytes 16 (unat w))"

definition AddrFrom4 :: "bytes \<Rightarrow> addr" where
  "AddrFrom4 bs = Addr4 (of_nat (bytes_nat bs))"

definition AddrFrom16 :: "bytes \<Rightarrow> addr" where
  "AddrFrom16 bs = Addr6 (of_nat (bytes_nat bs)) []"

definition AddrFromSlice :: "bytes \<Rightarrow> addr option" where
  "AddrFromSlice bs =
     (if length bs = 4 then Some (AddrFrom4 bs)
      else if length bs = 16 then Some (AddrFrom16 bs) else None)"

text \<open>\<open>Addr.Prefix\<close> masks the address; \<open>Prefix.Contains\<close> compares the leading bits.\<close>

datatype prefix = Prefix (pfx_addr: addr) (pfx_bits: nat)

definition addr_nat :: "addr \<Rightarrow> nat" where
  "addr_nat a = (case a of Addr4 w \<Rightarrow> unat w | Addr6 w _ \<Rightarrow> unat w)"

definition addr_mask :: "addr \<Rightarrow> nat \<Rightarrow> addr" where
  "addr_mask a b =
     (case a of
        Addr4 w \<Rightarrow> Addr4 (of_nat (unat w div 2 ^ (32 - b) * 2 ^ (32 - b)))
      | Addr6 w z \<Rightarrow> Addr6 (of_nat (unat w div 2 ^ (128 - b) * 2 ^ (128 - b))) [])"

definition addr_Prefix :: "addr \<Rightarrow> int \<Rightarrow> prefix res" where
  "addr_Prefix a b =
     (if b < 0 then Inl (ErrNew ''negative Prefix bits'')
      else if int (BitLen a) < b then Inl (ErrNew ''prefix length too large'')
      else Inr (Prefix (addr_mask a (nat b)) (nat b)))"

definition pfx_Contains :: "prefix \<Rightarrow> addr \<Rightarrow> bool" where
  "pfx_Contains p a =
     (Is4 (pfx_addr p) = Is4 a \<and>
      (case a of Addr6 w z \<Rightarrow> z = [] | Addr4 w \<Rightarrow> True) \<and>
      addr_nat a div 2 ^ (BitLen a - pfx_bits p) = addr_nat (pfx_addr p) div 2 ^ (BitLen a - pfx_bits p))"

lemma length_AsSlice [simp]: "length (AsSlice a) = (if Is4 a then 4 else 16)"
  by (simp add: AsSlice_def Is4_def split: addr.splits)

lemma u32_less: "unat (w :: u32) < 2 ^ 32"
  using unsigned_less [of w, where 'a = nat] by simp

lemma u128_less: "unat (w :: 128 word) < 2 ^ 128"
  using unsigned_less [of w, where 'a = nat] by simp

lemma AddrFrom4_AsSlice [byte_laws]: "AddrFrom4 (nat_bytes 4 (unat (w :: u32))) = Addr4 w"
  using u32_less [of w] by (simp add: AddrFrom4_def byte_laws)

lemma AddrFrom16_AsSlice [byte_laws]: "AddrFrom16 (nat_bytes 16 (unat (w :: 128 word))) = Addr6 w []"
  using u128_less [of w] by (simp add: AddrFrom16_def byte_laws)

lemma AsSlice_AddrFrom4 [byte_laws]: "length bs = 4 \<Longrightarrow> AsSlice (AddrFrom4 bs) = bs"
  using bytes_nat_less [of bs]
  by (simp add: AsSlice_def AddrFrom4_def unat_of_nat nat_bytes_bytes_nat)

lemma AsSlice_AddrFrom16 [byte_laws]: "length bs = 16 \<Longrightarrow> AsSlice (AddrFrom16 bs) = bs"
  using bytes_nat_less [of bs]
  by (simp add: AsSlice_def AddrFrom16_def unat_of_nat nat_bytes_bytes_nat)

lemma Is4_AddrFrom [simp]: "Is4 (AddrFrom4 bs)" "\<not> Is4 (AddrFrom16 bs)"
  by (simp_all add: Is4_def AddrFrom4_def AddrFrom16_def)

section \<open>Parsing and printing addresses\<close>

text \<open>\<open>parseIPv4Fields\<close>: previous character, value and length of the field, fields so far.\<close>

fun v4_loop :: "char option \<Rightarrow> nat \<Rightarrow> nat \<Rightarrow> nat list \<Rightarrow> string \<Rightarrow> nat list option" where
  "v4_loop prev val dl fs [] = (if length fs < 3 then None else Some (fs @ [val]))"
| "v4_loop prev val dl fs (c # cs) =
     (if is_digit c then
        (if dl = 1 \<and> val = 0 then None
         else if val * 10 + digit_val c > 255 then None
         else v4_loop (Some c) (val * 10 + digit_val c) (Suc dl) fs cs)
      else if c = CHR ''.'' then
        (if prev = None \<or> cs = [] \<or> prev = Some CHR ''.'' then None
         else if length fs = 3 then None
         else v4_loop (Some c) 0 0 (fs @ [val]) cs)
      else None)"

definition v4_fields :: "string \<Rightarrow> nat list option" where
  "v4_fields s = v4_loop None 0 0 [] s"

definition parseIPv4 :: "string \<Rightarrow> addr option" where
  "parseIPv4 s = map_option (\<lambda>fs. AddrFrom4 (map of_nat fs)) (v4_fields s)"

definition hex_val :: "char \<Rightarrow> nat option" where
  "hex_val c = (let n = of_char c :: nat in
     if 48 \<le> n \<and> n \<le> 57 then Some (n - 48)
     else if 97 \<le> n \<and> n \<le> 102 then Some (n - 87)
     else if 65 \<le> n \<and> n \<le> 70 then Some (n - 55) else None)"

fun hex_scan :: "nat \<Rightarrow> nat \<Rightarrow> string \<Rightarrow> (nat \<times> nat) option" where
  "hex_scan off acc [] = Some (acc, off)"
| "hex_scan off acc (c # cs) =
     (case hex_val c of
        None \<Rightarrow> Some (acc, off)
      | Some v \<Rightarrow>
          if 3 < off then None
          else if 65535 < acc * 16 + v then None
          else hex_scan (Suc off) (acc * 16 + v) cs)"

lemma hex_scan_len: "hex_scan off acc s = Some (a, n) \<Longrightarrow> off \<le> n \<and> n \<le> off + length s"
  by (induction off acc s rule: hex_scan.induct) (auto split: option.splits if_splits)

text \<open>
  The loop of \<open>parseIPv6\<close>: the unread text, the address bytes so far and the position of
  the ellipsis.
\<close>

function v6_loop :: "string \<Rightarrow> nat list \<Rightarrow> nat option \<Rightarrow> (string \<times> nat list \<times> nat option) option" where
  "v6_loop s ip ell =
     (if 16 \<le> length ip then Some (s, ip, ell)
      else (case hex_scan 0 0 s of
        None \<Rightarrow> None
      | Some (acc, off) \<Rightarrow>
          if off = 0 then None
          else if off < length s \<and> s ! off = CHR ''.'' then
            (if ell = None \<and> length ip \<noteq> 12 then None
             else if 16 < length ip + 4 then None
             else map_option (\<lambda>fs. ([], ip @ fs, ell)) (v4_fields s))
          else
            (case drop off s of
               [] \<Rightarrow> Some ([], ip @ [acc div 256, acc mod 256], ell)
             | [c] \<Rightarrow> None
             | c # d # s3 \<Rightarrow>
                 if c \<noteq> CHR '':'' then None
                 else if d = CHR '':'' then
                   (if ell \<noteq> None then None
                    else if s3 = [] then
                      Some ([], ip @ [acc div 256, acc mod 256], Some (length ip + 2))
                    else v6_loop s3 (ip @ [acc div 256, acc mod 256]) (Some (length ip + 2)))
                 else v6_loop (d # s3) (ip @ [acc div 256, acc mod 256]) ell)))"
  by pat_completeness auto
termination
proof (relation "measure (\<lambda>(s, ip, ell). length s)", goal_cases)
  case 1
  then show ?case by simp
next
  case (2 s ip ell a acc off c ds d s3)
  then have "drop off s = c # d # s3" by simp
  then have "length s3 + 2 \<le> length s"
    by (metis add_2_eq_Suc' diff_le_self length_Cons length_drop)
  then show ?case by simp
next
  case (3 s ip ell a acc off c ds d s3)
  then have "drop off s = c # d # s3" by simp
  then have "length s3 + 2 \<le> length s"
    by (metis add_2_eq_Suc' diff_le_self length_Cons length_drop)
  then show ?case by simp
qed

declare v6_loop.simps [simp del]

definition parseIPv6 :: "string \<Rightarrow> addr option" where
  "parseIPv6 inp =
     (let (s0, zone, badzone) =
        (case IndexByte inp CHR ''%'' of
           None \<Rightarrow> (inp, [], False)
         | Some i \<Rightarrow> (take i inp, drop (Suc i) inp, drop (Suc i) inp = []))
      in if badzone then None
      else let lead = (2 \<le> length s0 \<and> s0 ! 0 = CHR '':'' \<and> s0 ! 1 = CHR '':'');
               s = (if lead then drop 2 s0 else s0);
               ell0 = (if lead then Some 0 else None)
        in if lead \<and> s = [] then Some (Addr6 0 zone)
        else (case v6_loop s [] ell0 of
            None \<Rightarrow> None
          | Some (rest, ip, ell) \<Rightarrow>
              if rest \<noteq> [] then None
              else if length ip < 16 then
                (case ell of
                   None \<Rightarrow> None
                 | Some e \<Rightarrow>
                     Some (Addr6 (of_nat (bytes_nat (map of_nat
                       (take e ip @ replicate (16 - length ip) 0 @ drop e ip)))) zone))
              else if ell \<noteq> None then None
              else Some (Addr6 (of_nat (bytes_nat (map of_nat ip))) zone)))"

fun first_sep :: "string \<Rightarrow> char option" where
  "first_sep [] = None"
| "first_sep (c # cs) =
     (if c = CHR ''.'' \<or> c = CHR '':'' \<or> c = CHR ''%'' then Some c else first_sep cs)"

definition ParseAddr :: "string \<Rightarrow> addr option" where
  "ParseAddr s =
     (case first_sep s of
        None \<Rightarrow> None
      | Some c \<Rightarrow>
          if c = CHR ''.'' then parseIPv4 s else if c = CHR '':'' then parseIPv6 s else None)"

text \<open>\<open>Addr.String\<close>.\<close>

definition string4 :: "u32 \<Rightarrow> string" where
  "string4 w = (let b = nat_bytes 4 (unat w) in
     dec (unat (b ! 0)) @ ''.'' @ dec (unat (b ! 1)) @ ''.'' @ dec (unat (b ! 2)) @ ''.'' @
     dec (unat (b ! 3)))"

definition hex_digit :: "nat \<Rightarrow> char" where
  "hex_digit n = (if n < 10 then digit_char n else char_of (87 + n))"

fun hex_str :: "nat \<Rightarrow> string" where
  "hex_str n = (if n < 16 then [hex_digit n] else hex_str (n div 16) @ [hex_digit (n mod 16)])"

declare hex_str.simps [simp del]

definition v6u16 :: "128 word \<Rightarrow> nat \<Rightarrow> nat" where
  "v6u16 w i = unat w div 65536 ^ (7 - i) mod 65536"

definition zero_run :: "128 word \<Rightarrow> nat \<Rightarrow> nat" where
  "zero_run w i = length (takeWhile (\<lambda>j. v6u16 w j = 0) [i..<8])"

text \<open>Start and length of the first longest run of at least two zero groups.\<close>

definition best_run :: "128 word \<Rightarrow> nat \<times> nat" where
  "best_run w = foldl (\<lambda>(st, l) i. if 2 \<le> zero_run w i \<and> l < zero_run w i then (i, zero_run w i) else (st, l))
     (255, 0) [0..<8]"

definition string6 :: "128 word \<Rightarrow> string" where
  "string6 w = (case best_run w of (st, l) \<Rightarrow>
     concat (map (\<lambda>i.
       if i = st then '':''
       else if st < i \<and> i < st + l then []
       else (if i = 0 then [] else '':'') @ hex_str (v6u16 w i)) [0..<8])
     @ (if st + l = 8 \<and> l \<noteq> 0 then '':'' else []))"

definition addr_String :: "addr \<Rightarrow> string" where
  "addr_String a =
     (case a of
        Addr4 w \<Rightarrow> string4 w
      | Addr6 w z \<Rightarrow>
          (if Is4In6 a then ''::ffff:'' @ string4 (of_nat (unat w mod 2 ^ 32)) else string6 w)
          @ (if z = [] then [] else ''%'' @ z))"

text \<open>Parsing the printed form of an IPv4 address gives it back.\<close>

lemma dec_1: "n < 10 \<Longrightarrow> dec n = [digit_char n]"
  by (simp add: dec.simps [of n])

lemma dec_2: "10 \<le> n \<Longrightarrow> n < 100 \<Longrightarrow> dec n = [digit_char (n div 10), digit_char (n mod 10)]"
  by (simp add: dec.simps [of n] dec_1)

lemma dec_3: "100 \<le> n \<Longrightarrow> n < 1000 \<Longrightarrow>
    dec n = [digit_char (n div 100), digit_char (n div 10 mod 10), digit_char (n mod 10)]"
  by (simp add: dec.simps [of n] dec_2 div_mult2_eq [of n 10 10, simplified])

lemma v4_loop_dec:
  assumes "n < 256"
  shows "\<exists>c k. is_digit c \<and> v4_loop prev 0 0 fs (dec n @ rest) = v4_loop (Some c) n k fs rest"
proof -
  consider "n < 10" | "10 \<le> n" "n < 100" | "100 \<le> n" "n < 1000" using assms by linarith
  then show ?thesis
  proof cases
    case 1
    then show ?thesis by (auto simp: dec_1 intro!: exI [of _ "digit_char n"] exI [of _ "Suc 0"])
  next
    case 2
    have "n div 10 * 10 + n mod 10 = n" "0 < n div 10" "n div 10 \<le> 255"
      using 2 by (simp_all add: div_greater_zero_iff)
    with 2 have "v4_loop prev 0 0 fs (dec n @ rest) = v4_loop (Some (digit_char (n mod 10))) n 2 fs rest"
      by (simp add: dec_2 numeral_2_eq_2)
    then show ?thesis by (intro exI conjI) (auto)
  next
    case 3
    have "(n div 100 * 10 + n div 10 mod 10) * 10 + n mod 10 = n"
      using div_mult2_eq [of n 10 10] by simp
    moreover have "n div 100 * 10 + n div 10 mod 10 \<le> 255" "n div 100 < 10" "0 < n div 100"
      using 3 by (simp_all add: div_greater_zero_iff)
    ultimately have "v4_loop prev 0 0 fs (dec n @ rest) =
        v4_loop (Some (digit_char (n mod 10))) n 3 fs rest"
      using 3 assms by (simp add: dec_3 numeral_3_eq_3)
    then show ?thesis by (intro exI conjI) (auto)
  qed
qed

lemma v4_loop_octet:
  assumes "n < 256" "length fs < 3" "rest \<noteq> []"
  shows "v4_loop prev 0 0 fs (dec n @ CHR ''.'' # rest) = v4_loop (Some CHR ''.'') 0 0 (fs @ [n]) rest"
proof -
  obtain c k where c: "is_digit c"
    and eq: "v4_loop prev 0 0 fs (dec n @ CHR ''.'' # rest) = v4_loop (Some c) n k fs (CHR ''.'' # rest)"
    using v4_loop_dec [OF assms(1)] by blast
  have "c \<noteq> CHR ''.''" using c by auto
  with assms show ?thesis by (simp add: eq)
qed

lemma v4_loop_last:
  assumes "n < 256" "length fs = 3"
  shows "v4_loop prev 0 0 fs (dec n) = Some (fs @ [n])"
  using v4_loop_dec [OF assms(1), of prev fs "[]"] assms(2) by auto

lemma nat_bytes_4: "nat_bytes 4 k = [of_nat (k div 16777216), of_nat (k div 65536), of_nat (k div 256), of_nat k]"
  by (simp add: nat_bytes_numeral)

lemma v4_fields_dec:
  "v4_fields (dec (unat (a :: byte)) @ CHR ''.'' # dec (unat (b :: byte)) @ CHR ''.'' #
     dec (unat (c :: byte)) @ CHR ''.'' # dec (unat (d :: byte))) = Some [unat a, unat b, unat c, unat d]"
  unfolding v4_fields_def
  by (simp only: v4_loop_octet v4_loop_last byte_less list.size append.simps not_Cons_self2
      append_is_Nil_conv dec_nonempty HOL.simp_thms list.distinct)

lemma v4_fields_string4: "v4_fields (string4 w) = Some (map unat (nat_bytes 4 (unat w)))"
proof -
  obtain a b c d where "nat_bytes 4 (unat w) = [a, b, c, d]"
    using nat_bytes_4 by blast
  then show ?thesis using v4_fields_dec [of a b c d] by (simp add: string4_def)
qed

lemma parseIPv4_string4: "parseIPv4 (string4 w) = Some (Addr4 w)"
  by (simp add: parseIPv4_def v4_fields_string4 comp_def AddrFrom4_AsSlice)

lemma first_sep_append: "\<forall>c \<in> set s. is_digit c \<Longrightarrow> first_sep (s @ CHR ''.'' # t) = Some CHR ''.''"
  by (induction s) auto

lemma first_sep_string4: "first_sep (string4 w) = Some CHR ''.''"
proof -
  have "\<forall>c \<in> set (dec n). is_digit c" for n using dec_digits [of n] by (simp add: list_all_iff)
  then show ?thesis by (simp add: string4_def Let_def first_sep_append)
qed

lemma ParseAddr_string4 [simp]: "ParseAddr (addr_String (Addr4 w)) = Some (Addr4 w)"
  by (simp add: ParseAddr_def addr_String_def first_sep_string4 parseIPv4_string4)

lemma string4_seps: "CHR '':'' \<notin> set (string4 w)" "CHR ''['' \<notin> set (string4 w)" "CHR '']'' \<notin> set (string4 w)"
  by (simp_all add: string4_def Let_def dec_no_sep)

section \<open>encoding/hex\<close>

definition hex_Encode :: "bytes \<Rightarrow> bytes" where
  "hex_Encode bs = concat (map (\<lambda>b. [byte_of_char (hex_digit (unat b div 16)), byte_of_char (hex_digit (unat b mod 16))]) bs)"

lemma length_hex_Encode [simp]: "length (hex_Encode bs) = 2 * length bs"
  by (induction bs) (simp_all add: hex_Encode_def)

lemma of_char_hex_digit: "n < 16 \<Longrightarrow> (of_char (hex_digit n) :: nat) = (if n < 10 then n + 48 else n + 87)"
  by (simp add: hex_digit_def of_char_of digit_char_def)

lemma hex_Encode_no_cr: "13 \<notin> set (hex_Encode bs)"
proof -
  have "byte_of_char (hex_digit n) \<noteq> 13" if "n < 16" for n
  proof
    assume "byte_of_char (hex_digit n) = 13"
    then have "unat (byte_of_char (hex_digit n)) = 13" by simp
    then have "(of_char (hex_digit n) :: nat) mod 256 = 13" by (simp add: byte_of_char_def unat_of_nat)
    with of_char_hex_digit [OF that] that show False by (auto split: if_splits)
  qed
  moreover have "unat b div 16 < 16" "unat b mod 16 < 16" for b :: byte
    using byte_less [of b] by (simp_all add: less_mult_imp_div_less)
  ultimately show ?thesis by (auto simp: hex_Encode_def)
qed


text \<open>\<open>hex.DecodeString\<close>.\<close>

fun hex_DecodeString :: "string \<Rightarrow> bytes option" where
  "hex_DecodeString [] = Some []"
| "hex_DecodeString [c] = None"
| "hex_DecodeString (c # d # cs) =
     (case (hex_val c, hex_val d, hex_DecodeString cs) of
        (Some x, Some y, Some bs) \<Rightarrow> Some (of_nat (16 * x + y) # bs)
      | _ \<Rightarrow> None)"

lemma hex_val_hex_digit: "n < 16 \<Longrightarrow> hex_val (hex_digit n) = Some n"
  by (simp add: hex_val_def of_char_hex_digit Let_def)

lemma hex_Decode_Encode: "hex_DecodeString (bytes_str (hex_Encode bs)) = Some bs"
proof (induction bs)
  case Nil
  then show ?case by (simp add: hex_Encode_def bytes_str_def)
next
  case (Cons b bs)
  have "unat b div 16 < 16" "unat b mod 16 < 16"
    using byte_less [of b] by (simp_all add: less_mult_imp_div_less)
  note hex_val_hex_digit [OF this(1)] hex_val_hex_digit [OF this(2)]
  moreover have "(of_nat (16 * (unat b div 16) + unat b mod 16) :: byte) = b"
    by (simp only: mult_div_mod_eq) simp
  ultimately show ?case using Cons by (simp add: hex_Encode_def bytes_str_def del: of_nat_add of_nat_mult)
qed

lemma hex_DecodeString_length: "hex_DecodeString s = Some bs \<Longrightarrow> length s = 2 * length bs"
  by (induction s arbitrary: bs rule: hex_DecodeString.induct) (auto split: option.splits)

end
