(* ===== verification/SocketAddr.thy ===== *)
theory SocketAddr
  imports GoStd IoUtil
begin

text \<open>
  Target addresses: \<open>transport/socket_addr.go\<close> (the \<open>SocketAddress\<close> struct, reading it
  from the wire, parsing and printing \<open>host:port\<close>) and the SOCKS-like wire format of
  \<open>transport/socks/util.go\<close> and \<open>addr.go\<close> that every carrier shares.
\<close>

section \<open>Addresses\<close>

datatype AddrType = IPv4 | IPv6 | DomainType

record SocketAddress =
  sa_IP :: "addr option"
  sa_Domain :: string
  sa_Port :: u16
  sa_AddrType :: AddrType

definition NewSocketAddressByIP :: "addr \<Rightarrow> u16 \<Rightarrow> SocketAddress" where
  "NewSocketAddressByIP ip port =
     \<lparr>sa_IP = Some ip, sa_Domain = [], sa_Port = port,
      sa_AddrType = (if Is4 ip then IPv4 else IPv6)\<rparr>"

definition NewSocketAddressByDomain :: "string \<Rightarrow> u16 \<Rightarrow> SocketAddress" where
  "NewSocketAddressByDomain domain port =
     \<lparr>sa_IP = None, sa_Domain = domain, sa_Port = port, sa_AddrType = DomainType\<rparr>"

text \<open>What the two constructors establish: the type tag agrees with the fields.\<close>

definition wf_addr :: "SocketAddress \<Rightarrow> bool" where
  "wf_addr a =
     (case sa_AddrType a of
        IPv4 \<Rightarrow> (case sa_IP a of Some ip \<Rightarrow> Is4 ip | None \<Rightarrow> False) \<and> sa_Domain a = []
      | IPv6 \<Rightarrow> (case sa_IP a of Some ip \<Rightarrow> \<not> Is4 ip | None \<Rightarrow> False) \<and> sa_Domain a = []
      | DomainType \<Rightarrow> sa_IP a = None)"

lemma wf_addr_New [simp]:
  "wf_addr (NewSocketAddressByIP ip port)" "wf_addr (NewSocketAddressByDomain d port)"
  by (simp_all add: wf_addr_def NewSocketAddressByIP_def NewSocketAddressByDomain_def)

lemma wf_addr_cases:
  assumes "wf_addr a"
  obtains (v4) w p where "a = NewSocketAddressByIP (Addr4 w) p"
  | (v6) w z p where "a = NewSocketAddressByIP (Addr6 w z) p"
  | (dom) d p where "a = NewSocketAddressByDomain d p"
  using assms
  by (cases a; cases "sa_AddrType a"; cases "sa_IP a"; cases "the (sa_IP a)")
     (auto simp: wf_addr_def NewSocketAddressByIP_def NewSocketAddressByDomain_def Is4_def)

lemma New_sel [simp]:
  "sa_AddrType (NewSocketAddressByIP ip p) = (if Is4 ip then IPv4 else IPv6)"
  "sa_IP (NewSocketAddressByIP ip p) = Some ip" "sa_Port (NewSocketAddressByIP ip p) = p"
  "sa_Domain (NewSocketAddressByIP ip p) = []"
  "sa_AddrType (NewSocketAddressByDomain d p) = DomainType"
  "sa_IP (NewSocketAddressByDomain d p) = None" "sa_Port (NewSocketAddressByDomain d p) = p"
  "sa_Domain (NewSocketAddressByDomain d p) = d"
  by (simp_all add: NewSocketAddressByIP_def NewSocketAddressByDomain_def)

lemma New_neq [simp]: "NewSocketAddressByIP ip p \<noteq> NewSocketAddressByDomain d q"
  by (simp add: NewSocketAddressByIP_def NewSocketAddressByDomain_def)

section \<open>Reading an address\<close>

definition ReadAddressWithType :: "byte \<Rightarrow> byte \<Rightarrow> byte \<Rightarrow> (reader, SocketAddress) io" where
  "ReadAddressWithType t0 t1 t2 =
     io_bind Read1 (\<lambda>addressType.
     io_bind
       (if addressType = t0 then io_bind (ReadN 4) (\<lambda>ipv4. io_ret (Inl (AddrFrom4 ipv4)))
        else if addressType = t1 then io_bind (ReadN 16) (\<lambda>ipv6. io_ret (Inl (AddrFrom16 ipv6)))
        else if addressType = t2 then io_bind ReadStringByUint8 (\<lambda>domain. io_ret (Inr domain))
        else io_fail (ErrNew ''unknown address type''))
       (\<lambda>ipOrDomain.
     io_bind (ReadN 2) (\<lambda>portBs.
       let port = be16_get portBs in
       io_ret (case ipOrDomain of
           Inl ip \<Rightarrow> NewSocketAddressByIP ip port
         | Inr domain \<Rightarrow> NewSocketAddressByDomain domain port))))"

definition connectionAddressIPv4 :: byte where "connectionAddressIPv4 = 1"
definition connectionAddressIPv6 :: byte where "connectionAddressIPv6 = 4"
definition connectionAddressDomain :: byte where "connectionAddressDomain = 3"

lemmas connectionAddress_defs =
  connectionAddressIPv4_def connectionAddressIPv6_def connectionAddressDomain_def

definition ReadSOCKS5Address :: "(reader, SocketAddress) io" where
  "ReadSOCKS5Address =
     ReadAddressWithType connectionAddressIPv4 connectionAddressIPv6 connectionAddressDomain"

section \<open>Writing an address\<close>

definition SOCKSLikeAddrSizeInBytes :: "SocketAddress \<Rightarrow> nat" where
  "SOCKSLikeAddrSizeInBytes addr =
     (case sa_AddrType addr of
        IPv4 \<Rightarrow> 1 + 4 + 2
      | IPv6 \<Rightarrow> 1 + 16 + 2
      | DomainType \<Rightarrow> 1 + 1 + length (sa_Domain addr) + 2)"

definition writeAddrType :: "SocketAddress \<Rightarrow> bytes" where
  "writeAddrType addr =
     (case sa_AddrType addr of
        IPv4 \<Rightarrow> [connectionAddressIPv4]
      | IPv6 \<Rightarrow> [connectionAddressIPv6]
      | DomainType \<Rightarrow> [connectionAddressDomain])"

text \<open>The length byte is the domain's length modulo 256, as the conversion to \<open>byte\<close> makes it.\<close>

definition writeAddrAndPort :: "SocketAddress \<Rightarrow> bytes res" where
  "writeAddrAndPort addr =
     (let port = be16_put (sa_Port addr) in
      case sa_AddrType addr of
        DomainType \<Rightarrow>
          Inr (of_nat (length (sa_Domain addr)) # str_bytes (sa_Domain addr) @ port)
      | _ \<Rightarrow>
          (case sa_IP addr of
             None \<Rightarrow> Inl (Panic ''nil pointer dereference'')
           | Some ip \<Rightarrow> Inr (AsSlice ip @ port)))"

definition WriteSOCKSLikeAddr :: "SocketAddress \<Rightarrow> bytes res" where
  "WriteSOCKSLikeAddr addr =
     (case writeAddrAndPort addr of
        Inl e \<Rightarrow> Inl e
      | Inr bs \<Rightarrow> Inr (writeAddrType addr @ bs))"

lemma Write_v4 [simp]: "WriteSOCKSLikeAddr (NewSocketAddressByIP (Addr4 w) p) =
    Inr (1 # nat_bytes 4 (unat w) @ be16_put p)"
  by (simp add: WriteSOCKSLikeAddr_def writeAddrAndPort_def writeAddrType_def Is4_def AsSlice_def
      connectionAddress_defs)

lemma Write_v6 [simp]: "WriteSOCKSLikeAddr (NewSocketAddressByIP (Addr6 w z) p) =
    Inr (4 # nat_bytes 16 (unat w) @ be16_put p)"
  by (simp add: WriteSOCKSLikeAddr_def writeAddrAndPort_def writeAddrType_def Is4_def AsSlice_def
      connectionAddress_defs)

lemma Write_dom [simp]: "WriteSOCKSLikeAddr (NewSocketAddressByDomain d p) =
    Inr (3 # of_nat (length d) # str_bytes d @ be16_put p)"
  by (simp add: WriteSOCKSLikeAddr_def writeAddrAndPort_def writeAddrType_def
      connectionAddress_defs)

lemma Write_wf: "wf_addr a \<Longrightarrow> \<exists>bs. WriteSOCKSLikeAddr a = Inr bs"
  by (cases a rule: wf_addr_cases) auto

lemma Write_size: "wf_addr a \<Longrightarrow> WriteSOCKSLikeAddr a = Inr bs \<Longrightarrow> length bs = SOCKSLikeAddrSizeInBytes a"
  by (cases a rule: wf_addr_cases)
     (auto simp: SOCKSLikeAddrSizeInBytes_def Is4_def)

text \<open>An address a peer can be told about: no zone, and a domain whose length fits a byte.\<close>

definition wire_addr :: "SocketAddress \<Rightarrow> bool" where
  "wire_addr a =
     (wf_addr a \<and> length (sa_Domain a) \<le> 255 \<and>
      (case sa_IP a of Some (Addr6 w z) \<Rightarrow> z = [] | _ \<Rightarrow> True))"

lemma wire_addr_wf [simp]: "wire_addr a \<Longrightarrow> wf_addr a"
  by (simp add: wire_addr_def)

text \<open>
  The reader after an address that starts the stream, and the address found there: the
  lemma every carrier uses to run the server's parser on what the client wrote.
\<close>

lemma Read_Write_addr:
  assumes "wire_addr a" "WriteSOCKSLikeAddr a = Inr bs" "contents r = bs @ rest"
  shows "\<exists>r'. ReadSOCKS5Address r = (Inr a, r') \<and> contents r' = rest \<and> fin r' = fin r"
proof (cases rule: wf_addr_cases [OF wire_addr_wf [OF assms(1)]])
  case (1 w p)
  define r1 where "r1 = rd_adv (Suc 0) r"
  define r2 where "r2 = rd_adv 4 r1"
  have c1: "contents r1 = nat_bytes 4 (unat w) @ be16_put p @ rest"
    using assms 1 by (auto simp: r1_def)
  then have c2: "contents r2 = be16_put p @ rest" by (simp add: r2_def)
  have "ReadSOCKS5Address r = (Inr a, rd_adv 2 r2)"
    using assms 1 c1 c2
    by (auto simp: ReadSOCKS5Address_def ReadAddressWithType_def connectionAddress_defs io_bind_def
        r1_def [symmetric] r2_def [symmetric] AddrFrom4_AsSlice Let_def)
  with c2 show ?thesis by (auto simp: r2_def r1_def)
next
  case (2 w z p)
  define r1 where "r1 = rd_adv (Suc 0) r"
  define r2 where "r2 = rd_adv 16 r1"
  have z: "z = []" using assms(1) 2 by (simp add: wire_addr_def)
  have c1: "contents r1 = nat_bytes 16 (unat w) @ be16_put p @ rest"
    using assms 2 by (auto simp: r1_def)
  then have c2: "contents r2 = be16_put p @ rest" by (simp add: r2_def)
  have "ReadSOCKS5Address r = (Inr a, rd_adv 2 r2)"
    using assms 2 c1 c2 z
    by (auto simp: ReadSOCKS5Address_def ReadAddressWithType_def connectionAddress_defs io_bind_def
        r1_def [symmetric] r2_def [symmetric] AddrFrom16_AsSlice Let_def)
  with c2 show ?thesis by (auto simp: r2_def r1_def)
next
  case (3 d p)
  define r1 where "r1 = rd_adv (Suc 0) r"
  define r2 where "r2 = rd_adv (length d) (rd_adv (Suc 0) r1)"
  have len: "unat (of_nat (length d) :: byte) = length d"
    using assms(1) 3 by (simp add: wire_addr_def unat_of_nat)
  have c1: "contents r1 = of_nat (length d) # str_bytes d @ be16_put p @ rest"
    using assms 3 by (auto simp: r1_def)
  then have c2: "contents r2 = be16_put p @ rest" by (simp add: r2_def)
  have rb: "ReadByUint8 r1 = (Inr (str_bytes d), r2)"
    using ReadByUint8_enough [OF c1] len by (simp add: r2_def)
  have "ReadSOCKS5Address r = (Inr a, rd_adv 2 r2)"
    using assms 3 c1 c2 rb
    by (auto simp: ReadSOCKS5Address_def ReadAddressWithType_def connectionAddress_defs io_bind_def
        ReadStringByUint8_def r1_def [symmetric] Let_def)
  with c2 show ?thesis by (auto simp: r2_def r1_def)
qed

section \<open>Host strings\<close>

definition toSocketAddr :: "string \<Rightarrow> u16 \<Rightarrow> bool \<Rightarrow> SocketAddress res" where
  "toSocketAddr host port ipv6Required =
     (case ParseAddr host of
        None \<Rightarrow> Inr (NewSocketAddressByDomain host port)
      | Some ip \<Rightarrow>
          if ipv6Required \<and> \<not> Is6 ip then Inl (ErrNew ''require IPv6 address'')
          else Inr (NewSocketAddressByIP ip port))"

definition ToSocketAddr :: "string \<Rightarrow> bool \<Rightarrow> u16 \<Rightarrow> SocketAddress res" where
  "ToSocketAddr host requirePort defaultPort =
     (if length host = 0 \<or> HasPrefix host '':'' then Inl (ErrNew ''empty host'')
      else if \<not> requirePort \<and> IndexByte host CHR '':'' = None then
        toSocketAddr host defaultPort False
      else if \<not> requirePort \<and> hd host = CHR ''['' \<and> last host = CHR '']'' then
        toSocketAddr (drop 1 (butlast host)) defaultPort True
      else (case SplitHostPort host of
          Inl e \<Rightarrow> Inl e
        | Inr (h, portStr) \<Rightarrow>
            (case ParseUint16 portStr of
               None \<Rightarrow> Inl (ErrNew ''invalid port'')
             | Some port \<Rightarrow> toSocketAddr h port False)))"

text \<open>\<open>JoinHostPort\<close> of \<open>util/netutil/util.go\<close> with \<open>ToA\<close> of \<open>util/strutil/util.go\<close>.\<close>

definition ToA :: "u16 \<Rightarrow> string" where
  "ToA i = dec (unat i)"

definition JoinHostPort :: "string \<Rightarrow> u16 \<Rightarrow> string" where
  "JoinHostPort host port = net_JoinHostPort host (ToA port)"

definition ToHostStr :: "SocketAddress \<Rightarrow> string res" where
  "ToHostStr addr =
     (case sa_AddrType addr of
        DomainType \<Rightarrow> Inr (JoinHostPort (sa_Domain addr) (sa_Port addr))
      | _ \<Rightarrow>
          (case sa_IP addr of
             None \<Rightarrow> Inl (Panic ''nil pointer dereference'')
           | Some ip \<Rightarrow> Inr (JoinHostPort (addr_String ip) (sa_Port addr))))"

text \<open>The port of a dialed network address may be a service name, which a resolver looks up.\<close>

definition toSocketAddrFromNetworkAddr ::
  "(string \<Rightarrow> string \<Rightarrow> u16 res) \<Rightarrow> string \<Rightarrow> string \<Rightarrow> SocketAddress res" where
  "toSocketAddrFromNetworkAddr LookupPort network host =
     (case SplitHostPort host of
        Inl e \<Rightarrow> Inl e
      | Inr (h, portStr) \<Rightarrow>
          (case LookupPort network portStr of
             Inl e \<Rightarrow> Inl e
           | Inr port \<Rightarrow> toSocketAddr h port False))"

lemma SplitHostPort_Join [simp]:
  "CHR ''['' \<notin> set h \<Longrightarrow> CHR '']'' \<notin> set h \<Longrightarrow> SplitHostPort (JoinHostPort h p) = Inr (h, ToA p)"
  by (simp add: JoinHostPort_def ToA_def SplitHostPort_JoinHostPort dec_no_sep)

lemma ToSocketAddr_Join:
  assumes "CHR ''['' \<notin> set h" "CHR '']'' \<notin> set h" "h \<noteq> []"
  shows "ToSocketAddr (JoinHostPort h p) True dp = toSocketAddr h p False"
proof -
  have "\<not> HasPrefix (JoinHostPort h p) '':''"
    using assms by (cases h) (auto simp: JoinHostPort_def net_JoinHostPort_def HasPrefix_def)
  moreover have "JoinHostPort h p \<noteq> []"
    by (simp add: JoinHostPort_def net_JoinHostPort_def)
  ultimately show ?thesis
    using assms by (simp add: ToSocketAddr_def ToA_def)
qed

section \<open>Properties\<close>

text \<open>
  C35. An address without a zone, and with at most 255 bytes if it is a domain, is read back unchanged
  from what was written in the SOCKS-like format by the parser of the other side, whatever the
  segmentation of the stream, and the reader is left exactly behind it. It takes
  \<open>SOCKSLikeAddrSizeInBytes\<close> bytes. What happens to a longer domain is stated in
  \<open>socks_addr_long_domain\<close> below.
\<close>

theorem socks_addr_roundtrip:
  assumes "wire_addr a" and "WriteSOCKSLikeAddr a = Inr bs" and "contents r = bs @ rest"
  shows "\<exists>r'. ReadSOCKS5Address r = (Inr a, r') \<and> contents r' = rest
    \<and> length bs = SOCKSLikeAddrSizeInBytes a"
  using Read_Write_addr [OF assms] Write_size [OF wire_addr_wf [OF assms(1)] assms(2)] by blast

theorem socks_addr_roundtrip_witness:
  "\<exists>r'. ReadSOCKS5Address (mk_reader [[3], [2, 97], [98, 1, 187, 7]])
      = (Inr (NewSocketAddressByDomain ''ab'' 443), r')
    \<and> contents r' = [7] \<and> length [3, 2, 97, 98, 1, 187 :: byte]
        = SOCKSLikeAddrSizeInBytes (NewSocketAddressByDomain ''ab'' 443)"
proof (rule socks_addr_roundtrip)
  show "wire_addr (NewSocketAddressByDomain ''ab'' 443)" by (simp add: wire_addr_def)
  show "WriteSOCKSLikeAddr (NewSocketAddressByDomain ''ab'' 443) = Inr [3, 2, 97, 98, 1, 187]"
    by (simp add: str_bytes_def byte_of_char_def be16_put_def nat_bytes_numeral)
  show "contents (mk_reader [[3], [2, 97], [98, 1, 187, 7]]) = [3, 2, 97, 98, 1, 187] @ [7]"
    by simp
qed

text \<open>
  A domain of more than 255 bytes does not survive the trip: its length byte is reduced
  modulo 256, so the peer reads a different, shorter domain.
\<close>

theorem socks_addr_long_domain:
  assumes "255 < length d" and "WriteSOCKSLikeAddr (NewSocketAddressByDomain d p) = Inr bs"
    and "contents r = bs"
  shows "\<exists>a r'. ReadSOCKS5Address r = (Inr a, r')
    \<and> sa_Domain a = take (length d mod 256) d \<and> sa_Domain a \<noteq> d"
proof -
  define n where "n = length d mod 256"
  have n: "unat (of_nat (length d) :: byte) = n" "n < length d"
    using assms(1) by (simp_all add: unat_of_nat n_def less_le_trans [OF mod_less_divisor])
  define r1 where "r1 = rd_adv (Suc 0) r"
  define r2 where "r2 = rd_adv n (rd_adv (Suc 0) r1)"
  have c1: "contents r1 = of_nat (length d) # take n (str_bytes d) @ drop n (str_bytes d) @ be16_put p"
    using assms by (auto simp: r1_def)
  have rb: "ReadByUint8 r1 = (Inr (take n (str_bytes d)), r2)"
    using ReadByUint8_enough [OF c1] n by (simp add: r2_def)
  have c2: "2 \<le> length (contents r2)"
    using n c1 by (simp add: r2_def)
  have str: "bytes_str (take n (str_bytes d)) = take n d"
    by (metis bytes_str_def bytes_str_str_bytes take_map)
  have "ReadSOCKS5Address r =
      (Inr (NewSocketAddressByDomain (take n d) (be16_get (take 2 (contents r2)))), rd_adv 2 r2)"
    using assms c1 c2 rb
    by (auto simp: ReadSOCKS5Address_def ReadAddressWithType_def connectionAddress_defs io_bind_def
        ReadStringByUint8_def r1_def [symmetric] Let_def str)
  moreover have "take n d \<noteq> d" using n(2) by (metis length_take min_less_iff_conj nat_neq_iff)
  ultimately show ?thesis by (simp add: n_def)
qed

theorem socks_addr_long_domain_witness:
  "\<exists>a r'. ReadSOCKS5Address (mk_reader
        [3 # 0 # str_bytes (replicate 256 CHR ''x'') @ be16_put 80]) = (Inr a, r')
    \<and> sa_Domain a = take (length (replicate 256 CHR ''x'') mod 256) (replicate 256 CHR ''x'')
    \<and> sa_Domain a \<noteq> replicate 256 CHR ''x''"
  by (rule socks_addr_long_domain [where p = 80]) simp_all

text \<open>
  The host string a client sends for an IPv4 address or a domain is parsed by the
  server to the same address.
\<close>

theorem host_string_roundtrip:
  assumes "a = NewSocketAddressByIP (Addr4 w) p
    \<or> (a = NewSocketAddressByDomain d p \<and> d \<noteq> [] \<and> ParseAddr d = None
        \<and> CHR ''['' \<notin> set d \<and> CHR '']'' \<notin> set d)"
  shows "\<exists>s. ToHostStr a = Inr s \<and> ToSocketAddr s True dp = Inr a"
proof -
  have s4: "addr_String (Addr4 w) = string4 w" by (simp add: addr_String_def)
  have ne: "string4 w \<noteq> []" using parseIPv4_string4 [of w] by (auto simp: string4_def Let_def)
  show ?thesis
    using assms ParseAddr_string4 [of w]
    by (auto simp: ToHostStr_def Is4_def s4 ne ToSocketAddr_Join string4_seps toSocketAddr_def)
qed

theorem host_string_roundtrip_witness:
  "\<exists>s. ToHostStr (NewSocketAddressByDomain ''a.b'' 80) = Inr s
     \<and> ToSocketAddr s True 0 = Inr (NewSocketAddressByDomain ''a.b'' 80)"
  by (rule host_string_roundtrip [where d = "''a.b''" and p = 80 and w = 0])
     (simp add: ParseAddr_def parseIPv4_def v4_fields_def is_digit_def)

end
