(* ===== verification/SsConn.thy ===== *)
theory SsConn
  imports SsUtil SocketAddr
begin

text \<open>
  The Shadowsocks 2022 connection of \<open>transport/ss_carrier/conn.go\<close>: the first payload of
  each side with its salt, fixed header and encrypted variable part, the stream of length
  and payload chunks after it, and the checks of both sides. The clock and the random draws
  an operation makes are its argument \<open>ss_inputs\<close>; the cryptography is \<open>ss_crypto\<close>.
\<close>

section \<open>State\<close>

record ss_conn =
  tcp :: netconn
  accessAddr :: "SocketAddress option"
  preSharedKey :: bytes
  clientSalt :: bytes
  saltSize :: nat
  aeadWriter :: "bytes option"
  nonceWriter :: bytes
  aeadReader :: "bytes option"
  nonceReader :: bytes
  readerBuf :: bytes
  aeadOverhead :: nat
  isClient :: bool
  hasWriteFirstPayload :: bool
  hasReadFirstPayload :: bool
  serverSideSaltPool :: "bytes saltPool"

text \<open>
  What an operation takes from outside: \<open>time.Now().Unix()\<close>, the clock in nanoseconds, the
  draw of \<open>rand.N(maxPaddingLen)\<close>, the padding and the salt from the random source.
\<close>

record ss_inputs =
  in_unix :: int
  in_nanos :: int
  in_padLen :: nat
  in_padding :: "nat \<Rightarrow> bytes"
  in_salt :: "nat \<Rightarrow> bytes"

definition newClientConn ::
  "netconn \<Rightarrow> SocketAddress \<Rightarrow> bytes \<Rightarrow> bytes \<Rightarrow> nat \<Rightarrow> ss_conn" where
  "newClientConn conn addr psk salt overhead =
     \<lparr>tcp = conn, accessAddr = Some addr, preSharedKey = psk, clientSalt = salt,
      saltSize = length salt, aeadWriter = None, nonceWriter = [], aeadReader = None,
      nonceReader = [], readerBuf = [], aeadOverhead = overhead, isClient = True,
      hasWriteFirstPayload = False, hasReadFirstPayload = False,
      serverSideSaltPool = newSaltPool 0\<rparr>"

definition newServerConn ::
  "netconn \<Rightarrow> bytes \<Rightarrow> nat \<Rightarrow> bytes saltPool \<Rightarrow> ss_conn" where
  "newServerConn conn psk overhead sp =
     \<lparr>tcp = conn, accessAddr = None, preSharedKey = psk, clientSalt = [],
      saltSize = length psk, aeadWriter = None, nonceWriter = [], aeadReader = None,
      nonceReader = [], readerBuf = [], aeadOverhead = overhead, isClient = False,
      hasWriteFirstPayload = False, hasReadFirstPayload = False, serverSideSaltPool = sp\<rparr>"

definition maxPaddingLen :: nat where "maxPaddingLen = 900"
definition maxChunkSize :: nat where "maxChunkSize = 65535"
definition clientStreamHeaderType :: byte where "clientStreamHeaderType = 0"
definition serverStreamHeaderType :: byte where "serverStreamHeaderType = 1"
definition lenFieldSize :: nat where "lenFieldSize = 2"
definition typeWithTimestampSize :: nat where "typeWithTimestampSize = 1 + 8"
definition reqFixedLenHeaderSize :: nat where
  "reqFixedLenHeaderSize = typeWithTimestampSize + lenFieldSize"

lemmas ss_const_defs = maxPaddingLen_def maxChunkSize_def clientStreamHeaderType_def
  serverStreamHeaderType_def lenFieldSize_def typeWithTimestampSize_def reqFixedLenHeaderSize_def
  gcmTagOverhead_def

section \<open>Encryption in place\<close>

definition nonNil :: "'a option \<Rightarrow> 'a res" where
  "nonNil p = (case p of None \<Rightarrow> Inl (Panic ''nil pointer dereference'') | Some x \<Rightarrow> Inr x)"

definition get_conn :: "(ss_conn, ss_conn) io" where
  "get_conn c = (Inr c, c)"

definition modify_conn :: "(ss_conn \<Rightarrow> ss_conn) \<Rightarrow> (ss_conn, unit) io" where
  "modify_conn f c = (Inr (), f c)"

definition on_tcp_in :: "(reader, 'a) io \<Rightarrow> (ss_conn, 'a) io" where
  "on_tcp_in m = on_field tcp (\<lambda>t c. c\<lparr>tcp := t\<rparr>) (on_cin m)"

definition on_tcp_out :: "(writer, 'a) io \<Rightarrow> (ss_conn, 'a) io" where
  "on_tcp_out m = on_field tcp (\<lambda>t c. c\<lparr>tcp := t\<rparr>) (on_cout m)"

definition setAEADReader :: "bytes \<Rightarrow> ss_conn \<Rightarrow> ss_conn" where
  "setAEADReader aead c = c\<lparr>aeadReader := Some aead, nonceReader := replicate gcmNonceSize 0\<rparr>"

definition setAEADWriter :: "bytes \<Rightarrow> ss_conn \<Rightarrow> ss_conn" where
  "setAEADWriter aead c = c\<lparr>aeadWriter := Some aead, nonceWriter := replicate gcmNonceSize 0\<rparr>"

definition encryptInPlace :: "ss_crypto \<Rightarrow> bytes \<Rightarrow> (ss_conn, bytes) io" where
  "encryptInPlace env src c =
     (case aeadWriter c of
        None \<Rightarrow> (Inl (Panic ''nil pointer dereference''), c)
      | Some key \<Rightarrow> (Inr (Seal env key (nonceWriter c) src), c\<lparr>nonceWriter := incNonce (nonceWriter c)\<rparr>))"

definition decryptInPlace :: "ss_crypto \<Rightarrow> bytes \<Rightarrow> (ss_conn, bytes) io" where
  "decryptInPlace env src c =
     (case aeadReader c of
        None \<Rightarrow> (Inl (Panic ''nil pointer dereference''), c)
      | Some key \<Rightarrow>
          (case Open env key (nonceReader c) src of
             None \<Rightarrow> (Inl (ErrNew ''cipher: message authentication failed''), c)
           | Some p \<Rightarrow> (Inr p, c\<lparr>nonceReader := incNonce (nonceReader c)\<rparr>)))"

section \<open>The first payload of the client\<close>

text \<open>The lengths are converted with \<open>uint16\<close>, which truncates.\<close>

definition u16_of :: "nat \<Rightarrow> bytes" where
  "u16_of n = be16_put (of_nat n)"

definition writeClientFirstPayload :: "ss_crypto \<Rightarrow> ss_inputs \<Rightarrow> bytes \<Rightarrow> (ss_conn, unit) io" where
  "writeClientFirstPayload env inp payload =
     io_bind get_conn (\<lambda>c. io_bind (io_lift (nonNil (accessAddr c))) (\<lambda>addr.
       let payloadLen = length payload;
           paddingLen = (if payloadLen = 0 then in_padLen inp + 1 else 0);
           reqPaddingAndPayloadLen = (if payloadLen = 0 then paddingLen else payloadLen);
           reqPaddingOrPayloadStart = SOCKSLikeAddrSizeInBytes addr + lenFieldSize;
           reqVarLenHeaderLen = reqPaddingOrPayloadStart + reqPaddingAndPayloadLen;
           fixedHeader = [clientStreamHeaderType] @ unix_time_bytes (in_unix inp) @ u16_of reqVarLenHeaderLen
       in io_bind (io_lift (WriteSOCKSLikeAddr addr)) (\<lambda>addrBs.
       let varHeader = addrBs @ u16_of paddingLen
             @ (if payloadLen = 0 then in_padding inp paddingLen else payload)
       in io_bind (io_lift (aeadCipher env (preSharedKey c) (clientSalt c))) (\<lambda>clientAEAD.
          io_bind (modify_conn (setAEADWriter clientAEAD)) (\<lambda>_.
          io_bind (encryptInPlace env fixedHeader) (\<lambda>fixedEncrypted.
          io_bind (encryptInPlace env varHeader) (\<lambda>varEncrypted.
          on_tcp_out (WriteAll (clientSalt c @ fixedEncrypted @ varEncrypted)))))))))"

section \<open>The first payload of the server\<close>

definition writeServerFirstPayload :: "ss_crypto \<Rightarrow> ss_inputs \<Rightarrow> bytes \<Rightarrow> (ss_conn, unit) io" where
  "writeServerFirstPayload env inp payload =
     io_bind get_conn (\<lambda>c.
       let payloadLen = length payload;
           serverSalt = in_salt inp (length (preSharedKey c));
           fixedHeader = [serverStreamHeaderType] @ unix_time_bytes (in_unix inp)
             @ clientSalt c @ u16_of payloadLen
       in io_bind (io_lift (aeadCipher env (preSharedKey c) serverSalt)) (\<lambda>serverAEAD.
          io_bind (modify_conn (setAEADWriter serverAEAD)) (\<lambda>_.
          io_bind (encryptInPlace env fixedHeader) (\<lambda>fixedEncrypted.
          io_bind (encryptInPlace env payload) (\<lambda>payloadEncrypted.
          on_tcp_out (WriteAll (serverSalt @ fixedEncrypted @ payloadEncrypted)))))))"

section \<open>Writing\<close>

text \<open>One stream chunk, written with one \<open>Write\<close>.\<close>

definition write_chunk :: "ss_crypto \<Rightarrow> bytes \<Rightarrow> (ss_conn, unit) io" where
  "write_chunk env p =
     io_bind (encryptInPlace env (u16_of (length p))) (\<lambda>lenEncrypted.
     io_bind (encryptInPlace env p) (\<lambda>payloadEncrypted.
     on_tcp_out (WriteAll (lenEncrypted @ payloadEncrypted))))"

text \<open>The loop of \<open>ReadFrom\<close>: bytes read so far, the error, the source and the connection.\<close>

function ReadFrom_loop ::
  "ss_crypto \<Rightarrow> reader \<Rightarrow> nat \<Rightarrow> ss_conn \<Rightarrow> nat \<times> goerr option \<times> reader \<times> ss_conn" where
  "ReadFrom_loop env r n c =
     (case rd_read maxChunkSize r of (d, err, r') \<Rightarrow>
        (case (if d = [] then (Inr (), c) else write_chunk env d c) of
           (Inl werr, c') \<Rightarrow>
             (n + length d,
              errAppend (case err of None \<Rightarrow> None | Some e \<Rightarrow> if IsIoEof e then None else Some e) (Some werr),
              r', c')
         | (Inr _, c') \<Rightarrow>
             (case err of
                None \<Rightarrow> ReadFrom_loop env r' (n + length d) c'
              | Some e \<Rightarrow> (n + length d, if IsIoEof e then None else Some e, r', c'))))"
  by pat_completeness auto
termination
  by (relation "measure (\<lambda>(env, r, n, c). rd_left r)")
     (auto simp: maxChunkSize_def dest!: rd_read_progress [OF sym])

declare ReadFrom_loop.simps [simp del]

text \<open>
  The size of the buffer for the first payload; the slice expression panics when the address
  alone exceeds the chunk.
\<close>

definition maxFirstPayloadSize :: "ss_conn \<Rightarrow> nat res" where
  "maxFirstPayloadSize c =
     (if isClient c then
        (case nonNil (accessAddr c) of
           Inl e \<Rightarrow> Inl e
         | Inr addr \<Rightarrow>
             if maxChunkSize < SOCKSLikeAddrSizeInBytes addr + lenFieldSize
             then Inl (Panic ''slice bounds out of range'')
             else Inr (maxChunkSize - SOCKSLikeAddrSizeInBytes addr - lenFieldSize))
      else Inr maxChunkSize)"

definition ReadFrom ::
  "ss_crypto \<Rightarrow> ss_inputs \<Rightarrow> reader \<Rightarrow> ss_conn \<Rightarrow> nat \<times> goerr option \<times> reader \<times> ss_conn" where
  "ReadFrom env inp r c0 =
     (if hasWriteFirstPayload c0 then ReadFrom_loop env r 0 c0
      else (let c = c0\<lparr>hasWriteFirstPayload := True\<rparr> in
        case maxFirstPayloadSize c of
          Inl e \<Rightarrow> (0, Some e, r, c)
        | Inr sz \<Rightarrow>
            (case rd_read sz r of (d, err, r') \<Rightarrow>
               if (case err of None \<Rightarrow> False | Some e \<Rightarrow> \<not> IsIoEof e) then (length d, err, r', c)
               else (case (if isClient c then writeClientFirstPayload env inp d c
                           else writeServerFirstPayload env inp d c) of
                   (Inl werr, c') \<Rightarrow> (length d, Some werr, r', c')
                 | (Inr _, c') \<Rightarrow> ReadFrom_loop env r' (length d) c'))))"

text \<open>\<open>Write\<close> reads from a \<open>bytes.Reader\<close> over its argument.\<close>

definition bytes_Reader :: "bytes \<Rightarrow> reader" where
  "bytes_Reader p = \<lparr>segs = (if p = [] then [] else [p]), fin = EOF, glue = False\<rparr>"

definition ss_Write :: "ss_crypto \<Rightarrow> ss_inputs \<Rightarrow> bytes \<Rightarrow> ss_conn \<Rightarrow> nat \<times> goerr option \<times> ss_conn" where
  "ss_Write env inp p c = (case ReadFrom env inp (bytes_Reader p) c of (n, e, r, c') \<Rightarrow> (n, e, c'))"

section \<open>Reading\<close>

text \<open>
  Where the bytes of a read go: a buffer of \<open>n\<close> bytes (\<open>Read\<close>) or a writer (\<open>WriteTo\<close>). The
  result of a read is the bytes delivered (its count is their number), the error, the sink
  and the connection.
\<close>

datatype sink = Buf nat | Wr writer

type_synonym read_result = "bytes \<times> goerr option \<times> sink \<times> ss_conn"

definition copyReadPayload :: "nat \<Rightarrow> bytes \<Rightarrow> ss_conn \<Rightarrow> bytes \<times> ss_conn" where
  "copyReadPayload n payload c =
     (take n payload, if n < length payload then c\<lparr>readerBuf := drop n payload\<rparr> else c)"

definition copyReadPayloadEncrypted :: "ss_crypto \<Rightarrow> sink \<Rightarrow> nat \<Rightarrow> ss_conn \<Rightarrow> read_result" where
  "copyReadPayloadEncrypted env dst payloadLen c0 =
     (case io_bind (on_tcp_in (ReadFull (payloadLen + aeadOverhead c0))) (decryptInPlace env) c0 of
        (Inl e, c) \<Rightarrow> ([], Some e, dst, c)
      | (Inr payloadBs, c) \<Rightarrow>
          (case dst of
             Wr w \<Rightarrow>
               (case w_write (take payloadLen payloadBs) w of
                  (n, e, w') \<Rightarrow> (take n (take payloadLen payloadBs), e, Wr w', c))
           | Buf n \<Rightarrow>
               (case copyReadPayload n (take payloadLen payloadBs) c of
                  (d, c') \<Rightarrow> (d, None, dst, c'))))"

definition validateFixedHeaderAndReturnLen :: "ss_inputs \<Rightarrow> ss_conn \<Rightarrow> bytes \<Rightarrow> nat res" where
  "validateFixedHeaderAndReturnLen inp c hdr =
     (let streamHeaderType = (if isClient c then serverStreamHeaderType else clientStreamHeaderType) in
      if hd hdr \<noteq> streamHeaderType then Inl (ErrNew ''invalid stream header type'')
      else (case validateUnixTimeInRange (in_unix inp) (drop 1 hdr) of
        Inl e \<Rightarrow> Inl e
      | Inr _ \<Rightarrow>
          (let lenStart = (if isClient c then typeWithTimestampSize + saltSize c else typeWithTimestampSize) in
           if isClient c \<and> clientSalt c \<noteq> take (saltSize c) (drop typeWithTimestampSize hdr)
           then Inl (ErrNew ''incorrect client salt in response header'')
           else Inr (unat (be16_get (drop lenStart hdr))))))"

definition readServerHeader :: "ss_crypto \<Rightarrow> ss_inputs \<Rightarrow> (ss_conn, nat) io" where
  "readServerHeader env inp =
     io_bind (modify_conn (\<lambda>c. c\<lparr>hasReadFirstPayload := True\<rparr>)) (\<lambda>_.
     io_bind get_conn (\<lambda>c.
     io_bind (on_tcp_in (ReadOnceExpectFull (saltSize c + reqFixedLenHeaderSize + saltSize c + aeadOverhead c)))
       (\<lambda>bs.
     io_bind (io_lift (aeadCipher env (preSharedKey c) (take (saltSize c) bs))) (\<lambda>serverAEAD.
     io_bind (modify_conn (setAEADReader serverAEAD)) (\<lambda>_.
     io_bind (decryptInPlace env (drop (saltSize c) bs)) (\<lambda>hdr.
     io_lift (validateFixedHeaderAndReturnLen inp c hdr)))))))"

definition readServerFirstPayload :: "ss_crypto \<Rightarrow> ss_inputs \<Rightarrow> sink \<Rightarrow> ss_conn \<Rightarrow> read_result" where
  "readServerFirstPayload env inp dst c =
     (case readServerHeader env inp c of
        (Inl e, c') \<Rightarrow> ([], Some e, dst, c')
      | (Inr len, c') \<Rightarrow> copyReadPayloadEncrypted env dst len c')"

definition readOrWriteTo :: "ss_crypto \<Rightarrow> ss_inputs \<Rightarrow> sink \<Rightarrow> ss_conn \<Rightarrow> read_result" where
  "readOrWriteTo env inp dst c =
     (if isClient c \<and> \<not> hasReadFirstPayload c
      then readServerFirstPayload env inp dst (c\<lparr>hasReadFirstPayload := True\<rparr>)
      else if readerBuf c \<noteq> [] then
        (case dst of
           Wr w \<Rightarrow> (case w_write (readerBuf c) w of
               (n, e, w') \<Rightarrow> (take n (readerBuf c), e, Wr w', c\<lparr>readerBuf := drop n (readerBuf c)\<rparr>))
         | Buf n \<Rightarrow> (take n (readerBuf c), None, dst, c\<lparr>readerBuf := drop n (readerBuf c)\<rparr>))
      else
        (case io_bind (on_tcp_in (ReadN (lenFieldSize + aeadOverhead c))) (decryptInPlace env) c of
           (Inl e, c') \<Rightarrow> ([], Some e, dst, c')
         | (Inr lenBs, c') \<Rightarrow> copyReadPayloadEncrypted env dst (unat (be16_get lenBs)) c'))"

definition ss_Read :: "ss_crypto \<Rightarrow> ss_inputs \<Rightarrow> nat \<Rightarrow> ss_conn \<Rightarrow> bytes \<times> goerr option \<times> ss_conn" where
  "ss_Read env inp n c =
     (if n = 0 then ([], None, c)
      else (case readOrWriteTo env inp (Buf n) c of (d, e, dst, c') \<Rightarrow> (d, e, c')))"

text \<open>\<open>WriteTo\<close> reads chunk after chunk until one fails; the fuel bounds their number.\<close>

fun WriteTo :: "ss_crypto \<Rightarrow> ss_inputs \<Rightarrow> nat \<Rightarrow> nat \<Rightarrow> sink \<Rightarrow> ss_conn \<Rightarrow>
    (nat \<times> goerr option \<times> sink \<times> ss_conn) option" where
  "WriteTo env inp 0 n dst c = None"
| "WriteTo env inp (Suc k) n dst c =
     (case readOrWriteTo env inp dst c of
        (d, None, dst', c') \<Rightarrow> WriteTo env inp k (n + length d) dst' c'
      | (d, Some e, dst', c') \<Rightarrow> Some (n + length d, if IsIoEof e then None else Some e, dst', c'))"

section \<open>The server reads the request\<close>

text \<open>
  The body of \<open>readClientFirstPayload\<close>. The deferred function looks at the variable \<open>err\<close>,
  which the three checks that return a new error do not assign: the flag of the result says
  whether it is set.
\<close>

definition set_linger :: "bool \<Rightarrow> ss_conn \<Rightarrow> ss_conn" where
  "set_linger b c = (if b then c\<lparr>tcp := (tcp c)\<lparr>clinger0 := True\<rparr>\<rparr> else c)"

definition readClientFixed :: "ss_crypto \<Rightarrow> ss_inputs \<Rightarrow> bytes \<Rightarrow> (ss_conn, bytes) io" where
  "readClientFixed env inp bs =
     io_bind get_conn (\<lambda>c.
     io_bind (io_lift (aeadCipher env (preSharedKey c) (take (saltSize c) bs))) (\<lambda>clientAEAD.
     io_bind (modify_conn (setAEADReader clientAEAD)) (\<lambda>_.
     io_bind (decryptInPlace env (drop (saltSize c) bs)) (\<lambda>hdr.
     io_bind (io_lift (validateFixedHeaderAndReturnLen inp c hdr)) (\<lambda>len.
     io_bind (on_tcp_in (ReadFull (len + aeadOverhead c))) (decryptInPlace env))))))"

definition checkPadding :: "bytes \<Rightarrow> ss_conn \<Rightarrow> (unit res \<times> bool) \<times> ss_conn" where
  "checkPadding rest c =
     (if length rest \<le> lenFieldSize
      then ((Inl (ErrNew ''client payload and the padding length are both 0''), False), c)
      else (let paddingLen = unat (be16_get (take lenFieldSize rest)); remain = drop lenFieldSize rest in
        if length remain < paddingLen
        then ((Inl (ErrNew ''short padding in request header''), False), c)
        else ((Inr (), False), snd (copyReadPayload 0 (drop paddingLen remain) c))))"

definition readClientBody :: "ss_crypto \<Rightarrow> ss_inputs \<Rightarrow> ss_conn \<Rightarrow> (unit res \<times> bool) \<times> ss_conn" where
  "readClientBody env inp c0 =
     (case on_tcp_in (ReadOnceExpectFull (saltSize c0 + reqFixedLenHeaderSize + aeadOverhead c0)) c0 of
        (Inl e, c1) \<Rightarrow> ((Inl e, True), c1)
      | (Inr bs, c1) \<Rightarrow>
          (let salt = take (saltSize c0) bs;
               (fresh, sp) = checkAndAdd (in_nanos inp) salt (serverSideSaltPool c1);
               c2 = c1\<lparr>clientSalt := salt, serverSideSaltPool := sp\<rparr>
           in if \<not> fresh
              then ((Inl (ErrNew ''replay detected due to repeated salt found''), False), c2)
              else (case readClientFixed env inp bs c2 of
                (Inl e, c3) \<Rightarrow> ((Inl e, True), c3)
              | (Inr var, c3) \<Rightarrow>
                  (case ReadSOCKS5Address (mk_reader [var]) of
                     (Inl e, r) \<Rightarrow> ((Inl e, True), c3)
                   | (Inr addr, r) \<Rightarrow> checkPadding (contents r) (c3\<lparr>accessAddr := Some addr\<rparr>)))))"

definition readClientFirstPayload :: "ss_crypto \<Rightarrow> ss_inputs \<Rightarrow> (ss_conn, unit) io" where
  "readClientFirstPayload env inp c0 =
     (case readClientBody env inp (c0\<lparr>hasReadFirstPayload := True\<rparr>) of
        ((res, err), c) \<Rightarrow> (res, set_linger err c))"

section \<open>The wire format of the stream\<close>

definition chunk_enc :: "ss_crypto \<Rightarrow> bytes \<Rightarrow> bytes \<Rightarrow> bytes \<Rightarrow> bytes" where
  "chunk_enc env key nonce p =
     Seal env key nonce (u16_of (length p)) @ Seal env key (incNonce nonce) p"

fun enc_chunks :: "ss_crypto \<Rightarrow> bytes \<Rightarrow> bytes \<Rightarrow> bytes list \<Rightarrow> bytes" where
  "enc_chunks env key nonce [] = []"
| "enc_chunks env key nonce (p # ps) =
     chunk_enc env key nonce p @ enc_chunks env key (incNonce (incNonce nonce)) ps"

lemma length_u16_of [simp]: "length (u16_of n) = 2"
  by (simp add: u16_of_def)

lemma u16_of_inverse [simp]: "n \<le> 65535 \<Longrightarrow> unat (be16_get (u16_of n @ rest)) = n"
  by (simp add: u16_of_def unat_of_nat)

lemmas u16_of_inverse' [simp] = u16_of_inverse [where rest = "[]", simplified]

lemma crypto_okD:
  assumes "crypto_ok env"
  shows "Open env k n (Seal env k n p) = Some p" "length (Seal env k n p) = length p + 16"
    "length (blake3_DeriveKey env ctx m len) = len"
  using assms by (simp_all add: crypto_ok_def gcmTagOverhead_def)

subsection \<open>Sending\<close>

definition out_ok :: "ss_conn \<Rightarrow> bool" where
  "out_ok c = (wplan (cout (tcp c)) = [])"

definition ss_out :: "ss_conn \<Rightarrow> bytes" where
  "ss_out c = sent (cout (tcp c))"

text \<open>The connection after one more \<open>Write\<close> and the nonce increments of its seals.\<close>

definition send_st :: "bytes \<Rightarrow> nat \<Rightarrow> ss_conn \<Rightarrow> ss_conn" where
  "send_st bs k c = c\<lparr>tcp := (tcp c)\<lparr>cout := (cout (tcp c))\<lparr>wout := wout (cout (tcp c)) @ [bs]\<rparr>\<rparr>,
     nonceWriter := (incNonce ^^ k) (nonceWriter c)\<rparr>"

lemma send_st_simps [simp]:
  "ss_out (send_st bs k c) = ss_out c @ bs" "out_ok (send_st bs k c) = out_ok c"
  "aeadWriter (send_st bs k c) = aeadWriter c"
  "nonceWriter (send_st bs k c) = (incNonce ^^ k) (nonceWriter c)"
  by (simp_all add: send_st_def ss_out_def out_ok_def sent_def)

lemma conn_upd_simps [simp]:
  "out_ok (setAEADWriter k c) = out_ok c" "ss_out (setAEADWriter k c) = ss_out c"
  "aeadWriter (setAEADWriter k c) = Some k" "nonceWriter (setAEADWriter k c) = replicate gcmNonceSize 0"
  "out_ok (c\<lparr>hasWriteFirstPayload := b\<rparr>) = out_ok c" "ss_out (c\<lparr>hasWriteFirstPayload := b\<rparr>) = ss_out c"
  by (simp_all add: setAEADWriter_def out_ok_def ss_out_def)

lemma on_tcp_out_WriteAll:
  "out_ok c \<Longrightarrow> on_tcp_out (WriteAll bs) c = (Inr (), send_st bs 0 c)"
  by (simp add: on_tcp_out_def on_field_def on_cout_apply out_ok_def send_st_def)

lemma write_chunk_ok:
  assumes "aeadWriter c = Some key" "out_ok c"
  shows "write_chunk env p c = (Inr (), send_st (chunk_enc env key (nonceWriter c) p) 2 c)"
  using assms
  by (simp add: write_chunk_def io_bind_def encryptInPlace_def on_tcp_out_WriteAll out_ok_def
      send_st_def chunk_enc_def numeral_2_eq_2)

lemma ReadFrom_loop_sends:
  assumes "aeadWriter c = Some key" "out_ok c"
  shows "\<exists>chunks r' c'. ReadFrom_loop env r n c =
      (n + length (contents r), if IsIoEof (fin r) then None else Some (fin r), r', c')
    \<and> ss_out c' = ss_out c @ enc_chunks env key (nonceWriter c) chunks
    \<and> concat chunks = contents r \<and> (\<forall>p \<in> set chunks. p \<noteq> [] \<and> length p \<le> 65535) \<and> out_ok c'"
  using assms
proof (induction env r n c rule: ReadFrom_loop.induct)
  case (1 env r n c)
  obtain d err r1 where rd: "rd_read maxChunkSize r = (d, err, r1)" by (metis prod_cases3)
  note data = rd_read_data [OF rd]
  have len: "length d \<le> 65535" using data(3) by (simp add: maxChunkSize_def)
  define c1 where "c1 = (if d = [] then c else send_st (chunk_enc env key (nonceWriter c) d) 2 c)"
  define ds where "ds = (if d = [] then [] else [d])"
  have step: "(if d = [] then (Inr (), c) else write_chunk env d c) = (Inr (), c1)"
    using write_chunk_ok [OF 1(2,3)] by (simp add: c1_def)
  have c1: "aeadWriter c1 = Some key" "out_ok c1"
    "ss_out c1 @ enc_chunks env key (nonceWriter c1) ps =
       ss_out c @ enc_chunks env key (nonceWriter c) (ds @ ps)" for ps
    using 1(2,3) by (simp_all add: c1_def ds_def numeral_2_eq_2)
  show ?case
  proof (cases err)
    case None
    from 1(1) [OF rd [symmetric] refl step [symmetric] refl None c1(1,2)] obtain chunks r' c' where
      run: "ReadFrom_loop env r1 (n + length d) c1 =
        (n + length d + length (contents r1), if IsIoEof (fin r1) then None else Some (fin r1), r', c')"
      and res: "ss_out c' = ss_out c1 @ enc_chunks env key (nonceWriter c1) chunks"
      "concat chunks = contents r1" "\<forall>p \<in> set chunks. p \<noteq> [] \<and> length p \<le> 65535" "out_ok c'"
      by auto
    have "ReadFrom_loop env r n c =
        (n + length (contents r), if IsIoEof (fin r) then None else Some (fin r), r', c')"
      using rd step run None data by (simp add: ReadFrom_loop.simps [of env r n c])
    moreover have "ss_out c' = ss_out c @ enc_chunks env key (nonceWriter c) (ds @ chunks)"
      using res(1) c1(3) by simp
    moreover have "concat (ds @ chunks) = contents r" using res(2) data by (simp add: ds_def)
    moreover have "\<forall>p \<in> set (ds @ chunks). p \<noteq> [] \<and> length p \<le> 65535"
      using res(3) len by (simp add: ds_def)
    ultimately show ?thesis using res(4) by blast
  next
    case (Some e)
    with rd rd_read_error have e: "e = fin r" "contents r1 = []" by (fastforce simp: contents_def)+
    have "ReadFrom_loop env r n c =
        (n + length (contents r), if IsIoEof (fin r) then None else Some (fin r), r1, c1)"
      using rd step Some data e by (simp add: ReadFrom_loop.simps [of env r n c])
    moreover have "ss_out c1 = ss_out c @ enc_chunks env key (nonceWriter c) ds"
      using c1(3) [of "[]"] by simp
    moreover have "concat ds = contents r" using data e by (simp add: ds_def)
    moreover have "\<forall>p \<in> set ds. p \<noteq> [] \<and> length p \<le> 65535" using len by (simp add: ds_def)
    ultimately show ?thesis using c1(2) by blast
  qed
qed

subsection \<open>Receiving\<close>

text \<open>The connection after \<open>n\<close> bytes have been read and opened.\<close>

definition recv_st :: "nat \<Rightarrow> ss_conn \<Rightarrow> ss_conn" where
  "recv_st n c = c\<lparr>tcp := (tcp c)\<lparr>cin := rd_adv n (cin (tcp c))\<rparr>, nonceReader := incNonce (nonceReader c)\<rparr>"

definition ss_in :: "ss_conn \<Rightarrow> bytes" where
  "ss_in c = contents (cin (tcp c))"

lemma recv_st_simps [simp]:
  "n \<le> length (ss_in c) \<Longrightarrow> ss_in (recv_st n c) = drop n (ss_in c)"
  "aeadReader (recv_st n c) = aeadReader c" "nonceReader (recv_st n c) = incNonce (nonceReader c)"
  "readerBuf (recv_st n c) = readerBuf c" "aeadOverhead (recv_st n c) = aeadOverhead c"
  "isClient (recv_st n c) = isClient c" "hasReadFirstPayload (recv_st n c) = hasReadFirstPayload c"
  "fin (cin (tcp (recv_st n c))) = fin (cin (tcp c))" "accessAddr (recv_st n c) = accessAddr c"
  "clientSalt (recv_st n c) = clientSalt c" "saltSize (recv_st n c) = saltSize c"
  by (simp_all add: recv_st_def ss_in_def)

lemma on_tcp_in_apply:
  "on_tcp_in m c = (fst (m (cin (tcp c))), c\<lparr>tcp := (tcp c)\<lparr>cin := snd (m (cin (tcp c)))\<rparr>\<rparr>)"
  by (simp add: on_tcp_in_def on_field_def on_cin_apply split: prod.splits)

lemma recv_ok:
  assumes "crypto_ok env" "aeadReader c = Some key" "ss_in c = Seal env key (nonceReader c) x @ rest"
    "n = length x + 16"
  shows "io_bind (on_tcp_in (ReadFull n)) (decryptInPlace env) c = (Inr x, recv_st n c)"
    "io_bind (on_tcp_in (ReadN n)) (decryptInPlace env) c = (Inr x, recv_st n c)"
    "ss_in (recv_st n c) = rest"
proof -
  have c: "contents (cin (tcp c)) = Seal env key (nonceReader c) x @ rest"
    using assms(3) by (simp add: ss_in_def)
  then show "ss_in (recv_st n c) = rest"
    using assms crypto_okD by (simp add: ss_in_def recv_st_def)
  show "io_bind (on_tcp_in (ReadFull n)) (decryptInPlace env) c = (Inr x, recv_st n c)"
    using assms c crypto_okD [OF assms(1)]
    by (simp add: io_bind_def on_tcp_in_apply decryptInPlace_def recv_st_def)
  then show "io_bind (on_tcp_in (ReadN n)) (decryptInPlace env) c = (Inr x, recv_st n c)"
    by (simp add: ReadN_def [abs_def])
qed

text \<open>What is delivered to a sink, and what stays in the buffer.\<close>

definition deliver :: "sink \<Rightarrow> bytes \<Rightarrow> ss_conn \<Rightarrow> read_result" where
  "deliver dst p c =
     (case dst of
        Wr w \<Rightarrow> (case w_write p w of (n, e, w') \<Rightarrow> (take n p, e, Wr w', c))
      | Buf n \<Rightarrow> (take n p, None, dst, if n < length p then c\<lparr>readerBuf := drop n p\<rparr> else c))"

lemma copyReadPayloadEncrypted_ok:
  assumes "crypto_ok env" "aeadReader c = Some key" "ss_in c = Seal env key (nonceReader c) p @ rest"
    "aeadOverhead c = 16"
  shows "copyReadPayloadEncrypted env dst (length p) c = deliver dst p (recv_st (length p + 16) c)"
  using recv_ok(1) [OF assms(1-3) refl] assms(4)
  by (simp add: copyReadPayloadEncrypted_def deliver_def copyReadPayload_def split: sink.splits)

definition rx_ok :: "ss_crypto \<Rightarrow> ss_conn \<Rightarrow> bytes list \<Rightarrow> bool" where
  "rx_ok env c chunks \<longleftrightarrow> crypto_ok env \<and> aeadOverhead c = 16 \<and> (isClient c \<longrightarrow> hasReadFirstPayload c) \<and>
     (\<exists>key. aeadReader c = Some key \<and> ss_in c = enc_chunks env key (nonceReader c) chunks) \<and>
     (\<forall>p \<in> set chunks. length p \<le> 65535)"

lemma rx_chunk:
  assumes "rx_ok env c (p # ps)" "readerBuf c = []"
  shows "\<exists>c1. readOrWriteTo env inp dst c = deliver dst p c1 \<and> rx_ok env c1 ps \<and> readerBuf c1 = []
    \<and> fin (cin (tcp c1)) = fin (cin (tcp c)) \<and> length (ss_in c1) + length p < length (ss_in c)"
proof -
  from assms(1) obtain key where
    k: "crypto_ok env" "aeadOverhead c = 16" "isClient c \<longrightarrow> hasReadFirstPayload c" "aeadReader c = Some key"
    "\<forall>q \<in> set (p # ps). length q \<le> 65535" and
    data: "ss_in c = Seal env key (nonceReader c) (u16_of (length p)) @ Seal env key (incNonce (nonceReader c)) p @
      enc_chunks env key (incNonce (incNonce (nonceReader c))) ps"
    by (auto simp: rx_ok_def chunk_enc_def)
  let ?c = "recv_st 18 c"
  note one = recv_ok [OF k(1,4) data, of 18, simplified]
  have two: "ss_in ?c = Seal env key (nonceReader ?c) p @
      enc_chunks env key (incNonce (nonceReader ?c)) ps"
    using one(3) by simp
  have "readOrWriteTo env inp dst c = copyReadPayloadEncrypted env dst (length p) ?c"
    using one(2) k assms(2) by (auto simp: readOrWriteTo_def lenFieldSize_def)
  also have "\<dots> = deliver dst p (recv_st (length p + 16) ?c)"
    using copyReadPayloadEncrypted_ok [OF k(1) _ two] k by simp
  finally have run: "readOrWriteTo env inp dst c = deliver dst p (recv_st (length p + 16) ?c)" .
  have "ss_in (recv_st (length p + 16) ?c) = enc_chunks env key (incNonce (nonceReader ?c)) ps"
    using recv_ok(3) [OF k(1) _ two] k by simp
  then have "rx_ok env (recv_st (length p + 16) ?c) ps"
    using k by (simp add: rx_ok_def)
  with run show ?thesis
    using assms(2) data crypto_okD [OF k(1)]
    by (intro exI [of _ "recv_st (length p + 16) ?c"])
       (simp add: \<open>ss_in (recv_st (length p + 16) ?c) = _\<close>)
qed

lemma rx_buffer:
  "rx_ok env c ps \<Longrightarrow> readerBuf c \<noteq> [] \<Longrightarrow>
   readOrWriteTo env inp dst c =
     (case dst of
        Wr w \<Rightarrow> (case w_write (readerBuf c) w of
            (n, e, w') \<Rightarrow> (take n (readerBuf c), e, Wr w', c\<lparr>readerBuf := drop n (readerBuf c)\<rparr>))
      | Buf n \<Rightarrow> (take n (readerBuf c), None, dst, c\<lparr>readerBuf := drop n (readerBuf c)\<rparr>))"
  by (auto simp: rx_ok_def readOrWriteTo_def)

lemma rx_end:
  assumes "rx_ok env c []" "readerBuf c = []"
  shows "\<exists>c1. readOrWriteTo env inp dst c = ([], Some (fin (cin (tcp c))), dst, c1) \<and> rx_ok env c1 []
    \<and> readerBuf c1 = [] \<and> fin (cin (tcp c1)) = fin (cin (tcp c))"
proof -
  have "contents (cin (tcp c)) = []" using assms(1) by (auto simp: rx_ok_def ss_in_def)
  with assms show ?thesis
    by (auto simp: rx_ok_def readOrWriteTo_def io_bind_def on_tcp_in_apply ss_in_def lenFieldSize_def
        short_error_def rd_adv_short)
qed

lemma rx_ok_readerBuf [simp]: "rx_ok env (c\<lparr>readerBuf := b\<rparr>) ps = rx_ok env c ps"
  by (simp add: rx_ok_def ss_in_def)

section \<open>The connection as a byte source\<close>

text \<open>The plain bytes still to come: the buffer, then the chunks that open.\<close>

function dec_chunks :: "ss_crypto \<Rightarrow> bytes \<Rightarrow> bytes \<Rightarrow> bytes \<Rightarrow> bytes list" where
  "dec_chunks env key nonce bs =
     (if length bs < 18 then []
      else (case Open env key nonce (take 18 bs) of
        None \<Rightarrow> []
      | Some l \<Rightarrow>
          (let n = unat (be16_get l) + 16; rest = drop 18 bs in
           if length rest < n then []
           else (case Open env key (incNonce nonce) (take n rest) of
             None \<Rightarrow> []
           | Some p \<Rightarrow> p # dec_chunks env key (incNonce (incNonce nonce)) (drop n rest)))))"
  by pat_completeness auto
termination
  by (relation "measure (\<lambda>(env, key, nonce, bs). length bs)") auto

declare dec_chunks.simps [simp del]

lemma dec_enc_chunks:
  "crypto_ok env \<Longrightarrow> \<forall>p \<in> set ps. length p \<le> 65535 \<Longrightarrow>
   dec_chunks env key nonce (enc_chunks env key nonce ps) = ps"
proof (induction ps arbitrary: nonce)
  case Nil
  then show ?case by (simp add: dec_chunks.simps)
next
  case (Cons p ps)
  then show ?case
    using crypto_okD [OF Cons.prems(1)]
    by (subst dec_chunks.simps) (simp add: chunk_enc_def Let_def)
qed

definition ss_data :: "ss_crypto \<Rightarrow> ss_conn \<Rightarrow> bytes" where
  "ss_data env c =
     (case aeadReader c of
        None \<Rightarrow> []
      | Some key \<Rightarrow> readerBuf c @ concat (dec_chunks env key (nonceReader c) (ss_in c)))"

definition ss_ready :: "ss_crypto \<Rightarrow> ss_conn \<Rightarrow> bool" where
  "ss_ready env c = (\<exists>chunks. rx_ok env c chunks)"

lemma ss_data_rx: "rx_ok env c ps \<Longrightarrow> ss_data env c = readerBuf c @ concat ps"
  by (auto simp: ss_data_def rx_ok_def dec_enc_chunks)

lemma ss_Read_cases:
  assumes "rx_ok env c ps" "0 < n" "ss_Read env inp n c = (d, e, c')"
  shows "\<exists>ps'. rx_ok env c' ps' \<and> readerBuf c @ concat ps = d @ readerBuf c' @ concat ps' \<and>
    fin (cin (tcp c')) = fin (cin (tcp c)) \<and> length d \<le> n \<and>
    (case e of
       None \<Rightarrow> length (readerBuf c') + length (ss_in c') < length (readerBuf c) + length (ss_in c)
     | Some x \<Rightarrow> x = fin (cin (tcp c)) \<and> readerBuf c' = [] \<and> ps' = [])"
proof -
  have run: "ss_Read env inp n c =
      (case readOrWriteTo env inp (Buf n) c of (d, e, dst, c') \<Rightarrow> (d, e, c'))"
    using assms(2) by (simp add: ss_Read_def)
  show ?thesis
  proof (cases "readerBuf c = []")
    case False
    with rx_buffer [OF assms(1) False, of inp "Buf n"] run assms
    have "c' = c\<lparr>readerBuf := drop n (readerBuf c)\<rparr>" "d = take n (readerBuf c)" "e = None" by auto
    with assms False show ?thesis by (intro exI [of _ ps]) (simp add: ss_in_def)
  next
    case empty: True
    show ?thesis
    proof (cases ps)
      case Nil
      with rx_end [of env c inp "Buf n"] assms(1) empty obtain c1 where
        "readOrWriteTo env inp (Buf n) c = ([], Some (fin (cin (tcp c))), Buf n, c1)" "rx_ok env c1 []"
        "readerBuf c1 = []" "fin (cin (tcp c1)) = fin (cin (tcp c))" by blast
      with run assms(3) Nil empty show ?thesis by auto
    next
      case (Cons p qs)
      with rx_chunk [of env c p qs inp "Buf n"] assms(1) empty obtain c1 where
        "readOrWriteTo env inp (Buf n) c = deliver (Buf n) p c1" "rx_ok env c1 qs" "readerBuf c1 = []"
        "fin (cin (tcp c1)) = fin (cin (tcp c))" "length (ss_in c1) + length p < length (ss_in c)"
        by blast
      with run assms(3) Cons empty show ?thesis
        by (intro exI [of _ qs]) (auto simp: deliver_def ss_in_def split: if_splits)
    qed
  qed
qed

lemma ss_Read_source:
  assumes "ss_ready env c" "0 < n" "ss_Read env inp n c = (d, e, c')"
  shows "ss_ready env c'" "ss_data env c = d @ ss_data env c'" "fin (cin (tcp c')) = fin (cin (tcp c))"
    "length d \<le> n" "e = Some x \<Longrightarrow> x = fin (cin (tcp c)) \<and> ss_data env c' = []"
    "e = None \<Longrightarrow> length (readerBuf c') + length (ss_in c') < length (readerBuf c) + length (ss_in c)"
proof -
  from assms(1) obtain ps where ps: "rx_ok env c ps" by (auto simp: ss_ready_def)
  from ss_Read_cases [OF this assms(2,3)] obtain qs where qs: "rx_ok env c' qs"
    "readerBuf c @ concat ps = d @ readerBuf c' @ concat qs" "fin (cin (tcp c')) = fin (cin (tcp c))"
    "length d \<le> n" and cs: "(case e of
       None \<Rightarrow> length (readerBuf c') + length (ss_in c') < length (readerBuf c) + length (ss_in c)
     | Some x \<Rightarrow> x = fin (cin (tcp c)) \<and> readerBuf c' = [] \<and> qs = [])" by blast
  show "ss_ready env c'" using qs(1) by (auto simp: ss_ready_def)
  show "ss_data env c = d @ ss_data env c'" using qs(2) by (simp add: ss_data_rx [OF ps] ss_data_rx [OF qs(1)])
  show "fin (cin (tcp c')) = fin (cin (tcp c))" "length d \<le> n" using qs(3,4) by simp_all
  show "e = Some x \<Longrightarrow> x = fin (cin (tcp c)) \<and> ss_data env c' = []"
    using cs by (simp add: ss_data_rx [OF qs(1)])
  show "e = None \<Longrightarrow> length (readerBuf c') + length (ss_in c') < length (readerBuf c) + length (ss_in c)"
    using cs by simp
qed

interpretation ss: byte_source "ss_Read env inp" "ss_data env" "\<lambda>c. fin (cin (tcp c))"
  "\<lambda>c. length (readerBuf c) + length (ss_in c)" "ss_ready env" for env inp
  by unfold_locales (blast dest: ss_Read_source)+

text \<open>\<open>WriteTo\<close> hands the writer everything that is left, and needs no more turns than there are bytes.\<close>

lemma WriteTo_delivers:
  assumes "rx_ok env c ps" "wplan w = []" "length (readerBuf c) + length (ss_in c) < k"
  shows "\<exists>w' c'. WriteTo env inp k n (Wr w) c =
      Some (n + length (ss_data env c),
        if IsIoEof (fin (cin (tcp c))) then None else Some (fin (cin (tcp c))), Wr w', c')
    \<and> sent w' = sent w @ ss_data env c"
  using assms
proof (induction k arbitrary: c ps w n)
  case 0
  then show ?case by simp
next
  case (Suc k)
  show ?case
  proof (cases "readerBuf c = []")
    case False
    let ?c = "c\<lparr>readerBuf := []\<rparr>"
    let ?w = "w\<lparr>wout := wout w @ [readerBuf c]\<rparr>"
    have "rx_ok env ?c ps" using Suc.prems(1) by simp
    moreover have "length (readerBuf ?c) + length (ss_in ?c) < k" using Suc.prems(3) False
      by (cases "readerBuf c") (simp_all add: ss_in_def)
    ultimately have "\<exists>w' c'. WriteTo env inp k (n + length (readerBuf c)) (Wr ?w) ?c =
        Some (n + length (readerBuf c) + length (ss_data env ?c),
          if IsIoEof (fin (cin (tcp ?c))) then None else Some (fin (cin (tcp ?c))), Wr w', c')
        \<and> sent w' = sent ?w @ ss_data env ?c"
      using Suc.prems(2) by (intro Suc.IH) simp_all
    with rx_buffer [OF Suc.prems(1) False, of inp "Wr w"] Suc.prems(1,2) show ?thesis
      by (auto simp: ss_data_rx sent_def)
  next
    case empty: True
    show ?thesis
    proof (cases ps)
      case Nil
      with rx_end [of env c inp "Wr w"] Suc.prems(1) empty obtain c1 where
        "readOrWriteTo env inp (Wr w) c = ([], Some (fin (cin (tcp c))), Wr w, c1)" by blast
      with Suc.prems(1) Nil empty show ?thesis by (auto simp: ss_data_rx)
    next
      case (Cons p qs)
      with rx_chunk [of env c p qs inp "Wr w"] Suc.prems(1) empty obtain c1 where
        c1: "readOrWriteTo env inp (Wr w) c = deliver (Wr w) p c1" "rx_ok env c1 qs" "readerBuf c1 = []"
        "fin (cin (tcp c1)) = fin (cin (tcp c))" "length (ss_in c1) + length p < length (ss_in c)"
        by blast
      let ?w = "w\<lparr>wout := wout w @ [p]\<rparr>"
      have "\<exists>w' c'. WriteTo env inp k (n + length p) (Wr ?w) c1 =
          Some (n + length p + length (ss_data env c1),
            if IsIoEof (fin (cin (tcp c1))) then None else Some (fin (cin (tcp c1))), Wr w', c')
          \<and> sent w' = sent ?w @ ss_data env c1"
        using c1 Suc.prems(2,3) by (intro Suc.IH) simp_all
      with c1 Suc.prems(1,2) Cons empty show ?thesis
        by (auto simp: ss_data_rx sent_def deliver_def)
    qed
  qed
qed

section \<open>The first request\<close>

definition first_read_ok :: "nat \<Rightarrow> reader \<Rightarrow> bool" where
  "first_read_ok n r =
     (case segs r of
        [] \<Rightarrow> False
      | d # ds \<Rightarrow> n \<le> length d \<and> \<not> (ds = [] \<and> glue r \<and> length d = n))"

lemma ReadOnceExpectFull_ok:
  assumes "first_read_ok n r" "0 < n"
  shows "\<exists>r'. ReadOnceExpectFull n r = (Inr (take n (contents r)), r') \<and> contents r' = drop n (contents r)
    \<and> fin r' = fin r"
proof -
  from assms(1) obtain d ds where d: "segs r = d # ds" "n \<le> length d" "\<not> (ds = [] \<and> glue r \<and> length d = n)"
    by (auto simp: first_read_ok_def split: list.splits)
  from ReadOnceExpectFull_first_seg [OF assms(2) d] d show ?thesis by (simp add: contents_def)
qed

text \<open>What two peers agree on: the key, clocks at most 30 seconds apart, and the cryptography.\<close>

definition ss_peers :: "ss_crypto \<Rightarrow> bytes \<Rightarrow> ss_inputs \<Rightarrow> ss_inputs \<Rightarrow> bool" where
  "ss_peers env psk inp inp' \<longleftrightarrow> crypto_ok env \<and> length psk \<in> {16, 24, 32} \<and>
     0 \<le> in_unix inp \<and> in_unix inp < 2 ^ 63 \<and> 0 \<le> in_unix inp' \<and> in_unix inp' < 2 ^ 63 \<and>
     \<bar>in_unix inp - in_unix inp'\<bar> \<le> 30"

definition var_header :: "ss_inputs \<Rightarrow> bytes \<Rightarrow> bytes \<Rightarrow> bytes" where
  "var_header inp ab payload =
     (let pad = (if payload = [] then in_padLen inp + 1 else 0)
      in ab @ u16_of pad @ (if payload = [] then in_padding inp pad else payload))"

definition zero_nonce :: bytes where
  "zero_nonce = replicate gcmNonceSize 0"

definition req_bytes :: "ss_crypto \<Rightarrow> ss_inputs \<Rightarrow> bytes \<Rightarrow> bytes \<Rightarrow> bytes \<Rightarrow> bytes" where
  "req_bytes env inp key salt var =
     salt @ Seal env key zero_nonce ([clientStreamHeaderType] @ unix_time_bytes (in_unix inp) @ u16_of (length var))
       @ Seal env key (incNonce zero_nonce) var"

lemma aeadCipher_ok:
  "crypto_ok env \<Longrightarrow> length psk \<in> {16, 24, 32} \<Longrightarrow> aeadCipher env psk salt = Inr (deriveSubkey env psk salt)"
  using crypto_okD(3) by (auto simp: aeadCipher_def deriveSubkey_def Let_def)

definition padding_ok :: "ss_inputs \<Rightarrow> bool" where
  "padding_ok inp \<longleftrightarrow> in_padLen inp < maxPaddingLen \<and> (\<forall>n. length (in_padding inp n) = n)"

lemma writeClientFirstPayload_ok:
  assumes "crypto_ok env" "length (preSharedKey c) \<in> {16, 24, 32}" "out_ok c" "accessAddr c = Some a"
    "wf_addr a" "WriteSOCKSLikeAddr a = Inr ab" "padding_ok inp"
  defines "key \<equiv> deriveSubkey env (preSharedKey c) (clientSalt c)"
  shows "writeClientFirstPayload env inp payload c =
    (Inr (), send_st (req_bytes env inp key (clientSalt c) (var_header inp ab payload)) 2 (setAEADWriter key c))"
proof -
  have ok: "out_ok (c\<lparr>aeadWriter := x, nonceWriter := y\<rparr>)" for x y
    using assms(3) by (simp add: out_ok_def)
  have pad: "length (in_padding inp n) = n" for n using assms(7) by (simp add: padding_ok_def)
  have size: "SOCKSLikeAddrSizeInBytes a = length ab" using Write_size [OF assms(5,6)] by simp
  show ?thesis
    using assms(4,6) aeadCipher_ok [OF assms(1,2), of "clientSalt c"]
    by (cases "payload = []")
       (simp_all add: writeClientFirstPayload_def io_bind_def get_conn_def nonNil_def modify_conn_def
        encryptInPlace_def setAEADWriter_def Let_def on_tcp_out_WriteAll ok key_def [symmetric] size
        send_st_def req_bytes_def zero_nonce_def var_header_def numeral_2_eq_2 lenFieldSize_def pad)
qed

lemma client_ReadFrom_sends:
  assumes "crypto_ok env" "length (preSharedKey c) \<in> {16, 24, 32}" "out_ok c" "accessAddr c = Some a"
    "wf_addr a" "length (sa_Domain a) \<le> 255" "WriteSOCKSLikeAddr a = Inr ab" "padding_ok inp"
    "isClient c" "\<not> hasWriteFirstPayload c" "ReadFrom env inp r c = (n, err, r', c')" "fin r = EOF"
  defines "key \<equiv> deriveSubkey env (preSharedKey c) (clientSalt c)"
  shows "\<exists>payload chunks. ss_out c' = ss_out c @ req_bytes env inp key (clientSalt c) (var_header inp ab payload)
      @ enc_chunks env key (incNonce (incNonce zero_nonce)) chunks
    \<and> payload @ concat chunks = contents r \<and> length (var_header inp ab payload) \<le> 65535
    \<and> (\<forall>p \<in> set chunks. p \<noteq> [] \<and> length p \<le> 65535) \<and> n = length (contents r) \<and> err = None"
proof -
  let ?c = "c\<lparr>hasWriteFirstPayload := True\<rparr>"
  define sz where "sz = maxChunkSize - SOCKSLikeAddrSizeInBytes a - lenFieldSize"
  have small: "SOCKSLikeAddrSizeInBytes a \<le> 259"
    using assms(6) by (simp add: SOCKSLikeAddrSizeInBytes_def split: AddrType.splits)
  then have sz: "maxFirstPayloadSize ?c = Inr sz"
    using assms(4,9) by (simp add: maxFirstPayloadSize_def nonNil_def sz_def ss_const_defs)
  obtain payload e r1 where rd: "rd_read sz r = (payload, e, r1)" by (metis prod_cases3)
  note data = rd_read_data [OF rd]
  define c1 where "c1 = send_st (req_bytes env inp key (clientSalt c) (var_header inp ab payload)) 2
    (setAEADWriter key ?c)"
  have wr: "writeClientFirstPayload env inp payload ?c = (Inr (), c1)"
    using writeClientFirstPayload_ok [of env ?c a ab inp payload] assms
    by (simp add: c1_def key_def out_ok_def)
  have c1: "aeadWriter c1 = Some key" "out_ok c1" "nonceWriter c1 = incNonce (incNonce zero_nonce)"
    "ss_out c1 = ss_out c @ req_bytes env inp key (clientSalt c) (var_header inp ab payload)"
    using assms(3) by (simp_all add: c1_def zero_nonce_def numeral_2_eq_2)
  from ReadFrom_loop_sends [OF c1(1,2), of env r1 "length payload"] obtain chunks r2 c2 where
    run: "ReadFrom_loop env r1 (length payload) c1 = (length payload + length (contents r1),
        if IsIoEof (fin r1) then None else Some (fin r1), r2, c2)"
    and res: "ss_out c2 = ss_out c1 @ enc_chunks env key (nonceWriter c1) chunks" "concat chunks = contents r1"
      "\<forall>p \<in> set chunks. p \<noteq> [] \<and> length p \<le> 65535" by blast
  have "ReadFrom env inp r c =
      (if (case e of None \<Rightarrow> False | Some e \<Rightarrow> \<not> IsIoEof e) then (length payload, e, r1, ?c)
       else ReadFrom_loop env r1 (length payload) c1)"
    using assms(9,10) sz rd wr by (simp add: ReadFrom_def)
  moreover have "case e of None \<Rightarrow> True | Some x \<Rightarrow> IsIoEof x"
    using rd assms(12) by (cases e) (auto simp: IsIoEof_def dest!: rd_read_error(1))
  ultimately have c': "c' = c2" "n = length payload + length (contents r1)" "err = None"
    using assms(11,12) run data(2) by (auto simp: IsIoEof_def split: if_splits option.splits)
  have "length ab = SOCKSLikeAddrSizeInBytes a" using Write_size [OF assms(5,7)] .
  moreover have "length payload + SOCKSLikeAddrSizeInBytes a \<le> 65533"
    using data(3) small unfolding sz_def ss_const_defs by arith
  ultimately have "length (var_header inp ab payload) \<le> 65535"
    using small assms(8)
    by (simp add: var_header_def padding_ok_def maxPaddingLen_def Let_def)
  with res c1 c' data show ?thesis
    by (intro exI [of _ payload] exI [of _ chunks]) simp
qed

lemma checkPadding_ok:
  assumes "padding_ok inp" "readerBuf c = []"
  shows "checkPadding (u16_of (if payload = [] then in_padLen inp + 1 else 0) @
      (if payload = [] then in_padding inp (in_padLen inp + 1) else payload)) c =
    ((Inr (), False), c\<lparr>readerBuf := payload\<rparr>)"
proof -
  have "length (in_padding inp (in_padLen inp + 1)) = in_padLen inp + 1"
    using assms(1) by (simp add: padding_ok_def)
  then have "in_padding inp (in_padLen inp + 1) \<noteq> []" by auto
  with assms show ?thesis
    by (auto simp: checkPadding_def padding_ok_def lenFieldSize_def Let_def copyReadPayload_def maxPaddingLen_def)
qed

lemma validate_request:
  assumes "ss_peers env psk inp inp'" "\<not> isClient c" "n \<le> 65535"
  shows "validateFixedHeaderAndReturnLen inp' c
    ([clientStreamHeaderType] @ unix_time_bytes (in_unix inp) @ u16_of n) = Inr n"
proof -
  have len: "length (unix_time_bytes (in_unix inp)) = 8" by (simp add: unix_time_bytes_def)
  have "validateUnixTimeInRange (in_unix inp') (unix_time_bytes (in_unix inp) @ u16_of n) = Inr ()"
    using assms(1) by (intro validate_unix_time_bytes) (auto simp: ss_peers_def)
  with assms len show ?thesis
    by (simp add: validateFixedHeaderAndReturnLen_def Let_def typeWithTimestampSize_def)
qed

text \<open>The server on the other end of such a request.\<close>

lemma server_reads_request:
  assumes peers: "ss_peers env psk inp inp'" and pad: "padding_ok inp"
    and addr: "wire_addr a" "WriteSOCKSLikeAddr a = Inr ab"
    and len: "length (var_header inp ab payload) \<le> 65535" "length salt = length psk"
    and s: "s = newServerConn nc psk 16 sp"
    and seg: "first_read_ok (length psk + 27) (cin nc)"
    and data: "contents (cin nc) = req_bytes env inp (deriveSubkey env psk salt) salt (var_header inp ab payload) @ rest"
    and fresh: "fst (checkAndAdd (in_nanos inp') salt sp)"
  shows "\<exists>s'. readClientFirstPayload env inp' s = (Inr (), s') \<and> accessAddr s' = Some a \<and>
    readerBuf s' = payload \<and> aeadReader s' = Some (deriveSubkey env psk salt) \<and>
    nonceReader s' = incNonce (incNonce zero_nonce) \<and> ss_in s' = rest \<and> aeadOverhead s' = 16 \<and>
    \<not> isClient s' \<and> fin (cin (tcp s')) = fin (cin nc) \<and> clientSalt s' = salt \<and>
    preSharedKey s' = psk \<and> saltSize s' = length psk \<and> cout (tcp s') = cout nc \<and>
    hasWriteFirstPayload s' = False"
proof -
  define key where "key = deriveSubkey env psk salt"
  define var where "var = var_header inp ab payload"
  define fixed where "fixed = [clientStreamHeaderType] @ unix_time_bytes (in_unix inp) @ u16_of (length var)"
  have env: "crypto_ok env" and psk: "length psk \<in> {16, 24, 32}" using peers by (simp_all add: ss_peers_def)
  have lf: "length fixed = 11" by (simp add: fixed_def unix_time_bytes_def)
  let ?S = "Seal env key zero_nonce fixed"
  have lS: "length ?S = 27" using crypto_okD(2) [OF env] lf by simp
  have c: "contents (cin nc) = (salt @ ?S) @ Seal env key (incNonce zero_nonce) var @ rest"
    using data by (simp add: req_bytes_def key_def fixed_def var_def)
  from ReadOnceExpectFull_ok [OF seg] obtain r1 where
    r1: "ReadOnceExpectFull (length psk + 27) (cin nc) = (Inr (salt @ ?S), r1)"
    "contents r1 = Seal env key (incNonce zero_nonce) var @ rest" "fin r1 = fin (cin nc)"
    using c lS len(2) by auto
  obtain sp' where sp': "checkAndAdd (in_nanos inp') salt sp = (True, sp')"
    using fresh by (metis prod.collapse eq_fst_iff)
  let ?c1 = "s\<lparr>hasReadFirstPayload := True, tcp := nc\<lparr>cin := r1\<rparr>, clientSalt := salt, serverSideSaltPool := sp'\<rparr>"
  let ?c2 = "?c1\<lparr>aeadReader := Some key, nonceReader := incNonce zero_nonce\<rparr>"
  have cipher: "aeadCipher env psk salt = Inr key" using aeadCipher_ok [OF env psk] by (simp add: key_def)
  have "\<not> isClient ?c1" by (simp add: s newServerConn_def)
  then have val: "validateFixedHeaderAndReturnLen inp' ?c1 fixed = Inr (length var)"
    using validate_request [OF peers] len(1) by (simp add: fixed_def var_def)
  have recv: "io_bind (on_tcp_in (ReadFull (length var + 16))) (decryptInPlace env) ?c2 =
      (Inr var, recv_st (length var + 16) ?c2)" "ss_in (recv_st (length var + 16) ?c2) = rest"
    using recv_ok [OF env, of ?c2 key var rest "length var + 16"] r1(2) by (simp_all add: ss_in_def)
  have fixedrun: "readClientFixed env inp' (salt @ ?S) ?c1 = (Inr var, recv_st (length var + 16) ?c2)"
    using cipher val recv(1) len(2) crypto_okD(1) [OF env]
    by (simp add: readClientFixed_def io_bind_def get_conn_def modify_conn_def setAEADReader_def s newServerConn_def
        decryptInPlace_def zero_nonce_def [symmetric])
  let ?tail = "u16_of (if payload = [] then in_padLen inp + 1 else 0) @
      (if payload = [] then in_padding inp (in_padLen inp + 1) else payload)"
  have "contents (mk_reader [var]) = ab @ ?tail" by (simp add: var_def var_header_def Let_def)
  from Read_Write_addr [OF addr this] obtain r2 where
    ra: "ReadSOCKS5Address (mk_reader [var]) = (Inr a, r2)" "contents r2 = ?tail" by blast
  let ?c3 = "(recv_st (length var + 16) ?c2)\<lparr>accessAddr := Some a\<rparr>"
  have cp: "checkPadding ?tail ?c3 = ((Inr (), False), ?c3\<lparr>readerBuf := payload\<rparr>)"
    by (rule checkPadding_ok [OF pad]) (simp add: recv_st_def s newServerConn_def)
  have sf: "saltSize s = length psk" "aeadOverhead s = 16" "tcp s = nc" "serverSideSaltPool s = sp"
    "length psk + reqFixedLenHeaderSize + 16 = length psk + 27"
    by (simp_all add: s newServerConn_def ss_const_defs)
  have "readClientBody env inp' (s\<lparr>hasReadFirstPayload := True\<rparr>) = ((Inr (), False), ?c3\<lparr>readerBuf := payload\<rparr>)"
    using sp' fixedrun ra cp len(2)
    by (simp add: readClientBody_def on_tcp_in_apply sf r1(1) Let_def del: add.commute)
  then have "readClientFirstPayload env inp' s = (Inr (), ?c3\<lparr>readerBuf := payload\<rparr>)"
    by (simp add: readClientFirstPayload_def set_linger_def)
  moreover have "fin (cin (tcp (?c3\<lparr>readerBuf := payload\<rparr>))) = fin (cin nc)"
    using r1(3) by (simp add: recv_st_def)
  ultimately show ?thesis
    using recv(2) by (simp add: ss_in_def key_def) (simp add: recv_st_def s newServerConn_def)
qed

section \<open>The first response\<close>

definition resp_bytes :: "ss_crypto \<Rightarrow> ss_inputs \<Rightarrow> bytes \<Rightarrow> bytes \<Rightarrow> bytes \<Rightarrow> bytes \<Rightarrow> bytes" where
  "resp_bytes env inp key serverSalt reqSalt payload =
     serverSalt @ Seal env key zero_nonce
        ([serverStreamHeaderType] @ unix_time_bytes (in_unix inp) @ reqSalt @ u16_of (length payload))
       @ Seal env key (incNonce zero_nonce) payload"

lemma writeServerFirstPayload_ok:
  fixes inp :: ss_inputs
  assumes "crypto_ok env" "length (preSharedKey c) \<in> {16, 24, 32}" "out_ok c"
  defines "serverSalt \<equiv> in_salt inp (length (preSharedKey c))"
  defines "key \<equiv> deriveSubkey env (preSharedKey c) serverSalt"
  shows "writeServerFirstPayload env inp payload c =
    (Inr (), send_st (resp_bytes env inp key serverSalt (clientSalt c) payload) 2 (setAEADWriter key c))"
proof -
  have ok: "out_ok (c\<lparr>aeadWriter := x, nonceWriter := y\<rparr>)" for x y
    using assms(3) by (simp add: out_ok_def)
  show ?thesis
    using aeadCipher_ok [OF assms(1,2), of serverSalt]
    by (simp add: writeServerFirstPayload_def io_bind_def get_conn_def modify_conn_def encryptInPlace_def
        setAEADWriter_def Let_def on_tcp_out_WriteAll ok key_def [symmetric] serverSalt_def [symmetric]
        send_st_def resp_bytes_def zero_nonce_def numeral_2_eq_2)
qed

lemma server_ReadFrom_sends:
  assumes "crypto_ok env" "length (preSharedKey c) \<in> {16, 24, 32}" "out_ok c"
    "\<not> isClient c" "\<not> hasWriteFirstPayload c" "ReadFrom env inp r c = (n, err, r', c')" "fin r = EOF"
  defines "serverSalt \<equiv> in_salt inp (length (preSharedKey c))"
  defines "key \<equiv> deriveSubkey env (preSharedKey c) serverSalt"
  shows "\<exists>payload chunks. ss_out c' = ss_out c @ resp_bytes env inp key serverSalt (clientSalt c) payload
      @ enc_chunks env key (incNonce (incNonce zero_nonce)) chunks
    \<and> payload @ concat chunks = contents r \<and> length payload \<le> 65535
    \<and> (\<forall>p \<in> set chunks. p \<noteq> [] \<and> length p \<le> 65535) \<and> n = length (contents r) \<and> err = None"
proof -
  let ?c = "c\<lparr>hasWriteFirstPayload := True\<rparr>"
  obtain payload e r1 where rd: "rd_read maxChunkSize r = (payload, e, r1)" by (metis prod_cases3)
  note data = rd_read_data [OF rd]
  define c1 where "c1 = send_st (resp_bytes env inp key serverSalt (clientSalt c) payload) 2 (setAEADWriter key ?c)"
  have wr: "writeServerFirstPayload env inp payload ?c = (Inr (), c1)"
    using writeServerFirstPayload_ok [of env ?c inp payload] assms
    by (simp add: c1_def key_def serverSalt_def)
  have c1: "aeadWriter c1 = Some key" "out_ok c1" "nonceWriter c1 = incNonce (incNonce zero_nonce)"
    "ss_out c1 = ss_out c @ resp_bytes env inp key serverSalt (clientSalt c) payload"
    using assms(3) by (simp_all add: c1_def zero_nonce_def numeral_2_eq_2)
  from ReadFrom_loop_sends [OF c1(1,2), of env r1 "length payload"] obtain chunks r2 c2 where
    run: "ReadFrom_loop env r1 (length payload) c1 = (length payload + length (contents r1),
        if IsIoEof (fin r1) then None else Some (fin r1), r2, c2)"
    and res: "ss_out c2 = ss_out c1 @ enc_chunks env key (nonceWriter c1) chunks" "concat chunks = contents r1"
      "\<forall>p \<in> set chunks. p \<noteq> [] \<and> length p \<le> 65535" by blast
  have "ReadFrom env inp r c =
      (if (case e of None \<Rightarrow> False | Some e \<Rightarrow> \<not> IsIoEof e) then (length payload, e, r1, ?c)
       else ReadFrom_loop env r1 (length payload) c1)"
    using assms(4,5) rd wr by (simp add: ReadFrom_def maxFirstPayloadSize_def)
  moreover have "case e of None \<Rightarrow> True | Some x \<Rightarrow> IsIoEof x"
    using rd assms(7) by (cases e) (auto simp: IsIoEof_def dest!: rd_read_error(1))
  ultimately have c': "c' = c2" "n = length payload + length (contents r1)" "err = None"
    using assms(6,7) run data(2) by (auto simp: IsIoEof_def split: if_splits option.splits)
  with res c1 data show ?thesis
    by (intro exI [of _ payload] exI [of _ chunks]) (simp add: maxChunkSize_def)
qed

lemma validate_response:
  assumes "ss_peers env psk inp inp'" "isClient c" "n \<le> 65535" "saltSize c = length (clientSalt c)"
  shows "validateFixedHeaderAndReturnLen inp' c
    ([serverStreamHeaderType] @ unix_time_bytes (in_unix inp) @ clientSalt c @ u16_of n) = Inr n"
proof -
  have len: "length (unix_time_bytes (in_unix inp)) = 8" by (simp add: unix_time_bytes_def)
  have "validateUnixTimeInRange (in_unix inp') (unix_time_bytes (in_unix inp) @ clientSalt c @ u16_of n) = Inr ()"
    using assms(1) by (intro validate_unix_time_bytes) (auto simp: ss_peers_def)
  moreover have "drop (9 + length (clientSalt c)) (serverStreamHeaderType #
      unix_time_bytes (in_unix inp) @ clientSalt c @ u16_of n) = u16_of n"
    using len by (simp add: drop_Cons')
  ultimately show ?thesis
    using assms len by (simp add: validateFixedHeaderAndReturnLen_def Let_def typeWithTimestampSize_def)
qed

lemma client_reads_response:
  assumes peers: "ss_peers env psk inp inp'"
    and c: "isClient c" "\<not> hasReadFirstPayload c" "preSharedKey c = psk" "length (clientSalt c) = length psk"
      "saltSize c = length psk" "aeadOverhead c = 16" "readerBuf c = []"
    and salt: "length serverSalt = length psk" and len: "length payload \<le> 65535"
      "\<forall>p \<in> set chunks. length p \<le> 65535"
    and seg: "first_read_ok (2 * length psk + 27) (cin (tcp c))"
    and data: "ss_in c = resp_bytes env inp key serverSalt (clientSalt c) payload
      @ enc_chunks env key (incNonce (incNonce zero_nonce)) chunks"
    and key: "key = deriveSubkey env psk serverSalt"
  shows "\<exists>c1. readOrWriteTo env inp' dst c = deliver dst payload c1 \<and> rx_ok env c1 chunks \<and> readerBuf c1 = []
    \<and> fin (cin (tcp c1)) = fin (cin (tcp c))"
proof -
  define fixed where "fixed = [serverStreamHeaderType] @ unix_time_bytes (in_unix inp) @ clientSalt c @ u16_of (length payload)"
  let ?rest = "enc_chunks env key (incNonce (incNonce zero_nonce)) chunks"
  have env: "crypto_ok env" and psk: "length psk \<in> {16, 24, 32}" using peers by (simp_all add: ss_peers_def)
  have lf: "length fixed = 11 + length psk" using c(4) by (simp add: fixed_def unix_time_bytes_def)
  let ?S = "Seal env key zero_nonce fixed"
  have lS: "length (serverSalt @ ?S) = 2 * length psk + 27" using crypto_okD(2) [OF env] lf salt by simp
  have cc: "contents (cin (tcp c)) = (serverSalt @ ?S) @ Seal env key (incNonce zero_nonce) payload @ ?rest"
    using data by (simp add: resp_bytes_def fixed_def ss_in_def)
  from ReadOnceExpectFull_ok [OF seg] obtain r1 where
    r1: "ReadOnceExpectFull (2 * length psk + 27) (cin (tcp c)) = (Inr (serverSalt @ ?S), r1)"
    "contents r1 = Seal env key (incNonce zero_nonce) payload @ ?rest" "fin r1 = fin (cin (tcp c))"
    using cc lS by (metis append_eq_conv_conj zero_less_numeral add_pos_pos trans_less_add2)
  let ?c1 = "c\<lparr>hasReadFirstPayload := True\<rparr>"
  let ?c2 = "?c1\<lparr>tcp := (tcp c)\<lparr>cin := r1\<rparr>, aeadReader := Some key, nonceReader := incNonce zero_nonce\<rparr>"
  have cipher: "aeadCipher env psk serverSalt = Inr key" using aeadCipher_ok [OF env psk] key by simp
  have val: "validateFixedHeaderAndReturnLen inp' ?c1 fixed = Inr (length payload)"
    using validate_response [OF peers, of ?c1 "length payload"] c len(1) by (simp add: fixed_def)
  have size: "length psk + reqFixedLenHeaderSize + length psk + 16 = 2 * length psk + 27"
    by (simp add: ss_const_defs)
  have "readServerHeader env inp' ?c1 = (Inr (length payload), ?c2)"
    using cipher val salt c crypto_okD(1) [OF env]
    by (simp add: readServerHeader_def io_bind_def get_conn_def modify_conn_def on_tcp_in_apply size r1(1)
        setAEADReader_def decryptInPlace_def zero_nonce_def [symmetric] del: add.commute)
  moreover have two: "ss_in ?c2 = Seal env key (nonceReader ?c2) payload @ ?rest"
    using r1(2) by (simp add: ss_in_def)
  then have "copyReadPayloadEncrypted env dst (length payload) ?c2 =
      deliver dst payload (recv_st (length payload + 16) ?c2)"
    by (intro copyReadPayloadEncrypted_ok [OF env]) (simp_all add: c)
  ultimately have "readOrWriteTo env inp' dst c = deliver dst payload (recv_st (length payload + 16) ?c2)"
    using c by (simp add: readOrWriteTo_def readServerFirstPayload_def)
  moreover have "ss_in (recv_st (length payload + 16) ?c2) = ?rest"
    using recv_ok(3) [OF env _ two] by simp
  then have "rx_ok env (recv_st (length payload + 16) ?c2) chunks"
    using env c len(2) by (simp add: rx_ok_def)
  ultimately show ?thesis
    using c r1(3) by (intro exI [of _ "recv_st (length payload + 16) ?c2"]) simp
qed

section \<open>Properties\<close>

text \<open>A request through the connection arrives, whatever the draws and the segmentation.\<close>

lemma ss_request_arrives:
  assumes peers: "ss_peers env psk inp inp'" and pad: "padding_ok inp"
    and a: "wire_addr a" and salt: "length salt = length psk"
    and nc: "cout nc = \<lparr>wout = [], wplan = []\<rparr>" and r: "fin r = EOF"
    and run: "ReadFrom env inp r (newClientConn nc a psk salt 16) = (n, err, r', c')"
    and sc: "contents (cin sc) = ss_out c'" "fin (cin sc) = EOF" "first_read_ok (length psk + 27) (cin sc)"
    and fresh: "fst (checkAndAdd (in_nanos inp') salt sp)" and w: "wplan w = []"
    and fuel: "length (contents r) + length (ss_out c') < k"
  shows "n = length (contents r) \<and> err = None \<and>
    (\<exists>s' s'' w'. readClientFirstPayload env inp' (newServerConn sc psk 16 sp) = (Inr (), s') \<and>
       accessAddr s' = Some a \<and> ss_ready env s' \<and> ss_data env s' = contents r \<and>
       WriteTo env inp' k 0 (Wr w) s' = Some (length (contents r), None, Wr w', s'') \<and>
       sent w' = sent w @ contents r)"
proof -
  let ?c = "newClientConn nc a psk salt 16"
  let ?key = "deriveSubkey env psk salt"
  obtain ab where ab: "WriteSOCKSLikeAddr a = Inr ab" using Write_wf [OF wire_addr_wf [OF a]] by blast
  have env: "crypto_ok env" "length psk \<in> {16, 24, 32}" using peers by (simp_all add: ss_peers_def)
  have c: "preSharedKey ?c = psk" "clientSalt ?c = salt" "out_ok ?c" "ss_out ?c = []" "accessAddr ?c = Some a"
    "isClient ?c" "\<not> hasWriteFirstPayload ?c"
    using nc by (simp_all add: newClientConn_def out_ok_def ss_out_def sent_def)
  have "length (sa_Domain a) \<le> 255" using a by (simp add: wire_addr_def)
  from client_ReadFrom_sends [OF env(1) _ c(3,5) wire_addr_wf [OF a] this ab pad c(6,7) run r] env(2)
  obtain payload chunks where
    out: "ss_out c' = req_bytes env inp ?key salt (var_header inp ab payload)
      @ enc_chunks env ?key (incNonce (incNonce zero_nonce)) chunks"
    and pl: "payload @ concat chunks = contents r" "length (var_header inp ab payload) \<le> 65535"
      "\<forall>p \<in> set chunks. p \<noteq> [] \<and> length p \<le> 65535" "n = length (contents r)" "err = None"
    unfolding c by auto
  from server_reads_request [OF peers pad a ab pl(2) salt refl sc(3) sc(1) [unfolded out] fresh]
  obtain s' where s': "readClientFirstPayload env inp' (newServerConn sc psk 16 sp) = (Inr (), s')"
    "accessAddr s' = Some a" "readerBuf s' = payload" "aeadReader s' = Some ?key"
    "nonceReader s' = incNonce (incNonce zero_nonce)"
    "ss_in s' = enc_chunks env ?key (incNonce (incNonce zero_nonce)) chunks" "aeadOverhead s' = 16"
    "\<not> isClient s'" "fin (cin (tcp s')) = fin (cin sc)" by blast
  then have rx: "rx_ok env s' chunks" using env(1) pl(3) by (auto simp: rx_ok_def)
  have data: "ss_data env s' = contents r" using ss_data_rx [OF rx] s'(3) pl(1) by simp
  have "length payload \<le> length (contents r)" by (subst pl(1) [symmetric]) simp
  moreover have "length (ss_in s') \<le> length (ss_out c')" by (simp add: s'(6) out)
  ultimately have "length (readerBuf s') + length (ss_in s') < k" using fuel by (simp add: s'(3))
  from WriteTo_delivers [OF rx w this, of inp' 0] data s' sc(2) pl(4,5) rx show ?thesis
    by (auto simp: IsIoEof_def ss_ready_def)
qed

text \<open>A cryptography at which the assumptions hold: a tag of zeros.\<close>

definition tag_crypto :: ss_crypto where
  "tag_crypto = \<lparr>blake3_DeriveKey = (\<lambda>ctx m n. replicate n 0), Seal = (\<lambda>k n p. p @ replicate 16 0),
     Open = (\<lambda>k n c. Some (take (length c - 16) c))\<rparr>"

definition sample_inputs :: ss_inputs where
  "sample_inputs = \<lparr>in_unix = 1700000000, in_nanos = 5, in_padLen = 3,
     in_padding = (\<lambda>n. replicate n 7), in_salt = (\<lambda>n. replicate n 9)\<rparr>"

definition sample_psk :: bytes where "sample_psk = replicate 16 1"

definition sample_sent :: "nat \<times> goerr option \<times> reader \<times> ss_conn" where
  "sample_sent = ReadFrom tag_crypto sample_inputs (mk_reader [[1, 2], [3]])
     (newClientConn (mk_conn (mk_reader [])) (NewSocketAddressByDomain ''a.b'' 80) sample_psk (replicate 16 4) 16)"

definition sample_net :: netconn where
  "sample_net = mk_conn (mk_reader [ss_out (snd (snd (snd sample_sent)))])"

lemma crypto_ok_tag: "crypto_ok tag_crypto"
  by (simp add: crypto_ok_def tag_crypto_def gcmTagOverhead_def)

lemma sample_peers: "ss_peers tag_crypto sample_psk sample_inputs sample_inputs"
  by (simp add: ss_peers_def crypto_ok_tag sample_psk_def sample_inputs_def)

lemma sample_padding: "padding_ok sample_inputs"
  by (simp add: padding_ok_def sample_inputs_def maxPaddingLen_def)

lemma sample_addr: "wire_addr (NewSocketAddressByDomain ''a.b'' 80)"
  by (simp add: wire_addr_def)

lemma sample_first_read:
  assumes run: "ReadFrom tag_crypto sample_inputs r (newClientConn (mk_conn (mk_reader []))
      a sample_psk salt 16) = (n, err, r', c')"
    and salt: "length salt = 16" "fin r = EOF" "wire_addr a"
  shows "first_read_ok 43 (mk_reader [ss_out c'])"
proof -
  have a: "wf_addr a" using salt(3) by (rule wire_addr_wf)
  then obtain ab where "WriteSOCKSLikeAddr a = Inr ab" using Write_wf by blast
  from client_ReadFrom_sends [OF crypto_ok_tag _ _ _ _ _ this sample_padding _ _ run]
  obtain payload chunks where "ss_out c' = req_bytes tag_crypto sample_inputs
      (deriveSubkey tag_crypto sample_psk salt) salt (var_header sample_inputs ab payload)
      @ enc_chunks tag_crypto (deriveSubkey tag_crypto sample_psk salt) (incNonce (incNonce zero_nonce)) chunks"
    using salt a by (auto simp: newClientConn_def out_ok_def mk_conn_def sample_psk_def mk_reader_def ss_out_def sent_def wire_addr_def)
  then show ?thesis
    by (simp add: first_read_ok_def mk_reader_def req_bytes_def crypto_okD [OF crypto_ok_tag]
        unix_time_bytes_def salt)
qed

text \<open>
  C9. A response through the Shadowsocks carrier arrives, when the client copies it with \<open>WriteTo\<close>, the
  way a pipe does: whatever the destination sends before it closes, the client whose salt the
  response names relays exactly those bytes. The conditions: the first read of the client gets the
  salt and the fixed header, twice the length of the key and 27 bytes, without an error, which the
  code asks for in one read and otherwise refuses; the clocks are at most 30 seconds apart and both after 1970; no write
  of either side fails. The segmentation after the first read is arbitrary.
\<close>

theorem ss_response_delivered:
  assumes peers: "ss_peers env psk inp inp'" and r: "fin r = EOF"
    and s: "preSharedKey s = psk" "\<not> isClient s" "\<not> hasWriteFirstPayload s" "cout (tcp s) = \<lparr>wout = [], wplan = []\<rparr>"
    and salt: "length (in_salt inp (length psk)) = length psk"
    and run: "ReadFrom env inp r s = (n, err, r', s')"
    and c: "isClient c" "\<not> hasReadFirstPayload c" "preSharedKey c = psk" "length (clientSalt c) = length psk"
      "saltSize c = length psk" "aeadOverhead c = 16" "readerBuf c = []" "clientSalt c = clientSalt s"
    and net: "ss_in c = ss_out s'" "fin (cin (tcp c)) = EOF" "first_read_ok (2 * length psk + 27) (cin (tcp c))"
    and w: "wplan w = []" and fuel: "length (ss_out s') < k"
  shows "n = length (contents r) \<and> err = None \<and>
    (\<exists>w' c'. WriteTo env inp' (Suc k) 0 (Wr w) c = Some (length (contents r), None, Wr w', c') \<and>
       sent w' = sent w @ contents r)"
proof -
  let ?salt = "in_salt inp (length psk)"
  let ?key = "deriveSubkey env psk ?salt"
  have env: "crypto_ok env" "length psk \<in> {16, 24, 32}" using peers by (simp_all add: ss_peers_def)
  have s0: "out_ok s" "ss_out s = []" using s(4) by (simp_all add: out_ok_def ss_out_def sent_def)
  from server_ReadFrom_sends [OF env(1) _ s0(1) s(2,3) run r] env(2) s(1) obtain payload chunks where
    out: "ss_out s' = resp_bytes env inp ?key ?salt (clientSalt s) payload
      @ enc_chunks env ?key (incNonce (incNonce zero_nonce)) chunks"
    and pl: "payload @ concat chunks = contents r" "length payload \<le> 65535"
      "\<forall>p \<in> set chunks. p \<noteq> [] \<and> length p \<le> 65535" "n = length (contents r)" "err = None"
    unfolding s(1) s0(2) by auto
  have ch: "\<forall>p \<in> set chunks. length p \<le> 65535" using pl(3) by simp
  have inc: "ss_in c = resp_bytes env inp ?key ?salt (clientSalt c) payload
      @ enc_chunks env ?key (incNonce (incNonce zero_nonce)) chunks" using net(1) out c(8) by simp
  from client_reads_response [OF peers c(1-7) salt pl(2) ch net(3) inc refl, of "Wr w"] obtain c1 where
    c1: "readOrWriteTo env inp' (Wr w) c = deliver (Wr w) payload c1" "rx_ok env c1 chunks" "readerBuf c1 = []"
    "fin (cin (tcp c1)) = fin (cin (tcp c))" by blast
  let ?w = "w\<lparr>wout := wout w @ [payload]\<rparr>"
  from c1(2) have "ss_in c1 = enc_chunks env (the (aeadReader c1)) (nonceReader c1) chunks"
    by (auto simp: rx_ok_def)
  have len: "length (enc_chunks env k1 n1 ps) = length (enc_chunks env k2 n2 ps)" for k1 n1 k2 n2 ps
    using crypto_okD(2) [OF env(1)] by (induction ps arbitrary: n1 n2) (simp_all add: chunk_enc_def)
  have "length (ss_in c1) \<le> length (ss_out s')"
    unfolding \<open>ss_in c1 = _\<close> out
    using len [of "the (aeadReader c1)" "nonceReader c1" chunks ?key "incNonce (incNonce zero_nonce)"] by simp
  then have "length (readerBuf c1) + length (ss_in c1) < k" using fuel c1(3) by simp
  from WriteTo_delivers [OF c1(2) _ this, of ?w inp' "length payload"] w c1(3,4) net(2) ss_data_rx [OF c1(2)]
  have "\<exists>w' c'. WriteTo env inp' k (length payload) (Wr ?w) c1 =
      Some (length payload + length (concat chunks), None, Wr w', c') \<and> sent w' = sent ?w @ concat chunks"
    by (simp add: IsIoEof_def)
  moreover have "length (contents r) = length payload + length (concat chunks)" by (simp add: pl(1) [symmetric])
  ultimately show ?thesis
    using pl c1(1) w by (auto simp: deliver_def sent_def)
qed

definition sample_server :: ss_conn where
  "sample_server = (newServerConn (mk_conn (mk_reader [])) sample_psk 16 (newSaltPool 0))
     \<lparr>clientSalt := replicate 16 4\<rparr>"

definition sample_answered :: "nat \<times> goerr option \<times> reader \<times> ss_conn" where
  "sample_answered = ReadFrom tag_crypto sample_inputs (mk_reader [[8], [9]]) sample_server"

definition sample_client :: ss_conn where
  "sample_client = newClientConn (mk_conn (mk_reader [ss_out (snd (snd (snd sample_answered)))]))
     (NewSocketAddressByDomain ''a.b'' 80) sample_psk (replicate 16 4) 16"

theorem ss_response_delivered_witness:
  "\<exists>w' c'. WriteTo tag_crypto sample_inputs (Suc (Suc (length (ss_out (snd (snd (snd sample_answered))))))) 0
       (Wr \<lparr>wout = [], wplan = []\<rparr>) sample_client = Some (length (contents (mk_reader [[8], [9]])), None, Wr w', c') \<and>
     sent w' = sent \<lparr>wout = [], wplan = []\<rparr> @ contents (mk_reader [[8], [9]])"
proof -
  obtain n err r' s' where run: "sample_answered = (n, err, r', s')" by (metis prod_cases4)
  have s: "preSharedKey sample_server = sample_psk" "\<not> isClient sample_server"
    "\<not> hasWriteFirstPayload sample_server" "cout (tcp sample_server) = \<lparr>wout = [], wplan = []\<rparr>"
    "clientSalt sample_server = replicate 16 4" "ss_out sample_server = []" "out_ok sample_server"
    by (simp_all add: sample_server_def newServerConn_def mk_conn_def ss_out_def sent_def out_ok_def)
  have psk: "length sample_psk = 16" by (simp add: sample_psk_def)
  have salt: "length (in_salt sample_inputs (length sample_psk)) = length sample_psk"
    by (simp add: sample_inputs_def)
  have c: "isClient sample_client" "\<not> hasReadFirstPayload sample_client" "preSharedKey sample_client = sample_psk"
    "length (clientSalt sample_client) = length sample_psk" "saltSize sample_client = length sample_psk"
    "aeadOverhead sample_client = 16" "readerBuf sample_client = []" "clientSalt sample_client = clientSalt sample_server"
    by (simp_all add: sample_client_def newClientConn_def s psk)
  have net: "ss_in sample_client = ss_out s'" "fin (cin (tcp sample_client)) = EOF"
    by (simp_all add: sample_client_def newClientConn_def mk_conn_def run ss_in_def contents_def mk_reader_def)
  from server_ReadFrom_sends [OF crypto_ok_tag _ s(7,2,3) run [unfolded sample_answered_def]] s psk
  obtain payload chunks where "ss_out s' = resp_bytes tag_crypto sample_inputs
      (deriveSubkey tag_crypto sample_psk (in_salt sample_inputs 16)) (in_salt sample_inputs 16) (replicate 16 4) payload
      @ enc_chunks tag_crypto (deriveSubkey tag_crypto sample_psk (in_salt sample_inputs 16))
          (incNonce (incNonce zero_nonce)) chunks"
    by (auto simp: mk_reader_def)
  then have seg: "first_read_ok (2 * length sample_psk + 27) (cin (tcp sample_client))"
    by (simp add: sample_client_def newClientConn_def run first_read_ok_def mk_conn_def mk_reader_def resp_bytes_def
        crypto_okD [OF crypto_ok_tag] unix_time_bytes_def psk sample_inputs_def)
  from ss_response_delivered [OF sample_peers _ s(1-4) salt run [unfolded sample_answered_def] c net seg,
      of "\<lparr>wout = [], wplan = []\<rparr>" "Suc (length (ss_out s'))"]
  show ?thesis by (simp add: run) (simp add: mk_reader_def contents_def)
qed

text \<open>
  C10. A server accepts a request only when it may: if \<open>readClientFirstPayload\<close> succeeds, the
  salt was new, both headers opened under the key derived from the shared key and the salt,
  the type is the client's and the timestamp is in the window, the destination is the one
  in the opened header, and something follows it besides the padding length.
\<close>

theorem ss_accept_sound:
  assumes "readClientFirstPayload env inp (newServerConn nc psk 16 sp) = (Inr (), s')"
  shows "\<exists>salt fixedCt hdr varCt var r.
    contents (cin nc) = salt @ fixedCt @ varCt @ ss_in s' \<and> length salt = length psk \<and>
    fst (checkAndAdd (in_nanos inp) salt sp) \<and>
    Open env (deriveSubkey env psk salt) zero_nonce fixedCt = Some hdr \<and> length fixedCt = 27 \<and>
    hd hdr = clientStreamHeaderType \<and> validateUnixTimeInRange (in_unix inp) (drop 1 hdr) = Inr () \<and>
    Open env (deriveSubkey env psk salt) (incNonce zero_nonce) varCt = Some var \<and>
    length varCt = unat (be16_get (drop 9 hdr)) + 16 \<and>
    ReadSOCKS5Address (mk_reader [var]) = (Inr (the (accessAddr s')), r) \<and> 2 < length (contents r)"
proof -
  let ?s = "newServerConn nc psk 16 sp"
  have size: "length psk + reqFixedLenHeaderSize + 16 = length psk + 27" by (simp add: ss_const_defs)
  have sf: "saltSize ?s = length psk" "aeadOverhead ?s = 16" "tcp ?s = nc" "serverSideSaltPool ?s = sp"
    "preSharedKey ?s = psk" "\<not> isClient ?s"
    by (simp_all add: newServerConn_def)
  from assms obtain err s1 where body: "readClientBody env inp (?s\<lparr>hasReadFirstPayload := True\<rparr>) = ((Inr (), err), s1)"
    and s': "s' = set_linger err s1"
    by (auto simp: readClientFirstPayload_def split: prod.splits)
  obtain bs r1 where rd: "ReadOnceExpectFull (length psk + 27) (cin nc) = (Inr bs, r1)"
    using body by (cases "ReadOnceExpectFull (length psk + 27) (cin nc)"; cases "fst (ReadOnceExpectFull (length psk + 27) (cin nc))")
      (auto simp: readClientBody_def on_tcp_in_apply sf size)
  note bs = ReadOnceExpectFull_Inr [OF rd]
  define salt where "salt = take (length psk) bs"
  obtain ok sp' where pool: "checkAndAdd (in_nanos inp) salt sp = (ok, sp')" by force
  let ?c2 = "?s\<lparr>hasReadFirstPayload := True, tcp := nc\<lparr>cin := r1\<rparr>, clientSalt := salt, serverSideSaltPool := sp'\<rparr>"
  have ok: "ok" using body
    by (auto simp: readClientBody_def on_tcp_in_apply sf size rd Let_def salt_def [symmetric] pool split: if_splits)
  obtain var s2 where fx: "readClientFixed env inp bs ?c2 = (Inr var, s2)" using body ok
    by (cases "readClientFixed env inp bs ?c2"; cases "fst (readClientFixed env inp bs ?c2)")
      (auto simp: readClientBody_def on_tcp_in_apply sf size rd Let_def salt_def [symmetric] pool)
  obtain addr r where ad: "ReadSOCKS5Address (mk_reader [var]) = (Inr addr, r)"
    and cp: "checkPadding (contents r) (s2\<lparr>accessAddr := Some addr\<rparr>) = ((Inr (), err), s1)"
    using body ok fx
    by (cases "ReadSOCKS5Address (mk_reader [var])"; cases "fst (ReadSOCKS5Address (mk_reader [var]))")
      (auto simp: readClientBody_def on_tcp_in_apply sf size rd Let_def salt_def [symmetric] pool)
  from cp have r: "2 < length (contents r)" and s1: "ss_in s1 = ss_in s2" "accessAddr s1 = Some addr"
    by (auto simp: checkPadding_def lenFieldSize_def Let_def copyReadPayload_def ss_in_def split: if_splits)
  then have s'f: "ss_in s' = ss_in s2" "accessAddr s' = Some addr"
    by (simp_all add: s' set_linger_def ss_in_def)
  let ?key = "deriveSubkey env psk salt"
  have cipher: "aeadCipher env psk salt = Inr ?key" using fx
    by (auto simp: readClientFixed_def io_bind_def get_conn_def sf salt_def [symmetric] aeadCipher_def Let_def split: if_splits)
  let ?c3 = "setAEADReader ?key ?c2"
  obtain hdr where hdr: "Open env ?key zero_nonce (drop (length psk) bs) = Some hdr"
    and rest: "io_bind (io_lift (validateFixedHeaderAndReturnLen inp ?c2 hdr))
        (\<lambda>len. io_bind (on_tcp_in (ReadFull (len + 16))) (decryptInPlace env)) (?c3\<lparr>nonceReader := incNonce zero_nonce\<rparr>)
      = (Inr var, s2)"
    using fx by (auto simp: readClientFixed_def io_bind_def get_conn_def modify_conn_def sf salt_def [symmetric] cipher
        decryptInPlace_def setAEADReader_def zero_nonce_def [symmetric] split: option.splits)
  then obtain len where val: "validateFixedHeaderAndReturnLen inp ?c2 hdr = Inr len"
    and rest2: "io_bind (on_tcp_in (ReadFull (len + 16))) (decryptInPlace env) (?c3\<lparr>nonceReader := incNonce zero_nonce\<rparr>)
      = (Inr var, s2)"
    by (auto simp: io_bind_def split: sum.splits)
  have v: "hd hdr = clientStreamHeaderType" "validateUnixTimeInRange (in_unix inp) (drop 1 hdr) = Inr ()"
    "len = unat (be16_get (drop 9 hdr))"
    using val by (auto simp: validateFixedHeaderAndReturnLen_def Let_def sf typeWithTimestampSize_def
        split: if_splits sum.splits)
  have enough: "len + 16 \<le> length (contents r1)"
    using rest2 by (rule contrapos_pp)
      (simp add: io_bind_def on_tcp_in_apply setAEADReader_def)
  then have opn: "Open env ?key (incNonce zero_nonce) (take (len + 16) (contents r1)) = Some var"
    and s2: "ss_in s2 = drop (len + 16) (contents r1)"
    using rest2 by (auto simp: io_bind_def on_tcp_in_apply setAEADReader_def decryptInPlace_def ss_in_def
        split: option.splits)
  have "contents (cin nc) = salt @ drop (length psk) bs @ take (len + 16) (contents r1) @ ss_in s'"
    using bs(1) by (simp add: s'f s2 salt_def)
  then show ?thesis
    using bs(2) pool ok hdr v opn ad r s'f enough
    by (intro exI [of _ salt] exI [of _ "drop (length psk) bs"] exI [of _ hdr] exI [of _ "take (len + 16) (contents r1)"]
        exI [of _ var] exI [of _ r]) (simp add: salt_def)
qed

lemma sample_accepted:
  "\<exists>s'. readClientFirstPayload tag_crypto sample_inputs (newServerConn sample_net sample_psk 16 (newSaltPool 0)) = (Inr (), s')"
proof -
  let ?a = "NewSocketAddressByDomain ''a.b'' 80" and ?salt = "replicate 16 (4 :: byte)"
  let ?c = "newClientConn (mk_conn (mk_reader [])) ?a sample_psk ?salt 16"
  obtain n err r' c' where run: "sample_sent = (n, err, r', c')" by (metis prod_cases4)
  obtain ab where ab: "WriteSOCKSLikeAddr ?a = Inr ab" by simp
  have c: "preSharedKey ?c = sample_psk" "clientSalt ?c = ?salt" "out_ok ?c" "ss_out ?c = []" "accessAddr ?c = Some ?a"
    "isClient ?c" "\<not> hasWriteFirstPayload ?c" and psk: "length sample_psk = 16"
    by (simp_all add: newClientConn_def out_ok_def ss_out_def sent_def mk_conn_def sample_psk_def)
  from client_ReadFrom_sends [OF crypto_ok_tag _ c(3,5) wire_addr_wf [OF sample_addr] _ ab sample_padding c(6,7)
      run [unfolded sample_sent_def]] psk
  obtain payload chunks where
    out: "ss_out c' = req_bytes tag_crypto sample_inputs (deriveSubkey tag_crypto sample_psk ?salt) ?salt
        (var_header sample_inputs ab payload)
      @ enc_chunks tag_crypto (deriveSubkey tag_crypto sample_psk ?salt) (incNonce (incNonce zero_nonce)) chunks"
    and len: "length (var_header sample_inputs ab payload) \<le> 65535"
    unfolding c by (auto simp: mk_reader_def)
  have net: "contents (cin sample_net) = ss_out c'"
    by (simp add: sample_net_def mk_conn_def run mk_reader_def contents_def)
  have fresh: "fst (checkAndAdd (in_nanos sample_inputs) ?salt (newSaltPool 0))"
    by (simp add: checkAndAdd_def clean_pool_def newSaltPool_def Let_def)
  have "first_read_ok (length sample_psk + 27) (cin sample_net)"
    using sample_first_read [OF run [unfolded sample_sent_def]] sample_addr
    by (simp add: sample_net_def mk_conn_def run psk mk_reader_def [of "[[1, 2], [3]]"])
  from server_reads_request [OF sample_peers sample_padding sample_addr ab len _ refl this net [unfolded out] fresh] psk
  show ?thesis by auto
qed

theorem ss_accept_sound_witness:
  "\<exists>salt fixedCt hdr varCt var r.
    contents (cin sample_net) = salt @ fixedCt @ varCt @ ss_in (snd (readClientFirstPayload tag_crypto sample_inputs
      (newServerConn sample_net sample_psk 16 (newSaltPool 0)))) \<and> length salt = length sample_psk \<and>
    fst (checkAndAdd (in_nanos sample_inputs) salt (newSaltPool 0)) \<and>
    Open tag_crypto (deriveSubkey tag_crypto sample_psk salt) zero_nonce fixedCt = Some hdr \<and> length fixedCt = 27 \<and>
    hd hdr = clientStreamHeaderType \<and> validateUnixTimeInRange (in_unix sample_inputs) (drop 1 hdr) = Inr () \<and>
    Open tag_crypto (deriveSubkey tag_crypto sample_psk salt) (incNonce zero_nonce) varCt = Some var \<and>
    length varCt = unat (be16_get (drop 9 hdr)) + 16 \<and>
    ReadSOCKS5Address (mk_reader [var]) = (Inr (the (accessAddr (snd (readClientFirstPayload tag_crypto sample_inputs
      (newServerConn sample_net sample_psk 16 (newSaltPool 0)))))), r) \<and> 2 < length (contents r)"
  by (rule ss_accept_sound) (metis sample_accepted prod.sel(2))

text \<open>
  A replayed salt is refused without the reset the code asks for: \<open>SetLinger(0)\<close>, which
  every failed read, decryption or header check leads to, is skipped, because the deferred
  function looks at a variable the replay branch does not set.
\<close>

theorem ss_replay_without_reset:
  assumes "first_read_ok (length psk + 27) (cin nc)"
    and "\<not> fst (checkAndAdd (in_nanos inp) (take (length psk) (contents (cin nc))) sp)"
  shows "\<exists>e s'. readClientFirstPayload env inp (newServerConn nc psk 16 sp) = (Inl e, s') \<and>
    clinger0 (tcp s') = clinger0 nc"
proof -
  let ?s = "newServerConn nc psk 16 sp"
  have sf: "saltSize ?s = length psk" "aeadOverhead ?s = 16" "tcp ?s = nc" "serverSideSaltPool ?s = sp"
    "length psk + reqFixedLenHeaderSize + 16 = length psk + 27"
    by (simp_all add: newServerConn_def ss_const_defs)
  from ReadOnceExpectFull_ok [OF assms(1)] obtain r1 where
    rd: "ReadOnceExpectFull (length psk + 27) (cin nc) = (Inr (take (length psk + 27) (contents (cin nc))), r1)"
    by auto
  obtain sp' where pool: "checkAndAdd (in_nanos inp) (take (length psk) (contents (cin nc))) sp = (False, sp')"
    using assms(2) by (metis prod.collapse)
  show ?thesis
    by (simp add: readClientFirstPayload_def readClientBody_def on_tcp_in_apply sf rd pool Let_def set_linger_def
        min_def del: add.commute)
qed

theorem ss_replay_without_reset_witness:
  "\<exists>e s'. readClientFirstPayload tag_crypto sample_inputs (newServerConn (mk_conn (mk_reader [replicate 43 4]))
      sample_psk 16 \<lparr>pool = [replicate 16 4 \<mapsto> 1], lastCleaned = 0\<rparr>) = (Inl e, s') \<and>
    clinger0 (tcp s') = clinger0 (mk_conn (mk_reader [replicate 43 4]))"
  by (rule ss_replay_without_reset)
     (simp_all add: first_read_ok_def mk_conn_def mk_reader_def sample_psk_def contents_def checkAndAdd_def
       clean_pool_def Let_def sample_inputs_def retainDuration_def)

text \<open>
  A destination domain longer than 65529 bytes makes the first write of the client panic
  on its slice bounds instead of returning an error.
\<close>

theorem ss_long_domain_panics:
  assumes "isClient c" "\<not> hasWriteFirstPayload c" "65529 < length d"
    "accessAddr c = Some (NewSocketAddressByDomain d port)"
  shows "ReadFrom env inp r c = (0, Some (Panic ''slice bounds out of range''), r, c\<lparr>hasWriteFirstPayload := True\<rparr>)"
  using assms
  by (simp add: ReadFrom_def maxFirstPayloadSize_def nonNil_def SOCKSLikeAddrSizeInBytes_def ss_const_defs Let_def)

theorem ss_long_domain_panics_witness:
  "ReadFrom tag_crypto sample_inputs (mk_reader []) (newClientConn (mk_conn (mk_reader []))
      (NewSocketAddressByDomain (replicate 65530 CHR ''a'') 80) sample_psk (replicate 16 4) 16) =
    (0, Some (Panic ''slice bounds out of range''), mk_reader [], (newClientConn (mk_conn (mk_reader []))
      (NewSocketAddressByDomain (replicate 65530 CHR ''a'') 80) sample_psk (replicate 16 4) 16)
        \<lparr>hasWriteFirstPayload := True\<rparr>)"
  by (rule ss_long_domain_panics [where d = "replicate 65530 CHR ''a''" and port = 80])
     (simp_all only: newClientConn_def ss_conn.simps length_replicate not_False_eq_True less_numeral_simps rel_simps)

end
