(* ===== verification/Relay.thy ===== *)
theory Relay
  imports SocketAddr "HOL-Library.Multiset"
begin

text \<open>
  Relaying: \<open>ioutil.Pipe\<close> with its two copying goroutines as a step relation that
  interleaves them in every way, \<open>ioutil.CloseWrite\<close>, and \<open>transport.ForwardTCP\<close>. A turn
  of a copy is one \<open>Read\<close> and one \<open>Write\<close>, as in \<open>io.Copy\<close> with a buffer of \<open>n\<close> bytes.
  A read waits until a segment of its source, or the end of it, has arrived: what the peers
  send arrives in steps of its own (\<open>peer_step\<close>), and a peer may stay idle for ever. The
  connections are of the kind that \<open>CloseWrite\<close> shuts: TCP, TLS, QUIC and Shadowsocks connections and
  the client side of a NaiveProxy tunnel. The server side of that tunnel (\<open>np_carrier/server.go\<close>)
  has no function to call there, so its client is not told of the end of the target's stream.
\<close>

section \<open>The pipe\<close>

text \<open>
  The two connections, the error each copy ended with (\<open>None\<close> while it runs), the channel
  \<open>done\<close>, what \<open>Pipe\<close> returned, and how much of each stream has not arrived yet, counted in
  its segments and its end (which may come with the last segment).
\<close>

record pipe_state =
  p_a :: netconn
  p_b :: netconn
  p_ab :: "goerr option option"
  p_ba :: "goerr option option"
  p_done :: "goerr option list"
  p_ret :: "goerr option option"
  p_alate :: nat
  p_blate :: nat

definition arrivals :: "reader \<Rightarrow> nat" where
  "arrivals r = (if glue r then max 1 (length (segs r)) else Suc (length (segs r)))"

text \<open>The next piece of the stream has arrived; and: all that has arrived was read, and the stream goes on.\<close>

definition arrived :: "nat \<Rightarrow> netconn \<Rightarrow> bool" where
  "arrived late c \<longleftrightarrow> late < arrivals (cin c)"

definition idle :: "nat \<Rightarrow> netconn \<Rightarrow> bool" where
  "idle late c \<longleftrightarrow> late = arrivals (cin c)"

definition start_pipe :: "netconn \<Rightarrow> netconn \<Rightarrow> pipe_state" where
  "start_pipe a b = \<lparr>p_a = a, p_b = b, p_ab = None, p_ba = None, p_done = [], p_ret = None,
     p_alate = arrivals (cin a), p_blate = arrivals (cin b)\<rparr>"

definition CloseWrite :: "netconn \<Rightarrow> netconn" where
  "CloseWrite c = c\<lparr>cwclosed := True\<rparr>"

definition conn_Close :: "netconn \<Rightarrow> netconn" where
  "conn_Close c = c\<lparr>cclosed := True\<rparr>"

text \<open>One turn of \<open>io.Copy(dst, src)\<close>: \<open>Some\<close> of its result when it ends.\<close>

definition copy_turn :: "nat \<Rightarrow> netconn \<Rightarrow> netconn \<Rightarrow> goerr option option \<times> netconn \<times> netconn" where
  "copy_turn n src dst =
     (case rd_read n (cin src) of (d, e, r') \<Rightarrow>
        (case (if d = [] then (0, None, cout dst) else w_write d (cout dst)) of (m, x, w') \<Rightarrow>
           (case x of
              Some x \<Rightarrow> Some (Some x)
            | None \<Rightarrow> (case e of None \<Rightarrow> None | Some x \<Rightarrow> Some (if x = EOF then None else Some x)),
            src\<lparr>cin := r'\<rparr>, dst\<lparr>cout := w'\<rparr>)))"

definition dropEof :: "goerr option \<Rightarrow> goerr option" where
  "dropEof e = (case e of None \<Rightarrow> None | Some x \<Rightarrow> if IsIoEof x then None else Some x)"

inductive pipe_own :: "nat \<Rightarrow> pipe_state \<Rightarrow> pipe_state \<Rightarrow> bool" for n where
  ab_turn: "p_ab s = None \<Longrightarrow> arrived (p_alate s) (p_a s) \<Longrightarrow> copy_turn n (p_a s) (p_b s) = (None, a', b') \<Longrightarrow>
     pipe_own n s (s\<lparr>p_a := a', p_b := b'\<rparr>)"
| ab_end: "p_ab s = None \<Longrightarrow> arrived (p_alate s) (p_a s) \<Longrightarrow> copy_turn n (p_a s) (p_b s) = (Some err, a', b') \<Longrightarrow>
     pipe_own n s (s\<lparr>p_a := a', p_b := CloseWrite b', p_ab := Some err, p_done := p_done s @ [err]\<rparr>)"
| ba_turn: "p_ba s = None \<Longrightarrow> arrived (p_blate s) (p_b s) \<Longrightarrow> copy_turn n (p_b s) (p_a s) = (None, b', a') \<Longrightarrow>
     pipe_own n s (s\<lparr>p_a := a', p_b := b'\<rparr>)"
| ba_end: "p_ba s = None \<Longrightarrow> arrived (p_blate s) (p_b s) \<Longrightarrow> copy_turn n (p_b s) (p_a s) = (Some err, b', a') \<Longrightarrow>
     pipe_own n s (s\<lparr>p_a := CloseWrite a', p_b := b', p_ba := Some err, p_done := p_done s @ [err]\<rparr>)"
| ret: "p_done s = [err1, err2] \<Longrightarrow> p_ret s = None \<Longrightarrow>
     pipe_own n s (s\<lparr>p_a := conn_Close (p_a s), p_b := conn_Close (p_b s),
       p_ret := Some (errAppend (dropEof err1) (dropEof err2))\<rparr>)"

inductive_cases pipe_ownE: "pipe_own n s s'"

code_pred (modes: i \<Rightarrow> i \<Rightarrow> o \<Rightarrow> bool as pipe_next) pipe_own .

text \<open>What the peers send arrives.\<close>

inductive peer_step :: "pipe_state \<Rightarrow> pipe_state \<Rightarrow> bool" where
  arrive_a: "0 < p_alate s \<Longrightarrow> peer_step s (s\<lparr>p_alate := p_alate s - 1\<rparr>)"
| arrive_b: "0 < p_blate s \<Longrightarrow> peer_step s (s\<lparr>p_blate := p_blate s - 1\<rparr>)"

inductive pipe_step :: "nat \<Rightarrow> pipe_state \<Rightarrow> pipe_state \<Rightarrow> bool" for n where
  own: "pipe_own n s s' \<Longrightarrow> pipe_step n s s'"
| peer: "peer_step s s' \<Longrightarrow> pipe_step n s s'"

section \<open>Invariants\<close>

text \<open>
  The state of one direction: what has been written is what was there before and a prefix of
  what the source had to send, with the rest still in the source; once the copy has ended
  the write side is closed, and if the writer never fails nothing is left.
\<close>

definition dir_inv :: "netconn \<Rightarrow> netconn \<Rightarrow> goerr option option \<Rightarrow> netconn \<Rightarrow> netconn \<Rightarrow> bool" where
  "dir_inv src0 dst0 fin_err src dst \<longleftrightarrow>
     wplan (cout dst) = [] \<and> fin (cin src) = fin (cin src0) \<and>
     sent (cout dst) @ contents (cin src) = sent (cout dst0) @ contents (cin src0) \<and>
     (cwclosed dst = (cwclosed dst0 \<or> fin_err \<noteq> None)) \<and>
     (fin_err \<noteq> None \<longrightarrow> contents (cin src) = [] \<and>
        fin_err = Some (if fin (cin src0) = EOF then None else Some (fin (cin src0))))"

lemma copy_turn_frame:
  assumes "copy_turn n src dst = (f, src', dst')"
  shows "cout src' = cout src" "cin dst' = cin dst" "cwclosed src' = cwclosed src" "cwclosed dst' = cwclosed dst"
    "cclosed src' = cclosed src" "cclosed dst' = cclosed dst"
  using assms by (auto simp: copy_turn_def split: prod.splits)

lemma copy_turn_left:
  assumes "copy_turn n src dst = (None, src', dst')" "0 < n"
  shows "rd_left (cin src') < rd_left (cin src)"
  using assms by (auto simp: copy_turn_def split: prod.splits option.splits dest: rd_read_progress)

text \<open>
  The same without assuming that writes succeed: when the copy has ended the write side is
  closed, and either everything was written, or a write of the destination failed, its error
  is the copy's result, and what was written is a beginning of it.
\<close>

definition dir_end :: "netconn \<Rightarrow> netconn \<Rightarrow> goerr option \<Rightarrow> netconn \<Rightarrow> bool" where
  "dir_end src0 dst0 err dst \<longleftrightarrow>
     sent (cout dst) = sent (cout dst0) @ contents (cin src0) \<or>
     (\<exists>k x rest. Some (k, x) \<in> set (wplan (cout dst0)) \<and> err = Some x \<and>
        sent (cout dst) @ rest = sent (cout dst0) @ contents (cin src0))"

definition wdir_inv :: "netconn \<Rightarrow> netconn \<Rightarrow> goerr option option \<Rightarrow> netconn \<Rightarrow> netconn \<Rightarrow> bool" where
  "wdir_inv src0 dst0 fin_err src dst \<longleftrightarrow>
     set (wplan (cout dst)) \<subseteq> set (wplan (cout dst0)) \<and>
     (cwclosed dst = (cwclosed dst0 \<or> fin_err \<noteq> None)) \<and>
     (case fin_err of
        None \<Rightarrow> sent (cout dst) @ contents (cin src) = sent (cout dst0) @ contents (cin src0)
      | Some err \<Rightarrow> dir_end src0 dst0 err dst)"

text \<open>What an invariant of one direction needs for every schedule of both to keep it.\<close>

locale direction =
  fixes I :: "netconn \<Rightarrow> netconn \<Rightarrow> goerr option option \<Rightarrow> netconn \<Rightarrow> netconn \<Rightarrow> bool"
  assumes turn: "I src0 dst0 None src dst \<Longrightarrow> copy_turn n src dst = (None, src', dst') \<Longrightarrow> I src0 dst0 None src' dst'"
    and turn_end: "I src0 dst0 None src dst \<Longrightarrow> copy_turn n src dst = (Some err, src', dst') \<Longrightarrow>
      I src0 dst0 (Some err) src' (CloseWrite dst')"
    and frame: "I src0 dst0 f src dst \<Longrightarrow> cin src' = cin src \<Longrightarrow> cout dst' = cout dst \<Longrightarrow>
      cwclosed dst' = cwclosed dst \<Longrightarrow> I src0 dst0 f src' dst'"
begin

lemma frame_turn: "I b0 a0 f b a \<Longrightarrow> copy_turn n a b = (g, a', b') \<Longrightarrow> I b0 a0 f b' a'"
  by (erule frame) (auto dest: copy_turn_frame)

lemma frame_end: "I b0 a0 f b a \<Longrightarrow> copy_turn n a b = (g, a', b') \<Longrightarrow> I b0 a0 f (CloseWrite b') a'"
  by (erule frame) (auto simp: CloseWrite_def dest: copy_turn_frame)

lemma own_step:
  assumes "pipe_own n s s'" "I a0 b0 (p_ab s) (p_a s) (p_b s)" "I b0 a0 (p_ba s) (p_b s) (p_a s)"
  shows "I a0 b0 (p_ab s') (p_a s') (p_b s') \<and> I b0 a0 (p_ba s') (p_b s') (p_a s')"
  using assms
proof (induction rule: pipe_own.induct)
  case (ret s err1 err2)
  then show ?case by (auto simp: conn_Close_def elim!: frame)
qed (auto dest: turn turn_end frame_turn frame_end)

lemma pipe_reachable:
  assumes "(pipe_step n)\<^sup>*\<^sup>* (start_pipe a b) s" "I a b None a b" "I b a None b a"
  shows "I a b (p_ab s) (p_a s) (p_b s) \<and> I b a (p_ba s) (p_b s) (p_a s)"
  using assms(1)
proof (induction rule: rtranclp_induct)
  case base
  then show ?case using assms(2,3) by (simp add: start_pipe_def)
next
  case (step s t)
  from step(2) show ?case
  proof cases
    case own
    then show ?thesis using own_step step(3) by blast
  next
    case peer
    then show ?thesis using step(3) by cases auto
  qed
qed

end

interpretation dir: direction dir_inv
proof (unfold_locales, goal_cases)
  case (1 src0 dst0 src dst n src' dst')
  obtain d e r' where rd: "rd_read n (cin src) = (d, e, r')" by (metis prod_cases3)
  with 1 have "src' = src\<lparr>cin := r'\<rparr>"
    "dst' = (if d = [] then dst else dst\<lparr>cout := (cout dst)\<lparr>wout := wout (cout dst) @ [d]\<rparr>\<rparr>)"
    by (auto simp: dir_inv_def copy_turn_def split: prod.splits option.splits if_splits)
  with rd_read_data [OF rd] 1(1) show ?case by (auto simp: dir_inv_def sent_def)
next
  case (2 src0 dst0 src dst n err src' dst')
  obtain d e r' where rd: "rd_read n (cin src) = (d, e, r')" by (metis prod_cases3)
  with 2 obtain x where e: "e = Some x" "err = (if x = EOF then None else Some x)"
    and eq: "src' = src\<lparr>cin := r'\<rparr>" "dst' = (if d = [] then dst else dst\<lparr>cout := (cout dst)\<lparr>wout := wout (cout dst) @ [d]\<rparr>\<rparr>)"
    by (auto simp: dir_inv_def copy_turn_def split: prod.splits option.splits if_splits)
  from rd_read_error [of n "cin src" d x r'] rd e have "x = fin (cin src)" "contents r' = []"
    by (simp_all add: contents_def)
  with rd_read_data [OF rd] 2(1) e eq show ?case
    by (auto simp: dir_inv_def CloseWrite_def sent_def)
next
  case (3 src0 dst0 f src dst src' dst')
  then show ?case by (simp add: dir_inv_def)
qed

lemma w_write_faults:
  assumes "w_write d w = (m, x, w')"
  shows "set (wplan w') \<subseteq> set (wplan w)"
    "case x of None \<Rightarrow> sent w' = sent w @ d | Some e \<Rightarrow> \<exists>k. Some (k, e) \<in> set (wplan w) \<and> sent w' = sent w @ take k d"
  using assms by (auto simp: w_write_def sent_def split: list.splits option.splits)

text \<open>One turn of a copy, by what the read and the write did.\<close>

lemma copy_turn_cases:
  assumes "copy_turn n src dst = (f, src', dst')"
  obtains (goes_on) d where "f = None" "contents (cin src) = d @ contents (cin src')"
      "sent (cout dst') = sent (cout dst) @ d" "set (wplan (cout dst')) \<subseteq> set (wplan (cout dst))"
  | (all) e where "f = Some e" "sent (cout dst') = sent (cout dst) @ contents (cin src)"
      "set (wplan (cout dst')) \<subseteq> set (wplan (cout dst))"
  | (failed) x k d rest where "f = Some (Some x)" "Some (k, x) \<in> set (wplan (cout dst))"
      "sent (cout dst') = sent (cout dst) @ take k d" "contents (cin src) = d @ rest"
      "set (wplan (cout dst')) \<subseteq> set (wplan (cout dst))"
proof -
  obtain d e r' where rd: "rd_read n (cin src) = (d, e, r')" by (metis prod_cases3)
  obtain m x w' where w: "(if d = [] then (0, None, cout dst) else w_write d (cout dst)) = (m, x, w')" by (metis prod_cases3)
  have ws: "set (wplan w') \<subseteq> set (wplan (cout dst))"
    "case x of None \<Rightarrow> sent w' = sent (cout dst) @ d
     | Some y \<Rightarrow> \<exists>k. Some (k, y) \<in> set (wplan (cout dst)) \<and> sent w' = sent (cout dst) @ take k d"
    using w w_write_faults [of d "cout dst" m x w'] by (auto split: if_splits option.splits)
  have eqs: "src' = src\<lparr>cin := r'\<rparr>" "dst' = dst\<lparr>cout := w'\<rparr>"
    "f = (case x of Some x \<Rightarrow> Some (Some x) | None \<Rightarrow>
       (case e of None \<Rightarrow> None | Some x \<Rightarrow> Some (if x = EOF then None else Some x)))"
    using assms by (auto simp: copy_turn_def rd w)
  show ?thesis
  proof (cases x)
    case (Some y)
    then show ?thesis using failed ws eqs rd_read_data(1) [OF rd] by auto
  next
    case None
    show ?thesis
    proof (cases e)
      case None
      then show ?thesis using goes_on \<open>x = None\<close> ws eqs rd_read_data(1) [OF rd] by auto
    next
      case (Some y)
      have "contents r' = []" using rd_read_error(2) rd Some by (simp add: contents_def)
      then show ?thesis using all Some \<open>x = None\<close> ws eqs rd_read_data(1) [OF rd] by auto
    qed
  qed
qed

interpretation wdir: direction wdir_inv
proof (unfold_locales, goal_cases)
  case (1 src0 dst0 src dst n src' dst')
  from 1(2) show ?case
    by (cases rule: copy_turn_cases) (use 1 copy_turn_frame(4) [OF 1(2)] in \<open>auto simp: wdir_inv_def\<close>)
next
  case (2 src0 dst0 src dst n err src' dst')
  note fr = copy_turn_frame(4) [OF 2(2)]
  from 2(2) show ?case
  proof (cases rule: copy_turn_cases)
    case goes_on
    then show ?thesis by simp
  next
    case (all e)
    then show ?thesis using 2(1) fr by (auto simp: wdir_inv_def dir_end_def CloseWrite_def)
  next
    case (failed x k d rest)
    have "take k d @ drop k d @ rest = d @ rest" by (simp flip: append_assoc)
    then have "sent (cout dst') @ drop k d @ rest = sent (cout dst0) @ contents (cin src0)"
      using failed 2(1) by (simp only: wdir_inv_def option.case append_assoc)
    moreover have "Some (k, x) \<in> set (wplan (cout dst0))" using failed 2(1) by (auto simp: wdir_inv_def)
    ultimately have "dir_end src0 dst0 err (CloseWrite dst')"
      using failed(1) unfolding dir_end_def CloseWrite_def by simp blast
    then show ?thesis using failed 2(1) fr by (auto simp: wdir_inv_def CloseWrite_def)
  qed
next
  case (3 src0 dst0 f src dst src' dst')
  then show ?case by (simp add: wdir_inv_def dir_end_def split: option.splits)
qed

text \<open>The channel holds the results of the copies that have ended, and the return uses both.\<close>

definition done_inv :: "pipe_state \<Rightarrow> bool" where
  "done_inv s \<longleftrightarrow>
     mset (p_done s) = (case p_ab s of None \<Rightarrow> {#} | Some e \<Rightarrow> {#e#}) + (case p_ba s of None \<Rightarrow> {#} | Some e \<Rightarrow> {#e#}) \<and>
     (p_ab s \<noteq> None \<longrightarrow> cwclosed (p_b s)) \<and> (p_ba s \<noteq> None \<longrightarrow> cwclosed (p_a s)) \<and>
     p_alate s \<le> arrivals (cin (p_a s)) \<and> p_blate s \<le> arrivals (cin (p_b s)) \<and>
     (case p_ret s of
        None \<Rightarrow> True
      | Some res \<Rightarrow> cclosed (p_a s) \<and> cclosed (p_b s) \<and>
          (\<exists>e1 e2. p_done s = [e1, e2] \<and> res = errAppend (dropEof e1) (dropEof e2)))"

lemma rd_read_arrivals:
  assumes "rd_read n r = (d, e, r')"
  shows "arrivals r \<le> Suc (arrivals r')"
  using assms by (auto simp: rd_read_def arrivals_def split: if_splits list.splits)

lemma copy_turn_arrivals:
  assumes "copy_turn n src dst = (f, src', dst')"
  shows "arrivals (cin src) \<le> Suc (arrivals (cin src'))"
  using assms rd_read_arrivals [of n "cin src"] by (auto simp: copy_turn_def split: prod.splits)

lemma done_inv_own:
  assumes "pipe_own n s s'" "done_inv s"
  shows "done_inv s'"
  using assms
proof (induction rule: pipe_own.induct)
  case (ab_turn s a' b')
  then show ?case
    using copy_turn_frame [OF ab_turn(3)] copy_turn_arrivals [OF ab_turn(3)]
    by (auto simp: done_inv_def arrived_def split: option.splits)
next
  case (ab_end s err a' b')
  then show ?case
    using copy_turn_frame [OF ab_end(3)] copy_turn_arrivals [OF ab_end(3)]
    by (auto simp: done_inv_def arrived_def CloseWrite_def add_ac split: option.splits)
next
  case (ba_turn s b' a')
  then show ?case
    using copy_turn_frame [OF ba_turn(3)] copy_turn_arrivals [OF ba_turn(3)]
    by (auto simp: done_inv_def arrived_def split: option.splits)
next
  case (ba_end s err b' a')
  then show ?case
    using copy_turn_frame [OF ba_end(3)] copy_turn_arrivals [OF ba_end(3)]
    by (auto simp: done_inv_def arrived_def CloseWrite_def add_ac split: option.splits)
next
  case (ret s err1 err2)
  then show ?case by (auto simp: done_inv_def conn_Close_def)
qed

lemma done_inv_reachable:
  assumes "(pipe_step n)\<^sup>*\<^sup>* (start_pipe a b) s"
  shows "done_inv s"
  using assms
proof (induction rule: rtranclp_induct)
  case base
  then show ?case by (simp add: done_inv_def start_pipe_def)
next
  case (step s t)
  from step(2) show ?case
  proof cases
    case own
    then show ?thesis using done_inv_own step(3) by blast
  next
    case peer
    then show ?thesis using step(3) by cases (auto simp: done_inv_def split: option.splits)
  qed
qed

lemma done_inv_length:
  "done_inv s \<Longrightarrow> length (p_done s) = (if p_ab s = None then 0 else 1) + (if p_ba s = None then 0 else 1)"
  by (drule arg_cong [where f = size, OF iffD1 [OF done_inv_def, THEN conjunct1]]) (auto split: option.splits)

text \<open>A run cannot go on for ever: every step uses up input, an arrival, a running copy or the return.\<close>

definition pipe_left :: "pipe_state \<Rightarrow> nat" where
  "pipe_left s = (if p_ab s = None then rd_left (cin (p_a s)) + 1 else 0)
     + (if p_ba s = None then rd_left (cin (p_b s)) + 1 else 0) + (if p_ret s = None then 1 else 0)
     + p_alate s + p_blate s"

lemma pipe_own_left:
  assumes "pipe_own n s s'" "0 < n"
  shows "pipe_left s' < pipe_left s"
  using assms(1)
proof (induction rule: pipe_own.induct)
  case (ab_turn s a' b')
  from copy_turn_left [OF ab_turn(3) assms(2)] copy_turn_frame(2) [OF ab_turn(3)] ab_turn(1)
  show ?case by (simp add: pipe_left_def)
next
  case (ab_end s err a' b')
  from copy_turn_frame(2) [OF ab_end(3)] ab_end(1) show ?case by (simp add: pipe_left_def CloseWrite_def)
next
  case (ba_turn s b' a')
  from copy_turn_left [OF ba_turn(3) assms(2)] copy_turn_frame(2) [OF ba_turn(3)] ba_turn(1)
  show ?case by (simp add: pipe_left_def)
next
  case (ba_end s err b' a')
  from copy_turn_frame(2) [OF ba_end(3)] ba_end(1) show ?case by (simp add: pipe_left_def CloseWrite_def)
next
  case (ret s err1 err2)
  then show ?case by (simp add: pipe_left_def conn_Close_def)
qed

lemma pipe_step_left:
  assumes "pipe_step n s s'" "0 < n"
  shows "pipe_left s' < pipe_left s"
  using assms(1)
proof cases
  case own
  then show ?thesis by (rule pipe_own_left) (rule assms(2))
next
  case peer
  then show ?thesis by cases (auto simp: pipe_left_def)
qed

text \<open>A copy whose source has something to read can take a turn.\<close>

lemma pipe_own_enabled:
  "p_ab s = None \<Longrightarrow> arrived (p_alate s) (p_a s) \<Longrightarrow> \<exists>s'. pipe_own n s s'"
  "p_ba s = None \<Longrightarrow> arrived (p_blate s) (p_b s) \<Longrightarrow> \<exists>s'. pipe_own n s s'"
proof -
  obtain f a' b' where ab: "copy_turn n (p_a s) (p_b s) = (f, a', b')" by (metis prod_cases3)
  obtain g b2 a2 where ba: "copy_turn n (p_b s) (p_a s) = (g, b2, a2)" by (metis prod_cases3)
  show "p_ab s = None \<Longrightarrow> arrived (p_alate s) (p_a s) \<Longrightarrow> \<exists>s'. pipe_own n s s'"
    using ab by (cases f) (blast intro: pipe_own.intros)+
  show "p_ba s = None \<Longrightarrow> arrived (p_blate s) (p_b s) \<Longrightarrow> \<exists>s'. pipe_own n s s'"
    using ba by (cases g) (blast intro: pipe_own.intros)+
qed

text \<open>
  What a pipe without a step of its own is waiting for: a copy still runs, each running copy
  has read all that has arrived from a peer that has not ended, and the peer behind a copy
  that has ended was told so.
\<close>

definition pipe_waits :: "pipe_state \<Rightarrow> bool" where
  "pipe_waits s \<longleftrightarrow> (p_ab s = None \<or> p_ba s = None) \<and>
     (p_ab s = None \<longrightarrow> idle (p_alate s) (p_a s)) \<and> (p_ba s = None \<longrightarrow> idle (p_blate s) (p_b s)) \<and>
     (p_ab s \<noteq> None \<longrightarrow> cwclosed (p_b s)) \<and> (p_ba s \<noteq> None \<longrightarrow> cwclosed (p_a s))"

lemma pipe_stuck:
  assumes "(pipe_step n)\<^sup>*\<^sup>* (start_pipe a b) s" "\<nexists>s'. pipe_own n s s'" "p_ret s = None"
  shows "pipe_waits s"
proof -
  have inv: "done_inv s" by (rule done_inv_reachable) (rule assms(1))
  have run: "p_ab s = None \<or> p_ba s = None"
  proof (rule ccontr)
    assume "\<not> ?thesis"
    with done_inv_length [OF inv] have "length (p_done s) = 2" by simp
    then obtain e1 e2 where "p_done s = [e1, e2]" by (auto simp: numeral_2_eq_2 length_Suc_conv)
    with assms(2,3) show False by (blast intro: pipe_own.ret)
  qed
  have "p_ab s = None \<Longrightarrow> \<not> arrived (p_alate s) (p_a s)" "p_ba s = None \<Longrightarrow> \<not> arrived (p_blate s) (p_b s)"
    using pipe_own_enabled assms(2) by blast+
  with run inv show ?thesis by (auto simp: pipe_waits_def done_inv_def arrived_def idle_def)
qed

text \<open>Peers that answer the end of their stream with the end of their own.\<close>

definition answers_end :: "pipe_state \<Rightarrow> bool" where
  "answers_end s \<longleftrightarrow> (cwclosed (p_a s) \<longrightarrow> p_alate s = 0) \<and> (cwclosed (p_b s) \<longrightarrow> p_blate s = 0)"

lemma not_idle_0: "\<not> idle 0 c"
  by (auto simp: idle_def arrivals_def max_def)

lemma waits_not_ended:
  "pipe_waits s \<Longrightarrow> answers_end s \<Longrightarrow> p_alate s \<noteq> 0 \<and> p_blate s \<noteq> 0"
  by (auto simp: pipe_waits_def answers_end_def not_idle_0)

section \<open>Forwarding\<close>

text \<open>
  \<open>ForwardTCP\<close>: a cancelled context or a failed dial closes the source and is the error;
  otherwise the two connections are piped.
\<close>

datatype 'c forward = Refused goerr netconn | Piped netconn 'c

definition ForwardTCP :: "goerr option \<Rightarrow> (SocketAddress \<Rightarrow> 'c res) \<Rightarrow> SocketAddress \<Rightarrow> netconn \<Rightarrow> 'c forward" where
  "ForwardTCP ctxErr dial accessAddr src =
     (case ctxErr of
        Some e \<Rightarrow> Refused e (conn_Close src)
      | None \<Rightarrow>
          (case dial accessAddr of
             Inl err \<Rightarrow> Refused err (conn_Close src)
           | Inr target \<Rightarrow> Piped src target))"

text \<open>The two clients at the end of a route.\<close>

definition direct_DialTCP :: "(string \<Rightarrow> 'c res) \<Rightarrow> SocketAddress \<Rightarrow> 'c res" where
  "direct_DialTCP netDial addr = (case ToHostStr addr of Inl e \<Rightarrow> Inl e | Inr host \<Rightarrow> netDial host)"

definition reject_DialTCP :: "SocketAddress \<Rightarrow> 'c res" where
  "reject_DialTCP addr = Inl (ErrNew ''rejected'')"

definition sample_a :: netconn where "sample_a = mk_conn (mk_reader [[1]])"
definition sample_b :: netconn where "sample_b = mk_conn (mk_reader [])"

lemma sample_pipe_run:
  "\<exists>h s. (pipe_step 4)\<^sup>*\<^sup>* (start_pipe sample_a sample_b) h \<and> p_ret h = None \<and> p_ab h = Some None \<and>
     (\<nexists>s'. pipe_own 4 h s') \<and> (pipe_step 4)\<^sup>*\<^sup>* h s \<and> p_ret s = Some None \<and> cwclosed (p_b s) \<and>
     p_alate s = 0 \<and> p_blate s = 0"
proof -
  let ?eof = "\<lparr>segs = [], fin = EOF, glue = False\<rparr>" and ?w0 = "\<lparr>wout = [], wplan = []\<rparr>" and ?w1 = "\<lparr>wout = [[1]], wplan = []\<rparr>"
  let ?a1 = "\<lparr>cin = ?eof, cout = ?w0, cclosed = False, cwclosed = False, clinger0 = False\<rparr>"
  let ?b1 = "\<lparr>cin = ?eof, cout = ?w1, cclosed = False, cwclosed = False, clinger0 = False\<rparr>"
  let ?s0 = "start_pipe sample_a sample_b"
  let ?r1 = "?s0\<lparr>p_alate := p_alate ?s0 - 1\<rparr>"
  let ?r2 = "?r1\<lparr>p_alate := p_alate ?r1 - 1\<rparr>"
  let ?s1 = "?r2\<lparr>p_a := ?a1, p_b := ?b1\<rparr>"
  let ?s2 = "?s1\<lparr>p_a := ?a1, p_b := CloseWrite ?b1, p_ab := Some None, p_done := p_done ?s1 @ [None]\<rparr>"
  let ?r3 = "?s2\<lparr>p_blate := p_blate ?s2 - 1\<rparr>"
  let ?s3 = "?r3\<lparr>p_a := CloseWrite ?a1, p_b := CloseWrite ?b1, p_ba := Some None, p_done := p_done ?r3 @ [None]\<rparr>"
  let ?s4 = "?s3\<lparr>p_a := conn_Close (p_a ?s3), p_b := conn_Close (p_b ?s3), p_ret := Some (errAppend (dropEof None) (dropEof None))\<rparr>"
  note defs = start_pipe_def sample_a_def sample_b_def copy_turn_def rd_read_def mk_conn_def mk_reader_def CloseWrite_def
    arrivals_def arrived_def
  have "pipe_step 4 ?s0 ?r1" by (rule peer, rule arrive_a) (simp add: defs)
  moreover have "pipe_step 4 ?r1 ?r2" by (rule peer, rule arrive_a) (simp add: defs)
  moreover have "pipe_step 4 ?r2 ?s1" by (rule own, rule ab_turn) (simp_all add: defs)
  moreover have "pipe_step 4 ?s1 ?s2" by (rule own, rule ab_end) (simp_all add: defs)
  ultimately have h: "(pipe_step 4)\<^sup>*\<^sup>* ?s0 ?s2" by (meson converse_rtranclp_into_rtranclp rtranclp.rtrancl_refl)
  have "pipe_step 4 ?s2 ?r3" by (rule peer, rule arrive_b) (simp add: defs)
  moreover have "pipe_step 4 ?r3 ?s3" by (rule own, rule ba_end) (simp_all add: defs)
  moreover have "pipe_step 4 ?s3 ?s4" by (rule own, rule ret) (simp_all add: start_pipe_def)
  ultimately have s: "(pipe_step 4)\<^sup>*\<^sup>* ?s2 ?s4" by (meson converse_rtranclp_into_rtranclp rtranclp.rtrancl_refl)
  have "\<nexists>s'. pipe_own 4 ?s2 s'"
  proof
    assume "\<exists>s'. pipe_own 4 ?s2 s'"
    then show False by (elim exE pipe_ownE) (simp_all add: defs)
  qed
  moreover have "p_ret ?s2 = None \<and> p_ab ?s2 = Some None" by (simp add: start_pipe_def)
  moreover have "p_ret ?s4 = Some None \<and> cwclosed (p_b ?s4) \<and> p_alate ?s4 = 0 \<and> p_blate ?s4 = 0"
    by (simp add: dropEof_def CloseWrite_def conn_Close_def defs)
  ultimately show ?thesis using h s by blast
qed

lemma sample_pipe_returns:
  "\<exists>s. (pipe_step 4)\<^sup>*\<^sup>* (start_pipe sample_a sample_b) s \<and> p_ret s = Some None \<and> cwclosed (p_b s)"
  using sample_pipe_run by (meson rtranclp_trans)

section \<open>Properties\<close>

text \<open>
  C26. A pipe that returns has relayed everything: when neither writer fails and both peers
  close, every schedule of the two copies ends with all bytes delivered in both directions,
  in order, both write sides shut down, both connections closed and no error.
\<close>

theorem pipe_delivers:
  assumes "(pipe_step n)\<^sup>*\<^sup>* (start_pipe a b) s" "p_ret s = Some res"
    "wplan (cout a) = []" "wplan (cout b) = []" "fin (cin a) = EOF" "fin (cin b) = EOF"
  shows "res = None \<and> sent (cout (p_b s)) = sent (cout b) @ contents (cin a) \<and>
    sent (cout (p_a s)) = sent (cout a) @ contents (cin b) \<and>
    cwclosed (p_a s) \<and> cwclosed (p_b s) \<and> cclosed (p_a s) \<and> cclosed (p_b s)"
proof -
  have "dir_inv a b None a b" "dir_inv b a None b a" using assms(3,4) by (simp_all add: dir_inv_def)
  with assms(1) have ab0: "dir_inv a b (p_ab s) (p_a s) (p_b s)" and ba0: "dir_inv b a (p_ba s) (p_b s) (p_a s)"
    by (auto dest: dir.pipe_reachable)
  have inv: "done_inv s" by (rule done_inv_reachable) (rule assms(1))
  with assms(2) obtain e1 e2 where d: "p_done s = [e1, e2]" "res = errAppend (dropEof e1) (dropEof e2)"
    and c: "cclosed (p_a s)" "cclosed (p_b s)" by (auto simp: done_inv_def)
  have "p_ab s \<noteq> None \<and> p_ba s \<noteq> None" using done_inv_length [OF inv] d(1) by (auto split: if_splits)
  then obtain x y where xy: "p_ab s = Some x" "p_ba s = Some y" by blast
  have m: "mset (p_done s) = {#x#} + {#y#}" using inv xy by (simp add: done_inv_def)
  have "x = None" "y = None" using ab0 ba0 xy assms(5,6) by (simp_all add: dir_inv_def)
  then have "e1 = None" "e2 = None" using m d(1) by (auto simp: add_eq_conv_ex)
  with ab0 ba0 xy c d(2) show ?thesis by (auto simp: dir_inv_def dropEof_def)
qed

theorem pipe_delivers_witness:
  "\<exists>s :: pipe_state. p_ret s = Some None \<and> sent (cout (p_b s)) = sent (cout sample_b) @ contents (cin sample_a)"
proof -
  from sample_pipe_returns obtain s where s: "(pipe_step 4)\<^sup>*\<^sup>* (start_pipe sample_a sample_b) s" "p_ret s = Some None"
    by blast
  have "sent (cout (p_b s)) = sent (cout sample_b) @ contents (cin sample_a)"
    by (rule pipe_delivers [OF s, THEN conjunct2, THEN conjunct1])
       (simp_all add: sample_a_def sample_b_def mk_conn_def mk_reader_def)
  with s(2) show ?thesis by blast
qed

text \<open>
  C27. \<open>Pipe\<close> hangs only on peers that are idle and have not ended. Whatever the connections
  deliver and whichever writes fail, no schedule goes on for ever. When the pipe can do
  nothing and has not returned, every copy that runs has read all that its peer sent and the
  peer has not ended, and the connection behind a copy that has ended has its write side
  shut. So when a peer has ended, and peers that are told of the end of their stream answer
  with their own, the pipe returns. (Writes finish: a peer that never reads is not modelled.
  Both connections are of the kind that \<open>CloseWrite\<close> shuts, see the head of the theory.)
\<close>

theorem pipe_terminates:
  assumes "0 < n"
  shows "wfP (\<lambda>s' s. pipe_step n s s') \<and>
    (\<forall>s. (pipe_step n)\<^sup>*\<^sup>* (start_pipe a b) s \<and> (\<nexists>s'. pipe_own n s s') \<longrightarrow>
       (p_ret s \<noteq> None \<or> pipe_waits s) \<and>
       (answers_end s \<and> (p_alate s = 0 \<or> p_blate s = 0) \<longrightarrow> p_ret s \<noteq> None))"
proof
  have "(\<lambda>s' s. pipe_step n s s') \<le> (\<lambda>s' s. pipe_left s' < pipe_left s)"
    using pipe_step_left [OF _ assms] by auto
  moreover have "wfP (\<lambda>s' s. pipe_left s' < pipe_left s)"
    by (rule wfp_if_convertible_to_nat [where f = pipe_left])
  ultimately show "wfP (\<lambda>s' s. pipe_step n s s')" by (rule wfp_subset [rotated])
  show "\<forall>s. (pipe_step n)\<^sup>*\<^sup>* (start_pipe a b) s \<and> (\<nexists>s'. pipe_own n s s') \<longrightarrow>
       (p_ret s \<noteq> None \<or> pipe_waits s) \<and> (answers_end s \<and> (p_alate s = 0 \<or> p_blate s = 0) \<longrightarrow> p_ret s \<noteq> None)"
    using pipe_stuck waits_not_ended by blast
qed

theorem pipe_terminates_witness:
  "\<exists>h :: pipe_state. p_ret h = None \<and> p_ab h = Some None \<and> idle (p_blate h) (p_b h) \<and> cwclosed (p_b h)"
proof -
  from sample_pipe_run obtain h where h: "(pipe_step 4)\<^sup>*\<^sup>* (start_pipe sample_a sample_b) h"
    "p_ret h = None" "p_ab h = Some None" "\<nexists>s'. pipe_own 4 h s'" by blast
  have "p_ret h \<noteq> None \<or> pipe_waits h"
    using pipe_terminates [of 4 sample_a sample_b] h(1,4) by simp
  with h(2,3) show ?thesis by (auto simp: pipe_waits_def)
qed

text \<open>
  C28. No early end of stream: in every reachable state of every schedule, and whichever
  writes fail, a connection whose write side the pipe has shut down is one whose copy has
  ended, and it has been sent all the bytes of the other side, unless one of its own writes
  failed: then the copy ended with that error and what was sent is a beginning of them.
\<close>

theorem pipe_half_close_last:
  assumes "(pipe_step n)\<^sup>*\<^sup>* (start_pipe a b) s" "\<not> cwclosed a" "\<not> cwclosed b"
  shows "(cwclosed (p_b s) \<longrightarrow> (\<exists>err. p_ab s = Some err \<and>
       (sent (cout (p_b s)) = sent (cout b) @ contents (cin a) \<or>
        (\<exists>k x rest. Some (k, x) \<in> set (wplan (cout b)) \<and> err = Some x \<and>
           sent (cout (p_b s)) @ rest = sent (cout b) @ contents (cin a))))) \<and>
    (cwclosed (p_a s) \<longrightarrow> (\<exists>err. p_ba s = Some err \<and>
       (sent (cout (p_a s)) = sent (cout a) @ contents (cin b) \<or>
        (\<exists>k x rest. Some (k, x) \<in> set (wplan (cout a)) \<and> err = Some x \<and>
           sent (cout (p_a s)) @ rest = sent (cout a) @ contents (cin b)))))"
proof -
  have "wdir_inv a b None a b" "wdir_inv b a None b a" by (simp_all add: wdir_inv_def)
  with assms(1) have "wdir_inv a b (p_ab s) (p_a s) (p_b s)" "wdir_inv b a (p_ba s) (p_b s) (p_a s)"
    by (auto dest: wdir.pipe_reachable)
  with assms(2,3) show ?thesis by (auto simp: wdir_inv_def dir_end_def split: option.splits)
qed

theorem pipe_half_close_last_witness:
  "\<exists>s :: pipe_state. p_ret s = Some None \<and> cwclosed (p_b s) \<and>
    sent (cout (p_b s)) = sent (cout sample_b) @ contents (cin sample_a)"
proof -
  from sample_pipe_returns obtain s where s: "(pipe_step 4)\<^sup>*\<^sup>* (start_pipe sample_a sample_b) s"
    "p_ret s = Some None" "cwclosed (p_b s)" by blast
  have "sent (cout (p_b s)) = sent (cout sample_b) @ contents (cin sample_a)"
    using pipe_half_close_last [OF s(1)] s(3) by (simp add: sample_a_def sample_b_def mk_conn_def)
  with s(2,3) show ?thesis by blast
qed

end
