(* ===== verification/NpPadding.thy ===== *)
theory NpPadding
  imports IoUtil
begin

text \<open>
  The payload padding of the NaiveProxy carrier, \<open>padding_reader_writer.go\<close>: the first eight
  writes of a stream are framed with a length and a random number of zero bytes, the rest is
  sent as it is. The padding writer and reader are inverse on every stream, for every way the
  bytes are cut into writes and reads.
\<close>

definition maxPaddingSize :: nat where "maxPaddingSize = 255"
definition maxOriginalPayloadSize :: nat where "maxOriginalPayloadSize = 65535"
definition firstPaddings :: nat where "firstPaddings = 8"

lemmas np_const_defs = maxPaddingSize_def maxOriginalPayloadSize_def firstPaddings_def

section \<open>The reader\<close>

record paddingReader =
  pr_r :: reader
  pr_count :: nat
  payloadRemaining :: nat
  paddingRemaining :: nat

text \<open>
  \<open>io.CopyN(io.Discard, r, n)\<close> reads \<open>n\<close> bytes or reports \<open>EOF\<close>, which \<open>discardPadding\<close>
  turns into \<open>ErrUnexpectedEOF\<close>.
\<close>

definition discardPadding :: "paddingReader \<Rightarrow> goerr option \<times> paddingReader" where
  "discardPadding pr =
     (if 0 < paddingRemaining pr then
        (case read_loop (paddingRemaining pr) [] (pr_r pr) of (bs, e, r') \<Rightarrow>
           let pr' = pr\<lparr>pr_r := r', paddingRemaining := paddingRemaining pr - length bs\<rparr> in
           if length bs < paddingRemaining pr then
             (Some (case e of None \<Rightarrow> UnexpectedEOF | Some x \<Rightarrow> if x = EOF then UnexpectedEOF else x), pr')
           else (None, pr'\<lparr>pr_count := pr_count pr' + 1\<rparr>))
      else (None, pr\<lparr>pr_count := pr_count pr + 1\<rparr>))"

text \<open>
  The loop over frame headers: \<open>Inl\<close> returns from \<open>Read\<close> with an error, \<open>Inr True\<close> has a
  payload to read, \<open>Inr False\<close> has seen the last padded frame.
\<close>

function read_headers :: "paddingReader \<Rightarrow> (goerr + bool) \<times> paddingReader" where
  "read_headers pr =
     (if 0 < payloadRemaining pr then (Inr True, pr)
      else if length (contents (pr_r pr)) < 3 then
        (Inl (short_error (pr_r pr)), pr\<lparr>pr_r := rd_adv 3 (pr_r pr)\<rparr>)
      else
        (let header = take 3 (contents (pr_r pr));
             pr1 = pr\<lparr>pr_r := rd_adv 3 (pr_r pr), payloadRemaining := unat (be16_get header),
               paddingRemaining := unat (header ! 2)\<rparr>
         in if payloadRemaining pr1 = 0 then
              (case discardPadding pr1 of
                 (Some e, pr2) \<Rightarrow> (Inl e, pr2)
               | (None, pr2) \<Rightarrow> if firstPaddings \<le> pr_count pr2 then (Inr False, pr2) else read_headers pr2)
            else (Inr True, pr1)))"
  by pat_completeness auto

lemma read_loop_contents:
  "read_loop n acc r = (bs, e, r') \<Longrightarrow> length (contents r') \<le> length (contents r) \<and> length (segs r') \<le> length (segs r)"
proof (induction n acc r rule: read_loop.induct)
  case (1 n acc r)
  show ?case
  proof (cases "length acc < n")
    case False
    with "1.prems" show ?thesis by (simp add: read_loop.simps [of n acc r])
  next
    case True
    obtain d x r1 where rd: "rd_read (n - length acc) r = (d, x, r1)" by (metis prod_cases3)
    have le: "length (contents r1) \<le> length (contents r)" "length (segs r1) \<le> length (segs r)"
      using rd_read_data(1) [OF rd] rd by (auto simp: rd_read_def split: if_splits list.splits)
    show ?thesis
    proof (cases x)
      case None
      with "1.IH" [OF True rd [symmetric] refl None] "1.prems" True rd le show ?thesis
        by (simp add: read_loop.simps [of n acc r])
    next
      case (Some y)
      with "1.prems" True rd le show ?thesis by (simp add: read_loop.simps [of n acc r])
    qed
  qed
qed

lemma rd_left_adv: "rd_left (rd_adv n r) \<le> rd_left r"
  using read_loop_contents [of n "[]" r] by (cases "read_loop n [] r") (auto simp: rd_adv_def rd_left_def)

lemma discardPadding_contents:
  "discardPadding pr = (e, pr') \<Longrightarrow> length (contents (pr_r pr')) \<le> length (contents (pr_r pr)) \<and>
     rd_left (pr_r pr') \<le> rd_left (pr_r pr) \<and> payloadRemaining pr' = payloadRemaining pr"
  by (auto simp: discardPadding_def Let_def rd_left_def split: if_splits prod.splits dest!: read_loop_contents)

termination read_headers
proof (relation "measure (\<lambda>pr. length (contents (pr_r pr)))", goal_cases)
  case 1
  then show ?case by simp
next
  case (2 pr header pr1 x pr2)
  then have "discardPadding pr1 = (None, pr2)" by simp
  from discardPadding_contents [OF this] 2(4)
  have "length (contents (pr_r pr2)) \<le> length (contents (pr_r pr)) - 3"
    using 2(2) by (simp add: not_less)
  with 2(2) show ?case by (simp add: not_less)
qed

declare read_headers.simps [simp del]

definition padding_Read :: "nat \<Rightarrow> paddingReader \<Rightarrow> bytes \<times> goerr option \<times> paddingReader" where
  "padding_Read n pr =
     (if firstPaddings \<le> pr_count pr then
        (case rd_read n (pr_r pr) of (d, e, r') \<Rightarrow> (d, e, pr\<lparr>pr_r := r'\<rparr>))
      else if n = 0 then ([], None, pr)
      else (case read_headers pr of
        (Inl e, pr1) \<Rightarrow> ([], Some e, pr1)
      | (Inr False, pr1) \<Rightarrow>
          (case rd_read n (pr_r pr1) of (d, e, r') \<Rightarrow> (d, e, pr1\<lparr>pr_r := r'\<rparr>))
      | (Inr True, pr1) \<Rightarrow>
          (case rd_read (min n (payloadRemaining pr1)) (pr_r pr1) of (d, err, r') \<Rightarrow>
            let pr2 = pr1\<lparr>pr_r := r', payloadRemaining := payloadRemaining pr1 - length d\<rparr> in
            (case err of
               Some e \<Rightarrow>
                 (d, Some (if e = EOF \<and> (0 < payloadRemaining pr2 \<or> 0 < paddingRemaining pr2)
                           then UnexpectedEOF else e), pr2)
             | None \<Rightarrow>
                 if payloadRemaining pr2 = 0
                 then (case discardPadding pr2 of (e, pr3) \<Rightarrow> (d, e, pr3))
                 else (d, None, pr2)))))"

section \<open>The writer\<close>

record paddingWriter =
  pw_w :: writer
  pw_count :: nat

text \<open>The padding sizes are the draws of \<open>rand.N(maxPaddingSize + 1)\<close>, one for each frame.\<close>

definition pad_frame :: "bytes \<Rightarrow> nat \<Rightarrow> bytes" where
  "pad_frame chunk paddingSize =
     be16_put (of_nat (length chunk)) @ of_nat paddingSize # chunk @ replicate paddingSize 0"

function write_frames ::
  "(nat \<Rightarrow> nat) \<Rightarrow> bytes \<Rightarrow> nat \<Rightarrow> paddingWriter \<Rightarrow> nat \<times> bytes \<times> goerr option \<times> paddingWriter" where
  "write_frames draws p n pw =
     (if p \<noteq> [] \<and> pw_count pw < firstPaddings then
        (let chunk = take maxOriginalPayloadSize p in
         case w_write (pad_frame chunk (draws (pw_count pw) mod (maxPaddingSize + 1))) (pw_w pw) of
           (m, Some e, w') \<Rightarrow> (n, p, Some e, pw\<lparr>pw_w := w'\<rparr>)
         | (m, None, w') \<Rightarrow>
             write_frames draws (drop (length chunk) p) (n + length chunk)
               (pw\<lparr>pw_w := w', pw_count := pw_count pw + 1\<rparr>))
      else (n, p, None, pw))"
  by pat_completeness auto
termination
  by (relation "measure (\<lambda>(draws, p, n, pw). length p)") (auto simp: maxOriginalPayloadSize_def min_def)

declare write_frames.simps [simp del]

definition padding_Write :: "(nat \<Rightarrow> nat) \<Rightarrow> bytes \<Rightarrow> paddingWriter \<Rightarrow> nat \<times> goerr option \<times> paddingWriter" where
  "padding_Write draws p pw =
     (if firstPaddings \<le> pw_count pw then
        (case w_write p (pw_w pw) of (n, e, w') \<Rightarrow> (n, e, pw\<lparr>pw_w := w'\<rparr>))
      else (case write_frames draws p 0 pw of
        (n, rest, Some e, pw') \<Rightarrow> (n, Some e, pw')
      | (n, rest, None, pw') \<Rightarrow>
          if rest \<noteq> [] then
            (case w_write rest (pw_w pw') of (m, e, w') \<Rightarrow> (n + m, e, pw'\<lparr>pw_w := w'\<rparr>))
          else (n, None, pw')))"

section \<open>What a padded stream carries\<close>

text \<open>
  The payload of a stream from a reader state on: \<open>None\<close> when the stream does not end at a
  frame boundary or a payload.
\<close>

function np_dec :: "nat \<Rightarrow> nat \<Rightarrow> nat \<Rightarrow> bytes \<Rightarrow> bytes option" where
  "np_dec count pay pad bs =
     (if firstPaddings \<le> count then Some bs
      else if 0 < pay then
        (if length bs < pay + pad then None
         else map_option (append (take pay bs)) (np_dec (count + 1) 0 0 (drop (pay + pad) bs)))
      else if bs = [] then Some []
      else if length bs < 3 then None
      else (let pay = unat (be16_get (take 3 bs)); pad = unat (bs ! 2) in
        if pay = 0
        then (if length bs < 3 + pad then None else np_dec (count + 1) 0 0 (drop (3 + pad) bs))
        else np_dec count pay pad (drop 3 bs)))"
  by pat_completeness auto
termination
  by (relation "measure (\<lambda>(count, pay, pad, bs). length bs)") auto

declare np_dec.simps [simp del]

definition np_rest :: "paddingReader \<Rightarrow> bytes option" where
  "np_rest pr = np_dec (pr_count pr) (payloadRemaining pr) (paddingRemaining pr) (contents (pr_r pr))"

definition np_data :: "paddingReader \<Rightarrow> bytes" where
  "np_data pr = (case np_rest pr of None \<Rightarrow> [] | Some d \<Rightarrow> d)"

text \<open>
  A reader between calls is inside a payload or at a frame boundary, never inside padding.
\<close>

definition np_ok :: "paddingReader \<Rightarrow> bool" where
  "np_ok pr \<longleftrightarrow> np_rest pr \<noteq> None \<and>
     (pr_count pr < firstPaddings \<and> payloadRemaining pr = 0 \<longrightarrow> paddingRemaining pr = 0)"

lemma np_dec_raw: "firstPaddings \<le> count \<Longrightarrow> np_dec count pay pad bs = Some bs"
  by (simp add: np_dec.simps)

lemma np_dec_pay:
  "count < firstPaddings \<Longrightarrow> 0 < pay \<Longrightarrow> np_dec count pay pad bs =
    (if length bs < pay + pad then None
     else map_option (append (take pay bs)) (np_dec (count + 1) 0 0 (drop (pay + pad) bs)))"
  by (simp add: np_dec.simps)

lemma np_dec_end: "np_dec count 0 pad [] = Some []"
  by (simp add: np_dec.simps)

lemma np_dec_header:
  "count < firstPaddings \<Longrightarrow> bs \<noteq> [] \<Longrightarrow> np_dec count 0 pad bs =
    (if length bs < 3 then None
     else if unat (be16_get (take 3 bs)) = 0
     then (if length bs < 3 + unat (bs ! 2) then None else np_dec (count + 1) 0 0 (drop (3 + unat (bs ! 2)) bs))
     else np_dec count (unat (be16_get (take 3 bs))) (unat (bs ! 2)) (drop 3 bs))"
  by (subst np_dec.simps) (simp add: Let_def)

text \<open>Dropping the padding of a frame that is there.\<close>

lemma discardPadding_ok:
  assumes "paddingRemaining pr \<le> length (contents (pr_r pr))"
  shows "discardPadding pr = (None, pr\<lparr>pr_r := (if 0 < paddingRemaining pr then rd_adv (paddingRemaining pr) (pr_r pr)
     else pr_r pr), paddingRemaining := 0, pr_count := pr_count pr + 1\<rparr>)"
proof (cases "0 < paddingRemaining pr")
  case True
  with read_loop_enough [of "[]" "paddingRemaining pr" "pr_r pr"] assms show ?thesis
    by (auto simp: discardPadding_def rd_adv_def Let_def)
qed (simp add: discardPadding_def)

text \<open>
  What the header loop finds on a well-formed stream: the end of the stream, the raw part, or
  a frame with a payload; the payload still to come is the same.
\<close>

lemma read_headers_ok:
  assumes "np_ok pr" "pr_count pr < firstPaddings" "read_headers pr = (res, pr1)"
  shows "fin (pr_r pr1) = fin (pr_r pr) \<and> rd_left (pr_r pr1) \<le> rd_left (pr_r pr) \<and>
    (case res of
       Inl e \<Rightarrow> e = fin (pr_r pr) \<and> np_data pr = [] \<and> np_ok pr1 \<and> np_data pr1 = []
     | Inr True \<Rightarrow> pr_count pr1 < firstPaddings \<and> 0 < payloadRemaining pr1 \<and> np_rest pr1 = np_rest pr
     | Inr False \<Rightarrow> firstPaddings \<le> pr_count pr1 \<and> np_rest pr1 = np_rest pr)"
  using assms
proof (induction pr rule: read_headers.induct)
  case (1 pr)
  let ?r = "pr_r pr"
  show ?case
  proof (cases "0 < payloadRemaining pr")
    case True
    with 1(3,4) show ?thesis by (auto simp: read_headers.simps [of pr])
  next
    case False
    then have pay: "payloadRemaining pr = 0" by simp
    have ok: "np_rest pr \<noteq> None" "paddingRemaining pr = 0" using 1(2,3) pay by (simp_all add: np_ok_def)
    show ?thesis
    proof (cases "contents ?r = []")
      case True
      then have "np_rest pr = Some []" using pay by (simp add: np_rest_def np_dec_end)
      moreover have "contents (rd_adv 3 ?r) = []" using True by (simp add: rd_adv_short)
      ultimately show ?thesis using 1(3,4) pay True ok rd_left_adv [of 3 ?r]
        by (auto simp: read_headers.simps [of pr] short_error_def np_data_def np_rest_def np_dec_end np_ok_def)
    next
      case ne: False
      have len: "3 \<le> length (contents ?r)"
        using ok(1) ne 1(3) pay by (auto simp: np_rest_def np_dec_header split: if_splits)
      define header where "header = take 3 (contents ?r)"
      define pr2 where "pr2 = pr\<lparr>pr_r := rd_adv 3 ?r, payloadRemaining := unat (be16_get header),
        paddingRemaining := unat (header ! 2)\<rparr>"
      have nth: "header ! 2 = contents ?r ! 2" using len by (simp add: header_def)
      have left: "rd_left (pr_r pr2) \<le> rd_left ?r" by (simp add: pr2_def rd_left_adv)
      show ?thesis
      proof (cases "payloadRemaining pr2 = 0")
        case False
        then have "read_headers pr = (Inr True, pr2)"
          using pay len by (simp add: read_headers.simps [of pr] Let_def pr2_def header_def)
        moreover have "np_rest pr2 = np_rest pr"
          using ne 1(3) pay len False nth by (simp add: np_rest_def np_dec_header pr2_def header_def)
        ultimately show ?thesis using 1(3,4) False left by (auto simp: pr2_def)
      next
        case True
        then have z: "unat (be16_get header) = 0" by (simp add: pr2_def)
        have enough: "3 + unat (header ! 2) \<le> length (contents ?r)"
          and rest: "np_rest pr = np_dec (pr_count pr + 1) 0 0 (drop (3 + unat (header ! 2)) (contents ?r))"
          using ok(1) ne 1(3) pay len z nth
          by (auto simp: np_rest_def np_dec_header header_def not_less split: if_splits)
        have "paddingRemaining pr2 \<le> length (contents (pr_r pr2))"
          using enough len by (simp add: pr2_def)
        from discardPadding_ok [OF this] obtain pr3 where
          pr3: "discardPadding pr2 = (None, pr3)" "pr_count pr3 = pr_count pr + 1" "payloadRemaining pr3 = 0"
          "paddingRemaining pr3 = 0" "contents (pr_r pr3) = drop (3 + unat (header ! 2)) (contents ?r)"
          "fin (pr_r pr3) = fin ?r"
          using enough len True by (auto simp: pr2_def add.commute)
        have left3: "rd_left (pr_r pr3) \<le> rd_left ?r"
          using discardPadding_contents [OF pr3(1)] left by simp
        have rest3: "np_rest pr3 = np_rest pr" using rest pr3 by (simp add: np_rest_def)
        have unf: "read_headers pr = (if firstPaddings \<le> pr_count pr3 then (Inr False, pr3) else read_headers pr3)"
          using pay len pr3(1) True by (simp add: read_headers.simps [of pr] Let_def pr2_def header_def)
        show ?thesis
        proof (cases "firstPaddings \<le> pr_count pr3")
          case True
          with unf 1(4) pr3 rest3 left3 show ?thesis by auto
        next
          case False
          have "np_ok pr3" using rest3 ok(1) pr3 by (simp add: np_ok_def)
          with 1(1) [OF _ _ header_def pr2_def True pr3(1) [symmetric] refl False, OF _ _ \<open>np_ok pr3\<close>]
            False unf 1(4) pay len pr3 rest3 left3
          show ?thesis by (fastforce simp: np_data_def split: sum.splits bool.splits)
        qed
      qed
    qed
  qed
qed

section \<open>The reader is a byte source\<close>

definition source_step :: "nat \<Rightarrow> paddingReader \<Rightarrow> bytes \<Rightarrow> goerr option \<Rightarrow> paddingReader \<Rightarrow> bool" where
  "source_step n pr d e pr' \<longleftrightarrow> np_ok pr' \<and> np_data pr = d @ np_data pr' \<and> fin (pr_r pr') = fin (pr_r pr) \<and>
     length d \<le> n \<and>
     (case e of None \<Rightarrow> rd_left (pr_r pr') < rd_left (pr_r pr) | Some x \<Rightarrow> x = fin (pr_r pr) \<and> np_data pr' = [])"

lemma raw_step:
  assumes "firstPaddings \<le> pr_count pr" "0 < n" "rd_read n (pr_r pr) = (d, e, r')"
  shows "source_step n pr d e (pr\<lparr>pr_r := r'\<rparr>)"
proof -
  note data = rd_read_data [OF assms(3)]
  have rest: "np_rest (pr\<lparr>pr_r := r\<rparr>) = Some (contents r)" for r
    using assms(1) by (simp add: np_rest_def np_dec_raw)
  have "np_data pr = d @ np_data (pr\<lparr>pr_r := r'\<rparr>)"
    using rest [of "pr_r pr"] rest [of r'] data by (simp add: np_data_def)
  moreover have "np_ok (pr\<lparr>pr_r := r'\<rparr>)" using rest [of r'] assms(1) by (simp add: np_ok_def)
  moreover have "np_data (pr\<lparr>pr_r := r'\<rparr>) = contents r'" using rest [of r'] by (simp add: np_data_def)
  moreover have "case e of None \<Rightarrow> rd_left r' < rd_left (pr_r pr) | Some x \<Rightarrow> x = fin (pr_r pr) \<and> contents r' = []"
  proof (cases e)
    case None
    with rd_read_progress [of n "pr_r pr" d r'] assms show ?thesis by simp
  next
    case (Some x)
    with rd_read_error [of n "pr_r pr" d x r'] assms show ?thesis by (simp add: contents_def)
  qed
  ultimately show ?thesis using data by (simp add: source_step_def split: option.splits)
qed

lemma payload_step:
  assumes c: "pr_count pr < firstPaddings" and pay: "0 < payloadRemaining pr" and ok: "np_rest pr \<noteq> None"
    and n: "0 < n" and rd: "rd_read (min n (payloadRemaining pr)) (pr_r pr) = (d, err, r')"
  defines "pr2 \<equiv> pr\<lparr>pr_r := r', payloadRemaining := payloadRemaining pr - length d\<rparr>"
  shows "source_step n pr d
      (case err of
         Some e \<Rightarrow> Some (if e = EOF \<and> (0 < payloadRemaining pr2 \<or> 0 < paddingRemaining pr2) then UnexpectedEOF else e)
       | None \<Rightarrow> if payloadRemaining pr2 = 0 then fst (discardPadding pr2) else None)
      (if err = None \<and> payloadRemaining pr2 = 0 then snd (discardPadding pr2) else pr2)"
proof -
  let ?pay = "payloadRemaining pr" and ?pad = "paddingRemaining pr" and ?bs = "contents (pr_r pr)"
  note data = rd_read_data [OF rd]
  have len: "?pay + ?pad \<le> length ?bs"
    using ok c pay by (simp add: np_rest_def np_dec_pay split: if_split_asm)
  obtain y where y: "np_dec (pr_count pr + 1) 0 0 (drop (?pay + ?pad) ?bs) = Some y"
    using ok c pay len
    by (cases "np_dec (pr_count pr + 1) 0 0 (drop (?pay + ?pad) ?bs)") (simp_all add: np_rest_def np_dec_pay)
  then have rest: "np_rest pr = Some (take ?pay ?bs @ y)"
    using c pay len by (simp add: np_rest_def np_dec_pay)
  have dl: "length d \<le> ?pay" "length d \<le> n" using data(3) by simp_all
  have bs: "?bs = d @ contents r'" using data(1) .
  show ?thesis
  proof (cases err)
    case (Some e)
    have e: "e = fin (pr_r pr)" "contents r' = []"
      using rd_read_error [OF rd [unfolded Some]] by (simp_all add: contents_def)
    with len bs dl have l: "length d = ?pay" "?pad = 0" by auto
    have "y = []" using y len bs e l by (simp add: np_dec_end)
    with l e rest bs dl data(2) Some show ?thesis
      by (simp add: source_step_def pr2_def np_ok_def np_rest_def np_dec_end np_data_def)
  next
    case None
    have prog: "rd_left r' < rd_left (pr_r pr)" using rd_read_progress [of _ "pr_r pr" d r'] rd None n pay by simp
    show ?thesis
    proof (cases "length d = ?pay")
      case True
      have "paddingRemaining pr2 \<le> length (contents (pr_r pr2))"
        using len bs True by (simp add: pr2_def)
      from discardPadding_ok [OF this] obtain pr3 where
        pr3: "discardPadding pr2 = (None, pr3)" "pr_count pr3 = pr_count pr + 1" "payloadRemaining pr3 = 0"
        "paddingRemaining pr3 = 0" "contents (pr_r pr3) = drop ?pad (contents r')" "fin (pr_r pr3) = fin r'"
        using len bs True by (auto simp: pr2_def)
      have "np_rest pr3 = Some y" using y pr3 bs True by (simp add: np_rest_def)
      moreover have "rd_left (pr_r pr3) \<le> rd_left r'"
        using discardPadding_contents [OF pr3(1)] by (simp add: pr2_def)
      ultimately show ?thesis
        using None True pr3 prog rest bs dl data(2)
        by (simp add: source_step_def np_ok_def np_data_def) (simp add: pr2_def)
    next
      case False
      with dl have lt: "length d < ?pay" by simp
      have "np_rest pr2 = Some (take (?pay - length d) (contents r') @ y)"
        using lt c len bs y by (simp add: np_rest_def pr2_def np_dec_pay)
      with lt None prog rest bs dl data(2) show ?thesis
        by (simp add: source_step_def np_ok_def np_data_def) (simp add: pr2_def)
    qed
  qed
qed

lemma padding_Read_step:
  assumes "np_ok pr" "0 < n" "padding_Read n pr = (d, e, pr')"
  shows "source_step n pr d e pr'"
proof (cases "firstPaddings \<le> pr_count pr")
  case True
  with assms(3) raw_step [OF True assms(2)] show ?thesis
    by (auto simp: padding_Read_def split: prod.splits)
next
  case False
  then have c: "pr_count pr < firstPaddings" by simp
  obtain res pr1 where h: "read_headers pr = (res, pr1)" by force
  note hd = read_headers_ok [OF assms(1) c h]
  have lift: "source_step n pr d e pr'" if "np_rest pr1 = np_rest pr" "source_step n pr1 d e pr'"
    using that hd by (auto simp: source_step_def np_data_def split: option.splits)
  show ?thesis
  proof (cases res)
    case (Inl x)
    with h hd False assms(2,3) show ?thesis by (auto simp: padding_Read_def source_step_def)
  next
    case (Inr b)
    show ?thesis
    proof (cases b)
      case False
      with Inr hd have "firstPaddings \<le> pr_count pr1" "np_rest pr1 = np_rest pr" by simp_all
      with raw_step [OF this(1) assms(2)] c h Inr False assms(2,3) show ?thesis
        by (intro lift) (auto simp: padding_Read_def split: prod.splits)
    next
      case True
      with Inr hd have p1: "pr_count pr1 < firstPaddings" "0 < payloadRemaining pr1" "np_rest pr1 = np_rest pr"
        by simp_all
      with assms(1) have ok: "np_rest pr1 \<noteq> None" by (simp add: np_ok_def)
      obtain d1 err r' where rd: "rd_read (min n (payloadRemaining pr1)) (pr_r pr1) = (d1, err, r')"
        by (metis prod_cases3)
      from payload_step [OF p1(1,2) ok assms(2) rd] c h Inr True rd assms(2,3) show ?thesis
        by (intro lift [OF p1(3)])
           (auto simp: padding_Read_def Let_def split: option.splits if_splits prod.splits)
    qed
  qed
qed

interpretation np: byte_source padding_Read np_data "\<lambda>pr. fin (pr_r pr)" "\<lambda>pr. rd_left (pr_r pr)" np_ok
  by unfold_locales (auto simp: source_step_def dest!: padding_Read_step)

section \<open>The writer produces padded streams\<close>

text \<open>The frames of a writer at \<open>count\<close> that is given the bytes \<open>p\<close>, and what follows them raw.\<close>

definition pw_out :: "paddingWriter \<Rightarrow> bytes" where
  "pw_out pw = sent (pw_w pw)"

lemma np_dec_frame:
  assumes "count < firstPaddings" "chunk \<noteq> []" "length chunk \<le> 65535" "k \<le> 255"
  shows "np_dec count 0 0 (pad_frame chunk k @ rest) = map_option (append chunk) (np_dec (count + 1) 0 0 rest)"
proof -
  have len: "unat (of_nat (length chunk) :: u16) = length chunk" "unat (of_nat k :: byte) = k"
    using assms(3,4) by (simp_all add: unat_of_nat)
  have get: "be16_get (take 3 (pad_frame chunk k @ rest)) = of_nat (length chunk)"
    by (simp add: pad_frame_def)
  have nth: "(pad_frame chunk k @ rest) ! 2 = of_nat k" by (simp add: pad_frame_def nth_append)
  have "np_dec count 0 0 (pad_frame chunk k @ rest) =
      np_dec count (length chunk) k (chunk @ replicate k 0 @ rest)"
    using assms(1,2) len get nth
    by (subst np_dec_header) (simp_all add: pad_frame_def)
  then show ?thesis using assms(1,2) by (simp add: np_dec_pay)
qed

lemma np_dec_append_raw:
  "firstPaddings \<le> count \<Longrightarrow> np_dec count 0 0 (xs @ ys) = map_option (append xs) (np_dec count 0 0 ys)"
  by (simp add: np_dec_raw)

text \<open>
  One \<open>Write\<close> emits bytes that a reader at the same count turns into the payload; the counts
  of the two sides stay equal.
\<close>

lemma write_frames_ok:
  assumes "wplan (pw_w pw) = []" "write_frames draws p n pw = (m, rest, e, pw')"
  shows "\<exists>out. e = None \<and> pw_out pw' = pw_out pw @ out \<and> m + length rest = n + length p \<and> wplan (pw_w pw') = [] \<and>
    (rest \<noteq> [] \<longrightarrow> firstPaddings \<le> pw_count pw') \<and>
    (\<forall>tail. np_dec (pw_count pw) 0 0 (out @ tail) =
       map_option (append (take (length p - length rest) p)) (np_dec (pw_count pw') 0 0 tail)) \<and>
    rest = drop (length p - length rest) p"
  using assms
proof (induction draws p n pw rule: write_frames.induct)
  case (1 draws p n pw)
  show ?case
  proof (cases "p \<noteq> [] \<and> pw_count pw < firstPaddings")
    case False
    with 1(3) have "m = n" "rest = p" "e = None" "pw' = pw" by (auto simp: write_frames.simps [of draws p n pw])
    with False 1(2) show ?thesis
      by (intro exI [of _ "[]"]) (auto simp: option.map_id0 [unfolded id_def] option.map_ident)
  next
    case True
    define chunk where "chunk = take maxOriginalPayloadSize p"
    define k where "k = draws (pw_count pw) mod (maxPaddingSize + 1)"
    define pw1 where "pw1 = pw\<lparr>pw_w := (pw_w pw)\<lparr>wout := wout (pw_w pw) @ [pad_frame chunk k]\<rparr>,
      pw_count := pw_count pw + 1\<rparr>"
    have ck: "chunk \<noteq> []" "length chunk \<le> 65535" "k \<le> 255"
      using True by (auto simp: chunk_def k_def np_const_defs)
    have p: "p = chunk @ drop (length chunk) p"
      by (cases "length p \<le> maxOriginalPayloadSize") (simp_all add: chunk_def min_def)
    have wr: "w_write (pad_frame chunk k) (pw_w pw) =
        (length (pad_frame chunk k), None, (pw_w pw)\<lparr>wout := wout (pw_w pw) @ [pad_frame chunk k]\<rparr>)"
      using 1(2) by simp
    have run: "write_frames draws (drop (length chunk) p) (n + length chunk) pw1 = (m, rest, e, pw')"
    proof -
      have "write_frames draws p n pw = write_frames draws (drop (length chunk) p) (n + length chunk) pw1"
        by (subst write_frames.simps)
           (simp only: True wr Let_def if_True chunk_def [symmetric] k_def [symmetric] prod.case option.case
             pw1_def simp_thms)
      with 1(3) show ?thesis by simp
    qed
    have plan: "wplan (pw_w pw1) = []" using 1(2) by (simp add: pw1_def)
    have pw1f: "pw_count pw1 = pw_count pw + 1" "pw_out pw1 = pw_out pw @ pad_frame chunk k"
      by (simp_all add: pw1_def pw_out_def sent_def)
    from 1(1) [OF True chunk_def wr [unfolded k_def, symmetric] refl refl, folded k_def, folded pw1_def, OF plan run]
    obtain out where
      out: "e = None" "pw_out pw' = pw_out pw1 @ out" "m + length rest = n + length chunk + length (drop (length chunk) p)"
      "wplan (pw_w pw') = []" "rest \<noteq> [] \<longrightarrow> firstPaddings \<le> pw_count pw'"
      "\<forall>tail. np_dec (pw_count pw1) 0 0 (out @ tail) =
         map_option (append (take (length (drop (length chunk) p) - length rest) (drop (length chunk) p)))
           (np_dec (pw_count pw') 0 0 tail)"
      "rest = drop (length (drop (length chunk) p) - length rest) (drop (length chunk) p)" by auto
    have lr: "length rest \<le> length (drop (length chunk) p)" by (subst out(7)) simp
    have lc: "length chunk \<le> length p" by (simp add: chunk_def)
    let ?q = "drop (length chunk) p"
    have tk: "chunk @ take (length ?q - length rest) ?q = take (length p - length rest) p"
      using lr lc by (subst (4) p) (simp add: add.commute)
    have "np_dec (pw_count pw) 0 0 ((pad_frame chunk k @ out) @ tail) =
        map_option (append (take (length p - length rest) p)) (np_dec (pw_count pw') 0 0 tail)" for tail
      using np_dec_frame [OF _ ck, of "pw_count pw" "out @ tail"] True out(6) pw1f tk
      by (simp add: option.map_comp comp_def flip: append_assoc)
    moreover have "rest = drop (length p - length rest) p"
      using out(7) lr lc by (simp add: add.commute)
    ultimately show ?thesis
      using out pw1f lc by (intro exI [of _ "pad_frame chunk k @ out"]) simp
  qed
qed

lemma padding_Write_ok:
  assumes "wplan (pw_w pw) = []" "padding_Write draws p pw = (n, e, pw')"
  shows "\<exists>out. e = None \<and> n = length p \<and> pw_out pw' = pw_out pw @ out \<and> wplan (pw_w pw') = [] \<and>
    (\<forall>tail. np_dec (pw_count pw) 0 0 (out @ tail) = map_option (append p) (np_dec (pw_count pw') 0 0 tail))"
proof (cases "firstPaddings \<le> pw_count pw")
  case True
  with assms show ?thesis
    by (intro exI [of _ p]) (auto simp: padding_Write_def pw_out_def sent_def np_dec_append_raw)
next
  case False
  obtain m rest x pw1 where wf: "write_frames draws p 0 pw = (m, rest, x, pw1)" by (metis prod_cases4)
  from write_frames_ok [OF assms(1) wf] obtain out where
    out: "x = None" "pw_out pw1 = pw_out pw @ out" "m + length rest = length p" "wplan (pw_w pw1) = []"
    "rest \<noteq> [] \<longrightarrow> firstPaddings \<le> pw_count pw1"
    "\<And>tail. np_dec (pw_count pw) 0 0 (out @ tail) =
       map_option (append (take (length p - length rest) p)) (np_dec (pw_count pw1) 0 0 tail)"
    "rest = drop (length p - length rest) p" by auto
  show ?thesis
  proof (cases "rest = []")
    case True
    with assms(2) wf out False show ?thesis
      by (intro exI [of _ out]) (auto simp: padding_Write_def)
  next
    case ne: False
    then have raw: "firstPaddings \<le> pw_count pw1" using out(5) by simp
    have split: "take (length p - length rest) p @ rest = p"
      by (subst (2) out(7)) simp
    have "np_dec (pw_count pw) 0 0 ((out @ rest) @ tail) = map_option (append p) (np_dec (pw_count pw1) 0 0 tail)" for tail
      using out(6) [of "rest @ tail"] np_dec_append_raw [OF raw, of rest tail] split
      by (simp add: option.map_comp comp_def flip: append_assoc)
    moreover have "e = None \<and> n = length p \<and> pw_out pw' = pw_out pw @ (out @ rest) \<and> wplan (pw_w pw') = []
        \<and> pw_count pw' = pw_count pw1"
      using assms(2) wf out(1-4) False ne by (auto simp: padding_Write_def pw_out_def sent_def)
    ultimately show ?thesis by (intro exI [of _ "out @ rest"]) simp
  qed
qed

fun padding_Writes :: "(nat \<Rightarrow> nat) \<Rightarrow> bytes list \<Rightarrow> paddingWriter \<Rightarrow> paddingWriter" where
  "padding_Writes draws [] pw = pw"
| "padding_Writes draws (p # ps) pw =
     (case padding_Write draws p pw of (n, e, pw') \<Rightarrow> padding_Writes draws ps pw')"

lemma padding_Writes_ok:
  assumes "wplan (pw_w pw) = []"
  shows "\<exists>out. pw_out (padding_Writes draws ps pw) = pw_out pw @ out \<and>
    np_dec (pw_count pw) 0 0 out = Some (concat ps)"
  using assms
proof (induction ps arbitrary: pw)
  case Nil
  then show ?case by (intro exI [of _ "[]"]) (simp add: np_dec.simps)
next
  case (Cons p ps)
  obtain n e pw1 where w: "padding_Write draws p pw = (n, e, pw1)" by (metis prod_cases3)
  from padding_Write_ok [OF Cons.prems w] obtain out where
    out: "pw_out pw1 = pw_out pw @ out" "wplan (pw_w pw1) = []"
    "\<And>tail. np_dec (pw_count pw) 0 0 (out @ tail) = map_option (append p) (np_dec (pw_count pw1) 0 0 tail)" by auto
  from Cons.IH [OF out(2)] obtain out2 where
    "pw_out (padding_Writes draws ps pw1) = pw_out pw1 @ out2" "np_dec (pw_count pw1) 0 0 out2 = Some (concat ps)"
    by blast
  with out w show ?case by (intro exI [of _ "out @ out2"]) simp
qed

section \<open>Properties\<close>

definition fresh_writer :: paddingWriter where
  "fresh_writer = \<lparr>pw_w = \<lparr>wout = [], wplan = []\<rparr>, pw_count = 0\<rparr>"

definition fresh_reader :: "reader \<Rightarrow> paddingReader" where
  "fresh_reader r = \<lparr>pr_r = r, pr_count = 0, payloadRemaining = 0, paddingRemaining = 0\<rparr>"

text \<open>
  Padding is transparent: whatever is written through a padding writer, in whatever
  pieces and with whatever padding sizes, a copy out of a padding reader on the other side
  returns, without an error, exactly the bytes written, for every way the network cuts the
  padded stream and every buffer size.
\<close>

theorem np_padding_transparent:
  assumes "contents r = pw_out (padding_Writes draws ps fresh_writer)" "fin r = EOF" "0 < n" "wplan w = []"
    "rd_left r < k"
  shows "\<exists>pr' w'. copy_loop padding_Read n k (fresh_reader r) w = Some (None, pr', w') \<and>
    sent w' = sent w @ concat ps"
proof -
  have "np_rest (fresh_reader r) = Some (concat ps)"
    using padding_Writes_ok [of fresh_writer draws ps] assms(1)
    by (auto simp: np_rest_def fresh_reader_def fresh_writer_def pw_out_def sent_def)
  then have "np_ok (fresh_reader r)" and data: "np_data (fresh_reader r) = concat ps"
    by (simp_all add: np_ok_def np_data_def fresh_reader_def)
  moreover have "rd_left (pr_r (fresh_reader r)) < k" using assms(5) by (simp add: fresh_reader_def)
  ultimately obtain e pr' w' where "copy_loop padding_Read n k (fresh_reader r) w = Some (e, pr', w')"
    using np.copy_terminates assms(3) by blast
  with np.copy_delivers [OF \<open>np_ok _\<close> assms(3,4) this] data assms(2) show ?thesis
    by (simp add: fresh_reader_def)
qed

theorem np_padding_transparent_witness:
  "\<exists>pr' w'. copy_loop padding_Read 2 99
      (fresh_reader (mk_reader [pw_out (padding_Writes (\<lambda>i. i) [[1, 2, 3], [4]] fresh_writer)]))
      \<lparr>wout = [], wplan = []\<rparr> = Some (None, pr', w') \<and>
    sent w' = sent \<lparr>wout = [], wplan = []\<rparr> @ concat [[1, 2, 3], [4]]"
proof (rule np_padding_transparent)
  show "rd_left (mk_reader [pw_out (padding_Writes (\<lambda>i. i) [[1, 2, 3], [4]] fresh_writer)]) < 99"
    by (simp add: fresh_writer_def padding_Write_def write_frames.simps np_const_defs pw_out_def sent_def
        rd_left_def pad_frame_def mk_reader_def contents_def)
qed (simp_all add: mk_reader_def contents_def)

end
