(* ===== verification/GoHttp.thy ===== *)
theory GoHttp
  imports SocketAddr
begin

text \<open>
  What the program uses of Go's \<open>encoding/base64\<close> and \<open>net/http\<close>: the standard base64
  encoding, header maps with canonical keys, \<open>parseBasicAuth\<close> and the parts of a request
  the handlers look at.
\<close>

section \<open>Base64\<close>

definition b64_char :: "nat \<Rightarrow> char" where
  "b64_char n =
     (if n < 26 then char_of (n + 65) else if n < 52 then char_of (n + 71)
      else if n < 62 then char_of (n - 4) else if n = 62 then CHR ''+'' else CHR ''/'')"

definition b64_val :: "char \<Rightarrow> nat option" where
  "b64_val c =
     (let n = of_char c :: nat in
      if 65 \<le> n \<and> n \<le> 90 then Some (n - 65)
      else if 97 \<le> n \<and> n \<le> 122 then Some (n - 71)
      else if 48 \<le> n \<and> n \<le> 57 then Some (n + 4)
      else if n = 43 then Some 62 else if n = 47 then Some 63 else None)"

fun b64_enc :: "nat list \<Rightarrow> string" where
  "b64_enc [] = []"
| "b64_enc [a] = [b64_char (a div 4), b64_char (a mod 4 * 16), CHR ''='', CHR ''='']"
| "b64_enc [a, b] =
     [b64_char (a div 4), b64_char (a mod 4 * 16 + b div 16), b64_char (b mod 16 * 4), CHR ''='']"
| "b64_enc (a # b # c # rest) =
     b64_char (a div 4) # b64_char (a mod 4 * 16 + b div 16) # b64_char (b mod 16 * 4 + c div 64)
       # b64_char (c mod 64) # b64_enc rest"

fun b64_dec :: "string \<Rightarrow> nat list option" where
  "b64_dec [] = Some []"
| "b64_dec (a # b # c # d # rest) =
     (case (b64_val a, b64_val b) of
        (Some x, Some y) \<Rightarrow>
          if c = CHR ''='' then (if d = CHR ''='' \<and> rest = [] then Some [x * 4 + y div 16] else None)
          else (case b64_val c of
              None \<Rightarrow> None
            | Some z \<Rightarrow>
                if d = CHR ''='' then
                  (if rest = [] then Some [x * 4 + y div 16, y mod 16 * 16 + z div 4] else None)
                else (case b64_val d of
                    None \<Rightarrow> None
                  | Some w \<Rightarrow>
                      map_option (append [x * 4 + y div 16, y mod 16 * 16 + z div 4, z mod 4 * 64 + w])
                        (b64_dec rest)))
      | _ \<Rightarrow> None)"
| "b64_dec _ = None"

definition base64_EncodeToString :: "bytes \<Rightarrow> string" where
  "base64_EncodeToString bs = b64_enc (map unat bs)"

text \<open>The decoder skips line breaks.\<close>

definition base64_DecodeString :: "string \<Rightarrow> bytes option" where
  "base64_DecodeString s =
     map_option (map of_nat) (b64_dec (List.filter (\<lambda>c. c \<noteq> CHR 0x0A \<and> c \<noteq> CHR 0x0D) s))"

lemma of_char_b64_char:
  assumes "n < 64"
  shows "(of_char (b64_char n) :: nat) = (if n < 26 then n + 65 else if n < 52 then n + 71
      else if n < 62 then n - 4 else if n = 62 then 43 else 47)"
  using assms by (simp add: b64_char_def of_char_of)

lemma b64_char_facts:
  assumes "n < 64"
  shows "b64_val (b64_char n) = Some n" "b64_char n \<noteq> CHR ''=''" "b64_char n \<noteq> CHR 0x0A" "b64_char n \<noteq> CHR 0x0D"
proof -
  note oc = of_char_b64_char [OF assms]
  show "b64_val (b64_char n) = Some n"
    using assms by (auto simp: b64_val_def Let_def oc)
  have ne: "b64_char n \<noteq> c" if "(of_char c :: nat) \<in> {61, 10, 13}" for c
    using that oc assms by (auto split: if_splits)
  show "b64_char n \<noteq> CHR ''=''" "b64_char n \<noteq> CHR 0x0A" "b64_char n \<noteq> CHR 0x0D"
    by (rule ne, simp)+
qed

text \<open>The 6-bit groups of one to three bytes, and the bytes back from them.\<close>

lemma div_mod_join:
  "(k :: nat) < 16 \<Longrightarrow> (m * 16 + k) div 16 = m" "(k :: nat) < 16 \<Longrightarrow> (m * 16 + k) mod 16 = k"
  "(k :: nat) < 4 \<Longrightarrow> (m * 4 + k) div 4 = m" "(k :: nat) < 4 \<Longrightarrow> (m * 4 + k) mod 4 = k"
  by simp_all

lemma b64_groups:
  assumes "(a :: nat) < 256" "b < 256" "c < 256"
  shows "a div 4 < 64" "a mod 4 * 16 < 64" "a mod 4 * 16 + b div 16 < 64" "b mod 16 * 4 < 64"
    "b mod 16 * 4 + c div 64 < 64" "c mod 64 < 64" "b div 16 < 16" "c div 64 < 4"
proof -
  have "a mod 4 < 4" "b mod 16 < 16" by simp_all
  moreover show "a div 4 < 64" "c mod 64 < 64" "b div 16 < 16" "c div 64 < 4"
    using assms by (simp_all add: less_mult_imp_div_less)
  ultimately show "a mod 4 * 16 < 64" "a mod 4 * 16 + b div 16 < 64" "b mod 16 * 4 < 64"
    "b mod 16 * 4 + c div 64 < 64" by linarith+
qed

lemma b64_dec_quad3:
  assumes "x < 64" "y < 64" "z < 64" "w < 64"
  shows "b64_dec (b64_char x # b64_char y # b64_char z # b64_char w # rest) =
    map_option (append [x * 4 + y div 16, y mod 16 * 16 + z div 4, z mod 4 * 64 + w]) (b64_dec rest)"
  using assms by (simp add: b64_char_facts)

lemma b64_dec_quad2:
  assumes "x < 64" "y < 64" "z < 64"
  shows "b64_dec [b64_char x, b64_char y, b64_char z, CHR ''=''] = Some [x * 4 + y div 16, y mod 16 * 16 + z div 4]"
  using assms by (simp add: b64_char_facts)

lemma b64_dec_quad1:
  assumes "x < 64" "y < 64"
  shows "b64_dec [b64_char x, b64_char y, CHR ''='', CHR ''=''] = Some [x * 4 + y div 16]"
  using assms by (simp add: b64_char_facts)

lemma b64_dec_enc: "\<forall>n \<in> set ns. n < 256 \<Longrightarrow> b64_dec (b64_enc ns) = Some ns"
proof (induction ns rule: b64_enc.induct)
  case 1
  then show ?case by simp
next
  case (2 a)
  then have "a < 256" by simp
  note g = b64_groups [OF this this this]
  have "a div 4 * 4 + a mod 4 * 16 div 16 = a" by simp
  with b64_dec_quad1 [OF g(1,2)] show ?case by (simp only: b64_enc.simps)
next
  case (3 a b)
  then have lt: "a < 256" "b < 256" by simp_all
  note g = b64_groups [OF lt lt(2)]
  have "a div 4 * 4 + (a mod 4 * 16 + b div 16) div 16 = a"
    "(a mod 4 * 16 + b div 16) mod 16 * 16 + b mod 16 * 4 div 4 = b"
    using g by (simp_all only: div_mod_join) simp_all
  with b64_dec_quad2 [OF g(1,3,4)] show ?case by (simp only: b64_enc.simps)
next
  case (4 a b c rest)
  then have lt: "a < 256" "b < 256" "c < 256" by simp_all
  note g = b64_groups [OF lt]
  have "a div 4 * 4 + (a mod 4 * 16 + b div 16) div 16 = a"
    "(a mod 4 * 16 + b div 16) mod 16 * 16 + (b mod 16 * 4 + c div 64) div 4 = b"
    "(b mod 16 * 4 + c div 64) mod 4 * 64 + c mod 64 = c"
    using g by (simp_all only: div_mod_join) simp_all
  with b64_dec_quad3 [OF g(1,3,5,6)] 4 show ?case by (simp only: b64_enc.simps) simp
qed

lemma b64_enc_no_break:
  "\<forall>n \<in> set ns. n < 256 \<Longrightarrow> c \<in> set (b64_enc ns) \<Longrightarrow> c \<noteq> CHR 0x0A \<and> c \<noteq> CHR 0x0D"
proof (induction ns rule: b64_enc.induct)
  case 1
  then show ?case by simp
next
  case (2 a)
  then have "a < 256" by simp
  note g = b64_groups [OF this this this]
  from 2(2) g show ?case by (auto simp: b64_char_facts)
next
  case (3 a b)
  then have lt: "a < 256" "b < 256" by simp_all
  note g = b64_groups [OF lt lt(2)]
  from 3(2) g show ?case by (auto simp: b64_char_facts)
next
  case (4 a b c' rest)
  then have lt: "a < 256" "b < 256" "c' < 256" by simp_all
  note g = b64_groups [OF lt]
  from 4 g show ?case by (auto simp: b64_char_facts)
qed

lemma base64_roundtrip: "base64_DecodeString (base64_EncodeToString bs) = Some bs"
proof -
  have lt: "\<forall>n \<in> set (map unat bs). n < 256" by simp
  have "List.filter (\<lambda>c. c \<noteq> CHR 0x0A \<and> c \<noteq> CHR 0x0D) (b64_enc (map unat bs)) = b64_enc (map unat bs)"
    using b64_enc_no_break [OF lt] by (intro filter_True) blast
  then show ?thesis
    by (simp add: base64_DecodeString_def base64_EncodeToString_def b64_dec_enc [OF lt] comp_def map_idI)
qed

section \<open>Headers\<close>

type_synonym header = "string \<Rightarrow> string list"

definition is_lower :: "char \<Rightarrow> bool" where
  "is_lower c = (let n = of_char c :: nat in 97 \<le> n \<and> n \<le> 122)"

definition ascii_upper :: "char \<Rightarrow> char" where
  "ascii_upper c = (if is_lower c then char_of (of_char c - 32 :: nat) else c)"

text \<open>The characters of a header field name; a name with another one is left as it is.\<close>

definition is_token_char :: "char \<Rightarrow> bool" where
  "is_token_char c =
     (is_digit c \<or> is_upper c \<or> is_lower c \<or> c \<in> set ''!#$%&*+-.^_`|~'' \<or> c = CHR 0x27)"

fun canonical_loop :: "bool \<Rightarrow> string \<Rightarrow> string" where
  "canonical_loop up [] = []"
| "canonical_loop up (c # cs) = (if up then ascii_upper c else ascii_lower c) # canonical_loop (c = CHR ''-'') cs"

definition CanonicalHeaderKey :: "string \<Rightarrow> string" where
  "CanonicalHeaderKey s = (if list_all is_token_char s then canonical_loop True s else s)"

definition header_Get :: "header \<Rightarrow> string \<Rightarrow> string" where
  "header_Get h k = (case h (CanonicalHeaderKey k) of [] \<Rightarrow> [] | v # vs \<Rightarrow> v)"

definition header_Set :: "header \<Rightarrow> string \<Rightarrow> string \<Rightarrow> header" where
  "header_Set h k v = h(CanonicalHeaderKey k := [v])"

definition header_Del :: "header \<Rightarrow> string \<Rightarrow> header" where
  "header_Del h k = h(CanonicalHeaderKey k := [])"

text \<open>\<open>delete(header, k)\<close> on the map itself, with no canonicalisation.\<close>

definition map_delete :: "header \<Rightarrow> string \<Rightarrow> header" where
  "map_delete h k = h(k := [])"

lemma header_Get_Set [simp]: "header_Get (header_Set h k v) k = v"
  by (simp add: header_Get_def header_Set_def)

lemma header_Get_Set_other [simp]:
  "CanonicalHeaderKey k \<noteq> CanonicalHeaderKey k' \<Longrightarrow> header_Get (header_Set h k v) k' = header_Get h k'"
  by (simp add: header_Get_def header_Set_def)

section \<open>Requests\<close>

record http_request =
  rq_ProtoMajor :: nat
  rq_Method :: string
  rq_URLHost :: string
  rq_Host :: string
  rq_Header :: header
  rq_Close :: bool

definition basicAuthPrefix :: string where "basicAuthPrefix = ''Basic ''"

text \<open>\<open>parseBasicAuth\<close> of \<open>net/http\<close>: user name and password, split at the first colon.\<close>

definition parseBasicAuth :: "string \<Rightarrow> (string \<times> string) option" where
  "parseBasicAuth auth =
     (if length auth < length basicAuthPrefix \<or> \<not> EqualFold (take (length basicAuthPrefix) auth) basicAuthPrefix
      then None
      else (case base64_DecodeString (drop (length basicAuthPrefix) auth) of
        None \<Rightarrow> None
      | Some c \<Rightarrow>
          (let cs = bytes_str c in
           case IndexByte cs CHR '':'' of
             None \<Rightarrow> None
           | Some i \<Rightarrow> Some (take i cs, drop (Suc i) cs))))"

lemma IndexByte_first: "c \<notin> set s \<Longrightarrow> IndexByte (s @ c # t) c = Some (length s)"
  by (induction s) auto

lemma EqualFold_refl [simp]: "EqualFold s s"
  by (simp add: EqualFold_def)

lemma parseBasicAuth_encoded:
  assumes "CHR '':'' \<notin> set u"
  shows "parseBasicAuth (basicAuthPrefix @ base64_EncodeToString (str_bytes (u @ CHR '':'' # p))) = Some (u, p)"
  using assms by (simp add: parseBasicAuth_def base64_roundtrip IndexByte_first)

end
