(* ===== verification/NpCarrier.thy ===== *)
theory NpCarrier
  imports NpPadding GoHttp Relay
begin

text \<open>
  The NaiveProxy carrier, \<open>transport/np_carrier\<close>: its authentication token and padding
  header, the decision of the server on a request, the client's cached HTTP/2 connection
  and its two ways to open a tunnel. HTTP/2 itself is the standard library's; the outcomes of
  dialing, reserving and sending a request are arguments.
\<close>

section \<open>Tokens and headers\<close>

definition proxyAuthHeaderKey :: string where "proxyAuthHeaderKey = ''Proxy-Authorization''"
definition paddingHeaderKey :: string where "paddingHeaderKey = ''Padding''"

definition basicAuthEqual :: "string \<Rightarrow> string \<Rightarrow> bool" where
  "basicAuthEqual hdr authToken =
     (if length hdr < length basicAuthPrefix \<or>
         \<not> EqualFold (take (length basicAuthPrefix) hdr) basicAuthPrefix then False
      else str_bytes (drop (length basicAuthPrefix) hdr) = str_bytes authToken)"

text \<open>\<open>AuthPassword\<close> derives a 16-byte key with HKDF; the derivation is an argument.\<close>

definition np_AuthPassword :: "(bytes \<Rightarrow> string \<Rightarrow> nat \<Rightarrow> bytes) \<Rightarrow> bytes \<Rightarrow> string" where
  "np_AuthPassword DeriveN password =
     base64_EncodeToString (DeriveN password ''hg/naiveproxy/auth-password/v1'' 16)"

definition basicAuthToken :: "(bytes \<Rightarrow> string \<Rightarrow> nat \<Rightarrow> bytes) \<Rightarrow> bytes \<Rightarrow> string" where
  "basicAuthToken DeriveN password =
     base64_EncodeToString (str_bytes (''hg:'' @ np_AuthPassword DeriveN password))"

definition minReqPaddingHeaderLen :: nat where "minReqPaddingHeaderLen = 16"
definition maxReqPaddingHeaderLen :: nat where "maxReqPaddingHeaderLen = 32"
definition minRespPaddingHeaderLen :: nat where "minRespPaddingHeaderLen = 30"
definition maxRespPaddingHeaderLen :: nat where "maxRespPaddingHeaderLen = 62"
definition paddingHeaderRandLen :: nat where "paddingHeaderRandLen = 16"
definition paddingHeaderFillChar :: char where "paddingHeaderFillChar = CHR ''X''"
definition paddingHeaderRandChars :: string where
  "paddingHeaderRandChars = [CHR ''!'', CHR 0x22] @ ''#$&'' @ [CHR 0x27] @ ''()*+,;<>?@''"

text \<open>The draws of \<open>rand.N\<close>: one for the length, one for each of the first 16 characters.\<close>

definition generatePaddingHeader :: "bool \<Rightarrow> nat \<Rightarrow> (nat \<Rightarrow> nat) \<Rightarrow> string" where
  "generatePaddingHeader request lenDraw charDraw =
     (let minLen = (if request then minReqPaddingHeaderLen else minRespPaddingHeaderLen);
          maxLen = (if request then maxReqPaddingHeaderLen else maxRespPaddingHeaderLen);
          len = minLen + lenDraw mod (maxLen - minLen + 1)
      in map (\<lambda>i. paddingHeaderRandChars ! (charDraw i mod length paddingHeaderRandChars)) [0..<paddingHeaderRandLen]
         @ replicate (len - paddingHeaderRandLen) paddingHeaderFillChar)"

lemmas padding_header_defs = minReqPaddingHeaderLen_def maxReqPaddingHeaderLen_def
  minRespPaddingHeaderLen_def maxRespPaddingHeaderLen_def paddingHeaderRandLen_def paddingHeaderFillChar_def

lemma length_generatePaddingHeader:
  "length (generatePaddingHeader request l d) =
     (if request then 16 + l mod 17 else 30 + l mod 33)"
  by (simp add: generatePaddingHeader_def padding_header_defs Let_def)

lemma generatePaddingHeader_ne [simp]: "generatePaddingHeader request l d \<noteq> []"
  using length_generatePaddingHeader [of request l d] by (auto split: if_splits)

section \<open>The server\<close>

record np_server =
  nps_host :: string
  nps_port :: u16
  nps_authToken :: string

text \<open>
  What \<open>handle\<close> does, in order: hand the request to the fallback site, answer an error, set
  the padding header, send the status, flush, forward to an address with or without padding.
\<close>

datatype np_action =
    Fallback string
  | HttpError nat
  | SetHeader string string
  | WriteHeader nat
  | FlushFailed
  | Forward SocketAddress bool

definition np_handle :: "np_server \<Rightarrow> nat \<Rightarrow> (nat \<Rightarrow> nat) \<Rightarrow> goerr option \<Rightarrow> http_request \<Rightarrow> np_action list" where
  "np_handle s lenDraw charDraw flushErr r =
     (if rq_ProtoMajor r \<noteq> 2 \<or> rq_Method r \<noteq> ''CONNECT'' \<or>
         \<not> basicAuthEqual (header_Get (rq_Header r) proxyAuthHeaderKey) (nps_authToken s)
      then [Fallback (JoinHostPort (nps_host s) (nps_port s))]
      else (case ToSocketAddr (rq_URLHost r) True 0 of
        Inl err \<Rightarrow> [HttpError 400]
      | Inr targetAddr \<Rightarrow>
          (let padding = (header_Get (rq_Header r) paddingHeaderKey \<noteq> []) in
           (if padding then [SetHeader paddingHeaderKey (generatePaddingHeader False lenDraw charDraw)] else [])
           @ [WriteHeader 200]
           @ (case flushErr of Some e \<Rightarrow> [FlushFailed] | None \<Rightarrow> [Forward targetAddr padding]))))"

section \<open>The client\<close>

text \<open>
  The cached connection, named by a number, with its padding flag; the events of \<open>getConn\<close>
  are what it does to connections.
\<close>

record np_client =
  npc_serverHostWithPort :: string
  npc_basicAuthToken :: string
  npc_clientConn :: "nat option"
  npc_padding :: "nat \<Rightarrow> bool"

text \<open>
  The world of one \<open>getConn\<close>: whether each connection takes another request, the outcome of
  the dial, the handshake, the negotiated protocol, the new HTTP/2 connection and its slot.
\<close>

record np_world =
  w_reserve :: "nat \<Rightarrow> goerr option"
  w_dial :: "goerr option"
  w_handshake :: "goerr option"
  w_alpn :: string
  w_newConn :: "nat res"

datatype np_event = Dialed | ClosedTLS | MadeConn nat | Reserved nat | ClosedConn nat

definition np_getConn :: "np_world \<Rightarrow> np_client \<Rightarrow> nat res \<times> np_event list \<times> np_client" where
  "np_getConn w c =
     (if (case npc_clientConn c of None \<Rightarrow> False | Some n \<Rightarrow> w_reserve w n = None)
      then (Inr (the (npc_clientConn c)), [Reserved (the (npc_clientConn c))], c)
      else (let c1 = c\<lparr>npc_clientConn := None\<rparr> in
        case w_dial w of
          Some e \<Rightarrow> (Inl (ErrWrap ''fail to connect to the server'' e), [], c1)
        | None \<Rightarrow>
            (case w_handshake w of
               Some e \<Rightarrow> (Inl (ErrWrap ''fail to complete the TLS handshake'' e), [Dialed, ClosedTLS], c1)
             | None \<Rightarrow>
                 if w_alpn w \<noteq> ''h2''
                 then (Inl (ErrNew ''server did not negotiate HTTP/2''), [Dialed, ClosedTLS], c1)
                 else (case w_newConn w of
                   Inl e \<Rightarrow> (Inl e, [Dialed, ClosedTLS], c1)
                 | Inr n \<Rightarrow>
                     (case w_reserve w n of
                        Some e \<Rightarrow> (Inl e, [Dialed, MadeConn n, ClosedConn n], c1)
                      | None \<Rightarrow> (Inr n, [Dialed, MadeConn n, Reserved n],
                          c1\<lparr>npc_clientConn := Some n, npc_padding := (npc_padding c1)(n := False)\<rparr>))))))"

text \<open>The response to a CONNECT request: its status, and its \<open>Padding\<close> header.\<close>

definition np_connect :: "(nat \<times> string) res \<Rightarrow> nat \<Rightarrow> np_client \<Rightarrow> bool res \<times> np_client" where
  "np_connect roundTrip n c =
     (case roundTrip of
        Inl e \<Rightarrow> (Inl (ErrWrap ''CONNECT request failed'' e), c)
      | Inr (status, paddingHeader) \<Rightarrow>
          if status \<noteq> 200 then (Inl (ErrNew ''server returned unexpected status''), c)
          else (let padding = (paddingHeader \<noteq> []) in
            (Inr padding, c\<lparr>npc_padding := (npc_padding c)(n := padding)\<rparr>)))"

definition np_request :: "np_client \<Rightarrow> nat \<Rightarrow> (nat \<Rightarrow> nat) \<Rightarrow> string \<Rightarrow> http_request" where
  "np_request c lenDraw charDraw host =
     \<lparr>rq_ProtoMajor = 2, rq_Method = ''CONNECT'', rq_URLHost = host, rq_Host = host,
      rq_Header = header_Set (header_Set (\<lambda>k. []) proxyAuthHeaderKey (npc_basicAuthToken c))
        paddingHeaderKey (generatePaddingHeader True lenDraw charDraw), rq_Close = False\<rparr>"

text \<open>
  \<open>DialTCP\<close>: the request sent and whether the connection it returns is padded. With fast
  open the connection is returned at once and the response is handled when it arrives.
\<close>

datatype np_dialed = FastOpened http_request | Connected http_request bool

definition np_DialTCP ::
  "np_world \<Rightarrow> (http_request \<Rightarrow> (nat \<times> string) res) \<Rightarrow> nat \<Rightarrow> (nat \<Rightarrow> nat) \<Rightarrow> SocketAddress \<Rightarrow> np_client \<Rightarrow>
   np_dialed res \<times> np_event list \<times> np_client" where
  "np_DialTCP w roundTrip lenDraw charDraw addr c0 =
     (case np_getConn w c0 of
        (Inl e, ev, c) \<Rightarrow> (Inl e, ev, c)
      | (Inr n, ev, c) \<Rightarrow>
          (case ToHostStr addr of
             Inl e \<Rightarrow> (Inl e, ev, c)
           | Inr host \<Rightarrow>
               (let req = np_request c lenDraw charDraw host in
                if npc_padding c n then (Inr (FastOpened req), ev, snd (np_connect (roundTrip req) n c))
                else (case np_connect (roundTrip req) n c of
                    (Inl e, c') \<Rightarrow> (Inl e, ev, c')
                  | (Inr padding, c') \<Rightarrow> (Inr (Connected req padding), ev, c')))))"

text \<open>\<open>newConn\<close> wraps both sides of the stream when the peer opted in.\<close>

definition np_newConn_read :: "bool \<Rightarrow> nat \<Rightarrow> paddingReader \<Rightarrow> bytes \<times> goerr option \<times> paddingReader" where
  "np_newConn_read padding n pr =
     (if padding then padding_Read n pr
      else (case rd_read n (pr_r pr) of (d, e, r') \<Rightarrow> (d, e, pr\<lparr>pr_r := r'\<rparr>)))"

definition np_newConn_write :: "bool \<Rightarrow> (nat \<Rightarrow> nat) \<Rightarrow> bytes \<Rightarrow> paddingWriter \<Rightarrow> nat \<times> goerr option \<times> paddingWriter" where
  "np_newConn_write padding draws p pw =
     (if padding then padding_Write draws p pw
      else (case w_write p (pw_w pw) of (n, e, w') \<Rightarrow> (n, e, pw\<lparr>pw_w := w'\<rparr>)))"

lemma np_keys:
  "CanonicalHeaderKey proxyAuthHeaderKey = ''Proxy-Authorization''" "CanonicalHeaderKey paddingHeaderKey = ''Padding''"
  by code_simp+

definition sample_np_client :: np_client where
  "sample_np_client = \<lparr>npc_serverHostWithPort = ''h:1'', npc_basicAuthToken = basicAuthPrefix @ ''dDp0'',
     npc_clientConn = Some 7, npc_padding = (\<lambda>n. False)\<rparr>"

definition sample_np_world :: np_world where
  "sample_np_world = \<lparr>w_reserve = (\<lambda>n. None), w_dial = None, w_handshake = None, w_alpn = ''h2'', w_newConn = Inr 8\<rparr>"

lemma dec_5: "dec 5 = ''5''"
  by code_simp

lemma sample_np_host: "ToSocketAddr ''a:5'' True 0 = Inr (NewSocketAddressByDomain ''a'' 5)"
  using ToSocketAddr_Join [of "''a''" 5 0]
  by (simp add: JoinHostPort_def net_JoinHostPort_def ToA_def dec_5 toSocketAddr_def ParseAddr_def
      parseIPv4_def v4_fields_def is_digit_def)

definition sample_np_server :: np_server where
  "sample_np_server = \<lparr>nps_host = ''h'', nps_port = 1, nps_authToken = ''dDp0''\<rparr>"

section \<open>Properties\<close>

text \<open>
  Anything but an HTTP/2 CONNECT request with the token gets the fallback site and nothing else; a
  forwarded request was answered with status 200 first, and its tunnel is padded exactly when
  the client asked for it, in which case the response says so before the status.
\<close>

lemma np_handle_outcomes:
  defines "hdr \<equiv> \<lambda>r. header_Get (rq_Header r) proxyAuthHeaderKey"
  shows "rq_ProtoMajor r \<noteq> 2 \<or> rq_Method r \<noteq> ''CONNECT'' \<or> \<not> basicAuthEqual (hdr r) (nps_authToken s) \<Longrightarrow>
      np_handle s l d flushErr r = [Fallback (JoinHostPort (nps_host s) (nps_port s))]"
    "rq_ProtoMajor r = 2 \<Longrightarrow> rq_Method r = ''CONNECT'' \<Longrightarrow> basicAuthEqual (hdr r) (nps_authToken s) \<Longrightarrow>
      ToSocketAddr (rq_URLHost r) True 0 = Inr a \<Longrightarrow>
      np_handle s l d None r =
        (if header_Get (rq_Header r) paddingHeaderKey \<noteq> [] then [SetHeader paddingHeaderKey (generatePaddingHeader False l d)] else [])
        @ [WriteHeader 200, Forward a (header_Get (rq_Header r) paddingHeaderKey \<noteq> [])]"
    "Forward a p \<in> set (np_handle s l d flushErr r) \<Longrightarrow>
      flushErr = None \<and> ToSocketAddr (rq_URLHost r) True 0 = Inr a \<and> p = (header_Get (rq_Header r) paddingHeaderKey \<noteq> [])"
  by (auto simp: hdr_def np_handle_def Let_def split: sum.splits option.splits if_splits)

text \<open>The header is the scheme, in any case, and then the token.\<close>

lemma basicAuthEqual_iff:
  "basicAuthEqual hdr token \<longleftrightarrow> (\<exists>scheme. ToLower scheme = ''basic '' \<and> hdr = scheme @ token)"
proof
  assume eq: "basicAuthEqual hdr token"
  have "ToLower basicAuthPrefix = ''basic ''" by code_simp
  with eq have "ToLower (take (length basicAuthPrefix) hdr) = ''basic ''" "drop (length basicAuthPrefix) hdr = token"
    by (auto simp: basicAuthEqual_def EqualFold_def split: if_splits)
  then show "\<exists>scheme. ToLower scheme = ''basic '' \<and> hdr = scheme @ token" by (metis append_take_drop_id)
next
  assume "\<exists>scheme. ToLower scheme = ''basic '' \<and> hdr = scheme @ token"
  then obtain scheme where s: "ToLower scheme = ''basic ''" "hdr = scheme @ token" by blast
  have l: "ToLower basicAuthPrefix = ''basic ''" "length basicAuthPrefix = 6" by code_simp+
  have "length (ToLower scheme) = 6" using s(1) by simp
  then have "length scheme = 6" by (simp add: ToLower_def)
  with s l show "basicAuthEqual hdr token" by (simp add: basicAuthEqual_def EqualFold_def)
qed

text \<open>
  Client and server of one configuration agree: the request the client sends for a
  destination is forwarded by the server to that destination, with padding, and the response
  the server sends makes the client pad as well and use fast open for the next request.
\<close>

theorem np_end_to_end:
  assumes tok: "npc_basicAuthToken c = basicAuthPrefix @ nps_authToken s"
    and host: "ToHostStr a = Inr host" "ToSocketAddr host True 0 = Inr a"
    and resp: "roundTrip (np_request c l d host) = Inr (200, generatePaddingHeader False l' d')"
    and conn: "np_getConn w c = (Inr n, ev, c)"
  shows "np_handle s l' d' None (np_request c l d host) =
      [SetHeader paddingHeaderKey (generatePaddingHeader False l' d'), WriteHeader 200, Forward a True] \<and>
    (\<exists>c'. np_DialTCP w roundTrip l d a c =
        (Inr (if npc_padding c n then FastOpened (np_request c l d host) else Connected (np_request c l d host) True), ev, c') \<and>
      npc_padding c' n)"
proof
  have "basicAuthEqual (npc_basicAuthToken c) (nps_authToken s)"
    by (simp add: tok basicAuthEqual_def)
  then show "np_handle s l' d' None (np_request c l d host) =
      [SetHeader paddingHeaderKey (generatePaddingHeader False l' d'), WriteHeader 200, Forward a True]"
    using host(2) by (simp add: np_handle_def np_request_def header_Get_def header_Set_def np_keys Let_def)
  show "\<exists>c'. np_DialTCP w roundTrip l d a c =
        (Inr (if npc_padding c n then FastOpened (np_request c l d host) else Connected (np_request c l d host) True), ev, c') \<and>
      npc_padding c' n"
    using conn host(1) resp by (simp add: np_DialTCP_def np_connect_def Let_def)
qed

theorem np_end_to_end_witness:
  "np_handle sample_np_server 0 id None
      (np_request sample_np_client 0 id ''a:5'') =
    [SetHeader paddingHeaderKey (generatePaddingHeader False 0 id), WriteHeader 200,
     Forward (NewSocketAddressByDomain ''a'' 5) True]"
proof (rule np_end_to_end [THEN conjunct1])
  show "ToHostStr (NewSocketAddressByDomain ''a'' 5) = Inr ''a:5''"
    by (simp add: ToHostStr_def JoinHostPort_def net_JoinHostPort_def ToA_def dec_5)
  show "ToSocketAddr ''a:5'' True 0 = Inr (NewSocketAddressByDomain ''a'' 5)" by (rule sample_np_host)
  show "np_getConn sample_np_world sample_np_client = (Inr 7, [Reserved 7], sample_np_client)"
    by (simp add: np_getConn_def sample_np_world_def sample_np_client_def)
  show "(\<lambda>r. Inr (200, generatePaddingHeader False 0 id)) (np_request sample_np_client 0 id ''a:5'') =
      Inr (200, generatePaddingHeader False 0 id)" by simp
qed (simp add: sample_np_client_def sample_np_server_def)

text \<open>
  \<open>getConn\<close> leaks no connection and caches only a live one: it returns a connection with a
  slot reserved on it, which is then the cached one, or an error, and then nothing is cached
  and what it dialed has been closed.
\<close>

theorem np_getConn_sound:
  "case np_getConn w c of
     (Inr n, ev, c') \<Rightarrow> npc_clientConn c' = Some n \<and> last ev = Reserved n \<and> w_reserve w n = None
   | (Inl e, ev, c') \<Rightarrow> npc_clientConn c' = None \<and> (ev = [] \<or> hd ev = Dialed \<and> (last ev = ClosedTLS \<or> (\<exists>n. last ev = ClosedConn n)))"
  by (auto simp: np_getConn_def Let_def split: option.splits sum.splits)

text \<open>
  The padding header has the lengths the protocol asks for, between 16 and 32 characters in a
  request and between 30 and 62 in a response, and its first 16 are from the random set.
\<close>

theorem np_padding_header_bounds:
  "(if request then 16 else 30) \<le> length (generatePaddingHeader request l d) \<and>
   length (generatePaddingHeader request l d) \<le> (if request then 32 else 62) \<and>
   set (take 16 (generatePaddingHeader request l d)) \<subseteq> set paddingHeaderRandChars"
proof -
  have "l mod 17 \<le> 16" "l mod 33 \<le> 32" using pos_mod_bound [of 17 "int l"] by (simp_all add: less_Suc_eq_le [symmetric])
  moreover have "set (take 16 (generatePaddingHeader request l d)) \<subseteq> set paddingHeaderRandChars"
    by (auto simp: generatePaddingHeader_def padding_header_defs Let_def take_map intro!: nth_mem)
      (auto simp: paddingHeaderRandChars_def)
  ultimately show ?thesis by (simp add: length_generatePaddingHeader)
qed

end
