(* ===== verification/SocksServer.thy ===== *)
theory SocksServer
  imports Relay
begin

text \<open>
  The SOCKS5 server of \<open>transport/socks/server.go\<close>, with the authentication data of
  \<open>conf/http_socks_auth_info.go\<close>. A handler runs on the connection's state; what it decides
  is the address to forward to, or the error it returns.
\<close>

section \<open>Authentication data\<close>

record HTTPSOCKSAuthInfo =
  Username :: string
  Password :: string

definition auth_IsEmpty :: "HTTPSOCKSAuthInfo option \<Rightarrow> bool" where
  "auth_IsEmpty authInfo =
     (case authInfo of None \<Rightarrow> True | Some a \<Rightarrow> Username a = [] \<and> Password a = [])"

definition NotEqual2 :: "HTTPSOCKSAuthInfo \<Rightarrow> string \<Rightarrow> string \<Rightarrow> bool" where
  "NotEqual2 authInfo username password =
     (let usernameEq = (str_bytes (Username authInfo) = str_bytes username);
          passwordEq = (str_bytes (Password authInfo) = str_bytes password)
      in \<not> usernameEq \<or> \<not> passwordEq)"

definition NotEqual :: "HTTPSOCKSAuthInfo \<Rightarrow> HTTPSOCKSAuthInfo \<Rightarrow> bool" where
  "NotEqual authInfo another = NotEqual2 authInfo (Username another) (Password another)"

lemma NotEqual2_iff [simp]: "NotEqual2 a u p \<longleftrightarrow> \<not> (Username a = u \<and> Password a = p)"
  by (auto simp: NotEqual2_def)

section \<open>The protocol constants\<close>

definition Version4 :: byte where "Version4 = 4"
definition Version5 :: byte where "Version5 = 5"
definition helloNoAuthRequired :: byte where "helloNoAuthRequired = 0"
definition helloUsernamePassword :: byte where "helloUsernamePassword = 2"
definition helloNoAcceptableMethods :: byte where "helloNoAcceptableMethods = 0xFF"
definition authUsernamePasswordVersion :: byte where "authUsernamePasswordVersion = 1"
definition authUsernamePasswordSuccess :: byte where "authUsernamePasswordSuccess = 0"
definition authUsernamePasswordFailure :: byte where "authUsernamePasswordFailure = 1"
definition ConnectionCommandConnect :: byte where "ConnectionCommandConnect = 1"
definition connectionSucceeded :: byte where "connectionSucceeded = 0"
definition connectionCommandNotSupported :: byte where "connectionCommandNotSupported = 7"
definition connectionReserved :: byte where "connectionReserved = 0"

lemmas socks_const_defs = Version4_def Version5_def helloNoAuthRequired_def helloUsernamePassword_def
  helloNoAcceptableMethods_def authUsernamePasswordVersion_def authUsernamePasswordSuccess_def
  authUsernamePasswordFailure_def ConnectionCommandConnect_def connectionSucceeded_def
  connectionCommandNotSupported_def connectionReserved_def connectionAddress_defs

definition helloNoAuthBytes :: bytes where "helloNoAuthBytes = [Version5, helloNoAuthRequired]"
definition helloUsernamePasswordBytes :: bytes where
  "helloUsernamePasswordBytes = [Version5, helloUsernamePassword]"
definition helloNoAcceptableMethodsBytes :: bytes where
  "helloNoAcceptableMethodsBytes = [Version5, helloNoAcceptableMethods]"
definition authUsernamePasswordSuccessBytes :: bytes where
  "authUsernamePasswordSuccessBytes = [authUsernamePasswordVersion, authUsernamePasswordSuccess]"
definition authUsernamePasswordFailureBytes :: bytes where
  "authUsernamePasswordFailureBytes = [authUsernamePasswordVersion, authUsernamePasswordFailure]"
definition connectionCommandNotSupportedBytes :: bytes where
  "connectionCommandNotSupportedBytes = [Version5, connectionCommandNotSupported, connectionReserved,
     connectionAddressIPv4, 0, 0, 0, 0, 0]"
definition connectionSucceededPrefix :: bytes where
  "connectionSucceededPrefix = [Version5, connectionSucceeded, connectionReserved, 1, 0, 0, 0, 0, 0, 0]"

section \<open>The handlers\<close>

definition readClientAuthUsernamePassword :: "(netconn, HTTPSOCKSAuthInfo) io" where
  "readClientAuthUsernamePassword =
     io_bind (on_cin Read1) (\<lambda>version.
     if version \<noteq> authUsernamePasswordVersion
     then io_fail (ErrNew ''excepted version 1 in the client authentication request'')
     else io_bind (on_cin ReadStringByUint8) (\<lambda>username.
       io_bind (on_cin ReadStringByUint8) (\<lambda>password.
       io_ret \<lparr>Username = username, Password = password\<rparr>)))"

text \<open>An error that also reports the outcome of the reply written with it (\<open>errors.Append\<close>).\<close>

definition fail_with_reply :: "goerr \<Rightarrow> bytes \<Rightarrow> (netconn, 'a) io" where
  "fail_with_reply err reply c =
     (case on_cout (WriteAll reply) c of
        (Inl e, c') \<Rightarrow> (Inl (ErrBoth err e), c')
      | (Inr _, c') \<Rightarrow> (Inl err, c'))"

definition handleClientAuthenticationRequest :: "HTTPSOCKSAuthInfo \<Rightarrow> (netconn, unit) io" where
  "handleClientAuthenticationRequest authInfo =
     io_bind readClientAuthUsernamePassword (\<lambda>authInfoFromRequest.
     if NotEqual authInfo authInfoFromRequest
     then fail_with_reply (ErrNew ''incorrect username or password'') authUsernamePasswordFailureBytes
     else on_cout (WriteAll authUsernamePasswordSuccessBytes))"

definition handleClientConnectionRequest :: "(netconn, SocketAddress) io" where
  "handleClientConnectionRequest =
     io_bind (on_cin (ReadN 3)) (\<lambda>bs.
     if bs ! 0 \<noteq> Version5 then io_fail (ErrNew ''SOCKS protocol is not supported'')
     else if bs ! 1 \<noteq> ConnectionCommandConnect
     then fail_with_reply (ErrNew ''the command type is not supported'') connectionCommandNotSupportedBytes
     else io_bind (on_cin ReadSOCKS5Address) (\<lambda>accessAddr.
       io_bind (on_cout (WriteAll connectionSucceededPrefix)) (\<lambda>_.
       io_ret accessAddr)))"

definition handleClientHelloRequest :: "HTTPSOCKSAuthInfo option \<Rightarrow> (netconn, SocketAddress) io" where
  "handleClientHelloRequest authInfo =
     io_bind (on_cin ReadByUint8) (\<lambda>methods.
     io_bind
       (if auth_IsEmpty authInfo \<and> helloNoAuthRequired \<in> set methods then
          on_cout (WriteAll helloNoAuthBytes)
        else if \<not> auth_IsEmpty authInfo \<and> helloUsernamePassword \<in> set methods then
          io_bind (on_cout (WriteAll helloUsernamePasswordBytes))
            (\<lambda>_. handleClientAuthenticationRequest (the authInfo))
        else
          io_bind (on_cout (WriteAll helloNoAcceptableMethodsBytes))
            (\<lambda>_. io_fail (ErrNew ''unsupported or no acceptable methods'')))
       (\<lambda>_. handleClientConnectionRequest))"

definition socks_Serve :: "HTTPSOCKSAuthInfo option \<Rightarrow> (netconn, SocketAddress) io" where
  "socks_Serve authInfo =
     io_bind (on_cin Read1) (\<lambda>version.
     if version = Version4 then io_fail (ErrNew ''SOCKS4 protocol is not supported, only SOCKS5 is supported'')
     else if version = Version5 then handleClientHelloRequest authInfo
     else io_fail (ErrNew ''SOCKS protocol is not supported, only SOCKS5 is supported''))"

text \<open>The whole of \<open>Serve\<close>: the decision, then \<open>ForwardTCP\<close> on the same connection.\<close>

definition socks_Serve_forward ::
  "HTTPSOCKSAuthInfo option \<Rightarrow> goerr option \<Rightarrow> (SocketAddress \<Rightarrow> 'c res) \<Rightarrow> netconn \<Rightarrow> 'c forward" where
  "socks_Serve_forward authInfo ctxErr dial conn =
     (case socks_Serve authInfo conn of
        (Inl e, c) \<Rightarrow> Refused e c
      | (Inr accessAddr, c) \<Rightarrow> ForwardTCP ctxErr dial accessAddr c)"

section \<open>Running a handler\<close>

text \<open>
  Reading and writing on a connection as steps on its two byte streams: \<open>rcv n c\<close> is the
  connection after \<open>n\<close> bytes were taken from it, \<open>snd_bytes bs c\<close> after one write.
\<close>

definition rcv :: "nat \<Rightarrow> netconn \<Rightarrow> netconn" where
  "rcv n c = c\<lparr>cin := rd_adv n (cin c)\<rparr>"

definition snd_bytes :: "bytes \<Rightarrow> netconn \<Rightarrow> netconn" where
  "snd_bytes bs c = c\<lparr>cout := (cout c)\<lparr>wout := wout (cout c) @ [bs]\<rparr>\<rparr>"

lemma rcv_simps [simp]:
  "n \<le> length (contents (cin c)) \<Longrightarrow> contents (cin (rcv n c)) = drop n (contents (cin c))"
  "cout (rcv n c) = cout c" "cin (snd_bytes bs c) = cin c" "wplan (cout (snd_bytes bs c)) = wplan (cout c)"
  "wout (cout (snd_bytes bs c)) = wout (cout c) @ [bs]" "cclosed (rcv n c) = cclosed c" "cclosed (snd_bytes bs c) = cclosed c"
  by (simp_all add: rcv_def snd_bytes_def)

lemma on_cin_Read1 [simp]: "contents (cin c) = b # bs \<Longrightarrow> on_cin Read1 c = (Inr b, rcv 1 c)"
  by (simp add: on_cin_apply rcv_def)

lemma on_cin_ReadN [simp]:
  "n \<le> length (contents (cin c)) \<Longrightarrow> on_cin (ReadN n) c = (Inr (take n (contents (cin c))), rcv n c)"
  by (simp add: on_cin_apply rcv_def)

lemma on_cin_ReadByUint8:
  assumes "contents (cin c) = b # xs @ rest" "length xs = unat b"
  shows "on_cin ReadByUint8 c = (Inr xs, rcv (unat b) (rcv 1 c))"
  using ReadByUint8_enough [OF assms] by (simp add: on_cin_apply rcv_def)

lemma on_cin_ReadStringByUint8:
  assumes "contents (cin c) = b # str_bytes s @ rest" "length s = unat b"
  shows "on_cin ReadStringByUint8 c = (Inr s, rcv (unat b) (rcv 1 c))"
  using ReadByUint8_enough [of "cin c" b "str_bytes s" rest] assms
  by (simp add: on_cin_apply rcv_def ReadStringByUint8_def io_bind_def)

lemma on_cout_WriteAll [simp]:
  "wplan (cout c) = [] \<Longrightarrow> on_cout (WriteAll bs) c = (Inr (), snd_bytes bs c)"
  by (simp add: on_cout_apply snd_bytes_def)

text \<open>What a successful step on a connection says of its streams.\<close>

definition conn_sent :: "netconn \<Rightarrow> bytes" where
  "conn_sent c = sent (cout c)"

lemma on_cin_Inr:
  "on_cin m c = (Inr x, c') \<Longrightarrow> m (cin c) = (Inr x, cin c') \<and> conn_sent c' = conn_sent c"
  by (auto simp: on_cin_apply conn_sent_def prod_eq_iff)

lemma on_cout_Inr:
  "on_cout (WriteAll bs) c = (Inr x, c') \<Longrightarrow> cin c' = cin c \<and> conn_sent c' = conn_sent c @ bs"
  by (auto simp: on_cout_apply conn_sent_def prod_eq_iff intro: WriteAll_Inr)

lemma fail_with_reply_Inl: "\<exists>e c'. fail_with_reply err reply c = (Inl e, c')"
  by (auto simp: fail_with_reply_def split: prod.splits sum.splits)

lemma fail_with_reply_no: "fail_with_reply err reply c = (Inr x, c') \<longleftrightarrow> False"
  using fail_with_reply_Inl [of err reply c] by (metis Inl_Inr_False prod.inject)

lemmas socks_inversions = on_cin_Inr on_cout_Inr Read1_Inr ReadN_Inr ReadByUint8_Inr ReadStringByUint8_Inr

lemma readClientAuth_Inr:
  assumes "readClientAuthUsernamePassword c = (Inr a, c')"
  shows "\<exists>ul pl. contents (cin c) = 1 # ul # str_bytes (Username a) @ pl # str_bytes (Password a) @ contents (cin c')
    \<and> conn_sent c' = conn_sent c"
  using assms
  by (auto simp: readClientAuthUsernamePassword_def io_bind_eq_Inr socks_const_defs split: if_splits
      dest!: socks_inversions)

lemma connection_request_Inr:
  assumes "handleClientConnectionRequest c = (Inr a, c')"
  shows "\<exists>r rest. contents (cin c) = [5, 1, r] @ rest \<and>
    conn_sent c' = conn_sent c @ connectionSucceededPrefix"
  using assms
  by (auto simp: handleClientConnectionRequest_def io_bind_eq_Inr socks_const_defs fail_with_reply_no
      length_Suc_conv numeral_3_eq_3 split: if_splits dest!: socks_inversions)

lemma socks_Serve_ok:
  assumes meth: "m \<in> set ms" "length ms \<le> 255"
    and conf: "m = (if auth_IsEmpty auth then helloNoAuthRequired else helloUsernamePassword)"
    and cred: "\<not> auth_IsEmpty auth \<Longrightarrow> length (Username (the auth)) \<le> 255 \<and> length (Password (the auth)) \<le> 255"
    and addr: "wire_addr a" "WriteSOCKSLikeAddr a = Inr ab"
    and inp: "contents (cin c) = [5, of_nat (length ms)] @ ms @
        (if auth_IsEmpty auth then []
         else [1, of_nat (length (Username (the auth)))] @ str_bytes (Username (the auth)) @
           [of_nat (length (Password (the auth)))] @ str_bytes (Password (the auth))) @
        [5, 1, rsv] @ ab @ rest"
    and out: "wplan (cout c) = []"
  shows "\<exists>c'. socks_Serve auth c = (Inr a, c') \<and> contents (cin c') = rest \<and>
    conn_sent c' = conn_sent c @ (if auth_IsEmpty auth then helloNoAuthBytes
      else helloUsernamePasswordBytes @ authUsernamePasswordSuccessBytes) @ connectionSucceededPrefix"
proof -
  define req where "req = [5, 1, rsv] @ ab @ rest"
  define cp where "cp = (if auth_IsEmpty auth then []
         else [1, of_nat (length (Username (the auth)))] @ str_bytes (Username (the auth)) @
           [of_nat (length (Password (the auth)))] @ str_bytes (Password (the auth)))"
  have len: "unat (of_nat n :: byte) = n" if "n \<le> 255" for n using that by (simp add: unat_of_nat)
  have in0: "contents (cin c) = 5 # of_nat (length ms) # ms @ cp @ req" using inp by (simp add: cp_def req_def)
  let ?c1 = "rcv 1 c"
  have r1: "on_cin Read1 c = (Inr 5, ?c1)" using in0 by simp
  have in1: "contents (cin ?c1) = of_nat (length ms) # ms @ cp @ req" using in0 by simp
  let ?c2 = "rcv (length ms) (rcv 1 ?c1)"
  have r2: "on_cin ReadByUint8 ?c1 = (Inr ms, ?c2)"
    using on_cin_ReadByUint8 [OF in1] len [OF meth(2)] by simp
  have in2: "contents (cin ?c2) = cp @ req" using in1 by simp
  have fin: "\<exists>c'. handleClientConnectionRequest d = (Inr a, c') \<and> contents (cin c') = rest \<and>
      conn_sent c' = conn_sent d @ connectionSucceededPrefix"
    if d: "contents (cin d) = req" "wplan (cout d) = []" for d
  proof -
    let ?d1 = "rcv 3 d"
    have rN: "on_cin (ReadN 3) d = (Inr [5, 1, rsv], ?d1)" and d1: "contents (cin ?d1) = ab @ rest"
      using d by (simp_all add: req_def)
    from Read_Write_addr [OF addr d1] obtain r' where
      ra: "ReadSOCKS5Address (cin ?d1) = (Inr a, r')" "contents r' = rest" by blast
    have "on_cin ReadSOCKS5Address ?d1 = (Inr a, ?d1\<lparr>cin := r'\<rparr>)" using ra by (simp add: on_cin_apply)
    with rN ra d(2) show ?thesis
      by (simp add: handleClientConnectionRequest_def io_bind_def socks_const_defs connectionSucceededPrefix_def
          conn_sent_def sent_def)
  qed
  show ?thesis
  proof (cases "auth_IsEmpty auth")
    case True
    let ?c3 = "snd_bytes helloNoAuthBytes ?c2"
    have "contents (cin ?c3) = req" "wplan (cout ?c3) = []" using in2 True out by (simp_all add: cp_def)
    from fin [OF this] True r1 r2 meth conf out show ?thesis
      by (simp add: socks_Serve_def handleClientHelloRequest_def io_bind_def Version4_def Version5_def
          conn_sent_def sent_def)
  next
    case False
    let ?u = "Username (the auth)" and ?p = "Password (the auth)"
    let ?c3 = "snd_bytes helloUsernamePasswordBytes ?c2"
    have in3: "contents (cin ?c3) = 1 # of_nat (length ?u) # str_bytes ?u @ of_nat (length ?p) # str_bytes ?p @ req"
      using in2 False by (simp add: cp_def)
    let ?c4 = "rcv (length ?u) (rcv 1 (rcv 1 ?c3))"
    let ?c5 = "rcv (length ?p) (rcv 1 ?c4)"
    have ru: "on_cin ReadStringByUint8 (rcv 1 ?c3) = (Inr ?u, ?c4)"
      using on_cin_ReadStringByUint8 [of "rcv 1 ?c3" "of_nat (length ?u)" ?u] in3 len cred False by simp
    have in4: "contents (cin ?c4) = of_nat (length ?p) # str_bytes ?p @ req" using in3 by simp
    have rp: "on_cin ReadStringByUint8 ?c4 = (Inr ?p, ?c5)"
      using on_cin_ReadStringByUint8 [OF in4] len cred False by simp
    have "on_cin Read1 ?c3 = (Inr 1, rcv 1 ?c3)" using in3 by simp
    with ru rp have rd: "readClientAuthUsernamePassword ?c3 = (Inr \<lparr>Username = ?u, Password = ?p\<rparr>, ?c5)"
      by (simp add: readClientAuthUsernamePassword_def io_bind_def authUsernamePasswordVersion_def)
    let ?c6 = "snd_bytes authUsernamePasswordSuccessBytes ?c5"
    have "contents (cin ?c6) = req" "wplan (cout ?c6) = []" using in4 out by simp_all
    from fin [OF this] False r1 r2 meth conf out rd show ?thesis
      by (simp add: socks_Serve_def handleClientHelloRequest_def io_bind_def Version4_def Version5_def
          handleClientAuthenticationRequest_def NotEqual_def conn_sent_def sent_def)
  qed
qed

text \<open>What a client with credentials to give has sent, and what it was sent, when it is forwarded.\<close>

lemma socks_Serve_credentials:
  assumes "\<not> auth_IsEmpty (Some auth)" "socks_Serve (Some auth) c = (Inr a, c')"
  shows "\<exists>n methods ul pl rest.
    contents (cin c) = [5, n] @ methods @ [1, ul] @ str_bytes (Username auth) @ [pl] @ str_bytes (Password auth) @ rest \<and>
    helloUsernamePassword \<in> set methods \<and> length methods = unat n \<and>
    conn_sent c' = conn_sent c @ helloUsernamePasswordBytes @ authUsernamePasswordSuccessBytes @ connectionSucceededPrefix"
proof -
  from assms obtain c1 methods c2 c3 where
    v: "on_cin Read1 c = (Inr Version5, c1)" "on_cin ReadByUint8 c1 = (Inr methods, c2)"
    and up: "helloUsernamePassword \<in> set methods"
    and au: "io_bind (on_cout (WriteAll helloUsernamePasswordBytes)) (\<lambda>_. handleClientAuthenticationRequest auth) c2 = (Inr (), c3)"
    and cr: "handleClientConnectionRequest c3 = (Inr a, c')"
    by (auto simp: socks_Serve_def handleClientHelloRequest_def io_bind_eq_Inr split: if_splits)
  from au obtain c4 info c5 where
    h: "on_cout (WriteAll helloUsernamePasswordBytes) c2 = (Inr (), c4)"
    and rd: "readClientAuthUsernamePassword c4 = (Inr info, c5)"
    and ok: "Username info = Username auth" "Password info = Password auth"
    and su: "on_cout (WriteAll authUsernamePasswordSuccessBytes) c5 = (Inr (), c3)"
    by (auto simp: handleClientAuthenticationRequest_def NotEqual_def io_bind_eq_Inr fail_with_reply_no split: if_splits)
  from on_cin_Inr [OF v(1)] have c1: "contents (cin c) = 5 # contents (cin c1)" "conn_sent c1 = conn_sent c"
    by (auto dest!: Read1_Inr simp: Version5_def)
  from on_cin_Inr [OF v(2)] obtain n where c2: "contents (cin c1) = n # methods @ contents (cin c2)"
    "length methods = unat n" "conn_sent c2 = conn_sent c1" by (auto dest!: ReadByUint8_Inr)
  note c4 = on_cout_Inr [OF h]
  from readClientAuth_Inr [OF rd] obtain ul pl where c5: "contents (cin c4) = 1 # ul # str_bytes (Username info) @
      pl # str_bytes (Password info) @ contents (cin c5)" "conn_sent c5 = conn_sent c4" by blast
  note c3 = on_cout_Inr [OF su]
  from connection_request_Inr [OF cr] obtain r rest where
    c6: "conn_sent c' = conn_sent c3 @ connectionSucceededPrefix" by blast
  show ?thesis
    using c1 c2 c4 c5 c3 c6 ok up
    by (intro exI [of _ n] exI [of _ methods] exI [of _ ul] exI [of _ pl] exI [of _ "contents (cin c5)"]) simp
qed

section \<open>Properties\<close>

text \<open>
  C15. No forwarding without credentials: when the proxy has a username or a password, a
  connection is forwarded only if the client offered the username/password method and sent
  exactly these credentials, and it has by then been sent the three success replies and
  nothing else.
\<close>

theorem socks_forward_authenticated:
  assumes "\<not> auth_IsEmpty (Some auth)" "socks_Serve (Some auth) c = (Inr a, c')"
  shows "\<exists>n methods ul pl rest.
    contents (cin c) = [5, n] @ methods @ [1, ul] @ str_bytes (Username auth) @ [pl] @ str_bytes (Password auth) @ rest \<and>
    helloUsernamePassword \<in> set methods \<and> length methods = unat n \<and>
    conn_sent c' = conn_sent c @ helloUsernamePasswordBytes @ authUsernamePasswordSuccessBytes @ connectionSucceededPrefix"
  by (rule socks_Serve_credentials) (rule assms)+

definition sample_auth :: HTTPSOCKSAuthInfo where
  "sample_auth = \<lparr>Username = ''u'', Password = ''pw''\<rparr>"

definition sample_dialogue :: netconn where
  "sample_dialogue = mk_conn (mk_reader [[5, 2], [0, 2, 1, 1, 117, 2, 112], [119, 5, 1, 0, 1, 1, 2, 3, 4, 0, 80]])"

lemma sample_dialogue_wire:
  "wire_addr (NewSocketAddressByIP (Addr4 16909060) 80)"
  "WriteSOCKSLikeAddr (NewSocketAddressByIP (Addr4 16909060) 80) = Inr [1, 1, 2, 3, 4, 0, 80]"
  by (simp_all add: wire_addr_def nat_bytes_numeral be16_put_def)

lemma sample_dialogue_served:
  "\<exists>c'. socks_Serve (Some sample_auth) sample_dialogue = (Inr (NewSocketAddressByIP (Addr4 16909060) 80), c')"
proof -
  have "\<exists>c'. socks_Serve (Some sample_auth) sample_dialogue = (Inr (NewSocketAddressByIP (Addr4 16909060) 80), c') \<and>
    contents (cin c') = [] \<and>
    conn_sent c' = conn_sent sample_dialogue @ (if auth_IsEmpty (Some sample_auth) then helloNoAuthBytes
      else helloUsernamePasswordBytes @ authUsernamePasswordSuccessBytes) @ connectionSucceededPrefix"
    by (rule socks_Serve_ok [OF _ _ _ _ sample_dialogue_wire, where ms = "[0, 2]" and m = 2 and rsv = 0])
       (simp_all add: auth_IsEmpty_def sample_auth_def helloUsernamePassword_def sample_dialogue_def mk_conn_def
         str_bytes_def byte_of_char_def)
  then show ?thesis by blast
qed

theorem socks_forward_authenticated_witness:
  "\<exists>n methods ul pl rest.
    contents (cin sample_dialogue) = [5, n] @ methods @ [1, ul] @ str_bytes (Username sample_auth) @ [pl] @
      str_bytes (Password sample_auth) @ rest \<and>
    helloUsernamePassword \<in> set methods \<and> length methods = unat n \<and>
    conn_sent (snd (socks_Serve (Some sample_auth) sample_dialogue)) =
      conn_sent sample_dialogue @ helloUsernamePasswordBytes @ authUsernamePasswordSuccessBytes @ connectionSucceededPrefix"
proof -
  from sample_dialogue_served obtain c' where
    c: "socks_Serve (Some sample_auth) sample_dialogue = (Inr (NewSocketAddressByIP (Addr4 16909060) 80), c')" by blast
  have "\<not> auth_IsEmpty (Some sample_auth)" by (simp add: auth_IsEmpty_def sample_auth_def)
  from socks_forward_authenticated [OF this c] show ?thesis by (simp add: c)
qed

text \<open>
  Functional behaviour on a conforming client: whatever the segmentation, a client that
  offers the method the configuration asks for, authenticates when it has to and asks for a
  connection is forwarded to the address it asked for, with exactly the replies of the
  protocol, and the connection is left at the first byte after the request.
\<close>

theorem socks_serves_client:
  assumes meth: "m \<in> set ms" "length ms \<le> 255"
    and conf: "m = (if auth_IsEmpty auth then helloNoAuthRequired else helloUsernamePassword)"
    and cred: "\<not> auth_IsEmpty auth \<Longrightarrow> length (Username (the auth)) \<le> 255 \<and> length (Password (the auth)) \<le> 255"
    and addr: "wire_addr a" "WriteSOCKSLikeAddr a = Inr ab"
    and inp: "contents (cin c) = [5, of_nat (length ms)] @ ms @
        (if auth_IsEmpty auth then []
         else [1, of_nat (length (Username (the auth)))] @ str_bytes (Username (the auth)) @
           [of_nat (length (Password (the auth)))] @ str_bytes (Password (the auth))) @
        [5, 1, rsv] @ ab @ rest"
    and out: "wplan (cout c) = []"
  shows "\<exists>c'. socks_Serve auth c = (Inr a, c') \<and> contents (cin c') = rest \<and>
    conn_sent c' = conn_sent c @ (if auth_IsEmpty auth then helloNoAuthBytes
      else helloUsernamePasswordBytes @ authUsernamePasswordSuccessBytes) @ connectionSucceededPrefix"
  using assms by (rule socks_Serve_ok)

theorem socks_serves_client_witness:
  "\<exists>c'. socks_Serve (Some sample_auth) sample_dialogue = (Inr (NewSocketAddressByIP (Addr4 16909060) 80), c') \<and>
    contents (cin c') = [] \<and>
    conn_sent c' = conn_sent sample_dialogue @ (if auth_IsEmpty (Some sample_auth) then helloNoAuthBytes
      else helloUsernamePasswordBytes @ authUsernamePasswordSuccessBytes) @ connectionSucceededPrefix"
  by (rule socks_serves_client [OF _ _ _ _ sample_dialogue_wire, where ms = "[0, 2]" and m = 2 and rsv = 0])
     (simp_all add: auth_IsEmpty_def sample_auth_def helloUsernamePassword_def sample_dialogue_def mk_conn_def
       str_bytes_def byte_of_char_def)

text \<open>
  A request for another command than CONNECT is refused, but the reply has nine bytes
  where the protocol's reply with an IPv4 address has ten: a client that reads the reply in
  full waits for a byte that never comes.
\<close>

theorem socks_refusal_one_byte_short:
  assumes "contents (cin c) = [5, cmd, rsv] @ rest" "cmd \<noteq> 1" "wplan (cout c) = []"
  shows "\<exists>e c'. handleClientConnectionRequest c = (Inl e, c') \<and>
    conn_sent c' = conn_sent c @ connectionCommandNotSupportedBytes \<and>
    length connectionCommandNotSupportedBytes + 1 = length connectionSucceededPrefix"
  using assms
  by (simp add: handleClientConnectionRequest_def io_bind_def fail_with_reply_def Version5_def
      ConnectionCommandConnect_def connectionCommandNotSupportedBytes_def connectionSucceededPrefix_def
      conn_sent_def sent_def)

theorem socks_refusal_one_byte_short_witness:
  "\<exists>e c'. handleClientConnectionRequest (mk_conn (mk_reader [[5, 2, 0, 1]])) = (Inl e, c') \<and>
    conn_sent c' = conn_sent (mk_conn (mk_reader [[5, 2, 0, 1]])) @ connectionCommandNotSupportedBytes \<and>
    length connectionCommandNotSupportedBytes + 1 = length connectionSucceededPrefix"
proof (rule socks_refusal_one_byte_short)
  show "contents (cin (mk_conn (mk_reader [[5, 2, 0, 1]]))) = [5, 2, 0] @ [1]" by (simp add: mk_conn_def)
  show "(2 :: byte) \<noteq> 1" by simp
qed (simp add: mk_conn_def)

end
