(* ===== verification/HttpProxy.thy ===== *)
theory HttpProxy
  imports GoHttp SocksServer
begin

text \<open>
  The HTTP proxy of \<open>transport/http/server.go\<close> and the listener that tells HTTP from SOCKS
  by the first byte, \<open>transport/http_socks/server.go\<close>. Parsing a request off the wire
  (\<open>net/http.readRequest\<close>) and writing a response (\<open>Response.Write\<close>) are arguments: the
  model starts from the parsed request, or the error.
\<close>

definition connectSuccessBytes :: bytes where
  "connectSuccessBytes = str_bytes (''HTTP/1.1 200 OK'' @ [CHR 0x0D, CHR 0x0A, CHR 0x0D, CHR 0x0A])"

section \<open>Hop-by-hop headers\<close>

definition removeHopByHopHeaders :: "header \<Rightarrow> header" where
  "removeHopByHopHeaders h =
     fold (\<lambda>k h. map_delete h k)
       [''Connection'', ''Keep-Alive'', ''Proxy-Authenticate'', ''Proxy-Authorization'', ''TE'', ''Trailers'',
        ''Transfer-Encoding'', ''Upgrade'']
       (fold (\<lambda>v h. header_Del h v) (h ''Connection'') h)"

lemma fold_Del: "fold (\<lambda>v h. header_Del h v) vs h k = (if k \<in> CanonicalHeaderKey ` set vs then [] else h k)"
  by (induction vs arbitrary: h) (auto simp: header_Del_def)

lemma removeHopByHopHeaders_apply:
  "removeHopByHopHeaders h k =
     (if k \<in> {''Connection'', ''Keep-Alive'', ''Proxy-Authenticate'', ''Proxy-Authorization'', ''TE'', ''Trailers'',
        ''Transfer-Encoding'', ''Upgrade''} \<or> k \<in> CanonicalHeaderKey ` set (h ''Connection'')
      then [] else h k)"
  by (simp add: removeHopByHopHeaders_def map_delete_def fold_Del)

section \<open>Serving a connection\<close>

text \<open>
  What the relay of plain requests meets in one turn: the result of writing the request to
  the target, the response (whether it asks to close) or the error of reading it, the result
  of writing the response to the client, and the next request.
\<close>

record relay_turn =
  rt_write :: "goerr option"
  rt_resp :: "bool res"
  rt_reply :: "goerr option"
  rt_next :: "http_request res"

definition clean_request :: "http_request \<Rightarrow> http_request" where
  "clean_request req = req\<lparr>rq_Header := removeHopByHopHeaders (rq_Header req)\<rparr>"

text \<open>The requests written to the target, and the read and write error at the end.\<close>

fun relay_loop :: "http_request \<Rightarrow> relay_turn list \<Rightarrow> http_request list \<times> goerr option \<times> goerr option" where
  "relay_loop req [] = ([], None, None)"
| "relay_loop req (t # ts) =
     (case rt_write t of
        Some werr \<Rightarrow> ([], None, Some werr)
      | None \<Rightarrow>
          (case rt_resp t of
             Inl rerr \<Rightarrow> ([clean_request req], Some rerr, None)
           | Inr respClose \<Rightarrow>
               (case rt_reply t of
                  Some rerr \<Rightarrow> ([clean_request req], Some rerr, None)
                | None \<Rightarrow>
                    if rq_Close req \<or> respClose then ([clean_request req], None, None)
                    else (case rt_next t of
                        Inl werr \<Rightarrow> ([clean_request req], None, if IsIoEof werr then None else Some werr)
                      | Inr req' \<Rightarrow>
                          (case relay_loop req' ts of (reqs, rerr, werr) \<Rightarrow> (clean_request req # reqs, rerr, werr))))))"

text \<open>What \<open>Serve\<close> decides: a tunnel to an address with the unread bytes, or a relay to it.\<close>

datatype http_decision = HttpTunnel SocketAddress bytes | HttpRelay SocketAddress "http_request list"

fun decision_addr :: "http_decision \<Rightarrow> SocketAddress" where
  "decision_addr (HttpTunnel a bs) = a"
| "decision_addr (HttpRelay a reqs) = a"

definition http_parse :: "http_request \<Rightarrow> (string \<times> string) option" where
  "http_parse r =
     (let auth = header_Get (rq_Header r) ''Proxy-Authorization'' in
      if auth = [] then None else parseBasicAuth auth)"

definition http_target :: "http_request \<Rightarrow> SocketAddress res" where
  "http_target req =
     (if rq_Method req = ''CONNECT'' then ToSocketAddr (rq_URLHost req) True 0
      else ToSocketAddr (rq_Host req) False 80)"

definition http_Serve ::
  "(nat \<Rightarrow> (string \<times> string) list \<Rightarrow> bytes) \<Rightarrow> HTTPSOCKSAuthInfo option \<Rightarrow> http_request res \<Rightarrow> bytes \<Rightarrow>
   relay_turn list \<Rightarrow> (netconn, http_decision) io" where
  "http_Serve Response_Write authInfo readRequest unreadBs turns =
     io_bind (io_lift readRequest) (\<lambda>req.
     case http_target req of
       Inl err \<Rightarrow> fail_with_reply err (Response_Write 400 [])
     | Inr targetAddr \<Rightarrow>
         if \<not> auth_IsEmpty authInfo \<and>
            (case http_parse req of
               None \<Rightarrow> True
             | Some (username, password) \<Rightarrow> NotEqual2 (the authInfo) username password)
         then fail_with_reply (ErrNew ''no authentication info, or incorrect username/password'')
           (Response_Write 407 [(''Proxy-Authenticate'', ''Basic'')])
         else if rq_Method req = ''CONNECT''
         then io_bind (on_cout (WriteAll connectSuccessBytes)) (\<lambda>_. io_ret (HttpTunnel targetAddr unreadBs))
         else io_ret (HttpRelay targetAddr (fst (relay_loop req turns))))"

section \<open>HTTP or SOCKS\<close>

datatype proxy_decision = SocksForward SocketAddress | HttpDecision http_decision

definition http_socks_serve ::
  "(nat \<Rightarrow> (string \<times> string) list \<Rightarrow> bytes) \<Rightarrow> HTTPSOCKSAuthInfo option \<Rightarrow> (netconn \<Rightarrow> http_request res) \<Rightarrow>
   (netconn \<Rightarrow> bytes) \<Rightarrow> relay_turn list \<Rightarrow> (netconn, proxy_decision) io" where
  "http_socks_serve Response_Write authInfo readRequest unread turns =
     io_bind (on_cin Read1) (\<lambda>b c.
       let conn = c\<lparr>cin := preload_reader (NewBytesReadPreloadConn [b] (cin c))\<rparr> in
       if b = Version4 \<or> b = Version5
       then io_bind (socks_Serve authInfo) (\<lambda>a. io_ret (SocksForward a)) conn
       else io_bind (http_Serve Response_Write authInfo (readRequest conn) (unread conn) turns)
         (\<lambda>d. io_ret (HttpDecision d)) conn)"

text \<open>The byte put back leaves the stream as it was.\<close>

lemma preload_back:
  assumes "contents (cin c) = b # bs"
  shows "contents (preload_reader (NewBytesReadPreloadConn [b] (cin (rcv 1 c)))) = contents (cin c)"
  using assms by (simp add: preload_contents_def NewBytesReadPreloadConn_def)

lemma http_Serve_Inr:
  assumes "http_Serve W authInfo rr unread turns c = (Inr d, c')"
  shows "\<exists>req. rr = Inr req \<and> http_target req = Inr (decision_addr d) \<and>
    (auth_IsEmpty authInfo \<or> http_parse req = Some (Username (the authInfo), Password (the authInfo))) \<and>
    (case d of HttpTunnel a bs \<Rightarrow> rq_Method req = ''CONNECT'' \<and> conn_sent c' = conn_sent c @ connectSuccessBytes
     | HttpRelay a reqs \<Rightarrow> rq_Method req \<noteq> ''CONNECT'' \<and> reqs = fst (relay_loop req turns) \<and> conn_sent c' = conn_sent c)"
proof -
  obtain req where req: "rr = Inr req"
    using assms by (cases rr) (simp_all add: http_Serve_def io_bind_def)
  obtain a where a: "http_target req = Inr a"
    using assms req by (cases "http_target req") (simp_all add: http_Serve_def io_bind_def fail_with_reply_no)
  define bad where "bad \<longleftrightarrow> \<not> auth_IsEmpty authInfo \<and>
    (case http_parse req of None \<Rightarrow> True | Some (u, p) \<Rightarrow> NotEqual2 (the authInfo) u p)"
  have run: "http_Serve W authInfo rr unread turns c =
      (if bad then fail_with_reply (ErrNew ''no authentication info, or incorrect username/password'')
           (W 407 [(''Proxy-Authenticate'', ''Basic'')]) c
       else if rq_Method req = ''CONNECT''
         then io_bind (on_cout (WriteAll connectSuccessBytes)) (\<lambda>_. io_ret (HttpTunnel a unread)) c
         else (Inr (HttpRelay a (fst (relay_loop req turns))), c))"
    by (simp add: http_Serve_def io_bind_def req a bad_def)
  then have ok: "\<not> bad" using assms fail_with_reply_no by metis
  then have cred: "auth_IsEmpty authInfo \<or> http_parse req = Some (Username (the authInfo), Password (the authInfo))"
    by (auto simp: bad_def split: option.splits)
  show ?thesis
  proof (cases "rq_Method req = ''CONNECT''")
    case True
    with run ok assms
    have "io_bind (on_cout (WriteAll connectSuccessBytes)) (\<lambda>_. io_ret (HttpTunnel a unread)) c = (Inr d, c')" by metis
    then obtain x where "on_cout (WriteAll connectSuccessBytes) c = (Inr x, c')" "d = HttpTunnel a unread"
      by (auto simp: io_bind_eq_Inr)
    with on_cout_Inr [OF this(1)] True req a cred show ?thesis by simp
  next
    case False
    with run ok assms have "d = HttpRelay a (fst (relay_loop req turns))" "c' = c" by simp_all
    with False req a cred show ?thesis by simp
  qed
qed

lemma relay_loop_requests:
  "req' \<in> set (fst (relay_loop req ts)) \<Longrightarrow> \<exists>r. req' = clean_request r"
  by (induction req ts rule: relay_loop.induct) (auto split: option.splits sum.splits if_splits prod.splits)

lemma canonical_keys:
  "CanonicalHeaderKey ''TE'' = ''Te''" "CanonicalHeaderKey ''X-Secret'' = ''X-Secret''"
  "CanonicalHeaderKey ''Connection'' = ''Connection''"
  "CanonicalHeaderKey ''Proxy-Authorization'' = ''Proxy-Authorization''"
  "CanonicalHeaderKey ''close, X-Secret'' = ''close, X-Secret''"
  by code_simp+

section \<open>Properties\<close>

text \<open>The credentials a header holds, taken apart.\<close>

lemma IndexByte_Some: "IndexByte s c = Some i \<Longrightarrow> i < length s \<and> s ! i = c"
  by (induction s arbitrary: i) (auto split: if_splits option.splits)

lemma parseBasicAuth_Some:
  assumes "parseBasicAuth auth = Some (u, p)"
  shows "\<exists>scheme enc. ToLower scheme = ''basic '' \<and> auth = scheme @ enc \<and>
    base64_DecodeString enc = Some (str_bytes (u @ '':'' @ p))"
proof -
  have l: "ToLower basicAuthPrefix = ''basic ''" by code_simp
  let ?n = "length basicAuthPrefix"
  obtain bs i where d: "EqualFold (take ?n auth) basicAuthPrefix" "base64_DecodeString (drop ?n auth) = Some bs"
    "IndexByte (bytes_str bs) CHR '':'' = Some i" "u = take i (bytes_str bs)" "p = drop (Suc i) (bytes_str bs)"
    using assms by (auto simp: parseBasicAuth_def Let_def split: if_splits option.splits)
  have "bytes_str bs = take i (bytes_str bs) @ CHR '':'' # drop (Suc i) (bytes_str bs)"
    using IndexByte_Some [OF d(3)] by (metis id_take_nth_drop)
  then have "str_bytes (u @ '':'' @ p) = bs" using d(4,5) by simp
  with d(1,2) l show ?thesis
    by (intro exI [of _ "take ?n auth"] exI [of _ "drop ?n auth"]) (simp add: EqualFold_def)
qed

lemma http_parse_Some:
  "http_parse req = Some (u, p) \<Longrightarrow>
    \<exists>scheme enc. ToLower scheme = ''basic '' \<and> header_Get (rq_Header req) ''Proxy-Authorization'' = scheme @ enc \<and>
      base64_DecodeString enc = Some (str_bytes (u @ '':'' @ p))"
  by (rule parseBasicAuth_Some) (simp add: http_parse_def Let_def split: if_splits)

lemma relayed_without_credentials:
  "r \<in> set (fst (relay_loop req turns)) \<Longrightarrow> header_Get (rq_Header r) ''Proxy-Authorization'' = []"
  using relay_loop_requests [of r req turns]
  by (auto simp: clean_request_def header_Get_def removeHopByHopHeaders_apply canonical_keys)

text \<open>
  C16. The port that serves HTTP and SOCKS forwards a connection only with the configured
  credentials: a SOCKS client has sent them by the username/password method; the first request of
  an HTTP client carries them in \<open>Proxy-Authorization\<close>, as \<open>Basic\<close> in any case and the encoding of
  the two. An HTTP client is forwarded only to the address its first request names: a tunnel to
  the authority of a CONNECT request, after the success line, a relay to the host of any other.
  Later requests of a relayed connection are not checked again and go to the same address; what
  is relayed never carries the proxy credentials.
\<close>

theorem http_forward_authenticated:
  assumes "http_socks_serve W authInfo readRequest unread turns c = (Inr d, c')"
  shows "case d of
      SocksForward a \<Rightarrow> hd (contents (cin c)) = Version5 \<and>
        (\<not> auth_IsEmpty authInfo \<longrightarrow> (\<exists>n methods ul pl rest.
           contents (cin c) = [5, n] @ methods @ [1, ul] @ str_bytes (Username (the authInfo)) @
             [pl] @ str_bytes (Password (the authInfo)) @ rest \<and>
           helloUsernamePassword \<in> set methods \<and> length methods = unat n))
    | HttpDecision h \<Rightarrow> hd (contents (cin c)) \<notin> {Version4, Version5} \<and>
        (\<exists>conn req. contents (cin conn) = contents (cin c) \<and> readRequest conn = Inr req \<and>
           http_target req = Inr (decision_addr h) \<and>
           (\<not> auth_IsEmpty authInfo \<longrightarrow> (\<exists>scheme enc. ToLower scheme = ''basic '' \<and>
              header_Get (rq_Header req) ''Proxy-Authorization'' = scheme @ enc \<and>
              base64_DecodeString enc = Some (str_bytes (Username (the authInfo) @ '':'' @ Password (the authInfo))))) \<and>
           (case h of
              HttpTunnel a bs \<Rightarrow> rq_Method req = ''CONNECT'' \<and> conn_sent c' = conn_sent c @ connectSuccessBytes
            | HttpRelay a reqs \<Rightarrow> rq_Method req \<noteq> ''CONNECT'' \<and> conn_sent c' = conn_sent c \<and>
                (\<forall>r \<in> set reqs. header_Get (rq_Header r) ''Proxy-Authorization'' = [])))"
proof -
  obtain b c1 where rd: "on_cin Read1 c = (Inr b, c1)"
    using assms by (auto simp: http_socks_serve_def io_bind_eq_Inr)
  from on_cin_Inr [OF rd] have in1: "contents (cin c) = b # contents (cin c1)" and out1: "conn_sent c1 = conn_sent c"
    by (auto dest!: Read1_Inr)
  define conn where "conn = c1\<lparr>cin := preload_reader (NewBytesReadPreloadConn [b] (cin c1))\<rparr>"
  have conn: "contents (cin conn) = contents (cin c)" "conn_sent conn = conn_sent c"
    using in1 out1 by (simp_all add: conn_def conn_sent_def preload_contents_def NewBytesReadPreloadConn_def)
  have run: "(if b = Version4 \<or> b = Version5
       then io_bind (socks_Serve authInfo) (\<lambda>a. io_ret (SocksForward a)) conn
       else io_bind (http_Serve W authInfo (readRequest conn) (unread conn) turns) (\<lambda>d. io_ret (HttpDecision d)) conn) = (Inr d, c')"
    using assms rd unfolding conn_def by (simp add: http_socks_serve_def io_bind_def [of "on_cin Read1"] Let_def split del: if_split)
  show ?thesis
  proof (cases "b = Version4 \<or> b = Version5")
    case True
    with run obtain a where d: "d = SocksForward a" and s: "socks_Serve authInfo conn = (Inr a, c')"
      by (auto simp: io_bind_eq_Inr)
    have "b = Version5"
      using s on_cin_Inr [of Read1 conn] conn(1) in1 True
      by (auto simp: socks_Serve_def io_bind_eq_Inr dest!: Read1_Inr split: if_splits)
    moreover have "\<not> auth_IsEmpty authInfo \<Longrightarrow> \<exists>n methods ul pl rest.
        contents (cin c) = [5, n] @ methods @ [1, ul] @ str_bytes (Username (the authInfo)) @
          [pl] @ str_bytes (Password (the authInfo)) @ rest \<and>
        helloUsernamePassword \<in> set methods \<and> length methods = unat n"
    proof -
      assume e: "\<not> auth_IsEmpty authInfo"
      then obtain aa where aa: "authInfo = Some aa" by (cases authInfo) (auto simp: auth_IsEmpty_def)
      from socks_Serve_credentials [of aa conn a c'] e s show ?thesis unfolding aa conn(1) option.sel by blast
    qed
    ultimately show ?thesis using in1 d by simp
  next
    case False
    with run obtain h where d: "d = HttpDecision h"
      and s: "http_Serve W authInfo (readRequest conn) (unread conn) turns conn = (Inr h, c')"
      by (auto simp: io_bind_eq_Inr)
    from http_Serve_Inr [OF s] obtain req where req: "readRequest conn = Inr req"
      "http_target req = Inr (decision_addr h)"
      "auth_IsEmpty authInfo \<or> http_parse req = Some (Username (the authInfo), Password (the authInfo))"
      "case h of HttpTunnel a bs \<Rightarrow> rq_Method req = ''CONNECT'' \<and> conn_sent c' = conn_sent conn @ connectSuccessBytes
       | HttpRelay a reqs \<Rightarrow> rq_Method req \<noteq> ''CONNECT'' \<and> reqs = fst (relay_loop req turns) \<and> conn_sent c' = conn_sent conn"
      by blast
    have "case h of
        HttpTunnel a bs \<Rightarrow> rq_Method req = ''CONNECT'' \<and> conn_sent c' = conn_sent c @ connectSuccessBytes
      | HttpRelay a reqs \<Rightarrow> rq_Method req \<noteq> ''CONNECT'' \<and> conn_sent c' = conn_sent c \<and>
          (\<forall>r \<in> set reqs. header_Get (rq_Header r) ''Proxy-Authorization'' = [])"
      using req(4) conn(2) relayed_without_credentials by (cases h) auto
    moreover have "\<not> auth_IsEmpty authInfo \<longrightarrow> (\<exists>scheme enc. ToLower scheme = ''basic '' \<and>
        header_Get (rq_Header req) ''Proxy-Authorization'' = scheme @ enc \<and>
        base64_DecodeString enc = Some (str_bytes (Username (the authInfo) @ '':'' @ Password (the authInfo))))"
      using req(3) http_parse_Some by blast
    ultimately show ?thesis unfolding d using in1 False conn(1) req(1,2) by auto
  qed
qed

definition sample_request :: http_request where
  "sample_request = \<lparr>rq_ProtoMajor = 1, rq_Method = ''GET'', rq_URLHost = ''a.b'', rq_Host = ''a.b'',
     rq_Header = (\<lambda>k. []), rq_Close = False\<rparr>"

lemma sample_request_target: "http_target sample_request = Inr (NewSocketAddressByDomain ''a.b'' 80)"
  by (simp add: http_target_def sample_request_def ToSocketAddr_def HasPrefix_def toSocketAddr_def ParseAddr_def
      parseIPv4_def v4_fields_def is_digit_def)

definition sample_auth_request :: http_request where
  "sample_auth_request = sample_request\<lparr>rq_Header := header_Set (\<lambda>k. []) ''Proxy-Authorization''
     (basicAuthPrefix @ base64_EncodeToString (str_bytes (''u'' @ CHR '':'' # ''pw'')))\<rparr>"

lemma sample_auth_request_simps:
  "http_target sample_auth_request = Inr (NewSocketAddressByDomain ''a.b'' 80)"
  "http_parse sample_auth_request = Some (''u'', ''pw'')" "rq_Method sample_auth_request = ''GET''"
proof -
  show "http_target sample_auth_request = Inr (NewSocketAddressByDomain ''a.b'' 80)"
    using sample_request_target by (simp add: http_target_def sample_auth_request_def sample_request_def)
  have "basicAuthPrefix \<noteq> []" by (simp add: basicAuthPrefix_def)
  then show "http_parse sample_auth_request = Some (''u'', ''pw'')"
    using parseBasicAuth_encoded [of "''u''" "''pw''"]
    by (simp add: http_parse_def sample_auth_request_def header_Get_def header_Set_def canonical_keys Let_def)
  show "rq_Method sample_auth_request = ''GET''" by (simp add: sample_auth_request_def sample_request_def)
qed

text \<open>A request with the configured user name and password, on the combined port.\<close>

theorem http_forward_authenticated_witness:
  "\<exists>c'. http_socks_serve (\<lambda>n h. []) (Some sample_auth) (\<lambda>conn. Inr sample_auth_request) (\<lambda>conn. []) []
       (mk_conn (mk_reader [[71]])) = (Inr (HttpDecision (HttpRelay (NewSocketAddressByDomain ''a.b'' 80) [])), c') \<and>
     (\<exists>enc. base64_DecodeString enc = Some (str_bytes (Username sample_auth @ '':'' @ Password sample_auth)))"
proof -
  let ?c = "mk_conn (mk_reader [[71]])"
  have e: "\<not> auth_IsEmpty (Some sample_auth)" by (simp add: auth_IsEmpty_def sample_auth_def)
  have "http_Serve (\<lambda>n h. []) (Some sample_auth) (Inr sample_auth_request) [] [] c2 =
      (Inr (HttpRelay (NewSocketAddressByDomain ''a.b'' 80) []), c2)" for c2
    by (simp add: http_Serve_def io_bind_def sample_auth_request_simps NotEqual2_def) (simp add: sample_auth_def)
  note serve = this
  have "contents (cin ?c) = 71 # []" by (simp add: mk_conn_def mk_reader_def contents_def)
  from on_cin_Read1 [OF this] obtain c1 where "on_cin Read1 ?c = (Inr 71, c1)" by blast
  then obtain c' where r: "http_socks_serve (\<lambda>n h. []) (Some sample_auth) (\<lambda>conn. Inr sample_auth_request) (\<lambda>conn. []) [] ?c =
      (Inr (HttpDecision (HttpRelay (NewSocketAddressByDomain ''a.b'' 80) [])), c')"
    using serve by (simp add: http_socks_serve_def io_bind_def Let_def Version4_def Version5_def)
  from http_forward_authenticated [OF r] e show ?thesis using r by auto
qed

text \<open>
  Hop-by-hop headers are not all removed: a \<open>TE\<close> header, whose canonical key is \<open>Te\<close>, and
  the headers named in one comma-separated \<open>Connection\<close> value are passed on.
\<close>

theorem hop_by_hop_kept:
  "removeHopByHopHeaders (header_Set (\<lambda>k. []) ''TE'' v) ''Te'' = [v] \<and>
   removeHopByHopHeaders (header_Set (header_Set (\<lambda>k. []) ''X-Secret'' v) ''Connection'' ''close, X-Secret'') ''X-Secret'' = [v]"
  by (simp add: removeHopByHopHeaders_apply header_Set_def canonical_keys)

text \<open>
  Every request of a persistent connection goes to the target of the first one: a second
  request for another host is written to the first host's connection.
\<close>

theorem http_later_requests_misrouted:
  assumes "http_target req1 = Inr a1" "rq_Method req1 \<noteq> ''CONNECT''" "\<not> rq_Close req1" "http_target req2 = Inr a2" "a1 \<noteq> a2"
    "auth_IsEmpty authInfo"
  shows "fst (http_Serve W authInfo (Inr req1) unread
      [\<lparr>rt_write = None, rt_resp = Inr False, rt_reply = None, rt_next = Inr req2\<rparr>,
       \<lparr>rt_write = None, rt_resp = Inr True, rt_reply = None, rt_next = Inl EOF\<rparr>] c) =
    Inr (HttpRelay a1 [clean_request req1, clean_request req2])"
  using assms by (simp add: http_Serve_def io_bind_def)

theorem http_later_requests_misrouted_witness:
  "fst (http_Serve (\<lambda>n h. []) None (Inr sample_request) []
      [\<lparr>rt_write = None, rt_resp = Inr False, rt_reply = None, rt_next = Inr (sample_request\<lparr>rq_Host := ''c''\<rparr>)\<rparr>,
       \<lparr>rt_write = None, rt_resp = Inr True, rt_reply = None, rt_next = Inl EOF\<rparr>] (mk_conn (mk_reader []))) =
    Inr (HttpRelay (NewSocketAddressByDomain ''a.b'' 80)
      [clean_request sample_request, clean_request (sample_request\<lparr>rq_Host := ''c''\<rparr>)])"
proof (rule http_later_requests_misrouted [OF sample_request_target])
  show "http_target (sample_request\<lparr>rq_Host := ''c''\<rparr>) = Inr (NewSocketAddressByDomain ''c'' 80)"
    by (simp add: http_target_def sample_request_def ToSocketAddr_def HasPrefix_def toSocketAddr_def ParseAddr_def
        parseIPv4_def v4_fields_def is_digit_def)
qed (simp_all add: sample_request_def auth_IsEmpty_def NewSocketAddressByDomain_def)

end
