(* ===== verification/TrCarrier.thy ===== *)
theory TrCarrier
  imports GoHttp Relay
begin

text \<open>
  The Trojan carrier, \<open>transport/tr_carrier\<close>, and the server that shares its port with
  NaiveProxy, \<open>transport/tr_np_carrier\<close>. A \<open>bufio.Reader\<close> is its buffered bytes and the
  connection behind it; SHA-224 and the key derivation are arguments.
\<close>

section \<open>Buffered readers\<close>

definition BufSize :: nat where "BufSize = 4 * 1024"

record bufio =
  bf_buf :: bytes
  bf_src :: reader

definition NewBufioReader :: "reader \<Rightarrow> bufio" where
  "NewBufioReader r = \<lparr>bf_buf = [], bf_src = r\<rparr>"

definition bf_data :: "bufio \<Rightarrow> bytes" where
  "bf_data b = bf_buf b @ contents (bf_src b)"

text \<open>\<open>Peek(n)\<close> fills the buffer until it holds \<open>n\<close> bytes or a read fails.\<close>

function bufio_Peek :: "nat \<Rightarrow> bufio \<Rightarrow> bytes res \<times> bufio" where
  "bufio_Peek n b =
     (if n \<le> length (bf_buf b) then (Inr (take n (bf_buf b)), b)
      else if BufSize \<le> length (bf_buf b) then (Inl (ErrNew ''bufio: buffer full''), b)
      else (case rd_read (BufSize - length (bf_buf b)) (bf_src b) of
          (d, None, r') \<Rightarrow> bufio_Peek n (b\<lparr>bf_buf := bf_buf b @ d, bf_src := r'\<rparr>)
        | (d, Some e, r') \<Rightarrow>
            (let b' = b\<lparr>bf_buf := bf_buf b @ d, bf_src := r'\<rparr> in
             (if n \<le> length (bf_buf b') then Inr (take n (bf_buf b')) else Inl e, b'))))"
  by pat_completeness auto
termination
  by (relation "measure (\<lambda>(n, b). rd_left (bf_src b))") (auto dest!: rd_read_progress [OF sym])

declare bufio_Peek.simps [simp del]

text \<open>Reading on from a buffered reader is reading the buffer and then the connection.\<close>

definition bufio_reader :: "bufio \<Rightarrow> reader" where
  "bufio_reader b = preload_reader (NewBytesReadPreloadConn (bf_buf b) (bf_src b))"

lemma contents_bufio_reader [simp]: "contents (bufio_reader b) = bf_data b"
  by (simp add: bufio_reader_def bf_data_def preload_contents_def NewBytesReadPreloadConn_def)

lemma bufio_Peek_spec:
  assumes "n \<le> BufSize" "bufio_Peek n b = (res, b')"
  shows "bf_data b' = bf_data b \<and> fin (bf_src b') = fin (bf_src b) \<and>
    res = (if n \<le> length (bf_data b) then Inr (take n (bf_data b)) else Inl (fin (bf_src b)))"
  using assms
proof (induction n b arbitrary: rule: bufio_Peek.induct)
  case (1 n b)
  show ?case
  proof (cases "n \<le> length (bf_buf b)")
    case True
    with 1(3) show ?thesis by (auto simp: bufio_Peek.simps [of n b] bf_data_def)
  next
    case False
    then have lt: "\<not> BufSize \<le> length (bf_buf b)" using 1(2) by simp
    obtain d e r' where rd: "rd_read (BufSize - length (bf_buf b)) (bf_src b) = (d, e, r')" by (metis prod_cases3)
    note data = rd_read_data [OF rd]
    show ?thesis
    proof (cases e)
      case None
      from 1(1) [OF False lt rd [symmetric] refl None 1(2)] 1(3) False lt rd None data show ?thesis
        by (simp add: bufio_Peek.simps [of n b] bf_data_def)
    next
      case (Some x)
      with rd_read_error [OF rd [unfolded Some]] have "x = fin (bf_src b)" "contents r' = []"
        by (simp_all add: contents_def)
      with 1(3) False lt rd Some data show ?thesis
        by (auto simp: bufio_Peek.simps [of n b] bf_data_def)
    qed
  qed
qed

section \<open>The password hash\<close>

definition crlf :: bytes where "crlf = [13, 10]"

definition tr_AuthPassword :: "(bytes \<Rightarrow> string \<Rightarrow> nat \<Rightarrow> bytes) \<Rightarrow> bytes \<Rightarrow> string" where
  "tr_AuthPassword DeriveN password = base64_EncodeToString (DeriveN password ''hg/trojan/auth-password/v1'' 16)"

definition toTrojanPasswordHash ::
  "(bytes \<Rightarrow> bytes) \<Rightarrow> (bytes \<Rightarrow> string \<Rightarrow> nat \<Rightarrow> bytes) \<Rightarrow> bytes \<Rightarrow> bytes" where
  "toTrojanPasswordHash SHA224 DeriveN password =
     hex_Encode (SHA224 (str_bytes (tr_AuthPassword DeriveN password)))"

text \<open>What the server relies on of the hash: 56 bytes, none of them a carriage return.\<close>

definition wf_hash :: "bytes \<Rightarrow> bool" where
  "wf_hash h \<longleftrightarrow> length h = 56 \<and> 13 \<notin> set h"

lemma wf_toTrojanPasswordHash:
  "(\<And>x. length (SHA224 x) = 28) \<Longrightarrow> wf_hash (toTrojanPasswordHash SHA224 DeriveN password)"
  by (simp add: wf_hash_def toTrojanPasswordHash_def hex_Encode_no_cr)

section \<open>The client\<close>

record tr_clientConn =
  trc_conn :: netconn
  trc_accessAddr :: SocketAddress
  trc_passwordHash :: bytes
  trc_hasWriteFirstPayload :: bool

definition tr_newClientConn :: "netconn \<Rightarrow> SocketAddress \<Rightarrow> bytes \<Rightarrow> tr_clientConn" where
  "tr_newClientConn conn accessAddr hash =
     \<lparr>trc_conn = conn, trc_accessAddr = accessAddr, trc_passwordHash = hash, trc_hasWriteFirstPayload = False\<rparr>"

definition socksLikeRequestSizeInBytes :: "SocketAddress \<Rightarrow> nat" where
  "socksLikeRequestSizeInBytes addr = 1 + SOCKSLikeAddrSizeInBytes addr"

definition writeSOCKSLikeConnectionCommandRequest :: "SocketAddress \<Rightarrow> bytes res" where
  "writeSOCKSLikeConnectionCommandRequest addr =
     (case WriteSOCKSLikeAddr addr of Inl e \<Rightarrow> Inl e | Inr bs \<Rightarrow> Inr (1 # bs))"

text \<open>A write on the underlying connection: bytes written, error.\<close>

definition conn_write :: "bytes \<Rightarrow> tr_clientConn \<Rightarrow> nat \<times> goerr option \<times> tr_clientConn" where
  "conn_write bs c =
     (case w_write bs (cout (trc_conn c)) of (n, e, w') \<Rightarrow>
        (n, e, c\<lparr>trc_conn := (trc_conn c)\<lparr>cout := w'\<rparr>\<rparr>))"

definition tr_writeClientFirstPayload :: "bytes \<Rightarrow> tr_clientConn \<Rightarrow> nat \<times> goerr option \<times> tr_clientConn" where
  "tr_writeClientFirstPayload payload c =
     (let headerSize = 56 + 2 + socksLikeRequestSizeInBytes (trc_accessAddr c) + 2 in
      case writeSOCKSLikeConnectionCommandRequest (trc_accessAddr c) of
        Inl e \<Rightarrow> (0, Some e, c)
      | Inr req \<Rightarrow>
          (case conn_write (trc_passwordHash c @ crlf @ req @ crlf @ payload) c of
             (cnt, err, c') \<Rightarrow> (cnt - headerSize, err, c')))"

definition tr_Write :: "bytes \<Rightarrow> tr_clientConn \<Rightarrow> nat \<times> goerr option \<times> tr_clientConn" where
  "tr_Write p c =
     (if \<not> trc_hasWriteFirstPayload c
      then tr_writeClientFirstPayload p (c\<lparr>trc_hasWriteFirstPayload := True\<rparr>)
      else conn_write p c)"

text \<open>The loop that waits for the first payload or the end of the source.\<close>

function first_payload :: "reader \<Rightarrow> bytes \<times> goerr option \<times> reader" where
  "first_payload r =
     (case rd_read BufSize r of (d, err, r') \<Rightarrow>
        (case err of
           Some e \<Rightarrow> (d, err, r')
         | None \<Rightarrow> if d \<noteq> [] then (d, None, r') else first_payload r'))"
  by pat_completeness auto
termination
  by (relation "measure rd_left") (auto simp: BufSize_def dest!: rd_read_progress [OF sym])

declare first_payload.simps [simp del]

text \<open>\<open>io.Copy\<close> into the connection; the fuel is more than the reads there can be.\<close>

definition tr_copy :: "reader \<Rightarrow> tr_clientConn \<Rightarrow> nat \<times> goerr option \<times> tr_clientConn" where
  "tr_copy r c =
     (case copy_loop rd_read (32 * 1024) (Suc (rd_left r)) r (cout (trc_conn c)) of
        None \<Rightarrow> (0, None, c)
      | Some (e, r', w') \<Rightarrow>
          (length (sent w') - length (sent (cout (trc_conn c))), e, c\<lparr>trc_conn := (trc_conn c)\<lparr>cout := w'\<rparr>\<rparr>))"

definition tr_ReadFrom :: "reader \<Rightarrow> tr_clientConn \<Rightarrow> nat \<times> goerr option \<times> tr_clientConn" where
  "tr_ReadFrom r c =
     (if \<not> trc_hasWriteFirstPayload c then
        (case first_payload r of (d, err, r') \<Rightarrow>
           if (case err of None \<Rightarrow> False | Some e \<Rightarrow> \<not> IsIoEof e)
           then (length d, err, c\<lparr>trc_hasWriteFirstPayload := True\<rparr>)
           else (case tr_writeClientFirstPayload d (c\<lparr>trc_hasWriteFirstPayload := True\<rparr>) of
               (n, Some e, c') \<Rightarrow> (length d, Some e, c')
             | (n, None, c') \<Rightarrow> (case tr_copy r' c' of (m, e, c'') \<Rightarrow> (m + length d, e, c''))))
      else tr_copy r c)"

section \<open>The server\<close>

text \<open>The loop over the first 58 bytes; \<open>k\<close> is the number of turns left.\<close>

fun hash_loop :: "bytes \<Rightarrow> nat \<Rightarrow> nat \<Rightarrow> bool \<Rightarrow> bufio \<Rightarrow> bool res \<times> bufio" where
  "hash_loop hash 0 i wasCR b = (Inr False, b)"
| "hash_loop hash (Suc k) i wasCR b =
     (case bufio_Peek (i + 1) b of
        (Inl err, b') \<Rightarrow> (if IsIoEof err then Inr False else Inl err, b')
      | (Inr hdr, b') \<Rightarrow>
          if i \<le> length hash \<and> wasCR \<and> hdr ! i = crlf ! 1 then (Inr False, b')
          else (let wasCR' = (if i \<le> length hash then hdr ! i = crlf ! 0 else wasCR) in
            if wasCR' \<and> hdr ! i = crlf ! 1 then (Inr (take (length hash) hdr = hash), b')
            else hash_loop hash k (i + 1) wasCR' b'))"

definition HasPasswordHash :: "bytes \<Rightarrow> bufio \<Rightarrow> bool res \<times> bufio" where
  "HasPasswordHash hash b = hash_loop hash (length hash + length crlf) 0 False b"

text \<open>\<open>ServeAuthenticated\<close> up to \<open>ForwardTCP\<close>: the address, and the stream left for the tunnel.\<close>

definition ServeAuthenticated :: "bytes \<Rightarrow> (reader, SocketAddress) io" where
  "ServeAuthenticated hash =
     io_bind (ReadFull (length hash + length crlf)) (\<lambda>_.
     io_bind Read1 (\<lambda>commandType.
     if commandType \<noteq> 1 then io_fail (ErrNew ''unsupported command type'')
     else io_bind ReadSOCKS5Address (\<lambda>accessAddr.
       io_bind (ReadFull 2) (\<lambda>_. io_ret accessAddr))))"

text \<open>
  What a connection leads to: a tunnel to an address, the fallback site or the NaiveProxy
  server, each with the stream it gets, or an error.
\<close>

datatype tr_decision = TrTunnel SocketAddress reader | TrFallback reader | TrNaive reader | TrFail goerr

definition tr_serve_authenticated :: "bytes \<Rightarrow> bufio \<Rightarrow> tr_decision" where
  "tr_serve_authenticated hash b =
     (case ServeAuthenticated hash (bufio_reader b) of
        (Inl e, r) \<Rightarrow> TrFail e
      | (Inr a, r) \<Rightarrow> TrTunnel a r)"

definition tr_serve :: "bytes \<Rightarrow> reader \<Rightarrow> tr_decision" where
  "tr_serve hash r =
     (case HasPasswordHash hash (NewBufioReader r) of
        (Inl e, b) \<Rightarrow> TrFail e
      | (Inr False, b) \<Rightarrow> TrFallback (bufio_reader b)
      | (Inr True, b) \<Rightarrow> tr_serve_authenticated hash b)"

text \<open>\<open>tr_np_carrier\<close>: what is not Trojan goes to the NaiveProxy server with the peeked bytes.\<close>

definition tr_np_serve :: "bytes \<Rightarrow> reader \<Rightarrow> tr_decision" where
  "tr_np_serve hash r =
     (case HasPasswordHash hash (NewBufioReader r) of
        (Inl e, b) \<Rightarrow> TrFail e
      | (Inr True, b) \<Rightarrow> tr_serve_authenticated hash b
      | (Inr False, b) \<Rightarrow> TrNaive (bufio_reader b))"

section \<open>Lemmas\<close>

lemma hash_loop_spec:
  assumes "wf_hash hash" "k + i = 58" "i \<le> 57 \<Longrightarrow> wasCR = (0 < i \<and> bf_data b ! (i - 1) = 13)"
    "i \<le> length (bf_data b)" "i = 58 \<Longrightarrow> \<not> (bf_data b ! 56 = 13 \<and> bf_data b ! 57 = 10)"
    "hash_loop hash k i wasCR b = (res, b')"
  shows "bf_data b' = bf_data b \<and> fin (bf_src b') = fin (bf_src b) \<and>
    (res = Inr True \<longleftrightarrow> take 58 (bf_data b) = hash @ crlf) \<and>
    (\<forall>e. res = Inl e \<longrightarrow> e = fin (bf_src b) \<and> \<not> IsIoEof e \<and> length (bf_data b) < 58)"
  using assms
proof (induction k arbitrary: i wasCR b)
  case 0
  have "take 58 (bf_data b) \<noteq> hash @ crlf"
  proof
    assume eq: "take 58 (bf_data b) = hash @ crlf"
    have "bf_data b ! 56 = (hash @ crlf) ! 56" "bf_data b ! 57 = (hash @ crlf) ! 57"
      by (simp_all add: eq [symmetric])
    with 0 show False by (simp add: wf_hash_def crlf_def nth_append)
  qed
  with 0 show ?case by auto
next
  case (Suc k)
  note hash = Suc.prems(1) and len = Suc.prems(2)
  have lh: "length hash = 56" and no13: "13 \<notin> set hash" using hash by (simp_all add: wf_hash_def)
  obtain pr b1 where pk: "bufio_Peek (i + 1) b = (pr, b1)" by (metis surj_pair)
  from bufio_Peek_spec [OF _ pk] len have data: "bf_data b1 = bf_data b" "fin (bf_src b1) = fin (bf_src b)"
    and pr: "pr = (if i + 1 \<le> length (bf_data b) then Inr (take (i + 1) (bf_data b)) else Inl (fin (bf_src b)))"
    by (simp_all add: BufSize_def)
  have no_eq: "take 58 (bf_data b) \<noteq> hash @ crlf" if "length (bf_data b) < 58"
  proof
    assume "take 58 (bf_data b) = hash @ crlf"
    then have "length (take 58 (bf_data b)) = 58" using lh by (simp add: crlf_def)
    with that show False by simp
  qed
  have nth: "bf_data b ! j = (hash @ crlf) ! j" if "take 58 (bf_data b) = hash @ crlf" "j < 58" for j
    using that by (metis nth_take)
  show ?case
  proof (cases "i + 1 \<le> length (bf_data b)")
    case False
    with pr pk data Suc.prems(6) len no_eq show ?thesis by (auto split: if_splits)
  next
    case True
    with pr have hdr: "pr = Inr (take (i + 1) (bf_data b))" by simp
    let ?d = "bf_data b"
    show ?thesis
    proof (cases "i \<le> 56")
      case le: True
      then have "i \<noteq> 57" by simp
      have wc: "wasCR = (0 < i \<and> ?d ! (i - 1) = 13)" using Suc.prems(3) le by simp
      show ?thesis
      proof (cases "wasCR \<and> ?d ! i = 10")
        case early: True
        have "take 58 ?d \<noteq> hash @ crlf"
        proof
          assume eq: "take 58 ?d = hash @ crlf"
          from early wc le have "0 < i" "?d ! (i - 1) = 13" by auto
          with nth [OF eq, of "i - 1"] le lh have i1: "i - 1 < length hash" and "(hash @ crlf) ! (i - 1) = 13" by simp_all
          then have "hash ! (i - 1) = 13" by (simp add: nth_append)
          with no13 i1 show False by (metis nth_mem)
        qed
        moreover have "res = Inr False" "b' = b1"
          using Suc.prems(6) pk hdr early le lh by (auto simp: crlf_def)
        ultimately show ?thesis using data by simp
      next
        case go: False
        define w where "w = (?d ! i = 13)"
        have "hash_loop hash k (i + 1) w b1 = (res, b')"
          using Suc.prems(6) pk hdr go le lh by (auto simp: crlf_def w_def Let_def split: if_splits)
        from Suc.IH [OF hash _ _ _ _ this] len True data \<open>i \<noteq> 57\<close> show ?thesis by (simp add: w_def)
      qed
    next
      case gt: False
      then have i57: "i = 57" "k = 0" using len by simp_all
      have wc: "wasCR = (?d ! 56 = 13)" using Suc.prems(3) i57 by simp
      show ?thesis
      proof (cases "wasCR \<and> ?d ! 57 = 10")
        case hit: True
        have split: "take 58 ?d = take 56 ?d @ [?d ! 56, ?d ! 57]"
          using True i57 by (simp add: take_Suc_conv_app_nth numeral_eq_Suc)
        have "res = Inr (take 56 ?d = hash)" "b' = b1"
          using Suc.prems(6) pk hdr hit i57 lh by (auto simp: crlf_def min_def)
        moreover have "take 56 ?d = hash \<longleftrightarrow> take 58 ?d = hash @ crlf"
          using split hit wc by (simp add: crlf_def)
        ultimately show ?thesis using data by simp
      next
        case miss: False
        have "take 58 ?d \<noteq> hash @ crlf"
        proof
          assume eq: "take 58 ?d = hash @ crlf"
          from nth [OF eq, of 56] nth [OF eq, of 57] lh have "?d ! 56 = 13" "?d ! 57 = 10"
            by (simp_all add: crlf_def nth_append)
          with miss wc show False by simp
        qed
        moreover have "res = Inr False" "b' = b1"
          using Suc.prems(6) pk hdr miss i57 lh by (auto simp: crlf_def)
        ultimately show ?thesis using data by simp
      qed
    qed
  qed
qed

lemma HasPasswordHash_spec:
  assumes "wf_hash hash" "HasPasswordHash hash b = (res, b')"
  shows "bf_data b' = bf_data b \<and> fin (bf_src b') = fin (bf_src b) \<and>
    (res = Inr True \<longleftrightarrow> take 58 (bf_data b) = hash @ crlf) \<and>
    (\<forall>e. res = Inl e \<longrightarrow> e = fin (bf_src b) \<and> \<not> IsIoEof e \<and> length (bf_data b) < 58)"
  by (rule hash_loop_spec [where hash = hash and k = 58 and i = 0 and wasCR = False])
     (use assms in \<open>simp_all add: HasPasswordHash_def wf_hash_def crlf_def\<close>)

lemma first_payload_spec:
  assumes "first_payload r = (d, e, r')"
  shows "contents r = d @ contents r' \<and> fin r' = fin r \<and> (\<forall>x. e = Some x \<longrightarrow> x = fin r \<and> contents r' = [])"
  using assms
proof (induction r arbitrary: d e r' rule: first_payload.induct)
  case (1 r)
  obtain d1 e1 r1 where rd: "rd_read BufSize r = (d1, e1, r1)" by (metis prod_cases3)
  note data = rd_read_data [OF rd]
  show ?case
  proof (cases "e1 = None \<and> d1 = []")
    case True
    then have "first_payload r1 = (d, e, r')" using 1(2) rd by (simp add: first_payload.simps [of r])
    moreover have "\<not> d1 \<noteq> []" using True by simp
    ultimately show ?thesis using 1(1) [OF rd [symmetric] refl _ \<open>\<not> d1 \<noteq> []\<close>] True data by simp
  next
    case False
    then have "d = d1" "e = e1" "r' = r1" using 1(2) rd by (auto simp: first_payload.simps [of r] split: option.splits)
    with data rd_read_error [of BufSize r d1 _ r1] rd show ?thesis by (auto simp: contents_def)
  qed
qed

lemma tr_copy_sent:
  assumes "wplan (cout (trc_conn c)) = []" "tr_copy r c = (n, e, c')"
  shows "sent (cout (trc_conn c')) = sent (cout (trc_conn c)) @ contents r \<and>
    e = (if fin r = EOF then None else Some (fin r))"
proof -
  obtain e1 r1 w1 where cp: "copy_loop rd_read (32 * 1024) (Suc (rd_left r)) r (cout (trc_conn c)) = Some (e1, r1, w1)"
    using tcp.copy_terminates [of "32 * 1024" r "Suc (rd_left r)" "cout (trc_conn c)"]
    by (auto simp del: copy_loop.simps)
  have "0 < (32 * 1024 :: nat)" by simp
  from tcp.copy_delivers [OF _ this assms(1) cp] have "sent w1 = sent (cout (trc_conn c)) @ contents r"
    "e1 = (if fin r = EOF then None else Some (fin r))" by simp_all
  moreover have "e = e1" "c' = c\<lparr>trc_conn := (trc_conn c)\<lparr>cout := w1\<rparr>\<rparr>"
    using cp assms(2) by (simp_all add: tr_copy_def del: copy_loop.simps)
  ultimately show ?thesis by simp
qed

text \<open>What the client sends for an application stream \<open>r\<close>: the Trojan header, then the bytes.\<close>

lemma tr_ReadFrom_sent:
  assumes "wplan (cout (trc_conn c)) = []" "\<not> trc_hasWriteFirstPayload c"
    "writeSOCKSLikeConnectionCommandRequest (trc_accessAddr c) = Inr req" "fin r = EOF"
    "tr_ReadFrom r c = (n, e, c')"
  shows "sent (cout (trc_conn c')) = sent (cout (trc_conn c)) @
      trc_passwordHash c @ crlf @ req @ crlf @ contents r \<and> e = None"
proof -
  obtain d err r1 where fp: "first_payload r = (d, err, r1)" by (metis prod_cases3)
  note fs = first_payload_spec [OF fp]
  have noerr: "\<not> (case err of None \<Rightarrow> False | Some e \<Rightarrow> \<not> IsIoEof e)"
    using fs assms(4) by (auto simp: IsIoEof_def split: option.splits)
  let ?first = "trc_passwordHash c @ crlf @ req @ crlf @ d"
  let ?c1 = "c\<lparr>trc_hasWriteFirstPayload := True,
    trc_conn := (trc_conn c)\<lparr>cout := (cout (trc_conn c))\<lparr>wout := wout (cout (trc_conn c)) @ [?first]\<rparr>\<rparr>\<rparr>"
  obtain m where wr: "tr_writeClientFirstPayload d (c\<lparr>trc_hasWriteFirstPayload := True\<rparr>) = (m, None, ?c1)"
    using assms(1,3) by (simp add: tr_writeClientFirstPayload_def conn_write_def Let_def)
  obtain k e2 c2 where cp: "tr_copy r1 ?c1 = (k, e2, c2)" by (metis prod_cases3)
  have "e = e2" "c' = c2" using assms(2,5) fp noerr wr cp by (simp_all add: tr_ReadFrom_def)
  moreover have "wplan (cout (trc_conn ?c1)) = []" using assms(1) by simp
  note sp = tr_copy_sent [OF this cp]
  ultimately show ?thesis using sp fs assms(4) by (simp add: sent_def)
qed

lemma ServeAuthenticated_request:
  assumes "wf_hash hash" "wire_addr a" "writeSOCKSLikeConnectionCommandRequest a = Inr req"
    "contents r = hash @ crlf @ req @ crlf @ rest"
  shows "\<exists>r'. ServeAuthenticated hash r = (Inr a, r') \<and> contents r' = rest \<and> fin r' = fin r"
proof -
  from assms(3) obtain bs where bs: "WriteSOCKSLikeAddr a = Inr bs" "req = 1 # bs"
    by (auto simp: writeSOCKSLikeConnectionCommandRequest_def split: sum.splits)
  have lh: "length hash = 56" using assms(1) by (simp add: wf_hash_def)
  define r1 where "r1 = rd_adv 58 r"
  define r2 where "r2 = rd_adv 1 r1"
  have c1: "contents r1 = 1 # bs @ crlf @ rest" using assms(4) bs lh by (simp add: r1_def crlf_def)
  then have c2: "contents r2 = bs @ crlf @ rest" by (simp add: r2_def)
  have ff: "fin r2 = fin r" by (simp add: r2_def r1_def)
  from Read_Write_addr [OF assms(2) bs(1) c2] obtain r3 where
    r3: "ReadSOCKS5Address r2 = (Inr a, r3)" "contents r3 = crlf @ rest" "fin r3 = fin r2" by blast
  have s1: "ReadFull 58 r = (Inr (take 58 (contents r)), r1)"
    using assms(4) lh by (simp add: r1_def crlf_def)
  have s2: "Read1 r1 = (Inr 1, r2)" using c1 by (simp add: r2_def)
  have s4: "ReadFull 2 r3 = (Inr (take 2 (contents r3)), rd_adv 2 r3)" using r3 by (simp add: crlf_def)
  have "contents (rd_adv 2 r3) = rest" "fin (rd_adv 2 r3) = fin r" using r3 ff by (simp_all add: crlf_def)
  moreover have "ServeAuthenticated hash r = (Inr a, rd_adv 2 r3)"
    using s1 s2 r3 s4 lh by (simp add: ServeAuthenticated_def io_bind_def crlf_def)
  ultimately show ?thesis by blast
qed

lemma bf_data_NewBufioReader [simp]: "bf_data (NewBufioReader r) = contents r"
  by (simp add: bf_data_def NewBufioReader_def)

lemma bf_src_NewBufioReader [simp]: "bf_src (NewBufioReader r) = r"
  by (simp add: NewBufioReader_def)

lemma fin_bufio_reader [simp]: "fin (bufio_reader b) = fin (bf_src b)"
  by (simp add: bufio_reader_def preload_reader_def NewBytesReadPreloadConn_def)

text \<open>
  On a stream of fewer than 58 bytes the loop answers no when it has seen the end of a line or of the
  stream; otherwise it fails with the error that ends the wait.
\<close>

definition line_end_at :: "bytes \<Rightarrow> nat \<Rightarrow> bool" where
  "line_end_at bs j \<longleftrightarrow> 0 < j \<and> j < length bs \<and> bs ! (j - 1) = 13 \<and> bs ! j = 10"

lemma line_end_at_10: "10 \<notin> set bs \<Longrightarrow> \<not> line_end_at bs j"
  by (metis line_end_at_def nth_mem)

lemma hash_loop_short:
  assumes "length hash = 56" "k + i = 58" "i \<le> length (bf_data b)" "length (bf_data b) < 58"
    "wasCR = (0 < i \<and> bf_data b ! (i - 1) = 13)"
  shows "fst (hash_loop hash k i wasCR b) =
    (if (\<exists>j\<ge>i. line_end_at (bf_data b) j) \<or> IsIoEof (fin (bf_src b)) then Inr False else Inl (fin (bf_src b)))"
  using assms
proof (induction k arbitrary: i wasCR b)
  case 0
  then show ?case by simp
next
  case (Suc k)
  obtain pr b1 where pk: "bufio_Peek (i + 1) b = (pr, b1)" by (metis surj_pair)
  from bufio_Peek_spec [OF _ pk] Suc.prems(2) have data: "bf_data b1 = bf_data b" "fin (bf_src b1) = fin (bf_src b)"
    and pr: "pr = (if i + 1 \<le> length (bf_data b) then Inr (take (i + 1) (bf_data b)) else Inl (fin (bf_src b)))"
    by (simp_all add: BufSize_def)
  show ?case
  proof (cases "i + 1 \<le> length (bf_data b)")
    case False
    with pr pk show ?thesis by (auto simp: line_end_at_def)
  next
    case True
    then have le: "i \<le> 56" using Suc.prems(4) by simp
    show ?thesis
    proof (cases "wasCR \<and> bf_data b ! i = 10")
      case early: True
      with True Suc.prems(5) have "line_end_at (bf_data b) i" by (simp add: line_end_at_def)
      moreover have "fst (hash_loop hash (Suc k) i wasCR b) = Inr False"
        using pk pr True early le Suc.prems(1) by (simp add: crlf_def)
      ultimately show ?thesis by auto
    next
      case go: False
      then have "hash_loop hash (Suc k) i wasCR b = hash_loop hash k (i + 1) (bf_data b ! i = 13) b1"
        using pk pr True le Suc.prems(1) by (auto simp: crlf_def Let_def)
      moreover have "(\<exists>j\<ge>i. line_end_at (bf_data b) j) \<longleftrightarrow> (\<exists>j\<ge>i + 1. line_end_at (bf_data b) j)"
        using go Suc.prems(5) by (metis Suc_eq_plus1 le_Suc_eq le_antisym line_end_at_def not_less_eq_eq)
      ultimately show ?thesis using Suc.IH [of "i + 1" b1 "bf_data b ! i = 13"] Suc.prems True data by simp
    qed
  qed
qed

lemma HasPasswordHash_answers:
  assumes "wf_hash hash" "HasPasswordHash hash (NewBufioReader s) = (res, b)" "take 58 (contents s) \<noteq> hash @ crlf"
  shows "res = (if 58 \<le> length (contents s) \<or> (\<exists>j. line_end_at (contents s) j) \<or> IsIoEof (fin s) then Inr False else Inl (fin s))"
proof (cases "58 \<le> length (contents s)")
  case True
  with HasPasswordHash_spec [OF assms(1,2)] assms(3) show ?thesis by (cases res) auto
next
  case False
  with hash_loop_short [of hash 58 0 "NewBufioReader s" False] assms(1,2) show ?thesis
    by (simp add: HasPasswordHash_def crlf_def wf_hash_def)
qed

text \<open>The bytes of a client arrive in the tunnel of the server.\<close>

lemma tr_request_arrives:
  assumes "wf_hash (trc_passwordHash c)" "wire_addr (trc_accessAddr c)" "\<not> trc_hasWriteFirstPayload c"
    "wplan (cout (trc_conn c)) = []" "wout (cout (trc_conn c)) = []" "fin r = EOF"
    "tr_ReadFrom r c = (n, e, c')" "contents s = sent (cout (trc_conn c'))"
  shows "e = None \<and> (\<exists>s'. tr_serve (trc_passwordHash c) s = TrTunnel (trc_accessAddr c) s' \<and>
    tr_np_serve (trc_passwordHash c) s = TrTunnel (trc_accessAddr c) s' \<and> contents s' = contents r)"
proof -
  obtain req where req: "writeSOCKSLikeConnectionCommandRequest (trc_accessAddr c) = Inr req"
    using Write_wf [OF wire_addr_wf [OF assms(2)]] by (auto simp: writeSOCKSLikeConnectionCommandRequest_def)
  let ?h = "trc_passwordHash c"
  from tr_ReadFrom_sent [OF assms(4,3) req assms(6,7)] assms(5,8)
  have c: "contents s = ?h @ crlf @ req @ crlf @ contents r" and e: "e = None" by (simp_all add: sent_def)
  obtain res b where hp: "HasPasswordHash ?h (NewBufioReader s) = (res, b)" by (metis surj_pair)
  from HasPasswordHash_spec [OF assms(1) hp] c assms(1)
  have res: "res = Inr True" and data: "bf_data b = contents s" by (simp_all add: wf_hash_def crlf_def)
  with c have "contents (bufio_reader b) = ?h @ crlf @ req @ crlf @ contents r" by simp
  from ServeAuthenticated_request [OF assms(1,2) req this] e hp res show ?thesis
    by (auto simp: tr_serve_def tr_np_serve_def tr_serve_authenticated_def)
qed

section \<open>Properties\<close>

definition sample_hash :: bytes where "sample_hash = replicate 56 97"

definition sample_tr_client :: tr_clientConn where
  "sample_tr_client = tr_newClientConn (mk_conn (mk_reader [])) (NewSocketAddressByDomain ''ab'' 443) sample_hash"

lemma sample_hash_wf [simp]: "wf_hash sample_hash"
  by (simp add: wf_hash_def sample_hash_def)

text \<open>
  A tunnel request arrives: what \<open>clientConn.ReadFrom\<close> sends for an application stream is
  recognised by the server of the same password, however the network cuts it, and leads to a
  tunnel to the client's address that carries exactly the application's bytes. This holds on
  the Trojan port and on the port shared with NaiveProxy.
\<close>

theorem tr_request_delivered:
  assumes "wf_hash (trc_passwordHash c)" "wire_addr (trc_accessAddr c)" "\<not> trc_hasWriteFirstPayload c"
    "wplan (cout (trc_conn c)) = []" "wout (cout (trc_conn c)) = []" "fin r = EOF"
    "tr_ReadFrom r c = (n, e, c')" "contents s = sent (cout (trc_conn c'))"
  shows "e = None \<and> (\<exists>s'. tr_serve (trc_passwordHash c) s = TrTunnel (trc_accessAddr c) s' \<and>
    tr_np_serve (trc_passwordHash c) s = TrTunnel (trc_accessAddr c) s' \<and> contents s' = contents r)"
  using assms by (rule tr_request_arrives)

theorem tr_request_delivered_witness:
  "\<exists>s'. tr_serve sample_hash (mk_reader [sent (cout (trc_conn (snd (snd (tr_ReadFrom (mk_reader [[1, 2], [3]]) sample_tr_client)))))])
     = TrTunnel (NewSocketAddressByDomain ''ab'' 443) s' \<and> contents s' = [1, 2, 3]"
proof -
  obtain n e c' where t: "tr_ReadFrom (mk_reader [[1, 2], [3]]) sample_tr_client = (n, e, c')" by (metis prod_cases3)
  have "e = None \<and> (\<exists>s'. tr_serve (trc_passwordHash sample_tr_client) (mk_reader [sent (cout (trc_conn c'))])
      = TrTunnel (trc_accessAddr sample_tr_client) s' \<and>
    tr_np_serve (trc_passwordHash sample_tr_client) (mk_reader [sent (cout (trc_conn c'))])
      = TrTunnel (trc_accessAddr sample_tr_client) s' \<and> contents s' = contents (mk_reader [[1, 2], [3]]))"
    by (rule tr_request_delivered [OF _ _ _ _ _ _ t])
       (simp_all add: sample_tr_client_def tr_newClientConn_def mk_conn_def mk_reader_def contents_def wire_addr_def)
  then show ?thesis using t by (auto simp: sample_tr_client_def tr_newClientConn_def)
qed

text \<open>
  C14. The Trojan port never tunnels for a stranger and never disturbs one: a tunnel is opened
  only for a stream that starts with the password's hash and CRLF. Every other stream reaches
  the fallback site, or the NaiveProxy server on the shared port, with all its bytes in place,
  as soon as it has 58 bytes, or has ended a line with CRLF before that, or has ended. A shorter
  stream that stays open is waited for, and fails with the error that ends the wait.
\<close>

theorem tr_probe_transparent:
  assumes "wf_hash hash"
  shows "(\<forall>a s'. tr_serve hash s = TrTunnel a s' \<or> tr_np_serve hash s = TrTunnel a s' \<longrightarrow>
        take 58 (contents s) = hash @ crlf) \<and>
    (\<forall>s'. tr_serve hash s = TrFallback s' \<or> tr_np_serve hash s = TrNaive s' \<longrightarrow>
        contents s' = contents s \<and> fin s' = fin s \<and> take 58 (contents s) \<noteq> hash @ crlf) \<and>
    (take 58 (contents s) \<noteq> hash @ crlf \<longrightarrow>
        (if 58 \<le> length (contents s) \<or> (\<exists>j. line_end_at (contents s) j) \<or> IsIoEof (fin s)
         then \<exists>s'. tr_serve hash s = TrFallback s' \<and> tr_np_serve hash s = TrNaive s'
         else tr_serve hash s = TrFail (fin s) \<and> tr_np_serve hash s = TrFail (fin s)))"
proof -
  obtain res b where hp: "HasPasswordHash hash (NewBufioReader s) = (res, b)" by (metis surj_pair)
  note spec = HasPasswordHash_spec [OF assms hp] and ans = HasPasswordHash_answers [OF assms hp]
  show ?thesis
  proof (cases res)
    case (Inl e)
    with spec ans hp show ?thesis by (auto simp: tr_serve_def tr_np_serve_def split: if_splits)
  next
    case (Inr m)
    with spec ans hp show ?thesis
      by (cases m) (auto simp: tr_serve_def tr_np_serve_def tr_serve_authenticated_def
          split: sum.splits prod.splits if_splits)
  qed
qed

text \<open>A short request that has ended, and one that ends a line.\<close>

theorem tr_probe_transparent_witness:
  "(\<exists>s'. tr_np_serve sample_hash (mk_reader [[71, 72]]) = TrNaive s' \<and> contents s' = [71, 72]) \<and>
   (\<exists>s'. tr_serve sample_hash \<lparr>segs = [[71, 13, 10]], fin = ErrNew ''i/o timeout'', glue = False\<rparr> = TrFallback s' \<and>
      contents s' = [71, 13, 10])"
proof
  let ?s = "mk_reader [[71, 72]]" and ?t = "\<lparr>segs = [[71, 13, 10]], fin = ErrNew ''i/o timeout'', glue = False\<rparr> :: reader"
  note s = tr_probe_transparent [OF sample_hash_wf, of ?s] and t = tr_probe_transparent [OF sample_hash_wf, of ?t]
  have c: "contents ?s = [71, 72]" "IsIoEof (fin ?s)" by (simp_all add: mk_reader_def contents_def IsIoEof_def)
  have l: "length (sample_hash @ crlf) = 58" using sample_hash_wf by (simp add: wf_hash_def crlf_def)
  have short: "take 58 bs \<noteq> sample_hash @ crlf" if "length bs < 58" for bs
  proof
    assume eq: "take 58 bs = sample_hash @ crlf"
    have "length (take 58 bs) = 58" unfolding eq by (rule l)
    with that show False by simp
  qed
  have "take 58 (contents ?s) \<noteq> sample_hash @ crlf" by (rule short) (simp add: c)
  with s [THEN conjunct2, THEN conjunct2] c(2) obtain s' where n: "tr_np_serve sample_hash ?s = TrNaive s'" by metis
  with s [THEN conjunct2, THEN conjunct1] have "contents s' = contents ?s" by blast
  with n c(1) show "\<exists>s'. tr_np_serve sample_hash ?s = TrNaive s' \<and> contents s' = [71, 72]" by metis
  have d: "contents ?t = [71, 13, 10]" by (simp add: contents_def)
  then have "line_end_at (contents ?t) 2" by (simp add: line_end_at_def)
  moreover have "take 58 (contents ?t) \<noteq> sample_hash @ crlf" by (rule short) (simp add: d)
  ultimately obtain t' where "tr_serve sample_hash ?t = TrFallback t'" using t [THEN conjunct2, THEN conjunct2] by metis
  with t [THEN conjunct2, THEN conjunct1] d show "\<exists>s'. tr_serve sample_hash ?t = TrFallback s' \<and> contents s' = [71, 13, 10]"
    by metis
qed

text \<open>
  The server waits for the bytes of a client that cannot be a Trojan client: a stream of
  fewer than 58 bytes without a line feed that stays open is not handed to the site, whatever
  its bytes are, but fails with the error that ends it (a time-out, for instance). The comment
  on \<open>HasPasswordHash\<close> promises an answer at the first byte that cannot occur in a hash.
\<close>

theorem tr_probe_waits:
  assumes "length hash = 56" "length (contents s) < 58" "10 \<notin> set (contents s)" "\<not> IsIoEof (fin s)"
  shows "tr_serve hash s = TrFail (fin s) \<and> tr_np_serve hash s = TrFail (fin s)"
proof -
  obtain res b where hp: "HasPasswordHash hash (NewBufioReader s) = (res, b)" by (metis surj_pair)
  have "fst (hash_loop hash 58 0 False (NewBufioReader s)) = Inl (fin s)"
    using hash_loop_short [of hash 58 0 "NewBufioReader s" False] assms line_end_at_10 by simp
  with hp assms(1) have "res = Inl (fin s)" by (simp add: HasPasswordHash_def crlf_def)
  with hp show ?thesis by (simp add: tr_serve_def tr_np_serve_def)
qed

theorem tr_probe_waits_witness:
  "tr_serve sample_hash \<lparr>segs = [[120, 120]], fin = ErrNew ''i/o timeout'', glue = False\<rparr> = TrFail (ErrNew ''i/o timeout'')"
  using tr_probe_waits [of sample_hash "\<lparr>segs = [[120, 120]], fin = ErrNew ''i/o timeout'', glue = False\<rparr>"]
  by (simp add: sample_hash_def contents_def IsIoEof_def)

end
