(* ===== verification/RuleTrie.thy ===== *)
theory RuleTrie
  imports GoStd
begin

text \<open>
  The domain matcher of \<open>conf/rule/domain_full_suffix_matcher.go\<close>: a trie of domain
  labels, from the top-level label down, whose nodes say whether a full or a suffix rule
  ends there. The main result is that a matcher built from any list of rules accepts a
  domain exactly when one of the rules covers it; the interface locale \<open>rule_store\<close> states
  what such a store of rules promises and is used again for the regular expressions.
\<close>

section \<open>Stores of rules\<close>

text \<open>
  A store is built by adding rules one at a time. What it promises: an empty store accepts
  nothing, and adding a rule adds exactly what the rule covers.
\<close>

locale rule_store =
  fixes emp :: 's
    and add :: "'r \<Rightarrow> 's \<Rightarrow> 's"
    and accepts :: "'s \<Rightarrow> 'q \<Rightarrow> bool"
    and covers :: "'r \<Rightarrow> 'q \<Rightarrow> bool"
    and query :: "'q \<Rightarrow> bool"
  assumes accepts_emp: "query q \<Longrightarrow> \<not> accepts emp q"
    and accepts_add: "query q \<Longrightarrow> accepts (add r s) q \<longleftrightarrow> accepts s q \<or> covers r q"
begin

lemma accepts_fold:
  "query q \<Longrightarrow> accepts (fold add rs s) q \<longleftrightarrow> accepts s q \<or> (\<exists>r \<in> set rs. covers r q)"
  by (induction rs arbitrary: s) (auto simp: accepts_add)

lemma accepts_all:
  "query q \<Longrightarrow> accepts (fold add rs emp) q \<longleftrightarrow> (\<exists>r \<in> set rs. covers r q)"
  by (simp add: accepts_fold accepts_emp)

lemma accepts_mono:
  "query q \<Longrightarrow> accepts s q \<Longrightarrow> accepts (fold add rs s) q"
  by (simp add: accepts_fold)

lemma accepts_order:
  "query q \<Longrightarrow> set rs = set rs' \<Longrightarrow> accepts (fold add rs emp) q = accepts (fold add rs' emp) q"
  by (simp add: accepts_all)

end

section \<open>The trie\<close>

datatype match = none | full | suffix

text \<open>
  A node holds its match kind and its children; \<open>None\<close> is the nil map of a node that was
  made as a leaf.
\<close>

datatype domainSegments =
  Segments (seg_match: match) (seg_matcher: "(string \<Rightarrow> domainSegments option) option")

type_synonym domainFullAndSuffixMatcher = "string \<Rightarrow> domainSegments option"

text \<open>A rule kind never weakens a node: kinds are ordered by strength.\<close>

instantiation match :: linorder
begin

definition rank_match :: "match \<Rightarrow> nat" where
  "rank_match m = (case m of none \<Rightarrow> 0 | full \<Rightarrow> 1 | suffix \<Rightarrow> 2)"

definition less_eq_match :: "match \<Rightarrow> match \<Rightarrow> bool" where
  "less_eq_match a b = (rank_match a \<le> rank_match b)"

definition less_match :: "match \<Rightarrow> match \<Rightarrow> bool" where
  "less_match a b = (rank_match a < rank_match b)"

instance
  by standard
     (auto simp: less_eq_match_def less_match_def rank_match_def split: match.splits)

end

definition newDomainFullAndSuffixMatcher :: domainFullAndSuffixMatcher where
  "newDomainFullAndSuffixMatcher = Map.empty"

definition trimDomainRootDot :: "string \<Rightarrow> string" where
  "trimDomainRootDot domain = TrimSuffix domain ''.''"

text \<open>
  The loop of \<open>addDomainFullOrSuffixRule\<close> over the labels from the last one down; the final
  equation but one is the code after the loop, for \<open>segments[0]\<close>.
\<close>

fun add_segments :: "domainFullAndSuffixMatcher \<Rightarrow> string list \<Rightarrow> match \<Rightarrow> domainFullAndSuffixMatcher"
where
  "add_segments m [] ty = m"
| "add_segments m [seg] ty =
     (case m seg of
        None \<Rightarrow> m(seg \<mapsto> Segments ty None)
      | Some nx \<Rightarrow> if seg_match nx \<noteq> suffix then m(seg \<mapsto> Segments ty (seg_matcher nx)) else m)"
| "add_segments m (seg # segs) ty =
     (case m seg of
        None \<Rightarrow> m(seg \<mapsto> Segments none (Some (add_segments Map.empty segs ty)))
      | Some nx \<Rightarrow>
          if seg_match nx = suffix then m
          else m(seg \<mapsto> Segments (seg_match nx)
            (Some (add_segments (case seg_matcher nx of None \<Rightarrow> Map.empty | Some d \<Rightarrow> d) segs ty))))"

definition addDomainFullOrSuffixRule ::
  "domainFullAndSuffixMatcher \<Rightarrow> string \<Rightarrow> match \<Rightarrow> domainFullAndSuffixMatcher" where
  "addDomainFullOrSuffixRule matcher domain matchType =
     (let segments = Split (ToLower (trimDomainRootDot domain)) CHR ''.''
      in add_segments matcher (rev segments) matchType)"

definition addDomainFullRule :: "domainFullAndSuffixMatcher \<Rightarrow> string \<Rightarrow> domainFullAndSuffixMatcher" where
  "addDomainFullRule matcher domain = addDomainFullOrSuffixRule matcher domain full"

definition addDomainSuffixRule :: "domainFullAndSuffixMatcher \<Rightarrow> string \<Rightarrow> domainFullAndSuffixMatcher" where
  "addDomainSuffixRule matcher domain = addDomainFullOrSuffixRule matcher domain suffix"

text \<open>
  The loop of \<open>match\<close>: the children of the node reached (\<open>None\<close> for a nil map, in which
  every lookup misses), the node reached, and the labels left.
\<close>

fun match_segments :: "domainFullAndSuffixMatcher option \<Rightarrow> domainSegments option \<Rightarrow> string list \<Rightarrow> bool res"
where
  "match_segments m loopedSegment [] =
     (case loopedSegment of
        None \<Rightarrow> Inl (Panic ''domain can't be empty'')
      | Some s \<Rightarrow> Inr (seg_match s = full))"
| "match_segments m loopedSegment (seg # segs) =
     (case (case m of None \<Rightarrow> None | Some f \<Rightarrow> f seg) of
        None \<Rightarrow> Inr False
      | Some nx \<Rightarrow>
          if seg_match nx = suffix then Inr True
          else match_segments (seg_matcher nx) (Some nx) segs)"

definition match_domain :: "domainFullAndSuffixMatcher \<Rightarrow> string \<Rightarrow> bool res" where
  "match_domain matcher domain =
     match_segments (Some matcher) None (rev (Split (ToLower domain) CHR ''.''))"

section \<open>What the trie accepts\<close>

text \<open>The trie as a set of label sequences (top-level label first).\<close>

fun accepts :: "domainFullAndSuffixMatcher \<Rightarrow> string list \<Rightarrow> bool" where
  "accepts m [] = False"
| "accepts m (seg # segs) =
     (case m seg of
        None \<Rightarrow> False
      | Some nx \<Rightarrow>
          if seg_match nx = suffix then True
          else if segs = [] then seg_match nx = full
          else (case seg_matcher nx of None \<Rightarrow> False | Some d \<Rightarrow> accepts d segs))"

fun seg_covers :: "string list \<times> match \<Rightarrow> string list \<Rightarrow> bool" where
  "seg_covers (rs, none) ds = False"
| "seg_covers (rs, full) ds = (ds = rs)"
| "seg_covers (rs, suffix) ds = (take (length rs) ds = rs)"

lemma match_segments_None [simp]: "segs \<noteq> [] \<Longrightarrow> match_segments None l segs = Inr False"
  by (cases segs) auto

lemma match_segments_accepts:
  "segs \<noteq> [] \<Longrightarrow> match_segments (Some m) l segs = Inr (accepts m segs)"
proof (induction segs arbitrary: m l)
  case Nil
  then show ?case by simp
next
  case (Cons seg segs)
  show ?case
  proof (cases "segs = []")
    case True
    then show ?thesis by (auto split: option.splits)
  next
    case False
    then show ?thesis
      by (cases "m seg"; cases "seg_matcher (the (m seg))") (auto simp: Cons.IH)
  qed
qed

lemma accepts_add_segments:
  "rs \<noteq> [] \<Longrightarrow> ty \<noteq> none \<Longrightarrow>
   accepts (add_segments m rs ty) ds \<longleftrightarrow> accepts m ds \<or> seg_covers (rs, ty) ds"
proof (induction m rs ty arbitrary: ds rule: add_segments.induct)
  case (1 m ty)
  then show ?case by simp
next
  case (2 m seg ty)
  then show ?case
    by (cases ds; cases ty) (auto split: option.splits)
next
  case (3 m seg v vs ty)
  show ?case
  proof (cases ds)
    case Nil
    then show ?thesis using 3(4) by (cases ty) auto
  next
    case ds: (Cons d ds')
    show ?thesis
    proof (cases "m seg")
      case None
      with 3(1) [OF None, of ds'] 3(4) ds show ?thesis
        by (cases ty; cases ds') auto
    next
      case (Some nx)
      with 3(2) [OF Some, of ds'] 3(4) ds show ?thesis
        by (cases ty; cases ds'; cases "seg_matcher nx") auto
    qed
  qed
qed

section \<open>Rules on domains\<close>

datatype domain_rule = FullRule string | SuffixRule string

fun add_domain_rule :: "domain_rule \<Rightarrow> domainFullAndSuffixMatcher \<Rightarrow> domainFullAndSuffixMatcher" where
  "add_domain_rule (FullRule d) m = addDomainFullRule m d"
| "add_domain_rule (SuffixRule d) m = addDomainSuffixRule m d"

text \<open>
  The specification, on the text of the domains: a full rule covers its own domain, a
  suffix rule also every domain that ends in a dot and its own; letter case does not
  matter, nor does a root dot at the end of the rule.
\<close>

fun domain_covers :: "domain_rule \<Rightarrow> string \<Rightarrow> bool" where
  "domain_covers (FullRule r) d = (ToLower d = ToLower (trimDomainRootDot r))"
| "domain_covers (SuffixRule r) d =
     (ToLower d = ToLower (trimDomainRootDot r) \<or>
      HasSuffix (ToLower d) (CHR ''.'' # ToLower (trimDomainRootDot r)))"

lemma Split_append: "Split (s @ c # t) c = Split s c @ Split t c"
  by (induction s) (auto split: list.splits)

fun Join :: "string list \<Rightarrow> char \<Rightarrow> string" where
  "Join [] c = []"
| "Join [x] c = x"
| "Join (x # y # ys) c = x @ c # Join (y # ys) c"

lemma Join_Cons: "xs \<noteq> [] \<Longrightarrow> Join (x # xs) c = x @ c # Join xs c"
  by (cases xs) auto

lemma Join_append: "xs \<noteq> [] \<Longrightarrow> ys \<noteq> [] \<Longrightarrow> Join (xs @ ys) c = Join xs c @ c # Join ys c"
  by (induction xs c rule: Join.induct) (auto simp: Join_Cons)

lemma Join_Split [simp]: "Join (Split s c) c = s"
proof (induction s)
  case Nil
  then show ?case by simp
next
  case (Cons x s)
  obtain y ys where y: "Split s c = y # ys" by (cases "Split s c") auto
  show ?case
  proof (cases "x = c")
    case True
    with Cons y show ?thesis by (simp add: Join_Cons)
  next
    case False
    with Cons y show ?thesis by (cases ys) (auto simp: Join_Cons)
  qed
qed

lemma Split_inj: "Split s c = Split t c \<longleftrightarrow> s = t"
  by (metis Join_Split)

lemma HasSuffix_iff: "HasSuffix s t \<longleftrightarrow> (\<exists>p. s = p @ t)"
proof
  assume "HasSuffix s t"
  then show "\<exists>p. s = p @ t"
    unfolding HasSuffix_def by (metis append_take_drop_id)
next
  assume "\<exists>p. s = p @ t"
  then show "HasSuffix s t" by (auto simp: HasSuffix_def)
qed

lemma Split_suffix:
  "(\<exists>p. Split s c = p @ Split t c) \<longleftrightarrow> s = t \<or> HasSuffix s (c # t)"
proof
  assume "\<exists>p. Split s c = p @ Split t c"
  then obtain p where p: "Split s c = p @ Split t c" by blast
  show "s = t \<or> HasSuffix s (c # t)"
  proof (cases "p = []")
    case True
    with p show ?thesis by (simp add: Split_inj)
  next
    case False
    from p have "Join (Split s c) c = Join (p @ Split t c) c" by simp
    with False have "s = Join p c @ c # t" by (simp add: Join_append)
    then show ?thesis by (auto simp: HasSuffix_iff)
  qed
next
  assume "s = t \<or> HasSuffix s (c # t)"
  then show "\<exists>p. Split s c = p @ Split t c"
    by (auto simp: HasSuffix_iff Split_append intro: exI [of _ "[]"])
qed

lemma take_rev_prefix: "take (length ys) (rev xs) = rev ys' \<and> length ys = length ys'
    \<Longrightarrow> \<exists>p. xs = p @ ys'"
  by (metis append_take_drop_id rev_append rev_rev_ident)

lemma rev_prefix_iff: "take (length ys) (rev xs) = rev ys \<longleftrightarrow> (\<exists>p. xs = p @ ys)"
proof
  assume "take (length ys) (rev xs) = rev ys"
  then show "\<exists>p. xs = p @ ys" using take_rev_prefix [of ys xs ys] by simp
next
  assume "\<exists>p. xs = p @ ys"
  then show "take (length ys) (rev xs) = rev ys" by auto
qed

lemma match_domain_accepts:
  "match_domain m d = Inr (accepts m (rev (Split (ToLower d) CHR ''.'')))"
  by (simp add: match_domain_def match_segments_accepts)

lemma match_domain_add:
  "match_domain (add_domain_rule r m) d =
     Inr (match_domain m d = Inr True \<or> domain_covers r d)"
proof -
  have "Split (ToLower d) CHR ''.'' = Split x CHR ''.'' \<longleftrightarrow> ToLower d = x" for x
    by (rule Split_inj)
  then show ?thesis
    by (cases r) (simp_all add: match_domain_accepts addDomainFullRule_def addDomainSuffixRule_def
        addDomainFullOrSuffixRule_def Let_def accepts_add_segments rev_prefix_iff Split_suffix)
qed

lemma match_domain_empty: "match_domain newDomainFullAndSuffixMatcher d = Inr False"
proof -
  obtain x xs where "rev (Split (ToLower d) CHR ''.'') = x # xs"
    by (cases "rev (Split (ToLower d) CHR ''.'')") auto
  then show ?thesis by (simp add: match_domain_def newDomainFullAndSuffixMatcher_def)
qed

interpretation trie: rule_store newDomainFullAndSuffixMatcher add_domain_rule
  "\<lambda>m d. match_domain m d = Inr True" domain_covers "\<lambda>_. True"
  by unfold_locales (simp_all add: match_domain_empty match_domain_add)

lemma match_domain_total: "\<exists>b. match_domain m d = Inr b"
  by (simp add: match_domain_accepts)

section \<open>Properties\<close>

text \<open>
  C32. A domain matcher built from any list of full and suffix rules accepts a domain exactly
  when one of the rules covers it, whatever the order of the rules, their letter case, root
  dots and overlaps; the panic of \<open>match\<close> is never reached.
\<close>

theorem domain_matcher_correct:
  "match_domain (fold add_domain_rule rs newDomainFullAndSuffixMatcher) d =
     Inr (\<exists>r \<in> set rs. domain_covers r d)"
  using trie.accepts_all [where q = d and rs = rs] match_domain_total [of "fold add_domain_rule rs newDomainFullAndSuffixMatcher" d]
  by auto

text \<open>
  Adding rules to a matcher never makes it reject a domain it accepted: in particular a
  full rule under or on a suffix rule does not weaken it.
\<close>

theorem domain_matcher_monotone:
  assumes "match_domain m d = Inr True"
  shows "match_domain (fold add_domain_rule rs m) d = Inr True"
  using trie.accepts_mono [OF _ assms, of rs] by simp

theorem domain_matcher_monotone_witness:
  "match_domain (fold add_domain_rule [FullRule ''a.b''] (addDomainSuffixRule Map.empty ''b'')) ''x.b'' = Inr True"
proof (rule domain_matcher_monotone)
  show "match_domain (addDomainSuffixRule Map.empty ''b'') ''x.b'' = Inr True"
    by (simp add: match_domain_def addDomainSuffixRule_def addDomainFullOrSuffixRule_def
        trimDomainRootDot_def TrimSuffix_def HasSuffix_def ToLower_def ascii_lower_def is_upper_def)
qed

end
