(* ===== verification/RuleMatcher.thy ===== *)
theory RuleMatcher
  imports RuleTrie
begin

text \<open>
  The rule matcher of \<open>conf/rule/matcher.go\<close> and the rule database reader of
  \<open>domain_ip_set_rules_db_store.go\<close>. Three things are not under \<open>src/\<close> and are arguments:
  the regular expression engine, the prefix table (\<open>bart.Fast\<close>) and the rows the SQLite
  database returns for a tag. What the code relies on of the prefix table is the interface
  \<open>rule_store\<close>, with a prefix covering the addresses it contains.
\<close>

section \<open>Code outside the repository\<close>

record ('re, 'ps) rule_env =
  re_Compile :: "string \<Rightarrow> 're res"
  re_MatchString :: "'re \<Rightarrow> string \<Rightarrow> bool"
  re_QuoteMeta :: "string \<Rightarrow> string"
  ps_new :: 'ps
  ps_Insert :: "prefix \<Rightarrow> 'ps \<Rightarrow> 'ps"
  ps_Contains :: "'ps \<Rightarrow> addr \<Rightarrow> bool"

text \<open>The result of a query: the rows in order, each with the outcome of its \<open>Scan\<close>, and \<open>rows.Err()\<close>.\<close>

type_synonym 'a dbrows = "'a res list \<times> goerr option"

record DomainIPSetRulesQueryStore =
  q_domains :: "string \<Rightarrow> (int \<times> string) dbrows res"
  q_ipsets :: "string \<Rightarrow> (int \<times> bytes) dbrows res"

section \<open>Reading the database\<close>

text \<open>
  A file that is not there is an error, before the driver could make an empty database of it.
\<close>

definition NewDomainIPSetRulesQueryStore ::
  "(string \<Rightarrow> goerr option) \<Rightarrow> (string \<Rightarrow> DomainIPSetRulesQueryStore res) \<Rightarrow> string \<Rightarrow> DomainIPSetRulesQueryStore res" where
  "NewDomainIPSetRulesQueryStore os_Stat sql_Open ruleDBFilePath =
     (case os_Stat ruleDBFilePath of Some err \<Rightarrow> Inl err | None \<Rightarrow> sql_Open ruleDBFilePath)"

definition domainFull :: int where "domainFull = 0"
definition domainSuffix :: int where "domainSuffix = 1"
definition domainKeyword :: int where "domainKeyword = 2"
definition domainRegex :: int where "domainRegex = 3"

lemmas domain_type_defs = domainFull_def domainSuffix_def domainKeyword_def domainRegex_def

text \<open>The consumer is a closure over the caller's variables: it maps their values to new ones.\<close>

fun scan_domain_rows :: "(int \<Rightarrow> string \<Rightarrow> 's \<Rightarrow> 's) \<Rightarrow> (int \<times> string) res list \<Rightarrow> 's \<Rightarrow> goerr option \<times> 's"
where
  "scan_domain_rows consumer [] s = (None, s)"
| "scan_domain_rows consumer (Inl e # rows) s = (Some e, s)"
| "scan_domain_rows consumer (Inr (domainTypeID, domain) # rows) s =
     (if domainTypeID = domainFull \<or> domainTypeID = domainSuffix \<or> domainTypeID = domainKeyword
         \<or> domainTypeID = domainRegex
      then scan_domain_rows consumer rows (consumer domainTypeID domain s)
      else (Some (ErrNew ''invalid domain type when querying database''), s))"

definition queryDomainRulesByTag ::
  "DomainIPSetRulesQueryStore \<Rightarrow> string \<Rightarrow> (int \<Rightarrow> string \<Rightarrow> 's \<Rightarrow> 's) \<Rightarrow> 's \<Rightarrow> goerr option \<times> 's" where
  "queryDomainRulesByTag store tag consumer s =
     (case q_domains store tag of
        Inl e \<Rightarrow> (Some e, s)
      | Inr (rows, rowsErr) \<Rightarrow>
          (case scan_domain_rows consumer rows s of
             (Some e, s') \<Rightarrow> (Some e, s')
           | (None, s') \<Rightarrow>
               if rows = [] then (Some (ErrNew ''no related domain tag found when querying database''), s')
               else (rowsErr, s')))"

definition cidrSize :: "bool \<Rightarrow> nat" where
  "cidrSize ipv4 = (if ipv4 then 5 else 17)"

lemma cidrSize_pos [simp]: "0 < cidrSize ipv4"
  by (simp add: cidrSize_def)

function consume_cidrs :: "(addr \<Rightarrow> nat \<Rightarrow> 's \<Rightarrow> goerr option \<times> 's) \<Rightarrow> bool \<Rightarrow> bytes \<Rightarrow> 's \<Rightarrow> goerr option \<times> 's"
where
  "consume_cidrs consume ipv4 bs s =
     (if bs = [] then (None, s)
      else (case AddrFromSlice (take (cidrSize ipv4 - 1) bs) of
        None \<Rightarrow> (Some (ErrNew ''invalid IP address size in the CIDR''), s)
      | Some ip \<Rightarrow>
          (case consume ip (unat (bs ! (cidrSize ipv4 - 1))) s of
             (Some e, s') \<Rightarrow> (Some e, s')
           | (None, s') \<Rightarrow> consume_cidrs consume ipv4 (drop (cidrSize ipv4) bs) s')))"
  by pat_completeness auto
termination
  by (relation "measure (\<lambda>(consume, ipv4, bs, s). length bs)") auto

declare consume_cidrs.simps [simp del]

definition consumeCIDRsBytes ::
  "bytes \<Rightarrow> bool \<Rightarrow> (addr \<Rightarrow> nat \<Rightarrow> 's \<Rightarrow> goerr option \<times> 's) \<Rightarrow> 's \<Rightarrow> goerr option \<times> 's" where
  "consumeCIDRsBytes cidrsBytes ipv4 consume s =
     (if length cidrsBytes mod cidrSize ipv4 \<noteq> 0
      then (Some (ErrNew ''invalid CIDR bytes size when querying IP set rules''), s)
      else consume_cidrs consume ipv4 cidrsBytes s)"

fun scan_ipset_rows :: "(addr \<Rightarrow> nat \<Rightarrow> 's \<Rightarrow> goerr option \<times> 's) \<Rightarrow> (int \<times> bytes) res list \<Rightarrow> 's \<Rightarrow> goerr option \<times> 's"
where
  "scan_ipset_rows consumer [] s = (None, s)"
| "scan_ipset_rows consumer (Inl e # rows) s = (Some e, s)"
| "scan_ipset_rows consumer (Inr (cidrTypeID, cidrs) # rows) s =
     (if cidrTypeID = 0 \<or> cidrTypeID = 1 then
        (case consumeCIDRsBytes cidrs (cidrTypeID = 0) consumer s of
           (Some e, s') \<Rightarrow> (Some e, s')
         | (None, s') \<Rightarrow> scan_ipset_rows consumer rows s')
      else (Some (ErrNew ''invalid CIDR type when querying database''), s))"

definition queryIPSetRulesByTag ::
  "DomainIPSetRulesQueryStore \<Rightarrow> string \<Rightarrow> (addr \<Rightarrow> nat \<Rightarrow> 's \<Rightarrow> goerr option \<times> 's) \<Rightarrow> 's \<Rightarrow> goerr option \<times> 's" where
  "queryIPSetRulesByTag store tag consumer s =
     (case q_ipsets store tag of
        Inl e \<Rightarrow> (Some e, s)
      | Inr (rows, rowsErr) \<Rightarrow>
          (case scan_ipset_rows consumer rows s of
             (Some e, s') \<Rightarrow> (Some e, s')
           | (None, s') \<Rightarrow>
               if rows = [] then (Some (ErrNew ''no related IP set found when querying database''), s')
               else (rowsErr, s')))"

section \<open>Prefixes\<close>

definition toPrefixUnmapped :: "addr \<Rightarrow> int \<Rightarrow> prefix res" where
  "toPrefixUnmapped ip bits =
     (if Is4In6 ip then addr_Prefix (Unmap ip) (bits - 96) else addr_Prefix ip bits)"

text \<open>\<open>netip.MustParseAddr\<close> and \<open>netip.MustParsePrefix\<close> panic where their parsers fail.\<close>

definition MustParseAddr :: "string \<Rightarrow> addr res" where
  "MustParseAddr s = (case ParseAddr s of None \<Rightarrow> Inl (Panic ''ParseAddr'') | Some a \<Rightarrow> Inr a)"

definition ParsePrefix :: "string \<Rightarrow> (addr \<times> nat) option" where
  "ParsePrefix s =
     (case LastIndexByte s CHR ''/'' of
        None \<Rightarrow> None
      | Some i \<Rightarrow>
          (case ParseAddr (take i s) of
             None \<Rightarrow> None
           | Some ip \<Rightarrow>
               (let b = drop (Suc i) s in
                if (case ip of Addr6 w z \<Rightarrow> z \<noteq> [] | Addr4 w \<Rightarrow> False) then None
                else if b = [] \<or> \<not> list_all is_digit b \<or> (1 < length b \<and> hd b = CHR ''0'') then None
                else if BitLen ip < dec_val b then None
                else Some (ip, dec_val b))))"

definition MustParsePrefix :: "string \<Rightarrow> (addr \<times> nat) res" where
  "MustParsePrefix s = (case ParsePrefix s of None \<Rightarrow> Inl (Panic ''ParsePrefix'') | Some p \<Rightarrow> Inr p)"

section \<open>The matcher\<close>

record ('re, 'ps) Matcher =
  domainMatcher :: domainFullAndSuffixMatcher
  domainRegexMatcher :: "'re list"
  ipCidrMatcher :: "'ps option"
  bakedMatchRules :: "string list"

definition newMatcher :: "string list \<Rightarrow> ('re, 'ps) Matcher" where
  "newMatcher matchRules =
     \<lparr>domainMatcher = newDomainFullAndSuffixMatcher, domainRegexMatcher = [],
      ipCidrMatcher = None, bakedMatchRules = matchRules\<rparr>"

definition CopyWithBakedRulesOnly :: "('re, 'ps) Matcher \<Rightarrow> ('re, 'ps) Matcher" where
  "CopyWithBakedRulesOnly matcher = newMatcher (bakedMatchRules matcher)"

definition domainFullPrefix :: string where "domainFullPrefix = ''domain-full/''"
definition domainSuffixPrefix :: string where "domainSuffixPrefix = ''domain-suffix/''"
definition domainRegexPrefix :: string where "domainRegexPrefix = ''domain-regex/''"
definition ipPrefix :: string where "ipPrefix = ''ip/''"
definition cidrPrefix :: string where "cidrPrefix = ''cidr/''"
definition domainTagPrefix :: string where "domainTagPrefix = ''domain-tag/''"
definition ipSetTagPrefix :: string where "ipSetTagPrefix = ''ip-set-tag/''"

lemmas rule_prefix_defs = domainFullPrefix_def domainSuffixPrefix_def domainRegexPrefix_def
  ipPrefix_def cidrPrefix_def domainTagPrefix_def ipSetTagPrefix_def

text \<open>
  The variables of \<open>SetupRulesData\<close>. The closure passed to \<open>queryDomainRulesByTag\<close> assigns
  the outer \<open>err\<close>, and so does the statement that calls it; both assignments are modelled.
\<close>

record ('re, 'ps) setup_vars =
  su_trie :: domainFullAndSuffixMatcher
  su_regex :: "'re list"
  su_ps :: 'ps
  su_err :: "goerr option"

definition add_regex :: "'re res \<Rightarrow> ('re, 'ps) setup_vars \<Rightarrow> ('re, 'ps) setup_vars" where
  "add_regex c su =
     (case c of
        Inl e \<Rightarrow> su\<lparr>su_err := Some e\<rparr>
      | Inr re \<Rightarrow> su\<lparr>su_err := None, su_regex := su_regex su @ [re]\<rparr>)"

definition add_prefix :: "('re, 'ps) rule_env \<Rightarrow> prefix res \<Rightarrow> ('re, 'ps) setup_vars \<Rightarrow> ('re, 'ps) setup_vars" where
  "add_prefix env c su =
     (case c of
        Inl e \<Rightarrow> su\<lparr>su_err := Some e\<rparr>
      | Inr p \<Rightarrow> su\<lparr>su_err := None, su_ps := ps_Insert env p (su_ps su)\<rparr>)"

definition consume_domain :: "('re, 'ps) rule_env \<Rightarrow> int \<Rightarrow> string \<Rightarrow> ('re, 'ps) setup_vars \<Rightarrow> ('re, 'ps) setup_vars" where
  "consume_domain env domainType domain su =
     (if domainType = domainFull then su\<lparr>su_trie := addDomainFullRule (su_trie su) domain\<rparr>
      else if domainType = domainSuffix then su\<lparr>su_trie := addDomainSuffixRule (su_trie su) domain\<rparr>
      else if domainType = domainKeyword then
        add_regex (re_Compile env (''^.*'' @ re_QuoteMeta env domain @ ''.*$'')) su
      else if domainType = domainRegex then add_regex (re_Compile env domain) su
      else su)"

definition consume_cidr :: "('re, 'ps) rule_env \<Rightarrow> addr \<Rightarrow> nat \<Rightarrow> ('re, 'ps) setup_vars \<Rightarrow> goerr option \<times> ('re, 'ps) setup_vars" where
  "consume_cidr env ip bits su =
     (case toPrefixUnmapped ip (int bits) of
        Inl e \<Rightarrow> (Some e, su)
      | Inr p \<Rightarrow> (None, su\<lparr>su_ps := ps_Insert env p (su_ps su)\<rparr>))"

text \<open>One turn of the loop: \<open>Inl\<close> leaves the function (or panics), \<open>Inr\<close> reaches the check of \<open>err\<close>.\<close>

definition setup_rule ::
  "('re, 'ps) rule_env \<Rightarrow> DomainIPSetRulesQueryStore \<Rightarrow> string \<Rightarrow> ('re, 'ps) setup_vars \<Rightarrow> ('re, 'ps) setup_vars res" where
  "setup_rule env store rule su =
     (if HasPrefix rule domainFullPrefix then
        Inr (su\<lparr>su_trie := addDomainFullRule (su_trie su) (TrimPrefix rule domainFullPrefix)\<rparr>)
      else if HasPrefix rule domainSuffixPrefix then
        Inr (su\<lparr>su_trie := addDomainSuffixRule (su_trie su) (TrimPrefix rule domainSuffixPrefix)\<rparr>)
      else if HasPrefix rule domainRegexPrefix then
        Inr (add_regex (re_Compile env (TrimPrefix rule domainRegexPrefix)) su)
      else if HasPrefix rule ipPrefix then
        (case MustParseAddr (TrimPrefix rule ipPrefix) of
           Inl e \<Rightarrow> Inl e
         | Inr addr \<Rightarrow> Inr (add_prefix env (toPrefixUnmapped addr (int (BitLen addr))) su))
      else if HasPrefix rule cidrPrefix then
        (case MustParsePrefix (TrimPrefix rule cidrPrefix) of
           Inl e \<Rightarrow> Inl e
         | Inr (addr, bits) \<Rightarrow> Inr (add_prefix env (toPrefixUnmapped addr (int bits)) su))
      else if HasPrefix rule domainTagPrefix then
        (case queryDomainRulesByTag store (TrimPrefix rule domainTagPrefix) (consume_domain env) su of
           (err, su') \<Rightarrow> Inr (su'\<lparr>su_err := err\<rparr>))
      else if HasPrefix rule ipSetTagPrefix then
        (case queryIPSetRulesByTag store (TrimPrefix rule ipSetTagPrefix) (consume_cidr env) su of
           (err, su') \<Rightarrow> Inr (su'\<lparr>su_err := err\<rparr>))
      else Inl (ErrNew ''unknown rule prefix''))"

fun setup_rules ::
  "('re, 'ps) rule_env \<Rightarrow> DomainIPSetRulesQueryStore \<Rightarrow> string list \<Rightarrow> ('re, 'ps) setup_vars \<Rightarrow> ('re, 'ps) setup_vars res"
where
  "setup_rules env store [] su = Inr su"
| "setup_rules env store (rule # rules) su =
     (case setup_rule env store rule su of
        Inl e \<Rightarrow> Inl e
      | Inr su' \<Rightarrow>
          (case su_err su' of
             Some e \<Rightarrow> Inl (ErrNew ''fail to parse a match rule'')
           | None \<Rightarrow> setup_rules env store rules su'))"

definition SetupRulesData ::
  "('re, 'ps) rule_env \<Rightarrow> DomainIPSetRulesQueryStore \<Rightarrow> ('re, 'ps) Matcher \<Rightarrow> ('re, 'ps) Matcher res" where
  "SetupRulesData env store matcher =
     (case setup_rules env store (bakedMatchRules matcher)
        \<lparr>su_trie = domainMatcher matcher, su_regex = [], su_ps = ps_new env, su_err = None\<rparr> of
        Inl e \<Rightarrow> Inl e
      | Inr su \<Rightarrow> Inr (matcher\<lparr>domainMatcher := su_trie su, domainRegexMatcher := su_regex su,
          ipCidrMatcher := Some (su_ps su)\<rparr>))"

definition MatchDomain :: "('re, 'ps) rule_env \<Rightarrow> ('re, 'ps) Matcher \<Rightarrow> string \<Rightarrow> bool res" where
  "MatchDomain env matcher domain =
     (let domain = trimDomainRootDot domain in
      case match_domain (domainMatcher matcher) domain of
        Inl e \<Rightarrow> Inl e
      | Inr True \<Rightarrow> Inr True
      | Inr False \<Rightarrow> Inr (\<exists>regex \<in> set (domainRegexMatcher matcher). re_MatchString env regex domain))"

definition MatchIP :: "('re, 'ps) rule_env \<Rightarrow> ('re, 'ps) Matcher \<Rightarrow> addr \<Rightarrow> bool res" where
  "MatchIP env matcher ip =
     (case ipCidrMatcher matcher of
        None \<Rightarrow> Inl (Panic ''nil pointer dereference'')
      | Some ps \<Rightarrow> Inr (ps_Contains env ps (Unmap ip)))"

section \<open>What a matcher matches\<close>

text \<open>
  The specification: the rule list denotes a list of entries, the rules of a tag being
  those of its rows. A domain is matched when an entry covers it, an address when a prefix
  does.
\<close>

datatype 're rule_entry = EDomain domain_rule | ERegex 're | EPrefix prefix

fun dom_rules :: "'re rule_entry list \<Rightarrow> domain_rule list" where
  "dom_rules [] = []"
| "dom_rules (EDomain r # es) = r # dom_rules es"
| "dom_rules (_ # es) = dom_rules es"

fun regexes :: "'re rule_entry list \<Rightarrow> 're list" where
  "regexes [] = []"
| "regexes (ERegex r # es) = r # regexes es"
| "regexes (_ # es) = regexes es"

fun prefixes :: "'re rule_entry list \<Rightarrow> prefix list" where
  "prefixes [] = []"
| "prefixes (EPrefix p # es) = p # prefixes es"
| "prefixes (_ # es) = prefixes es"

definition regex_entry :: "'re res \<Rightarrow> 're rule_entry list" where
  "regex_entry c = (case c of Inl e \<Rightarrow> [] | Inr re \<Rightarrow> [ERegex re])"

definition prefix_entry :: "prefix res \<Rightarrow> 're rule_entry list" where
  "prefix_entry c = (case c of Inl e \<Rightarrow> [] | Inr p \<Rightarrow> [EPrefix p])"

definition domain_row_entries :: "('re, 'ps) rule_env \<Rightarrow> (int \<times> string) res \<Rightarrow> 're rule_entry list" where
  "domain_row_entries env row =
     (case row of
        Inl e \<Rightarrow> []
      | Inr (ty, d) \<Rightarrow>
          if ty = domainFull then [EDomain (FullRule d)]
          else if ty = domainSuffix then [EDomain (SuffixRule d)]
          else if ty = domainKeyword then
            regex_entry (re_Compile env (''^.*'' @ re_QuoteMeta env d @ ''.*$''))
          else regex_entry (re_Compile env d))"

definition cidr_list :: "bool \<Rightarrow> bytes \<Rightarrow> (addr \<times> nat) list" where
  "cidr_list ipv4 bs =
     (let n = cidrSize ipv4 in
      map (\<lambda>i. ((if ipv4 then AddrFrom4 else AddrFrom16) (take (n - 1) (drop (i * n) bs)),
                unat (bs ! (i * n + (n - 1))))) [0..<length bs div n])"

definition ipset_row_entries :: "(int \<times> bytes) res \<Rightarrow> 're rule_entry list" where
  "ipset_row_entries row =
     (case row of
        Inl e \<Rightarrow> []
      | Inr (ty, bs) \<Rightarrow>
          concat (map (\<lambda>(ip, bits). prefix_entry (toPrefixUnmapped ip (int bits))) (cidr_list (ty = 0) bs)))"

definition query_rows :: "'a dbrows res \<Rightarrow> 'a res list" where
  "query_rows q = (case q of Inl e \<Rightarrow> [] | Inr (rows, e) \<Rightarrow> rows)"

definition rule_entries ::
  "('re, 'ps) rule_env \<Rightarrow> DomainIPSetRulesQueryStore \<Rightarrow> string \<Rightarrow> 're rule_entry list" where
  "rule_entries env store rule =
     (if HasPrefix rule domainFullPrefix then [EDomain (FullRule (TrimPrefix rule domainFullPrefix))]
      else if HasPrefix rule domainSuffixPrefix then
        [EDomain (SuffixRule (TrimPrefix rule domainSuffixPrefix))]
      else if HasPrefix rule domainRegexPrefix then
        regex_entry (re_Compile env (TrimPrefix rule domainRegexPrefix))
      else if HasPrefix rule ipPrefix then
        (case ParseAddr (TrimPrefix rule ipPrefix) of
           None \<Rightarrow> [] | Some a \<Rightarrow> prefix_entry (toPrefixUnmapped a (int (BitLen a))))
      else if HasPrefix rule cidrPrefix then
        (case ParsePrefix (TrimPrefix rule cidrPrefix) of
           None \<Rightarrow> [] | Some (a, b) \<Rightarrow> prefix_entry (toPrefixUnmapped a (int b)))
      else if HasPrefix rule domainTagPrefix then
        concat (map (domain_row_entries env)
          (query_rows (q_domains store (TrimPrefix rule domainTagPrefix))))
      else if HasPrefix rule ipSetTagPrefix then
        concat (map ipset_row_entries (query_rows (q_ipsets store (TrimPrefix rule ipSetTagPrefix))))
      else [])"

definition all_entries ::
  "('re, 'ps) rule_env \<Rightarrow> DomainIPSetRulesQueryStore \<Rightarrow> string list \<Rightarrow> 're rule_entry list" where
  "all_entries env store rules = concat (map (rule_entries env store) rules)"

fun entry_matches_domain :: "('re, 'ps) rule_env \<Rightarrow> 're rule_entry \<Rightarrow> string \<Rightarrow> bool" where
  "entry_matches_domain env (EDomain r) d = domain_covers r d"
| "entry_matches_domain env (ERegex re) d = re_MatchString env re d"
| "entry_matches_domain env (EPrefix p) d = False"

fun entry_matches_ip :: "'re rule_entry \<Rightarrow> addr \<Rightarrow> bool" where
  "entry_matches_ip (EPrefix p) a = pfx_Contains p a"
| "entry_matches_ip _ a = False"

section \<open>The set-up builds what the rules denote\<close>

definition represents :: "('re, 'ps) rule_env \<Rightarrow> 're rule_entry list \<Rightarrow> ('re, 'ps) setup_vars \<Rightarrow> bool" where
  "represents env es su \<longleftrightarrow>
     su_trie su = fold add_domain_rule (dom_rules es) newDomainFullAndSuffixMatcher \<and>
     su_regex su = regexes es \<and>
     su_ps su = fold (ps_Insert env) (prefixes es) (ps_new env)"

lemma dom_rules_append [simp]: "dom_rules (xs @ ys) = dom_rules xs @ dom_rules ys"
  by (induction xs rule: dom_rules.induct) simp_all

lemma regexes_append [simp]: "regexes (xs @ ys) = regexes xs @ regexes ys"
  by (induction xs rule: regexes.induct) simp_all

lemma prefixes_append [simp]: "prefixes (xs @ ys) = prefixes xs @ prefixes ys"
  by (induction xs rule: prefixes.induct) simp_all

lemma entry_lists_single [simp]:
  "dom_rules (regex_entry c) = []" "prefixes (regex_entry c) = []"
  "dom_rules (prefix_entry d) = []" "regexes (prefix_entry d) = []"
  by (simp_all add: regex_entry_def prefix_entry_def split: sum.splits)

lemma represents_err [simp]: "represents env es (su\<lparr>su_err := e\<rparr>) = represents env es su"
  by (simp add: represents_def)

lemma represents_regex:
  "represents env es su \<Longrightarrow> represents env (es @ regex_entry c) (add_regex c su)"
  by (simp add: represents_def add_regex_def regex_entry_def split: sum.splits)

lemma represents_prefix:
  "represents env es su \<Longrightarrow> represents env (es @ prefix_entry c) (add_prefix env c su)"
  by (simp add: represents_def add_prefix_def prefix_entry_def split: sum.splits)

lemma represents_domain:
  "represents env es su \<Longrightarrow> ty \<in> {domainFull, domainSuffix, domainKeyword, domainRegex} \<Longrightarrow>
   represents env (es @ domain_row_entries env (Inr (ty, d))) (consume_domain env ty d su)"
  by (auto simp: consume_domain_def domain_row_entries_def domain_type_defs represents_regex)
     (simp_all add: represents_def)

lemma represents_scan_domains:
  "represents env es su \<Longrightarrow> scan_domain_rows (consume_domain env) rows su = (None, su') \<Longrightarrow>
   represents env (es @ concat (map (domain_row_entries env) rows)) su'"
proof (induction rows arbitrary: es su)
  case Nil
  then show ?case by simp
next
  case (Cons row rows)
  then obtain ty d where row: "row = Inr (ty, d)" by (cases row) auto
  with Cons.prems(2) have ty: "ty \<in> {domainFull, domainSuffix, domainKeyword, domainRegex}"
    and rest: "scan_domain_rows (consume_domain env) rows (consume_domain env ty d su) = (None, su')"
    by (auto split: if_splits)
  from Cons.IH [OF represents_domain [OF Cons.prems(1) ty] rest] row show ?case by simp
qed

lemma length_div_Suc:
  assumes "0 < n" "bs \<noteq> []" "length bs mod n = 0"
  shows "length bs div n = Suc (length (drop n bs) div n)" "n \<le> length bs" "length (drop n bs) mod n = 0"
proof -
  show n: "n \<le> length bs" using assms by (metis length_greater_0_conv linorder_not_le mod_less neq0_conv)
  then obtain k where k: "length bs = n + k" using le_Suc_ex by blast
  then show "length bs div n = Suc (length (drop n bs) div n)" using assms(1) by (simp add: div_add_self1)
  show "length (drop n bs) mod n = 0" using k assms(3) by simp
qed

lemma cidr_list_Cons:
  assumes "bs \<noteq> []" "length bs mod cidrSize ipv4 = 0"
  shows "cidr_list ipv4 bs =
    ((if ipv4 then AddrFrom4 else AddrFrom16) (take (cidrSize ipv4 - 1) bs),
     unat (bs ! (cidrSize ipv4 - 1))) # cidr_list ipv4 (drop (cidrSize ipv4) bs)"
proof -
  let ?n = "cidrSize ipv4"
  note len = length_div_Suc [OF cidrSize_pos assms]
  have idx: "drop ?n bs ! (i * ?n + (?n - 1)) = bs ! (Suc i * ?n + (?n - 1))"
    if "i < length (drop ?n bs) div ?n" for i
    using len(2) by (simp add: add.assoc)
  have "[0..<length bs div ?n] = 0 # map Suc [0..<length (drop ?n bs) div ?n]"
    by (simp only: len(1) map_Suc_upt upt_conv_Cons zero_less_Suc)
  then show ?thesis
    unfolding cidr_list_def Let_def using idx by (simp add: comp_def add.commute)
qed

lemma AddrFromSlice_cidr:
  "bs \<noteq> [] \<Longrightarrow> length bs mod cidrSize ipv4 = 0 \<Longrightarrow>
   AddrFromSlice (take (cidrSize ipv4 - 1) bs) =
     Some ((if ipv4 then AddrFrom4 else AddrFrom16) (take (cidrSize ipv4 - 1) bs))"
  using length_div_Suc(2) [OF cidrSize_pos, of bs ipv4]
  by (auto simp: AddrFromSlice_def cidrSize_def)

lemma represents_cidrs:
  "represents env es su \<Longrightarrow> length bs mod cidrSize ipv4 = 0 \<Longrightarrow>
   consume_cidrs (consume_cidr env) ipv4 bs su = (None, su') \<Longrightarrow>
   represents env (es @ concat (map (\<lambda>(ip, bits). prefix_entry (toPrefixUnmapped ip (int bits)))
     (cidr_list ipv4 bs))) su'"
proof (induction "consume_cidr env" ipv4 bs su arbitrary: es rule: consume_cidrs.induct)
  case (1 ipv4 bs su)
  show ?case
  proof (cases "bs = []")
    case True
    with 1 show ?thesis by (simp add: consume_cidrs.simps [of _ _ "[]"] cidr_list_def)
  next
    case False
    let ?n = "cidrSize ipv4"
    define ip where "ip = (if ipv4 then AddrFrom4 else AddrFrom16) (take (?n - 1) bs)"
    define b where "b = unat (bs ! (?n - 1))"
    have sl: "AddrFromSlice (take (?n - 1) bs) = Some ip"
      using AddrFromSlice_cidr [OF False "1.prems"(2)] by (simp add: ip_def)
    from "1.prems"(3) False sl obtain p su1 where p: "toPrefixUnmapped ip (int b) = Inr p"
      and su1: "su1 = su\<lparr>su_ps := ps_Insert env p (su_ps su)\<rparr>"
      and rest: "consume_cidrs (consume_cidr env) ipv4 (drop ?n bs) su1 = (None, su')"
      by (auto simp: consume_cidrs.simps [of _ ipv4 bs] consume_cidr_def b_def split: sum.splits)
    have c: "consume_cidr env ip b su = (None, su1)" using p su1 by (simp add: consume_cidr_def)
    have "represents env (es @ prefix_entry (toPrefixUnmapped ip (int b))) su1"
      using "1.prems"(1) p su1 by (simp add: represents_def prefix_entry_def)
    from "1.hyps" [OF False sl _ refl this _ rest] c length_div_Suc(3) [OF cidrSize_pos False "1.prems"(2)]
    show ?thesis
      by (simp add: cidr_list_Cons [OF False "1.prems"(2)] ip_def b_def)
  qed
qed

lemma represents_scan_ipsets:
  "represents env es su \<Longrightarrow> scan_ipset_rows (consume_cidr env) rows su = (None, su') \<Longrightarrow>
   represents env (es @ concat (map ipset_row_entries rows)) su'"
proof (induction rows arbitrary: es su)
  case Nil
  then show ?case by simp
next
  case (Cons row rows)
  then obtain ty bs where row: "row = Inr (ty, bs)" by (cases row) auto
  from Cons.prems(2) row obtain su1 where
    one: "consumeCIDRsBytes bs (ty = 0) (consume_cidr env) su = (None, su1)" and
    rest: "scan_ipset_rows (consume_cidr env) rows su1 = (None, su')"
    by (auto split: if_splits prod.splits option.splits)
  then have "length bs mod cidrSize (ty = 0) = 0"
    and "consume_cidrs (consume_cidr env) (ty = 0) bs su = (None, su1)"
    by (auto simp: consumeCIDRsBytes_def split: if_splits)
  from Cons.IH [OF represents_cidrs [OF Cons.prems(1) this] rest] row show ?case
    by (simp add: ipset_row_entries_def)
qed

lemma represents_setup_rule:
  assumes rep: "represents env es su" and run: "setup_rule env store rule su = Inr su'"
    and ok: "su_err su' = None"
  shows "represents env (es @ rule_entries env store rule) su'"
proof -
  have dom: "represents env (es @ concat (map (domain_row_entries env) (query_rows (q_domains store tag)))) su1"
    if "queryDomainRulesByTag store tag (consume_domain env) su = (None, su1)" for tag su1
    using that represents_scan_domains [OF rep]
    by (auto simp: queryDomainRulesByTag_def query_rows_def split: sum.splits prod.splits option.splits if_splits)
  have ips: "represents env (es @ concat (map ipset_row_entries (query_rows (q_ipsets store tag)))) su1"
    if "queryIPSetRulesByTag store tag (consume_cidr env) su = (None, su1)" for tag su1
    using that represents_scan_ipsets [OF rep]
    by (auto simp: queryIPSetRulesByTag_def query_rows_def split: sum.splits prod.splits option.splits if_splits)
  have trie: "represents env (es @ [EDomain r]) (su\<lparr>su_trie := add_domain_rule r (su_trie su)\<rparr>)" for r
    using rep by (simp add: represents_def)
  show ?thesis
    using run ok trie [of "FullRule (TrimPrefix rule domainFullPrefix)"]
      trie [of "SuffixRule (TrimPrefix rule domainSuffixPrefix)"]
    by (auto simp: setup_rule_def rule_entries_def MustParseAddr_def MustParsePrefix_def
        represents_regex [OF rep] represents_prefix [OF rep] dest: dom ips
        split: if_splits option.splits prod.splits)
qed

lemma represents_setup_rules:
  "represents env es su \<Longrightarrow> setup_rules env store rules su = Inr su' \<Longrightarrow>
   represents env (es @ all_entries env store rules) su'"
proof (induction rules arbitrary: es su)
  case Nil
  then show ?case by (simp add: all_entries_def)
next
  case (Cons rule rules)
  then obtain su1 where one: "setup_rule env store rule su = Inr su1" "su_err su1 = None"
    and rest: "setup_rules env store rules su1 = Inr su'"
    by (auto split: sum.splits option.splits)
  from Cons.IH [OF represents_setup_rule [OF Cons.prems(1) one] rest] show ?case
    by (simp add: all_entries_def)
qed

lemma SetupRulesData_represents:
  assumes "SetupRulesData env store (newMatcher rules) = Inr m"
  obtains su where "represents env (all_entries env store rules) su"
    "m = \<lparr>domainMatcher = su_trie su, domainRegexMatcher = su_regex su,
          ipCidrMatcher = Some (su_ps su), bakedMatchRules = rules\<rparr>"
proof -
  from assms obtain su where
    run: "setup_rules env store rules
       \<lparr>su_trie = newDomainFullAndSuffixMatcher, su_regex = [], su_ps = ps_new env, su_err = None\<rparr> = Inr su"
    and m: "m = (newMatcher rules)\<lparr>domainMatcher := su_trie su, domainRegexMatcher := su_regex su,
       ipCidrMatcher := Some (su_ps su)\<rparr>"
    by (auto simp: SetupRulesData_def newMatcher_def split: sum.splits)
  from represents_setup_rules [OF _ run, where es = "[]"]
  have "represents env (all_entries env store rules) su" by (simp add: represents_def)
  with that m show ?thesis by (simp add: newMatcher_def)
qed

lemma dom_rules_iff: "(\<exists>r \<in> set (dom_rules es). P r) \<longleftrightarrow> (\<exists>r. EDomain r \<in> set es \<and> P r)"
  by (induction es rule: dom_rules.induct) auto

lemma regexes_iff: "(\<exists>r \<in> set (regexes es). P r) \<longleftrightarrow> (\<exists>r. ERegex r \<in> set es \<and> P r)"
  by (induction es rule: regexes.induct) auto

lemma prefixes_iff: "(\<exists>r \<in> set (prefixes es). P r) \<longleftrightarrow> (\<exists>r. EPrefix r \<in> set es \<and> P r)"
  by (induction es rule: prefixes.induct) auto

lemma entry_domain_iff:
  "(\<exists>e \<in> set es. entry_matches_domain env e d) \<longleftrightarrow>
   (\<exists>r \<in> set (dom_rules es). domain_covers r d) \<or> (\<exists>re \<in> set (regexes es). re_MatchString env re d)"
  unfolding dom_rules_iff regexes_iff
  by (metis entry_matches_domain.simps rule_entry.exhaust)

lemma entry_ip_iff:
  "(\<exists>e \<in> set es. entry_matches_ip e a) \<longleftrightarrow> (\<exists>p \<in> set (prefixes es). pfx_Contains p a)"
  unfolding prefixes_iff by (metis entry_matches_ip.simps rule_entry.exhaust)

lemma MatchDomain_represents:
  assumes "represents env es su" "domainMatcher m = su_trie su" "domainRegexMatcher m = su_regex su"
  shows "MatchDomain env m d = Inr (\<exists>e \<in> set es. entry_matches_domain env e (trimDomainRootDot d))"
proof -
  have "match_domain (fold add_domain_rule (dom_rules es) newDomainFullAndSuffixMatcher) x =
      Inr (\<exists>r \<in> set (dom_rules es). domain_covers r x)" for x
    using trie.accepts_all [where q = x and rs = "dom_rules es"]
      match_domain_total [of "fold add_domain_rule (dom_rules es) newDomainFullAndSuffixMatcher" x]
    by auto
  with assms show ?thesis
    by (simp add: MatchDomain_def represents_def entry_domain_iff Let_def split: bool.splits)
qed

definition zone_free :: "addr \<Rightarrow> bool" where
  "zone_free a = (case a of Addr4 w \<Rightarrow> True | Addr6 w z \<Rightarrow> z = [])"

text \<open>A prefix table that keeps what was inserted in a list: the interface can be met.\<close>

definition list_table_Contains :: "prefix list \<Rightarrow> addr \<Rightarrow> bool" where
  "list_table_Contains ps a = (\<exists>p \<in> set ps. pfx_Contains p a)"

interpretation list_table: rule_store "[]" Cons list_table_Contains pfx_Contains zone_free
  by unfold_locales (auto simp: list_table_Contains_def)

lemma MatchDomain_built:
  assumes "SetupRulesData env store (newMatcher rules) = Inr m"
  shows "MatchDomain env m d =
    Inr (\<exists>e \<in> set (all_entries env store rules). entry_matches_domain env e (trimDomainRootDot d))"
proof -
  from SetupRulesData_represents [OF assms] obtain su where "represents env (all_entries env store rules) su"
    "domainMatcher m = su_trie su" "domainRegexMatcher m = su_regex su"
    by (metis Matcher.select_convs(1,2))
  then show ?thesis by (rule MatchDomain_represents)
qed

lemma MatchIP_built:
  assumes table: "rule_store (ps_new env) (ps_Insert env) (ps_Contains env) pfx_Contains zone_free"
    and built: "SetupRulesData env store (newMatcher rules) = Inr m"
    and zone: "zone_free ip"
  shows "MatchIP env m ip =
    Inr (\<exists>e \<in> set (all_entries env store rules). entry_matches_ip e (Unmap ip))"
proof -
  have "zone_free (Unmap ip)" using zone by (auto simp: zone_free_def Unmap_def split: addr.splits)
  then have "ps_Contains env (fold (ps_Insert env) ps (ps_new env)) (Unmap ip) \<longleftrightarrow>
      (\<exists>p \<in> set ps. pfx_Contains p (Unmap ip))" for ps
    by (rule rule_store.accepts_all [OF table])
  moreover from SetupRulesData_represents [OF built] obtain su where
    "represents env (all_entries env store rules) su" "ipCidrMatcher m = Some (su_ps su)"
    by (metis Matcher.select_convs(3))
  ultimately show ?thesis
    by (simp add: MatchIP_def entry_ip_iff represents_def)
qed

section \<open>Properties\<close>

text \<open>
  C33. Once \<open>SetupRulesData\<close> has succeeded on the rules of a policy, \<open>MatchDomain\<close> answers
  true exactly when one of the entries the rules denote covers the domain (full and suffix
  rules by label, letter case ignored, regular expressions by the engine, the rules of a tag
  by the rows of the database), and it never panics.
\<close>

theorem matcher_domain_correct:
  assumes "SetupRulesData env store (newMatcher rules) = Inr m"
  shows "MatchDomain env m d =
    Inr (\<exists>e \<in> set (all_entries env store rules). entry_matches_domain env e (trimDomainRootDot d))"
  using assms by (rule MatchDomain_built)

text \<open>
  C34. Once \<open>SetupRulesData\<close> has succeeded, \<open>MatchIP\<close> answers true exactly when one of the
  prefixes the rules denote contains the address, read as IPv4 when it is IPv4-mapped, given
  a prefix table that finds what was inserted into it.
\<close>

theorem matcher_ip_correct:
  assumes table: "rule_store (ps_new env) (ps_Insert env) (ps_Contains env) pfx_Contains zone_free"
    and built: "SetupRulesData env store (newMatcher rules) = Inr m"
    and zone: "zone_free ip"
  shows "MatchIP env m ip =
    Inr (\<exists>e \<in> set (all_entries env store rules). entry_matches_ip e (Unmap ip))"
  using assms by (rule MatchIP_built)


text \<open>A concrete engine and database, at which the properties above are applied.\<close>

definition sample_env :: "(string, prefix list) rule_env" where
  "sample_env =
     \<lparr>re_Compile = (\<lambda>s. if CHR ''['' \<in> set s then Inl (ErrNew ''missing closing ]'') else Inr s),
      re_MatchString = (\<lambda>re s. re = s), re_QuoteMeta = (\<lambda>s. s), ps_new = [], ps_Insert = Cons,
      ps_Contains = list_table_Contains\<rparr>"

definition sample_store :: DomainIPSetRulesQueryStore where
  "sample_store =
     \<lparr>q_domains = (\<lambda>tag. Inr ([Inr (1, ''go.dev''), Inr (3, ''a[b''), Inr (0, ''x.org'')], None)),
      q_ipsets = (\<lambda>tag. Inr ([Inr (0, [10, 0, 0, 0, 8])], None))\<rparr>"

definition sample_rules :: "string list" where
  "sample_rules = [''domain-tag/geo'', ''ip-set-tag/lan'']"

definition sample_matcher :: "(string, prefix list) Matcher" where
  "sample_matcher = (case SetupRulesData sample_env sample_store (newMatcher sample_rules) of
     Inl e \<Rightarrow> newMatcher [] | Inr m \<Rightarrow> m)"

lemma rule_store_sample_env:
  "rule_store (ps_new sample_env) (ps_Insert sample_env) (ps_Contains sample_env) pfx_Contains zone_free"
  using list_table.rule_store_axioms by (simp add: sample_env_def)

lemma SetupRulesData_sample:
  "SetupRulesData sample_env sample_store (newMatcher sample_rules) = Inr sample_matcher"
  by (simp add: sample_matcher_def SetupRulesData_def newMatcher_def sample_rules_def setup_rule_def
      rule_prefix_defs HasPrefix_def TrimPrefix_def queryDomainRulesByTag_def queryIPSetRulesByTag_def
      sample_store_def domain_type_defs consume_domain_def add_regex_def sample_env_def
      consumeCIDRsBytes_def cidrSize_def consume_cidrs.simps AddrFromSlice_def consume_cidr_def
      toPrefixUnmapped_def Is4In6_def AddrFrom4_def addr_Prefix_def BitLen_def)

theorem matcher_domain_correct_witness:
  "MatchDomain sample_env sample_matcher ''www.go.dev'' =
     Inr (\<exists>e \<in> set (all_entries sample_env sample_store sample_rules).
       entry_matches_domain sample_env e (trimDomainRootDot ''www.go.dev''))"
  by (rule matcher_domain_correct [OF SetupRulesData_sample])

theorem matcher_ip_correct_witness:
  "MatchIP sample_env sample_matcher (Addr4 167772161) =
     Inr (\<exists>e \<in> set (all_entries sample_env sample_store sample_rules :: string rule_entry list).
       entry_matches_ip e (Unmap (Addr4 167772161)))"
  by (rule matcher_ip_correct [OF rule_store_sample_env SetupRulesData_sample]) (simp add: zone_free_def)

text \<open>
  A regular expression of the database that does not compile is dropped without an error:
  the closure reports it in \<open>err\<close>, which the
  result of the query overwrites, so the set-up succeeds. The same expression written in
  the configuration stops the set-up.
\<close>

theorem db_regex_error_lost:
  assumes "re_Compile env re = Inl e" and "q_domains store tag = Inr ([Inr (domainRegex, re)], None)"
  shows "SetupRulesData env store (newMatcher [domainTagPrefix @ tag]) =
      Inr ((newMatcher [domainTagPrefix @ tag])\<lparr>ipCidrMatcher := Some (ps_new env)\<rparr>) \<and>
    (\<exists>e'. SetupRulesData env store (newMatcher [domainRegexPrefix @ re]) = Inl e')"
  using assms
  by (simp add: SetupRulesData_def newMatcher_def setup_rule_def rule_prefix_defs HasPrefix_def
      TrimPrefix_def queryDomainRulesByTag_def consume_domain_def domain_type_defs add_regex_def)

theorem db_regex_error_lost_witness:
  "SetupRulesData sample_env (sample_store\<lparr>q_domains := \<lambda>t. Inr ([Inr (domainRegex, ''['')], None)\<rparr>)
       (newMatcher [domainTagPrefix @ ''t'']) =
     Inr ((newMatcher [domainTagPrefix @ ''t''])\<lparr>ipCidrMatcher := Some (ps_new sample_env)\<rparr>)"
  by (rule db_regex_error_lost [where re = "''[''", THEN conjunct1]) (simp_all add: sample_env_def)

definition cidr_bytes :: "(addr \<times> nat) list \<Rightarrow> bytes" where
  "cidr_bytes cs = concat (map (\<lambda>(a, b). AsSlice a @ [of_nat b]) cs)"

lemma consume_cidrs_step:
  assumes "length ip = cidrSize ipv4 - 1"
  shows "consume_cidrs f ipv4 (ip @ b # rest) s =
    (case f ((if ipv4 then AddrFrom4 else AddrFrom16) ip) (unat b) s of
       (Some e, s') \<Rightarrow> (Some e, s') | (None, s') \<Rightarrow> consume_cidrs f ipv4 rest s')"
proof -
  have "drop (cidrSize ipv4) (ip @ b # rest) = rest"
    using assms by (simp add: cidrSize_def split: if_splits)
  with assms show ?thesis
    by (subst consume_cidrs.simps)
       (auto simp: AddrFromSlice_def nth_append cidrSize_def split: if_splits prod.splits option.splits)
qed

text \<open>
  The binary form of an IP set decodes to exactly the addresses and prefix lengths it was
  written from, in their order.
\<close>

theorem cidr_blob_decodes:
  assumes "\<forall>(a, b) \<in> set cs. Is4 a = ipv4 \<and> zone_free a \<and> b < 256"
  shows "consumeCIDRsBytes (cidr_bytes cs) ipv4 (\<lambda>a b s. (None, s @ [(a, b)])) acc = (None, acc @ cs)"
proof -
  have AddrFrom: "(if ipv4 then AddrFrom4 else AddrFrom16) (AsSlice a) = a"
    if "Is4 a = ipv4" "zone_free a" for a
    using that by (auto simp: Is4_def zone_free_def AsSlice_def byte_laws split: addr.splits)
  have "length (cidr_bytes cs) mod cidrSize ipv4 = 0 \<and>
      consume_cidrs (\<lambda>a b s. (None, s @ [(a, b)])) ipv4 (cidr_bytes cs) acc = (None, acc @ cs)"
    using assms
  proof (induction cs arbitrary: acc)
    case Nil
    then show ?case by (simp add: cidr_bytes_def consume_cidrs.simps)
  next
    case (Cons c cs)
    obtain a b where c: "c = (a, b)" by force
    with Cons.prems have a: "Is4 a = ipv4" "zone_free a" "b < 256" by auto
    then have len: "length (AsSlice a) = cidrSize ipv4 - 1" by (simp add: cidrSize_def)
    have "cidr_bytes (c # cs) = AsSlice a @ of_nat b # cidr_bytes cs"
      by (simp add: cidr_bytes_def c)
    moreover have "length (cidr_bytes cs) mod cidrSize ipv4 = 0"
      "consume_cidrs (\<lambda>a b s. (None, s @ [(a, b)])) ipv4 (cidr_bytes cs) (acc @ [(a, b)]) =
         (None, (acc @ [(a, b)]) @ cs)"
      using Cons by auto
    ultimately show ?case
      using a len by (simp add: consume_cidrs_step AddrFrom c unat_of_nat cidrSize_def)
  qed
  then show "consumeCIDRsBytes (cidr_bytes cs) ipv4 (\<lambda>a b s. (None, s @ [(a, b)])) acc = (None, acc @ cs)"
    by (simp add: consumeCIDRsBytes_def)
qed

theorem cidr_blob_decodes_witness:
  "consumeCIDRsBytes (cidr_bytes [(Addr4 167772160, 8), (Addr4 0, 0)]) True
     (\<lambda>a b s. (None, s @ [(a, b)])) [] = (None, [] @ [(Addr4 167772160, 8), (Addr4 0, 0)])"
  by (rule cidr_blob_decodes) (simp add: Is4_def zone_free_def)

end
