(* ===== verification/Conf.thy ===== *)
theory Conf
  imports RuleMatcher SocksServer GoHttp
begin

text \<open>
  The configuration, \<open>conf/conf.go\<close> and \<open>conf/parser.go\<close>: the types, how a JSON value is
  decoded into them with their defaults, the rule data, validation and the resolution of
  file paths. A configuration is decoded from the tree of a JSON text, the way
  \<open>encoding/json/v2\<close> does it with unknown members rejected; the text itself, the file system and
  the rule database are arguments.
\<close>

section \<open>Decoding JSON values\<close>

text \<open>\<open>JFrac\<close> is a number that is not an integer.\<close>

datatype json =
    JNull
  | JBool bool
  | JNum int
  | JFrac
  | JStr string
  | JArr "json list"
  | JObj "(string \<times> json) list"

text \<open>A decoder takes the value and what the variable holds before, and gives what it holds after.\<close>

type_synonym 'a decoder = "json \<Rightarrow> 'a \<Rightarrow> 'a res"

definition json_error :: goerr where "json_error = ErrNew ''json: cannot unmarshal''"

definition dec_string :: "string decoder" where
  "dec_string j s = (case j of JStr t \<Rightarrow> Inr t | JNull \<Rightarrow> Inr [] | _ \<Rightarrow> Inl json_error)"

definition dec_bool :: "bool decoder" where
  "dec_bool j s = (case j of JBool b \<Rightarrow> Inr b | JNull \<Rightarrow> Inr False | _ \<Rightarrow> Inl json_error)"

definition dec_uint16 :: "u16 decoder" where
  "dec_uint16 j s =
     (case j of
        JNum n \<Rightarrow> if 0 \<le> n \<and> n \<le> 65535 then Inr (of_int n) else Inl json_error
      | JNull \<Rightarrow> Inr 0
      | _ \<Rightarrow> Inl json_error)"

text \<open>A pointer: null is nil, anything else is decoded into what it points to.\<close>

definition dec_ptr :: "'a \<Rightarrow> 'a decoder \<Rightarrow> 'a option decoder" where
  "dec_ptr new d j p =
     (if j = JNull then Inr None
      else (case d j (case p of None \<Rightarrow> new | Some x \<Rightarrow> x) of Inl e \<Rightarrow> Inl e | Inr x \<Rightarrow> Inr (Some x)))"

fun dec_elems :: "'a \<Rightarrow> 'a decoder \<Rightarrow> json list \<Rightarrow> 'a list res" where
  "dec_elems new d [] = Inr []"
| "dec_elems new d (j # js) =
     (case d j new of
        Inl e \<Rightarrow> Inl e
      | Inr x \<Rightarrow> (case dec_elems new d js of Inl e \<Rightarrow> Inl e | Inr xs \<Rightarrow> Inr (x # xs)))"

definition dec_slice :: "'a \<Rightarrow> 'a decoder \<Rightarrow> 'a list decoder" where
  "dec_slice new d j s = (case j of JArr js \<Rightarrow> dec_elems new d js | JNull \<Rightarrow> Inr [] | _ \<Rightarrow> Inl json_error)"

fun dec_entries :: "'a \<Rightarrow> 'a decoder \<Rightarrow> (string \<times> json) list \<Rightarrow> (string \<times> 'a) list \<Rightarrow> (string \<times> 'a) list res" where
  "dec_entries new d [] m = Inr m"
| "dec_entries new d ((k, j) # ms) m =
     (if map_of m k \<noteq> None then Inl (ErrNew ''json: duplicate object member name'')
      else (case d j new of Inl e \<Rightarrow> Inl e | Inr x \<Rightarrow> dec_entries new d ms (m @ [(k, x)])))"

text \<open>A map with string keys, as the list of its entries.\<close>

definition dec_map :: "'a \<Rightarrow> 'a decoder \<Rightarrow> (string \<times> 'a) list decoder" where
  "dec_map new d j s = (case j of JObj ms \<Rightarrow> dec_entries new d ms [] | JNull \<Rightarrow> Inr [] | _ \<Rightarrow> Inl json_error)"

text \<open>A struct: the members in order, each into its field; other and repeated names are errors.\<close>

definition fld :: "string \<Rightarrow> ('s \<Rightarrow> 'a) \<Rightarrow> ('a \<Rightarrow> 's \<Rightarrow> 's) \<Rightarrow> 'a decoder \<Rightarrow> string \<times> 's decoder" where
  "fld name get put d = (name, \<lambda>j s. case d j (get s) of Inl e \<Rightarrow> Inl e | Inr x \<Rightarrow> Inr (put x s))"

fun dec_members :: "(string \<times> 's decoder) list \<Rightarrow> string list \<Rightarrow> (string \<times> json) list \<Rightarrow> 's \<Rightarrow> 's res" where
  "dec_members flds seen [] s = Inr s"
| "dec_members flds seen ((k, j) # ms) s =
     (if k \<in> set seen then Inl (ErrNew ''json: duplicate object member name'')
      else (case map_of flds k of
         None \<Rightarrow> Inl (ErrNew ''json: unknown object member name'')
       | Some f \<Rightarrow> (case f j s of Inl e \<Rightarrow> Inl e | Inr s' \<Rightarrow> dec_members flds (k # seen) ms s')))"

definition dec_struct :: "'s \<Rightarrow> (string \<times> 's decoder) list \<Rightarrow> 's decoder" where
  "dec_struct zero flds j s =
     (case j of JObj ms \<Rightarrow> dec_members flds [] ms s | JNull \<Rightarrow> Inr zero | _ \<Rightarrow> Inl json_error)"

section \<open>Types and their decoders\<close>

definition defaultHTTPSOCKSPort :: u16 where "defaultHTTPSOCKSPort = 1080"
definition defaultTLSPort :: u16 where "defaultTLSPort = 443"
definition defaultQUICPort :: u16 where "defaultQUICPort = 443"
definition defaultProfilingPort :: u16 where "defaultProfilingPort = 6060"

definition ShadowsocksTransport :: string where "ShadowsocksTransport = ''shadowsocks''"
definition ShadowsocksTransportAlias :: string where "ShadowsocksTransportAlias = ''ss''"
definition TrojanTransport :: string where "TrojanTransport = ''trojan''"
definition TrojanTransportAlias :: string where "TrojanTransportAlias = ''tr''"
definition NaiveProxyTransport :: string where "NaiveProxyTransport = ''naiveproxy''"
definition NaiveProxyTransportAlias :: string where "NaiveProxyTransportAlias = ''np''"
definition SunnyQUICTransport :: string where "SunnyQUICTransport = ''sunnyquic''"
definition SunnyQUICTransportAlias :: string where "SunnyQUICTransportAlias = ''sq''"

definition DirectPolicy :: string where "DirectPolicy = ''direct''"
definition FinalPolicy :: string where "FinalPolicy = ''final''"
definition RejectPolicy :: string where "RejectPolicy = ''reject''"

lemmas transport_defs = ShadowsocksTransport_def ShadowsocksTransportAlias_def TrojanTransport_def
  TrojanTransportAlias_def NaiveProxyTransport_def NaiveProxyTransportAlias_def SunnyQUICTransport_def
  SunnyQUICTransportAlias_def

lemmas policy_defs = DirectPolicy_def FinalPolicy_def RejectPolicy_def

record HTTPSOCKS =
  hs_Host :: string
  hs_Port :: u16
  hs_Username :: string
  hs_Password :: string
  hs_SystemProxy :: bool

definition zero_HTTPSOCKS :: HTTPSOCKS where
  "zero_HTTPSOCKS = \<lparr>hs_Host = [], hs_Port = 0, hs_Username = [], hs_Password = [], hs_SystemProxy = False\<rparr>"

definition HTTPSOCKS_UnmarshalJSONFrom :: "HTTPSOCKS decoder" where
  "HTTPSOCKS_UnmarshalJSONFrom j h =
     dec_struct zero_HTTPSOCKS
       [fld ''host'' hs_Host (\<lambda>x. hs_Host_update (\<lambda>_. x)) dec_string,
        fld ''port'' hs_Port (\<lambda>x. hs_Port_update (\<lambda>_. x)) dec_uint16,
        fld ''username'' hs_Username (\<lambda>x. hs_Username_update (\<lambda>_. x)) dec_string,
        fld ''password'' hs_Password (\<lambda>x. hs_Password_update (\<lambda>_. x)) dec_string,
        fld ''system-proxy'' hs_SystemProxy (\<lambda>x. hs_SystemProxy_update (\<lambda>_. x)) dec_bool]
       j (h\<lparr>hs_Port := defaultHTTPSOCKSPort\<rparr>)"

definition ToHTTPSOCKSAuthInfo :: "HTTPSOCKS \<Rightarrow> HTTPSOCKSAuthInfo" where
  "ToHTTPSOCKSAuthInfo h = \<lparr>Username = hs_Username h, Password = hs_Password h\<rparr>"

text \<open>A password is 16 bytes, written as 32 hexadecimal digits.\<close>

definition Password_UnmarshalJSONFrom :: "bytes decoder" where
  "Password_UnmarshalJSONFrom j pw =
     (case dec_string j [] of
        Inl err \<Rightarrow> Inl (ErrWrap ''fail to parse the password field'' err)
      | Inr pwStr \<Rightarrow>
          (case hex_DecodeString pwStr of
             None \<Rightarrow> Inl (ErrNew ''the password must be 32 hex characters in length'')
           | Some bs \<Rightarrow>
               if length bs \<noteq> 16 then Inl (ErrNew ''the password must be 32 hex characters in length'')
               else Inr bs))"

record TLSCertKeyPair =
  ck_CertFile :: string
  ck_KeyFile :: string

definition TLSCertKeyPair_UnmarshalJSONFrom :: "TLSCertKeyPair decoder" where
  "TLSCertKeyPair_UnmarshalJSONFrom j pair =
     (case dec_string j [] of
        Inl err \<Rightarrow> Inl (ErrWrap ''fail to parse the tls-cert-key-pair field'' err)
      | Inr certKeyStr \<Rightarrow>
          (case Split certKeyStr CHR '' '' of
             [cert, key] \<Rightarrow> Inr \<lparr>ck_CertFile = cert, ck_KeyFile = key\<rparr>
           | _ \<Rightarrow> Inl (ErrNew ''the certificate and key file paths must be separated by whitespace'')))"

record Hg =
  hg_Host :: string
  hg_Password :: "bytes option"
  hg_TCPPort :: "u16 option"
  hg_TLSPort :: u16
  hg_TLSCertKeyPair :: "TLSCertKeyPair option"
  hg_TLSBadAuthFallbackSiteDir :: string
  hg_QUICPort :: u16

definition zero_Hg :: Hg where
  "zero_Hg = \<lparr>hg_Host = [], hg_Password = None, hg_TCPPort = None, hg_TLSPort = 0, hg_TLSCertKeyPair = None,
     hg_TLSBadAuthFallbackSiteDir = [], hg_QUICPort = 0\<rparr>"

definition Hg_UnmarshalJSONFrom :: "Hg decoder" where
  "Hg_UnmarshalJSONFrom j hg =
     dec_struct zero_Hg
       [fld ''host'' hg_Host (\<lambda>x. hg_Host_update (\<lambda>_. x)) dec_string,
        fld ''password'' hg_Password (\<lambda>x. hg_Password_update (\<lambda>_. x))
          (dec_ptr (replicate 16 0) Password_UnmarshalJSONFrom),
        fld ''tcp-port'' hg_TCPPort (\<lambda>x. hg_TCPPort_update (\<lambda>_. x)) (dec_ptr 0 dec_uint16),
        fld ''tls-port'' hg_TLSPort (\<lambda>x. hg_TLSPort_update (\<lambda>_. x)) dec_uint16,
        fld ''tls-cert-key-pair'' hg_TLSCertKeyPair (\<lambda>x. hg_TLSCertKeyPair_update (\<lambda>_. x))
          (dec_ptr \<lparr>ck_CertFile = [], ck_KeyFile = []\<rparr> TLSCertKeyPair_UnmarshalJSONFrom),
        fld ''tls-bad-auth-fallback-site-dir'' hg_TLSBadAuthFallbackSiteDir
          (\<lambda>x. hg_TLSBadAuthFallbackSiteDir_update (\<lambda>_. x)) dec_string,
        fld ''quic-port'' hg_QUICPort (\<lambda>x. hg_QUICPort_update (\<lambda>_. x)) dec_uint16]
       j (hg\<lparr>hg_TLSPort := defaultTLSPort, hg_QUICPort := defaultQUICPort\<rparr>)"

record ProxyNode =
  pn_Host :: string
  pn_Password :: "bytes option"
  pn_TCPPort :: "u16 option"
  pn_TLSPort :: u16
  pn_TLSCustomCertFile :: string
  pn_QUICPort :: u16

definition zero_ProxyNode :: ProxyNode where
  "zero_ProxyNode = \<lparr>pn_Host = [], pn_Password = None, pn_TCPPort = None, pn_TLSPort = 0,
     pn_TLSCustomCertFile = [], pn_QUICPort = 0\<rparr>"

definition ProxyNode_UnmarshalJSONFrom :: "ProxyNode decoder" where
  "ProxyNode_UnmarshalJSONFrom j node =
     dec_struct zero_ProxyNode
       [fld ''host'' pn_Host (\<lambda>x. pn_Host_update (\<lambda>_. x)) dec_string,
        fld ''password'' pn_Password (\<lambda>x. pn_Password_update (\<lambda>_. x))
          (dec_ptr (replicate 16 0) Password_UnmarshalJSONFrom),
        fld ''tcp-port'' pn_TCPPort (\<lambda>x. pn_TCPPort_update (\<lambda>_. x)) (dec_ptr 0 dec_uint16),
        fld ''tls-port'' pn_TLSPort (\<lambda>x. pn_TLSPort_update (\<lambda>_. x)) dec_uint16,
        fld ''tls-cert'' pn_TLSCustomCertFile (\<lambda>x. pn_TLSCustomCertFile_update (\<lambda>_. x)) dec_string,
        fld ''quic-port'' pn_QUICPort (\<lambda>x. pn_QUICPort_update (\<lambda>_. x)) dec_uint16]
       j (node\<lparr>pn_TLSPort := defaultTLSPort, pn_QUICPort := defaultQUICPort\<rparr>)"

record Inbounds =
  in_HTTPSOCKS :: "HTTPSOCKS option"
  in_Hg :: "Hg option"

record Transport =
  tp_TCP :: string
  tp_UDP :: string

record ('re, 'ps) Rule =
  ru_Matcher :: "('re, 'ps) Matcher option"
  ru_Policy :: string

record ('re, 'ps) Routing =
  ro_Transport :: Transport
  ro_Rules :: "('re, 'ps) Rule list"
  ro_Final :: string

record Misc =
  mi_HgBinaryAutoUpdate :: bool
  mi_RulesFileAutoUpdate :: bool
  mi_TLSKeyLog :: bool
  mi_VerboseLog :: bool
  mi_Profiling :: bool
  mi_ProfilingPort :: u16

definition zero_Misc :: Misc where
  "zero_Misc = \<lparr>mi_HgBinaryAutoUpdate = False, mi_RulesFileAutoUpdate = False, mi_TLSKeyLog = False,
     mi_VerboseLog = False, mi_Profiling = False, mi_ProfilingPort = 0\<rparr>"

definition Misc_UnmarshalJSONFrom :: "Misc decoder" where
  "Misc_UnmarshalJSONFrom j misc =
     dec_struct zero_Misc
       [fld ''hg-binary-auto-update'' mi_HgBinaryAutoUpdate (\<lambda>x. mi_HgBinaryAutoUpdate_update (\<lambda>_. x)) dec_bool,
        fld ''rules-file-auto-update'' mi_RulesFileAutoUpdate (\<lambda>x. mi_RulesFileAutoUpdate_update (\<lambda>_. x)) dec_bool,
        fld ''tls-key-log'' mi_TLSKeyLog (\<lambda>x. mi_TLSKeyLog_update (\<lambda>_. x)) dec_bool,
        fld ''verbose-log'' mi_VerboseLog (\<lambda>x. mi_VerboseLog_update (\<lambda>_. x)) dec_bool,
        fld ''profiling'' mi_Profiling (\<lambda>x. mi_Profiling_update (\<lambda>_. x)) dec_bool,
        fld ''profiling-port'' mi_ProfilingPort (\<lambda>x. mi_ProfilingPort_update (\<lambda>_. x)) dec_uint16]
       j (misc\<lparr>mi_ProfilingPort := defaultProfilingPort\<rparr>)"

text \<open>\<open>Matcher.UnmarshalJSONFrom\<close> of \<open>conf/rule/matcher.go\<close>.\<close>

definition Matcher_UnmarshalJSONFrom :: "('re, 'ps) Matcher decoder" where
  "Matcher_UnmarshalJSONFrom j m =
     (case dec_slice [] dec_string j [] of
        Inl err \<Rightarrow> Inl (ErrWrap ''fail to parse match rules'' err)
      | Inr matchRules \<Rightarrow> Inr (newMatcher matchRules))"

record ('re, 'ps) Config =
  co_Inbounds :: Inbounds
  co_Outbounds :: "(string \<times> ProxyNode option) list"
  co_Routing :: "('re, 'ps) Routing option"
  co_Misc :: Misc

definition zero_Inbounds :: Inbounds where "zero_Inbounds = \<lparr>in_HTTPSOCKS = None, in_Hg = None\<rparr>"
definition zero_Transport :: Transport where "zero_Transport = \<lparr>tp_TCP = [], tp_UDP = []\<rparr>"
definition zero_Rule :: "('re, 'ps) Rule" where "zero_Rule = \<lparr>ru_Matcher = None, ru_Policy = []\<rparr>"
definition zero_Routing :: "('re, 'ps) Routing" where
  "zero_Routing = \<lparr>ro_Transport = zero_Transport, ro_Rules = [], ro_Final = []\<rparr>"
definition zero_Config :: "('re, 'ps) Config" where
  "zero_Config = \<lparr>co_Inbounds = zero_Inbounds, co_Outbounds = [], co_Routing = None, co_Misc = zero_Misc\<rparr>"

definition dec_Inbounds :: "Inbounds decoder" where
  "dec_Inbounds = dec_struct zero_Inbounds
     [fld ''http-socks'' in_HTTPSOCKS (\<lambda>x. in_HTTPSOCKS_update (\<lambda>_. x)) (dec_ptr zero_HTTPSOCKS HTTPSOCKS_UnmarshalJSONFrom),
      fld ''hg'' in_Hg (\<lambda>x. in_Hg_update (\<lambda>_. x)) (dec_ptr zero_Hg Hg_UnmarshalJSONFrom)]"

definition dec_Transport :: "Transport decoder" where
  "dec_Transport = dec_struct zero_Transport
     [fld ''tcp'' tp_TCP (\<lambda>x. tp_TCP_update (\<lambda>_. x)) dec_string,
      fld ''udp'' tp_UDP (\<lambda>x. tp_UDP_update (\<lambda>_. x)) dec_string]"

definition dec_Rule :: "('re, 'ps) Rule decoder" where
  "dec_Rule = dec_struct zero_Rule
     [fld ''match'' ru_Matcher (\<lambda>x. ru_Matcher_update (\<lambda>_. x)) (dec_ptr (newMatcher []) Matcher_UnmarshalJSONFrom),
      fld ''policy'' ru_Policy (\<lambda>x. ru_Policy_update (\<lambda>_. x)) dec_string]"

definition dec_Routing :: "('re, 'ps) Routing decoder" where
  "dec_Routing = dec_struct zero_Routing
     [fld ''transport'' ro_Transport (\<lambda>x. ro_Transport_update (\<lambda>_. x)) dec_Transport,
      fld ''rules'' ro_Rules (\<lambda>x. ro_Rules_update (\<lambda>_. x)) (dec_slice zero_Rule dec_Rule),
      fld ''final'' ro_Final (\<lambda>x. ro_Final_update (\<lambda>_. x)) dec_string]"

definition dec_Config :: "('re, 'ps) Config decoder" where
  "dec_Config = dec_struct zero_Config
     [fld ''inbounds'' co_Inbounds (\<lambda>x. co_Inbounds_update (\<lambda>_. x)) dec_Inbounds,
      fld ''outbounds'' co_Outbounds (\<lambda>x. co_Outbounds_update (\<lambda>_. x))
        (dec_map None (dec_ptr zero_ProxyNode ProxyNode_UnmarshalJSONFrom)),
      fld ''routing'' co_Routing (\<lambda>x. co_Routing_update (\<lambda>_. x)) (dec_ptr zero_Routing dec_Routing),
      fld ''misc'' co_Misc (\<lambda>x. co_Misc_update (\<lambda>_. x)) Misc_UnmarshalJSONFrom]"

section \<open>Rule data\<close>

text \<open>An error is reported again with more text around it; a panic goes through.\<close>

definition reword :: "string \<Rightarrow> goerr \<Rightarrow> goerr" where
  "reword msg e = (case e of Panic p \<Rightarrow> Panic p | _ \<Rightarrow> ErrNew msg)"

fun setup_rule_list ::
  "('re, 'ps) rule_env \<Rightarrow> DomainIPSetRulesQueryStore \<Rightarrow> ('re, 'ps) Rule list \<Rightarrow> ('re, 'ps) Rule list res" where
  "setup_rule_list env store [] = Inr []"
| "setup_rule_list env store (r # rs) =
     (case ru_Matcher r of
        None \<Rightarrow> Inl (Panic ''nil pointer dereference'')
      | Some m \<Rightarrow>
          (case SetupRulesData env store m of
             Inl err \<Rightarrow> Inl (reword ''rules'' err)
           | Inr m' \<Rightarrow>
               (case setup_rule_list env store rs of
                  Inl err \<Rightarrow> Inl err
                | Inr rs' \<Rightarrow> Inr (r\<lparr>ru_Matcher := Some m'\<rparr> # rs'))))"

text \<open>\<open>setupRulesData\<close> fills the matchers in place: the rules with their new contents.\<close>

definition setupRulesData ::
  "('re, 'ps) rule_env \<Rightarrow> (string \<Rightarrow> DomainIPSetRulesQueryStore res) \<Rightarrow> ('re, 'ps) Rule list \<Rightarrow> string \<Rightarrow>
   ('re, 'ps) Rule list res" where
  "setupRulesData env openStore rules ruleDBFilePath =
     (case openStore ruleDBFilePath of
        Inl err \<Rightarrow> Inl err
      | Inr store \<Rightarrow> setup_rule_list env store rules)"

fun copy_rules :: "('re, 'ps) Rule list \<Rightarrow> ('re, 'ps) Rule list res" where
  "copy_rules [] = Inr []"
| "copy_rules (r # rs) =
     (case ru_Matcher r of
        None \<Rightarrow> Inl (Panic ''nil pointer dereference'')
      | Some m \<Rightarrow>
          (case copy_rules rs of
             Inl err \<Rightarrow> Inl err
           | Inr rs' \<Rightarrow> Inr (\<lparr>ru_Matcher = Some (CopyWithBakedRulesOnly m), ru_Policy = ru_Policy r\<rparr> # rs')))"

definition CopyWithNewRulesData ::
  "('re, 'ps) rule_env \<Rightarrow> (string \<Rightarrow> DomainIPSetRulesQueryStore res) \<Rightarrow> ('re, 'ps) Rule list \<Rightarrow> string \<Rightarrow>
   ('re, 'ps) Rule list res" where
  "CopyWithNewRulesData env openStore rules ruleDBFilePath =
     (case copy_rules rules of
        Inl err \<Rightarrow> Inl err
      | Inr newRules \<Rightarrow> setupRulesData env openStore newRules ruleDBFilePath)"

section \<open>Host names\<close>

text \<open>The loop of \<open>isDottedDecimalIPv4\<close> with its two counters.\<close>

fun dotted_loop :: "nat \<Rightarrow> nat \<Rightarrow> string \<Rightarrow> bool" where
  "dotted_loop labels labelLen [] = (labels = 4 \<and> labelLen > 0)"
| "dotted_loop labels labelLen (c # cs) =
     (if c = CHR ''.'' then (if labelLen = 0 then False else dotted_loop (labels + 1) 0 cs)
      else if is_digit c then dotted_loop labels (labelLen + 1) cs
      else False)"

definition isDottedDecimalIPv4 :: "string \<Rightarrow> bool" where
  "isDottedDecimalIPv4 s = dotted_loop 1 0 s"

text \<open>\<open>net.ParseIP\<close> accepts what \<open>netip.ParseAddr\<close> accepts, without a zone.\<close>

definition net_ParseIP :: "string \<Rightarrow> addr option" where
  "net_ParseIP s =
     (case ParseAddr s of
        Some (Addr6 w z) \<Rightarrow> if z = [] then Some (Addr6 w z) else None
      | r \<Rightarrow> r)"

text \<open>
  The expression \<open>hostnameRFC1123Regex\<close>: labels separated by dots, each of 1 to 63 letters,
  digits and hyphens, with no hyphen at either end.
\<close>

definition is_alnum :: "char \<Rightarrow> bool" where
  "is_alnum c = (is_digit c \<or> is_lower c \<or> is_upper c)"

definition hostname_label :: "string \<Rightarrow> bool" where
  "hostname_label s =
     (s \<noteq> [] \<and> length s \<le> 63 \<and> is_alnum (hd s) \<and> is_alnum (last s) \<and>
      list_all (\<lambda>c. is_alnum c \<or> c = CHR ''-'') s)"

definition hostnameRFC1123Regex_MatchString :: "string \<Rightarrow> bool" where
  "hostnameRFC1123Regex_MatchString s = list_all hostname_label (Split s CHR ''.'')"

definition isIPOrHostname :: "string \<Rightarrow> bool" where
  "isIPOrHostname host =
     (if net_ParseIP host \<noteq> None then True
      else if isDottedDecimalIPv4 host then False
      else hostnameRFC1123Regex_MatchString host)"

section \<open>Validation\<close>

text \<open>
  The validators of \<open>validate\<close>, as the conditions under which they report no error: a
  required value is not zero, the rules of a nil pointer are skipped.
\<close>

definition hostRule :: "string \<Rightarrow> bool" where
  "hostRule host = (host \<noteq> [] \<and> isIPOrHostname host)"

definition portRules :: "u16 \<Rightarrow> bool" where
  "portRules port = (1 \<le> unat port \<and> unat port \<le> 65535)"

definition ptr_rule :: "('a \<Rightarrow> bool) \<Rightarrow> 'a option \<Rightarrow> bool" where
  "ptr_rule P p = (case p of None \<Rightarrow> True | Some x \<Rightarrow> P x)"

definition httpSOCKSValidator :: "HTTPSOCKS \<Rightarrow> bool" where
  "httpSOCKSValidator h = (hostRule (hs_Host h) \<and> portRules (hs_Port h))"

definition hgValidator :: "Hg \<Rightarrow> bool" where
  "hgValidator h =
     (hostRule (hg_Host h) \<and> hg_Password h \<noteq> None \<and> ptr_rule portRules (hg_TCPPort h) \<and>
      portRules (hg_TLSPort h) \<and> portRules (hg_QUICPort h))"

definition inboundsValidator :: "Inbounds \<Rightarrow> bool" where
  "inboundsValidator i =
     (\<not> (in_HTTPSOCKS i = None \<and> in_Hg i = None) \<and>
      ptr_rule httpSOCKSValidator (in_HTTPSOCKS i) \<and> ptr_rule hgValidator (in_Hg i))"

definition proxyNodeValidator :: "ProxyNode option \<Rightarrow> bool" where
  "proxyNodeValidator =
     ptr_rule (\<lambda>n. hostRule (pn_Host n) \<and> pn_Password n \<noteq> None \<and> ptr_rule portRules (pn_TCPPort n) \<and>
       portRules (pn_TLSPort n) \<and> portRules (pn_QUICPort n))"

definition transportValidator :: "(string \<times> ProxyNode option) list \<Rightarrow> Transport \<Rightarrow> bool" where
  "transportValidator outbounds t =
     (tp_TCP t \<noteq> [] \<and>
      tp_TCP t \<in> set [ShadowsocksTransport, ShadowsocksTransportAlias, TrojanTransport, TrojanTransportAlias,
        NaiveProxyTransport, NaiveProxyTransportAlias, SunnyQUICTransport, SunnyQUICTransportAlias] \<and>
      (if tp_TCP t = ShadowsocksTransport \<or> tp_TCP t = ShadowsocksTransportAlias
       then list_all (\<lambda>(name, proxyNode). case proxyNode of None \<Rightarrow> True | Some n \<Rightarrow> pn_TCPPort n \<noteq> None) outbounds
       else True))"

definition ruleValidator :: "(string \<times> ProxyNode option) list \<Rightarrow> ('re, 'ps) Rule \<Rightarrow> bool" where
  "ruleValidator outbounds r =
     (ru_Matcher r \<noteq> None \<and> ru_Policy r \<noteq> [] \<and>
      (ru_Policy r = ''direct'' \<or> ru_Policy r = ''reject'' \<or> ru_Policy r = ''final'' \<or>
       map_of outbounds (ru_Policy r) \<noteq> None))"

definition routingValidator :: "(string \<times> ProxyNode option) list \<Rightarrow> ('re, 'ps) Routing \<Rightarrow> bool" where
  "routingValidator outbounds r =
     (transportValidator outbounds (ro_Transport r) \<and> list_all (ruleValidator outbounds) (ro_Rules r) \<and>
      (ro_Final r = DirectPolicy \<or> ro_Final r = RejectPolicy \<or> map_of outbounds (ro_Final r) \<noteq> None))"

definition miscValidator :: "Misc \<Rightarrow> bool" where
  "miscValidator m = (if mi_Profiling m then portRules (mi_ProfilingPort m) else True)"

definition nonNullValueOutboundsRules :: "(string \<times> ProxyNode option) list \<Rightarrow> bool" where
  "nonNullValueOutboundsRules outbounds = list_all (\<lambda>(name, proxyNode). proxyNode \<noteq> None) outbounds"

definition validate :: "('re, 'ps) Config \<Rightarrow> unit res" where
  "validate config =
     (if inboundsValidator (co_Inbounds config) \<and>
         list_all (\<lambda>(name, proxyNode). proxyNodeValidator proxyNode) (co_Outbounds config) \<and>
         ptr_rule (routingValidator (co_Outbounds config)) (co_Routing config) \<and>
         miscValidator (co_Misc config) \<and> nonNullValueOutboundsRules (co_Outbounds config)
      then Inr () else Inl (ErrNew ''validation failed''))"

section \<open>File paths\<close>

text \<open>\<open>path/filepath\<close> on a Unix system: \<open>Clean\<close>, \<open>Join\<close>, \<open>Dir\<close>, \<open>IsAbs\<close>.\<close>

fun clean_elems :: "bool \<Rightarrow> string list \<Rightarrow> string list \<Rightarrow> string list" where
  "clean_elems rooted stack [] = rev stack"
| "clean_elems rooted stack (e # es) =
     (if e = [] \<or> e = ''.'' then clean_elems rooted stack es
      else if e = ''..'' then
        (if stack \<noteq> [] \<and> hd stack \<noteq> ''..'' then clean_elems rooted (tl stack) es
         else if rooted then clean_elems rooted stack es
         else clean_elems rooted (e # stack) es)
      else clean_elems rooted (e # stack) es)"

definition filepath_Clean :: "string \<Rightarrow> string" where
  "filepath_Clean p =
     (let rooted = HasPrefix p ''/'';
          s = (if rooted then ''/'' else []) @ Join (clean_elems rooted [] (Split p CHR ''/'')) CHR ''/''
      in if s = [] then ''.'' else s)"

definition filepath_IsAbs :: "string \<Rightarrow> bool" where "filepath_IsAbs p = HasPrefix p ''/''"

definition filepath_Join :: "string \<Rightarrow> string \<Rightarrow> string" where
  "filepath_Join a b =
     (if a = [] \<and> b = [] then []
      else if a = [] then filepath_Clean b
      else if b = [] then filepath_Clean a
      else filepath_Clean (a @ ''/'' @ b))"

definition filepath_Dir :: "string \<Rightarrow> string" where
  "filepath_Dir p =
     filepath_Clean (case LastIndexByte p CHR ''/'' of None \<Rightarrow> [] | Some i \<Rightarrow> take (i + 1) p)"

definition joinIfRelative :: "string \<Rightarrow> string \<Rightarrow> string" where
  "joinIfRelative basePath relativePath =
     (if filepath_IsAbs relativePath then relativePath else filepath_Join basePath relativePath)"

definition resolve_hg :: "string \<Rightarrow> Hg \<Rightarrow> Hg" where
  "resolve_hg folder hg =
     hg\<lparr>hg_TLSCertKeyPair :=
          map_option (\<lambda>p. \<lparr>ck_CertFile = joinIfRelative folder (ck_CertFile p), ck_KeyFile = joinIfRelative folder (ck_KeyFile p)\<rparr>)
            (hg_TLSCertKeyPair hg),
        hg_TLSBadAuthFallbackSiteDir :=
          (if hg_TLSBadAuthFallbackSiteDir hg \<noteq> [] then joinIfRelative folder (hg_TLSBadAuthFallbackSiteDir hg)
           else hg_TLSBadAuthFallbackSiteDir hg)\<rparr>"

fun resolve_outbounds :: "string \<Rightarrow> (string \<times> ProxyNode option) list \<Rightarrow> (string \<times> ProxyNode option) list res" where
  "resolve_outbounds folder [] = Inr []"
| "resolve_outbounds folder ((name, v) # vs) =
     (case v of
        None \<Rightarrow> Inl (Panic ''nil pointer dereference'')
      | Some n \<Rightarrow>
          (case resolve_outbounds folder vs of
             Inl err \<Rightarrow> Inl err
           | Inr vs' \<Rightarrow> Inr ((name, Some (if pn_TLSCustomCertFile n \<noteq> []
               then n\<lparr>pn_TLSCustomCertFile := joinIfRelative folder (pn_TLSCustomCertFile n)\<rparr> else n)) # vs')))"

definition resolveAllFilePathsToConfigFolder :: "('re, 'ps) Config \<Rightarrow> string \<Rightarrow> ('re, 'ps) Config res" where
  "resolveAllFilePathsToConfigFolder config folder =
     (case resolve_outbounds folder (co_Outbounds config) of
        Inl err \<Rightarrow> Inl err
      | Inr outbounds \<Rightarrow>
          Inr (config\<lparr>co_Inbounds := (co_Inbounds config)\<lparr>in_Hg := map_option (resolve_hg folder) (in_Hg (co_Inbounds config))\<rparr>,
                 co_Outbounds := outbounds\<rparr>))"

section \<open>Parse\<close>

definition Parse ::
  "('re, 'ps) rule_env \<Rightarrow> (string \<Rightarrow> DomainIPSetRulesQueryStore res) \<Rightarrow> (string \<Rightarrow> bytes res) \<Rightarrow> (bytes \<Rightarrow> json res) \<Rightarrow>
   string \<Rightarrow> string \<Rightarrow> ('re, 'ps) Config res" where
  "Parse env openStore ReadFile parseText configFilePath ruleDBFilePath =
     (case ReadFile configFilePath of
        Inl err \<Rightarrow> Inl err
      | Inr bs \<Rightarrow>
          (case (case parseText bs of Inl err \<Rightarrow> Inl err | Inr j \<Rightarrow> dec_Config j zero_Config) of
             Inl err \<Rightarrow> Inl (ErrWrap ''fail to parse'' err)
           | Inr config \<Rightarrow>
               (case (case co_Routing config of
                        None \<Rightarrow> Inr config
                      | Some r \<Rightarrow>
                          if ruleDBFilePath = [] then Inr config
                          else (case setupRulesData env openStore (ro_Rules r) ruleDBFilePath of
                            Inl err \<Rightarrow> Inl (reword ''routing'' err)
                          | Inr rules \<Rightarrow> Inr (config\<lparr>co_Routing := Some (r\<lparr>ro_Rules := rules\<rparr>)\<rparr>))) of
                  Inl err \<Rightarrow> Inl (reword ''fail to parse the config file'' err)
                | Inr config \<Rightarrow>
                    (case validate config of
                       Inl err \<Rightarrow> Inl (ErrWrap ''fail to parse the config file'' err)
                     | Inr _ \<Rightarrow> resolveAllFilePathsToConfigFolder config (filepath_Dir configFilePath)))))"

section \<open>What decoding guarantees\<close>

text \<open>
  A condition that every field's decoder keeps is kept by the decoder of the struct; the
  conditions of the types below are instances.
\<close>

definition keeps :: "('s \<Rightarrow> bool) \<Rightarrow> (string \<times> 's decoder) list \<Rightarrow> bool" where
  "keeps P flds \<longleftrightarrow> (\<forall>(name, f) \<in> set flds. \<forall>j s s'. P s \<longrightarrow> f j s = Inr s' \<longrightarrow> P s')"

lemma keeps_simps [simp]:
  "keeps P []"
  "keeps P (fld name get put d # flds) \<longleftrightarrow> (\<forall>j s x. P s \<longrightarrow> d j (get s) = Inr x \<longrightarrow> P (put x s)) \<and> keeps P flds"
  by (auto simp: keeps_def fld_def split: sum.splits)

lemma dec_members_keeps: "dec_members flds seen ms s = Inr s' \<Longrightarrow> keeps P flds \<Longrightarrow> P s \<Longrightarrow> P s'"
proof (induction flds seen ms s rule: dec_members.induct)
  case (1 flds seen s)
  then show ?case by simp
next
  case (2 flds seen k j ms s)
  from "2.prems"(1) obtain f s1 where f: "k \<notin> set seen" "map_of flds k = Some f" "f j s = Inr s1"
    "dec_members flds (k # seen) ms s1 = Inr s'"
    by (auto split: if_splits option.splits sum.splits)
  have "P s1" using "2.prems"(2,3) map_of_SomeD [OF f(2)] f(3) by (auto simp: keeps_def)
  from "2.IH" [OF f(1,2,3,4) "2.prems"(2) this] show ?case .
qed

lemma dec_struct_keeps: "dec_struct zero flds j s = Inr s' \<Longrightarrow> keeps P flds \<Longrightarrow> P zero \<Longrightarrow> P s \<Longrightarrow> P s'"
  by (auto simp: dec_struct_def split: json.splits intro: dec_members_keeps)

lemma dec_elems_all:
  assumes "\<And>j x. d j new = Inr x \<Longrightarrow> P x" "dec_elems new d js = Inr xs"
  shows "list_all P xs"
  using assms(2) by (induction js arbitrary: xs) (auto split: sum.splits intro: assms(1))

lemma dec_slice_all:
  assumes "\<And>j x. d j new = Inr x \<Longrightarrow> P x" "dec_slice new d j s = Inr xs"
  shows "list_all P xs"
  using assms(2) dec_elems_all [of d new P, OF assms(1)] by (auto simp: dec_slice_def split: json.splits)

lemma dec_ptr_cases:
  "dec_ptr new d j p = Inr q \<Longrightarrow> q = None \<or> (\<exists>x. q = Some x \<and> d j (case p of None \<Rightarrow> new | Some y \<Rightarrow> y) = Inr x)"
  by (auto simp: dec_ptr_def split: if_splits sum.splits)

text \<open>A condition on what a pointer points to.\<close>

lemma dec_ptr_rule:
  assumes "dec_ptr new d j p = Inr q" "ptr_rule P p" "P new" "\<And>y x. P y \<Longrightarrow> d j y = Inr x \<Longrightarrow> P x"
  shows "ptr_rule P q"
  using dec_ptr_cases [OF assms(1)] assms(2,3) by (cases p) (auto simp: ptr_rule_def intro: assms(4))

lemma dec_entries_all:
  assumes "\<And>j x. d j new = Inr x \<Longrightarrow> P x"
  shows "dec_entries new d ms m = Inr m' \<Longrightarrow> list_all (\<lambda>(k, x). P x) m \<Longrightarrow> distinct (map fst m) \<Longrightarrow>
    list_all (\<lambda>(k, x). P x) m' \<and> distinct (map fst m')"
proof (induction ms arbitrary: m)
  case Nil
  then show ?case by simp
next
  case (Cons km ms)
  obtain k j where km: "km = (k, j)" by (cases km)
  with Cons.prems(1) obtain x where x: "map_of m k = None" "d j new = Inr x" "dec_entries new d ms (m @ [(k, x)]) = Inr m'"
    by (auto split: if_splits sum.splits)
  from x(1) have k: "k \<notin> fst ` set m" by (simp add: map_of_eq_None_iff)
  have "P x" by (rule assms [OF x(2)])
  show ?case by (rule Cons.IH [OF x(3)]) (use Cons.prems k \<open>P x\<close> in auto)
qed

lemma Password_length: "Password_UnmarshalJSONFrom j pw = Inr bs \<Longrightarrow> length bs = 16"
  by (auto simp: Password_UnmarshalJSONFrom_def split: sum.splits option.splits if_splits)

definition password_ok :: "bytes option \<Rightarrow> bool" where
  "password_ok p = ptr_rule (\<lambda>bs. length bs = 16) p"

lemma password_ok_dec: "dec_ptr new Password_UnmarshalJSONFrom j p = Inr q \<Longrightarrow> password_ok q"
  by (auto simp: password_ok_def ptr_rule_def dest!: dec_ptr_cases dest: Password_length)

text \<open>A rule as it is decoded: its matcher holds the written rules only.\<close>

definition rule_fresh :: "('re, 'ps) Rule \<Rightarrow> bool" where
  "rule_fresh r = ptr_rule (\<lambda>m. m = newMatcher (bakedMatchRules m)) (ru_Matcher r)"

lemma bakedMatchRules_new [simp]: "bakedMatchRules (newMatcher rs) = rs"
  by (simp add: newMatcher_def)

lemma Matcher_fresh: "Matcher_UnmarshalJSONFrom j m = Inr m' \<Longrightarrow> m' = newMatcher (bakedMatchRules m')"
  by (auto simp: Matcher_UnmarshalJSONFrom_def split: sum.splits)

lemma rule_fresh_zero [simp]: "rule_fresh zero_Rule"
  by (simp add: rule_fresh_def zero_Rule_def ptr_rule_def)

lemma dec_Rule_fresh: "dec_Rule j zero_Rule = Inr r \<Longrightarrow> rule_fresh r"
  unfolding dec_Rule_def
proof (erule dec_struct_keeps)
  show "keeps rule_fresh
     [fld ''match'' ru_Matcher (\<lambda>x. ru_Matcher_update (\<lambda>_. x)) (dec_ptr (newMatcher []) Matcher_UnmarshalJSONFrom),
      fld ''policy'' ru_Policy (\<lambda>x. ru_Policy_update (\<lambda>_. x)) dec_string]"
    by (auto simp: rule_fresh_def ptr_rule_def dest!: dec_ptr_cases dest: Matcher_fresh)
qed simp_all

lemma dec_Routing_fresh:
  "dec_Routing j s = Inr r \<Longrightarrow> list_all rule_fresh (ro_Rules s) \<Longrightarrow> list_all rule_fresh (ro_Rules r)"
  unfolding dec_Routing_def
proof (erule dec_struct_keeps)
  show "keeps (\<lambda>r. list_all rule_fresh (ro_Rules r))
     [fld ''transport'' ro_Transport (\<lambda>x. ro_Transport_update (\<lambda>_. x)) dec_Transport,
      fld ''rules'' ro_Rules (\<lambda>x. ro_Rules_update (\<lambda>_. x)) (dec_slice zero_Rule dec_Rule),
      fld ''final'' ro_Final (\<lambda>x. ro_Final_update (\<lambda>_. x)) dec_string]"
    by (auto intro: dec_slice_all dec_Rule_fresh)
qed (simp_all add: zero_Routing_def)

definition node_decoded :: "ProxyNode \<Rightarrow> bool" where
  "node_decoded n = password_ok (pn_Password n)"

definition hg_decoded :: "Hg \<Rightarrow> bool" where
  "hg_decoded h = password_ok (hg_Password h)"

lemma ProxyNode_decoded: "ProxyNode_UnmarshalJSONFrom j s = Inr n \<Longrightarrow> node_decoded s \<Longrightarrow> node_decoded n"
  unfolding ProxyNode_UnmarshalJSONFrom_def
  by (erule dec_struct_keeps)
     (auto simp: node_decoded_def zero_ProxyNode_def password_ok_def [of None] ptr_rule_def intro: password_ok_dec)

lemma Hg_decoded: "Hg_UnmarshalJSONFrom j s = Inr h \<Longrightarrow> hg_decoded s \<Longrightarrow> hg_decoded h"
  unfolding Hg_UnmarshalJSONFrom_def
  by (erule dec_struct_keeps)
     (auto simp: hg_decoded_def zero_Hg_def password_ok_def [of None] ptr_rule_def intro: password_ok_dec)

definition inbounds_decoded :: "Inbounds \<Rightarrow> bool" where
  "inbounds_decoded i = ptr_rule hg_decoded (in_Hg i)"

lemma decoded_zero [simp]: "hg_decoded zero_Hg" "node_decoded zero_ProxyNode"
  by (simp_all add: hg_decoded_def node_decoded_def zero_Hg_def zero_ProxyNode_def password_ok_def ptr_rule_def)

lemma Inbounds_decoded: "dec_Inbounds j s = Inr i \<Longrightarrow> inbounds_decoded s \<Longrightarrow> inbounds_decoded i"
  unfolding dec_Inbounds_def
proof (erule dec_struct_keeps)
  show "keeps inbounds_decoded
     [fld ''http-socks'' in_HTTPSOCKS (\<lambda>x. in_HTTPSOCKS_update (\<lambda>_. x)) (dec_ptr zero_HTTPSOCKS HTTPSOCKS_UnmarshalJSONFrom),
      fld ''hg'' in_Hg (\<lambda>x. in_Hg_update (\<lambda>_. x)) (dec_ptr zero_Hg Hg_UnmarshalJSONFrom)]"
    by (auto simp: inbounds_decoded_def elim!: dec_ptr_rule intro: Hg_decoded)
qed (simp_all add: inbounds_decoded_def zero_Inbounds_def ptr_rule_def)

definition config_decoded :: "('re, 'ps) Config \<Rightarrow> bool" where
  "config_decoded c \<longleftrightarrow> inbounds_decoded (co_Inbounds c) \<and>
     list_all (\<lambda>(name, n). ptr_rule node_decoded n) (co_Outbounds c) \<and> distinct (map fst (co_Outbounds c)) \<and>
     ptr_rule (\<lambda>r. list_all rule_fresh (ro_Rules r)) (co_Routing c)"

lemma dec_outbounds:
  assumes "dec_map None (dec_ptr zero_ProxyNode ProxyNode_UnmarshalJSONFrom) j s = Inr m"
  shows "list_all (\<lambda>(name, n). ptr_rule node_decoded n) m \<and> distinct (map fst m)"
proof -
  have "ptr_rule node_decoded x" if "dec_ptr zero_ProxyNode ProxyNode_UnmarshalJSONFrom j None = Inr x" for j x
    using that by (rule dec_ptr_rule) (auto simp: ptr_rule_def intro: ProxyNode_decoded)
  then show ?thesis
    using assms dec_entries_all [where new = None and P = "ptr_rule node_decoded"]
    by (fastforce simp: dec_map_def split: json.splits)
qed

lemma config_decoded: "dec_Config j zero_Config = Inr c \<Longrightarrow> config_decoded c"
  unfolding dec_Config_def
proof (erule dec_struct_keeps)
  show "keeps config_decoded
     [fld ''inbounds'' co_Inbounds (\<lambda>x. co_Inbounds_update (\<lambda>_. x)) dec_Inbounds,
      fld ''outbounds'' co_Outbounds (\<lambda>x. co_Outbounds_update (\<lambda>_. x))
        (dec_map None (dec_ptr zero_ProxyNode ProxyNode_UnmarshalJSONFrom)),
      fld ''routing'' co_Routing (\<lambda>x. co_Routing_update (\<lambda>_. x)) (dec_ptr zero_Routing dec_Routing),
      fld ''misc'' co_Misc (\<lambda>x. co_Misc_update (\<lambda>_. x)) Misc_UnmarshalJSONFrom]"
    by (auto simp: config_decoded_def intro: Inbounds_decoded dec_Routing_fresh elim!: dec_ptr_rule
        dest: dec_outbounds simp: zero_Routing_def)
qed (simp_all add: config_decoded_def zero_Config_def zero_Inbounds_def inbounds_decoded_def ptr_rule_def)

section \<open>What the rest of the program relies on\<close>

definition node_ok :: "ProxyNode \<Rightarrow> bool" where
  "node_ok n \<longleftrightarrow> isIPOrHostname (pn_Host n) \<and> (\<exists>pw. pn_Password n = Some pw \<and> length pw = 16) \<and>
     pn_TCPPort n \<noteq> Some 0 \<and> pn_TLSPort n \<noteq> 0 \<and> pn_QUICPort n \<noteq> 0"

definition hg_ok :: "Hg \<Rightarrow> bool" where
  "hg_ok h \<longleftrightarrow> isIPOrHostname (hg_Host h) \<and> (\<exists>pw. hg_Password h = Some pw \<and> length pw = 16) \<and>
     hg_TCPPort h \<noteq> Some 0 \<and> hg_TLSPort h \<noteq> 0 \<and> hg_QUICPort h \<noteq> 0"

definition outbounds_ok :: "(string \<times> ProxyNode option) list \<Rightarrow> bool" where
  "outbounds_ok os \<longleftrightarrow> distinct (map fst os) \<and> (\<forall>name v. map_of os name = Some v \<longrightarrow> (\<exists>n. v = Some n \<and> node_ok n))"

definition policy_ok :: "(string \<times> ProxyNode option) list \<Rightarrow> string \<Rightarrow> bool" where
  "policy_ok os p \<longleftrightarrow> p = DirectPolicy \<or> p = RejectPolicy \<or> (\<exists>n. map_of os p = Some (Some n))"

text \<open>A rule whose matcher has been set up from its written rules with some database.\<close>

definition rule_ready :: "('re, 'ps) rule_env \<Rightarrow> ('re, 'ps) Rule \<Rightarrow> bool" where
  "rule_ready env r \<longleftrightarrow> (\<exists>m store. ru_Matcher r = Some m \<and> SetupRulesData env store (newMatcher (bakedMatchRules m)) = Inr m)"

definition is_ss :: "string \<Rightarrow> bool" where
  "is_ss t \<longleftrightarrow> t = ShadowsocksTransport \<or> t = ShadowsocksTransportAlias"

definition routing_ok :: "('re, 'ps) rule_env \<Rightarrow> (string \<times> ProxyNode option) list \<Rightarrow> ('re, 'ps) Routing \<Rightarrow> bool" where
  "routing_ok env os r \<longleftrightarrow>
     tp_TCP (ro_Transport r) \<in> {ShadowsocksTransport, ShadowsocksTransportAlias, TrojanTransport, TrojanTransportAlias,
       NaiveProxyTransport, NaiveProxyTransportAlias, SunnyQUICTransport, SunnyQUICTransportAlias} \<and>
     (is_ss (tp_TCP (ro_Transport r)) \<longrightarrow> (\<forall>name n. map_of os name = Some (Some n) \<longrightarrow> pn_TCPPort n \<noteq> None)) \<and>
     (\<forall>rule \<in> set (ro_Rules r). ru_Policy rule \<noteq> [] \<and> (ru_Policy rule = FinalPolicy \<or> policy_ok os (ru_Policy rule)) \<and> rule_ready env rule) \<and>
     policy_ok os (ro_Final r)"

definition paths_ok :: "('re, 'ps) Config \<Rightarrow> bool" where
  "paths_ok c \<longleftrightarrow>
     ptr_rule (\<lambda>h. ptr_rule (\<lambda>p. filepath_IsAbs (ck_CertFile p) \<and> filepath_IsAbs (ck_KeyFile p)) (hg_TLSCertKeyPair h) \<and>
       (hg_TLSBadAuthFallbackSiteDir h = [] \<or> filepath_IsAbs (hg_TLSBadAuthFallbackSiteDir h))) (in_Hg (co_Inbounds c)) \<and>
     (\<forall>name n. map_of (co_Outbounds c) name = Some (Some n) \<longrightarrow>
       pn_TLSCustomCertFile n = [] \<or> filepath_IsAbs (pn_TLSCustomCertFile n))"

definition nodes_ok :: "('re, 'ps) Config \<Rightarrow> bool" where
  "nodes_ok c \<longleftrightarrow>
     (in_HTTPSOCKS (co_Inbounds c) \<noteq> None \<or> in_Hg (co_Inbounds c) \<noteq> None) \<and>
     ptr_rule (\<lambda>h. isIPOrHostname (hs_Host h) \<and> hs_Port h \<noteq> 0) (in_HTTPSOCKS (co_Inbounds c)) \<and>
     ptr_rule hg_ok (in_Hg (co_Inbounds c)) \<and> outbounds_ok (co_Outbounds c)"

definition config_ok :: "('re, 'ps) rule_env \<Rightarrow> ('re, 'ps) Config \<Rightarrow> bool" where
  "config_ok env c \<longleftrightarrow>
     (in_HTTPSOCKS (co_Inbounds c) \<noteq> None \<or> in_Hg (co_Inbounds c) \<noteq> None) \<and>
     ptr_rule (\<lambda>h. isIPOrHostname (hs_Host h) \<and> hs_Port h \<noteq> 0) (in_HTTPSOCKS (co_Inbounds c)) \<and>
     ptr_rule hg_ok (in_Hg (co_Inbounds c)) \<and> outbounds_ok (co_Outbounds c) \<and>
     ptr_rule (routing_ok env (co_Outbounds c)) (co_Routing c)"

lemma config_ok_iff: "config_ok env c \<longleftrightarrow> nodes_ok c \<and> ptr_rule (routing_ok env (co_Outbounds c)) (co_Routing c)"
  by (auto simp: config_ok_def nodes_ok_def)

lemma portRules_iff [simp]: "portRules p \<longleftrightarrow> p \<noteq> 0"
proof -
  have "unat p \<le> 65535" using u16_less [of p] by linarith
  then show ?thesis by (simp add: portRules_def word_unat_eq_iff Suc_le_eq)
qed

lemma ptr_rule_simps [simp]: "ptr_rule P None" "ptr_rule P (Some x) \<longleftrightarrow> P x"
  by (simp_all add: ptr_rule_def)

definition resolve_node :: "string \<Rightarrow> ProxyNode \<Rightarrow> ProxyNode" where
  "resolve_node folder n = (if pn_TLSCustomCertFile n \<noteq> []
     then n\<lparr>pn_TLSCustomCertFile := joinIfRelative folder (pn_TLSCustomCertFile n)\<rparr> else n)"

lemma resolve_outbounds_map:
  "resolve_outbounds folder vs = Inr vs' \<Longrightarrow> vs' = map (\<lambda>(k, v). (k, map_option (resolve_node folder) v)) vs"
  by (induction vs arbitrary: vs') (auto simp: resolve_node_def split: option.splits sum.splits)

lemma resolve_outbounds_lookup:
  "resolve_outbounds folder vs = Inr vs' \<Longrightarrow> map_of vs' k = map_option (map_option (resolve_node folder)) (map_of vs k)"
  by (drule resolve_outbounds_map) (simp add: map_of_map)

lemma resolve_outbounds_keys: "resolve_outbounds folder vs = Inr vs' \<Longrightarrow> map fst vs' = map fst vs"
  by (drule resolve_outbounds_map) (induction vs arbitrary: vs', auto)

lemma resolve_node_same [simp]:
  "pn_Host (resolve_node f n) = pn_Host n" "pn_Password (resolve_node f n) = pn_Password n"
  "pn_TCPPort (resolve_node f n) = pn_TCPPort n" "pn_TLSPort (resolve_node f n) = pn_TLSPort n"
  "pn_QUICPort (resolve_node f n) = pn_QUICPort n"
  by (simp_all add: resolve_node_def)

lemma node_ok_resolve [simp]: "node_ok (resolve_node f n) = node_ok n"
  by (simp add: node_ok_def)

lemma hg_ok_resolve [simp]: "hg_ok (resolve_hg f h) = hg_ok h"
  by (simp add: hg_ok_def resolve_hg_def)

lemma filepath_IsAbs_iff: "filepath_IsAbs p \<longleftrightarrow> (\<exists>q. p = CHR ''/'' # q)"
  by (cases p) (auto simp: filepath_IsAbs_def HasPrefix_def)

lemma filepath_IsAbs_Clean: "filepath_IsAbs p \<Longrightarrow> filepath_IsAbs (filepath_Clean p)"
  by (simp add: filepath_IsAbs_def filepath_Clean_def HasPrefix_def Let_def)

lemma joinIfRelative_abs: "filepath_IsAbs folder \<Longrightarrow> filepath_IsAbs (joinIfRelative folder p)"
  using filepath_IsAbs_Clean [of folder] filepath_IsAbs_Clean [of "folder @ ''/'' @ p"]
  by (auto simp: joinIfRelative_def filepath_Join_def filepath_IsAbs_iff)

lemma filepath_Dir_abs: "filepath_IsAbs p \<Longrightarrow> filepath_IsAbs (filepath_Dir p)"
proof -
  assume "filepath_IsAbs p"
  then obtain q where p: "p = CHR ''/'' # q" by (auto simp: filepath_IsAbs_iff)
  then obtain i where i: "LastIndexByte p CHR ''/'' = Some i"
    by (metis LastIndexByte_None list.set_intros(1) option.exhaust)
  have "filepath_IsAbs (take (i + 1) p)" using p by (simp add: filepath_IsAbs_iff)
  with i show ?thesis by (simp add: filepath_Dir_def filepath_IsAbs_Clean)
qed

text \<open>Setting up keeps what was written: the policies in order, and the rules of each matcher.\<close>

lemma SetupRulesData_baked: "SetupRulesData env store m = Inr m' \<Longrightarrow> bakedMatchRules m' = bakedMatchRules m"
  by (auto simp: SetupRulesData_def split: sum.splits)

lemma setup_rule_list_ok:
  "setup_rule_list env store rs = Inr rs' \<Longrightarrow> list_all rule_fresh rs \<Longrightarrow>
     map ru_Policy rs' = map ru_Policy rs \<and> list_all (rule_ready env) rs' \<and> copy_rules rs' = Inr rs"
proof (induction rs arbitrary: rs')
  case Nil
  then show ?case by simp
next
  case (Cons r rs)
  from Cons.prems(1) obtain m m' rs1 where m: "ru_Matcher r = Some m" "SetupRulesData env store m = Inr m'"
    "setup_rule_list env store rs = Inr rs1" "rs' = r\<lparr>ru_Matcher := Some m'\<rparr> # rs1"
    by (auto split: option.splits sum.splits)
  from Cons.prems(2) m(1) have fresh: "m = newMatcher (bakedMatchRules m)" by (simp add: rule_fresh_def)
  have bk: "bakedMatchRules m' = bakedMatchRules m" by (rule SetupRulesData_baked [OF m(2)])
  then have "SetupRulesData env store (newMatcher (bakedMatchRules m')) = Inr m'" using m(2) fresh by simp
  then have "rule_ready env (r\<lparr>ru_Matcher := Some m'\<rparr>)" by (auto simp: rule_ready_def)
  moreover have "\<lparr>ru_Matcher = Some (CopyWithBakedRulesOnly m'), ru_Policy = ru_Policy r\<rparr> = r"
    using m(1) fresh bk by (simp add: CopyWithBakedRulesOnly_def)
  ultimately show ?case using Cons.IH [OF m(3)] Cons.prems(2) m(4) by simp
qed

text \<open>The steps of a \<open>Parse\<close> that succeeds.\<close>

lemma Parse_Inr:
  assumes "Parse env openStore ReadFile parseText path db = Inr c"
  obtains bs j c0 c1 where "ReadFile path = Inr bs" "parseText bs = Inr j" "dec_Config j zero_Config = Inr c0"
    "c1 = (case co_Routing c0 of None \<Rightarrow> c0 | Some r \<Rightarrow> if db = [] then c0
       else c0\<lparr>co_Routing := Some (r\<lparr>ro_Rules := projr (setupRulesData env openStore (ro_Rules r) db)\<rparr>)\<rparr>)"
    "case co_Routing c0 of None \<Rightarrow> True | Some r \<Rightarrow> db = [] \<or> (\<exists>rs. setupRulesData env openStore (ro_Rules r) db = Inr rs)"
    "validate c1 = Inr ()" "resolveAllFilePathsToConfigFolder c1 (filepath_Dir path) = Inr c"
  using assms by (auto simp: Parse_def split: sum.splits option.splits if_splits)

lemma validate_Inr:
  "validate c = Inr () \<longleftrightarrow> inboundsValidator (co_Inbounds c) \<and>
     list_all (\<lambda>(name, proxyNode). proxyNodeValidator proxyNode) (co_Outbounds c) \<and>
     ptr_rule (routingValidator (co_Outbounds c)) (co_Routing c) \<and>
     miscValidator (co_Misc c) \<and> nonNullValueOutboundsRules (co_Outbounds c)"
  by (simp add: validate_def)

lemma outbounds_ok_intro:
  assumes "list_all (\<lambda>(name, n). ptr_rule node_decoded n) os" "distinct (map fst os)"
    "list_all (\<lambda>(name, n). proxyNodeValidator n) os" "nonNullValueOutboundsRules os"
  shows "outbounds_ok os"
proof -
  have "\<exists>n. v = Some n \<and> node_ok n" if "map_of os name = Some v" for name v
  proof -
    from map_of_SomeD [OF that] assms have v: "ptr_rule node_decoded v" "proxyNodeValidator v" "v \<noteq> None"
      by (auto simp: list_all_iff nonNullValueOutboundsRules_def)
    then show ?thesis
      by (auto simp: proxyNodeValidator_def hostRule_def node_ok_def node_decoded_def password_ok_def)
  qed
  with assms(2) show ?thesis by (auto simp: outbounds_ok_def)
qed

lemma outbounds_ok_resolve:
  "outbounds_ok os \<Longrightarrow> resolve_outbounds folder os = Inr os' \<Longrightarrow> outbounds_ok os'"
  by (auto simp: outbounds_ok_def resolve_outbounds_keys resolve_outbounds_lookup) fastforce

lemma policy_ok_intro:
  assumes "p = DirectPolicy \<or> p = RejectPolicy \<or> map_of os p \<noteq> None" "outbounds_ok os"
    "resolve_outbounds folder os = Inr os'"
  shows "policy_ok os' p"
  using assms by (fastforce simp: policy_ok_def outbounds_ok_def resolve_outbounds_lookup)

lemma routing_ok_intro:
  assumes r: "routingValidator os r" and ready: "list_all (rule_ready env) (ro_Rules r)"
    and os: "outbounds_ok os" "resolve_outbounds folder os = Inr os'"
  shows "routing_ok env os' r"
proof -
  have t: "transportValidator os (ro_Transport r)" and rl: "list_all (ruleValidator os) (ro_Rules r)"
    and f: "ro_Final r = DirectPolicy \<or> ro_Final r = RejectPolicy \<or> map_of os (ro_Final r) \<noteq> None"
    using r by (simp_all add: routingValidator_def)
  have "pn_TCPPort n \<noteq> None" if "is_ss (tp_TCP (ro_Transport r))" "map_of os' name = Some (Some n)" for name n
  proof -
    from that(2) resolve_outbounds_lookup [OF os(2), of name] obtain n0 where n0: "map_of os name = Some (Some n0)"
      "n = resolve_node folder n0" by auto
    with map_of_SomeD [OF n0(1)] t that(1) show ?thesis
      by (auto simp: transportValidator_def is_ss_def list_all_iff)
  qed
  moreover have "ru_Policy rule \<noteq> [] \<and> (ru_Policy rule = FinalPolicy \<or> policy_ok os' (ru_Policy rule)) \<and> rule_ready env rule"
    if "rule \<in> set (ro_Rules r)" for rule
  proof -
    have "ruleValidator os rule" "rule_ready env rule" using that rl ready by (auto simp: list_all_iff)
    then show ?thesis using policy_ok_intro [OF _ os, of "ru_Policy rule"] by (auto simp: ruleValidator_def policy_defs)
  qed
  moreover have "policy_ok os' (ro_Final r)" by (rule policy_ok_intro [OF f os])
  ultimately show ?thesis using t by (auto simp: routing_ok_def transportValidator_def)
qed

section \<open>Properties\<close>

text \<open>What holds of a configuration that was read.\<close>

lemma Parse_ok:
  assumes "Parse env openStore ReadFile parseText path db = Inr c"
  shows "nodes_ok c \<and> (db \<noteq> [] \<longrightarrow> ptr_rule (routing_ok env (co_Outbounds c)) (co_Routing c))"
proof -
  from assms obtain bs j c0 c1 where p: "dec_Config j zero_Config = Inr c0"
    "c1 = (case co_Routing c0 of None \<Rightarrow> c0 | Some r \<Rightarrow> if db = [] then c0
       else c0\<lparr>co_Routing := Some (r\<lparr>ro_Rules := projr (setupRulesData env openStore (ro_Rules r) db)\<rparr>)\<rparr>)"
    "case co_Routing c0 of None \<Rightarrow> True | Some r \<Rightarrow> db = [] \<or> (\<exists>rs. setupRulesData env openStore (ro_Rules r) db = Inr rs)"
    "validate c1 = Inr ()" "resolveAllFilePathsToConfigFolder c1 (filepath_Dir path) = Inr c"
    by (rule Parse_Inr)
  have dec: "config_decoded c0" by (rule config_decoded [OF p(1)])
  have same: "co_Inbounds c1 = co_Inbounds c0" "co_Outbounds c1 = co_Outbounds c0"
    using p(2) by (auto split: option.splits)
  from p(5) obtain os' where os': "resolve_outbounds (filepath_Dir path) (co_Outbounds c0) = Inr os'"
    and c: "co_Inbounds c = (co_Inbounds c0)\<lparr>in_Hg := map_option (resolve_hg (filepath_Dir path)) (in_Hg (co_Inbounds c0))\<rparr>"
      "co_Outbounds c = os'" "co_Routing c = co_Routing c1"
    using same by (auto simp: resolveAllFilePathsToConfigFolder_def split: sum.splits)
  note v = p(4) [unfolded validate_Inr same]
  have os: "outbounds_ok (co_Outbounds c0)"
    by (rule outbounds_ok_intro) (use dec v in \<open>simp_all add: config_decoded_def\<close>)
  have "ptr_rule (routing_ok env os') (co_Routing c1)" if "db \<noteq> []"
  proof (cases "co_Routing c0")
    case None
    with p(2) show ?thesis by simp
  next
    case (Some r)
    with p(3) that obtain rs where rs: "setupRulesData env openStore (ro_Rules r) db = Inr rs" by auto
    then obtain store where "setup_rule_list env store (ro_Rules r) = Inr rs" by (auto simp: setupRulesData_def split: sum.splits)
    from setup_rule_list_ok [OF this] dec Some have "list_all (rule_ready env) rs" by (simp add: config_decoded_def)
    moreover have c1: "co_Routing c1 = Some (r\<lparr>ro_Rules := rs\<rparr>)" using p(2) Some rs that by simp
    moreover have "routingValidator (co_Outbounds c0) (r\<lparr>ro_Rules := rs\<rparr>)" using v c1 by simp
    ultimately show ?thesis using routing_ok_intro [OF _ _ os os', where r = "r\<lparr>ro_Rules := rs\<rparr>" and env = env] by simp
  qed
  moreover have "ptr_rule hg_ok (in_Hg (co_Inbounds c0))"
    using v dec by (cases "in_Hg (co_Inbounds c0)")
      (auto simp: inboundsValidator_def hgValidator_def hostRule_def hg_ok_def config_decoded_def inbounds_decoded_def
        hg_decoded_def password_ok_def)
  then have "ptr_rule hg_ok (in_Hg (co_Inbounds c))"
    using c(1) by (cases "in_Hg (co_Inbounds c0)") simp_all
  moreover have "ptr_rule (\<lambda>h. isIPOrHostname (hs_Host h) \<and> hs_Port h \<noteq> 0) (in_HTTPSOCKS (co_Inbounds c))"
    using v c(1) by (cases "in_HTTPSOCKS (co_Inbounds c0)") (auto simp: inboundsValidator_def httpSOCKSValidator_def hostRule_def)
  ultimately show ?thesis
    using outbounds_ok_resolve [OF os os'] c v by (auto simp: nodes_ok_def inboundsValidator_def)
qed

lemmas Parse_nodes_ok = Parse_ok [THEN conjunct1]

lemma Parse_config_ok:
  assumes "Parse env openStore ReadFile parseText path db = Inr c" "db \<noteq> []"
  shows "config_ok env c"
  using Parse_ok [OF assms(1)] assms(2) by (simp add: config_ok_iff)

text \<open>
  C2. A configuration that \<open>Parse\<close> accepts is one the rest of the program can run with: an
  inbound is present, hosts and ports are usable, every password has 16 bytes, no outbound is
  nil, the transport is one of the supported ones and has the ports it needs, every policy
  leads somewhere, and every matcher has been set up from the database.
\<close>

theorem parse_accepts:
  assumes "Parse env openStore ReadFile parseText path db = Inr c" "db \<noteq> []"
  shows "config_ok env c"
  using assms by (rule Parse_config_ok)

text \<open>
  A path in an accepted configuration is absolute when the configuration's own path is: the
  certificate and key files, the fallback site and the certificates of the outbounds.
\<close>

theorem parse_paths_absolute:
  assumes "Parse env openStore ReadFile parseText path db = Inr c" "filepath_IsAbs path"
  shows "paths_ok c"
proof -
  from assms(1) obtain c1 where "resolveAllFilePathsToConfigFolder c1 (filepath_Dir path) = Inr c" by (rule Parse_Inr)
  then obtain os' where os': "resolve_outbounds (filepath_Dir path) (co_Outbounds c1) = Inr os'"
    and c: "in_Hg (co_Inbounds c) = map_option (resolve_hg (filepath_Dir path)) (in_Hg (co_Inbounds c1))" "co_Outbounds c = os'"
    by (auto simp: resolveAllFilePathsToConfigFolder_def split: sum.splits)
  note abs = joinIfRelative_abs [OF filepath_Dir_abs [OF assms(2)]]
  have "pn_TLSCustomCertFile n = [] \<or> filepath_IsAbs (pn_TLSCustomCertFile n)"
    if "map_of os' name = Some (Some n)" for name n
    using that abs by (auto simp: resolve_outbounds_lookup [OF os'] resolve_node_def)
  moreover have "ptr_rule (\<lambda>h. ptr_rule (\<lambda>p. filepath_IsAbs (ck_CertFile p) \<and> filepath_IsAbs (ck_KeyFile p)) (hg_TLSCertKeyPair h) \<and>
       (hg_TLSBadAuthFallbackSiteDir h = [] \<or> filepath_IsAbs (hg_TLSBadAuthFallbackSiteDir h))) (in_Hg (co_Inbounds c))"
  proof (cases "in_Hg (co_Inbounds c1)")
    case None
    with c show ?thesis by simp
  next
    case (Some h)
    with c abs show ?thesis by (cases "hg_TLSCertKeyPair h") (auto simp: resolve_hg_def)
  qed
  ultimately show ?thesis using c by (simp add: paths_ok_def)
qed

text \<open>
  A routing rule without \<open>match\<close> crashes the start: the rule data are set up before the
  configuration is validated, and the nil matcher is dereferenced. The validator that asks for
  a matcher reports the same configuration only when no database is given.
\<close>

theorem parse_missing_match_panics:
  fixes env :: "('re, 'ps) rule_env" and c0 :: "('re, 'ps) Config"
  assumes "ReadFile path = Inr bs" "parseText bs = Inr j" "dec_Config j zero_Config = Inr c0"
    "co_Routing c0 = Some r" "ro_Rules r = first # rest" "ru_Matcher first = None" "openStore db = Inr store" "db \<noteq> []"
  shows "Parse env openStore ReadFile parseText path db = Inl (Panic ''nil pointer dereference'') \<and>
    Parse env openStore ReadFile parseText path [] =
      Inl (ErrWrap ''fail to parse the config file'' (ErrNew ''validation failed''))"
proof
  show "Parse env openStore ReadFile parseText path db = Inl (Panic ''nil pointer dereference'')"
    using assms by (simp add: Parse_def setupRulesData_def reword_def)
  have "\<not> ptr_rule (routingValidator (co_Outbounds c0)) (co_Routing c0)"
    using assms(4-6) by (simp add: routingValidator_def ruleValidator_def)
  with assms show "Parse env openStore ReadFile parseText path [] =
      Inl (ErrWrap ''fail to parse the config file'' (ErrNew ''validation failed''))"
    by (simp add: Parse_def validate_def)
qed

text \<open>
  The password of a configuration is the 16 bytes whose hexadecimal form is written: every
  16 bytes can be written, and nothing but 32 digits is accepted.
\<close>

theorem password_roundtrip:
  "(length bs = 16 \<longrightarrow> Password_UnmarshalJSONFrom (JStr (bytes_str (hex_Encode bs))) pw = Inr bs) \<and>
   (\<forall>j bs'. Password_UnmarshalJSONFrom j pw = Inr bs' \<longrightarrow>
      length bs' = 16 \<and> (\<exists>s. j = JStr s \<and> length s = 32 \<and> hex_DecodeString s = Some bs'))"
proof -
  have "length s = 32" if "hex_DecodeString s = Some bs'" "length bs' = 16" for s bs'
    using hex_DecodeString_length [OF that(1)] that(2) by simp
  then show ?thesis
    by (auto simp: Password_UnmarshalJSONFrom_def dec_string_def hex_Decode_Encode
        split: sum.splits option.splits if_splits json.splits)
qed

theorem password_roundtrip_witness:
  "Password_UnmarshalJSONFrom (JStr (bytes_str (hex_Encode (replicate 16 255)))) [] = Inr (replicate 16 255)"
  using password_roundtrip [of "replicate 16 255" "[]", THEN conjunct1] by simp

section \<open>A sample configuration\<close>

definition sample_node :: ProxyNode where
  "sample_node = \<lparr>pn_Host = ''b'', pn_Password = Some (replicate 16 0), pn_TCPPort = None, pn_TLSPort = 443,
     pn_TLSCustomCertFile = ''c.pem'', pn_QUICPort = 443\<rparr>"

definition sample_json :: "json list \<Rightarrow> json" where
  "sample_json rules = JObj
     [(''inbounds'', JObj [(''http-socks'', JObj [(''host'', JStr ''a'')])]),
      (''outbounds'', JObj [(''n'', JObj [(''host'', JStr ''b''), (''password'', JStr (bytes_str (hex_Encode (replicate 16 0)))),
         (''tls-cert'', JStr ''c.pem'')])]),
      (''routing'', JObj [(''transport'', JObj [(''tcp'', JStr ''tr'')]), (''rules'', JArr rules), (''final'', JStr ''n'')])]"

definition sample_rule :: json where
  "sample_rule = JObj [(''match'', JArr [JStr ''domain-full/x'']), (''policy'', JStr ''reject'')]"

definition sample_conf :: "('re, 'ps) Rule list \<Rightarrow> ('re, 'ps) Config" where
  "sample_conf rules =
     \<lparr>co_Inbounds = \<lparr>in_HTTPSOCKS = Some \<lparr>hs_Host = ''a'', hs_Port = 1080, hs_Username = [], hs_Password = [], hs_SystemProxy = False\<rparr>,
        in_Hg = None\<rparr>,
      co_Outbounds = [(''n'', Some sample_node)],
      co_Routing = Some \<lparr>ro_Transport = \<lparr>tp_TCP = ''tr'', tp_UDP = []\<rparr>, ro_Rules = rules, ro_Final = ''n''\<rparr>,
      co_Misc = zero_Misc\<rparr>"

lemma sample_password: "Password_UnmarshalJSONFrom (JStr (bytes_str (hex_Encode (replicate 16 0)))) pw = Inr (replicate 16 0)"
  by (simp add: Password_UnmarshalJSONFrom_def dec_string_def hex_Decode_Encode)

lemmas decode_defs = dec_struct_def fld_def dec_string_def dec_uint16_def dec_bool_def dec_ptr_def dec_slice_def dec_map_def

lemma sample_decode:
  "dec_elems zero_Rule dec_Rule js = Inr rules \<Longrightarrow> dec_Config (sample_json js) zero_Config = Inr (sample_conf rules)"
  by (simp add: sample_json_def sample_conf_def dec_Config_def decode_defs zero_Config_def zero_Inbounds_def dec_Inbounds_def
      HTTPSOCKS_UnmarshalJSONFrom_def zero_HTTPSOCKS_def defaultHTTPSOCKSPort_def ProxyNode_UnmarshalJSONFrom_def
      zero_ProxyNode_def defaultTLSPort_def defaultQUICPort_def sample_password sample_node_def dec_Routing_def dec_Transport_def
      zero_Routing_def zero_Transport_def)

lemma sample_rule_decode:
  "dec_elems zero_Rule dec_Rule [sample_rule] = Inr [\<lparr>ru_Matcher = Some (newMatcher [''domain-full/x'']), ru_Policy = ''reject''\<rparr>]"
  by (simp add: sample_rule_def dec_Rule_def decode_defs zero_Rule_def Matcher_UnmarshalJSONFrom_def)

definition sample_ready :: "(string, prefix list) Rule" where
  "sample_ready = \<lparr>ru_Matcher = Some ((newMatcher [''domain-full/x''])\<lparr>
      domainMatcher := addDomainFullRule newDomainFullAndSuffixMatcher ''x'', ipCidrMatcher := Some []\<rparr>), ru_Policy = ''reject''\<rparr>"

lemma sample_setup:
  "setupRulesData sample_env (\<lambda>_. Inr sample_store) [\<lparr>ru_Matcher = Some (newMatcher [''domain-full/x'']), ru_Policy = ''reject''\<rparr>] ''d''
     = Inr [sample_ready]"
  by (simp add: setupRulesData_def SetupRulesData_def newMatcher_def setup_rule_def rule_prefix_defs HasPrefix_def
      TrimPrefix_def sample_ready_def sample_env_def)

lemma sample_hosts: "isIPOrHostname ''a''" "isIPOrHostname ''b''"
  by code_simp+

lemma sample_valid: "validate (sample_conf [sample_ready]) = Inr ()"
  by (simp add: validate_Inr sample_conf_def inboundsValidator_def httpSOCKSValidator_def hostRule_def sample_hosts
      proxyNodeValidator_def sample_node_def routingValidator_def transportValidator_def transport_defs
      ruleValidator_def sample_ready_def miscValidator_def zero_Misc_def nonNullValueOutboundsRules_def)

definition sample_resolved :: "(string, prefix list) Config" where
  "sample_resolved = (sample_conf [sample_ready])\<lparr>co_Outbounds := [(''n'', Some (sample_node\<lparr>pn_TLSCustomCertFile := ''/e/c.pem''\<rparr>))]\<rparr>"

lemma sample_join: "filepath_Dir ''/e/f'' = ''/e''" "joinIfRelative ''/e'' ''c.pem'' = ''/e/c.pem''"
  by code_simp+

lemma sample_parse:
  "Parse sample_env (\<lambda>_. Inr sample_store) (\<lambda>_. Inr []) (\<lambda>_. Inr (sample_json [sample_rule])) ''/e/f'' ''d'' = Inr sample_resolved"
proof -
  let ?rule = "\<lparr>ru_Matcher = Some (newMatcher [''domain-full/x'']), ru_Policy = ''reject''\<rparr> :: (string, prefix list) Rule"
  have dec: "dec_Config (sample_json [sample_rule]) zero_Config = Inr (sample_conf [?rule])"
    by (rule sample_decode [OF sample_rule_decode])
  obtain r where r: "co_Routing (sample_conf [?rule]) = Some r" "ro_Rules r = [?rule]"
    "(sample_conf [?rule])\<lparr>co_Routing := Some (r\<lparr>ro_Rules := [sample_ready]\<rparr>)\<rparr> = sample_conf [sample_ready]"
    by (simp add: sample_conf_def)
  have "resolveAllFilePathsToConfigFolder (sample_conf [sample_ready]) ''/e'' = Inr sample_resolved"
    by (simp add: resolveAllFilePathsToConfigFolder_def sample_conf_def sample_resolved_def sample_node_def sample_join)
  with dec r sample_setup sample_valid show ?thesis by (simp add: Parse_def sample_join)
qed

lemma sample_config_ok: "config_ok sample_env sample_resolved"
  by (rule Parse_config_ok [OF sample_parse]) simp

theorem parse_accepts_witness: "config_ok sample_env sample_resolved"
  by (rule parse_accepts [OF sample_parse]) simp

theorem parse_paths_absolute_witness: "paths_ok sample_resolved"
  by (rule parse_paths_absolute [OF sample_parse]) (simp add: filepath_IsAbs_iff)

theorem parse_missing_match_panics_witness:
  "Parse sample_env (\<lambda>_. Inr sample_store) (\<lambda>_. Inr []) (\<lambda>_. Inr (sample_json [JObj [(''policy'', JStr ''reject'')]])) ''/e/f'' ''d''
     = Inl (Panic ''nil pointer dereference'')"
proof -
  let ?rule = "\<lparr>ru_Matcher = None, ru_Policy = ''reject''\<rparr> :: (string, prefix list) Rule"
  let ?r = "\<lparr>ro_Transport = \<lparr>tp_TCP = ''tr'', tp_UDP = []\<rparr>, ro_Rules = [?rule], ro_Final = ''n''\<rparr> :: (string, prefix list) Routing"
  have "dec_elems zero_Rule dec_Rule [JObj [(''policy'', JStr ''reject'')]] = Inr [?rule]"
    by (simp add: dec_Rule_def decode_defs zero_Rule_def)
  note d = sample_decode [OF this]
  have "co_Routing (sample_conf [?rule]) = Some ?r" by (simp add: sample_conf_def)
  from parse_missing_match_panics [where env = sample_env and r = ?r and db = "''d''" and rest = "[]" and first = ?rule, OF refl refl d this, THEN conjunct1]
  show ?thesis by simp
qed

end
