(* ===== verification/NetUtil.thy ===== *)
theory NetUtil
  imports Conf Relay "HOL-Library.Multiset"
begin

text \<open>
  The network layer, \<open>util/netutil\<close>: the cached TLS configurations of clients and servers
  (\<open>tls.go\<close>), the listening loops and their registry, and the listener that takes connections from
  another server (\<open>listener.go\<close>). Reading and parsing certificates, opening the key log and
  the system's listening calls are arguments.
\<close>

section \<open>TLS configurations\<close>

text \<open>
  The fields of \<open>tls.Config\<close> the program sets. A session cache is named by a number, so that
  two configurations share a cache exactly when their numbers are equal.
\<close>

record tls_config =
  tc_ServerName :: string
  tc_RootCAs :: "bytes option"
  tc_Certificates :: "(string \<times> string) list"
  tc_AutoCertHost :: "string option"
  tc_NextProtos :: "string list"
  tc_KeyLog :: bool
  tc_SessionCache :: nat

definition h2ALPN :: "string list" where "h2ALPN = [''h2'', ''http/1.1'']"
definition h3ALPN :: "string list" where "h3ALPN = [''h3'']"

definition new_tls_config :: tls_config where
  "new_tls_config = \<lparr>tc_ServerName = [], tc_RootCAs = None, tc_Certificates = [], tc_AutoCertHost = None,
     tc_NextProtos = [], tc_KeyLog = False, tc_SessionCache = 0\<rparr>"

text \<open>The four maps of the package, the next session cache and whether the key log is removed at exit.\<close>

record tls_state =
  tlsH2ClientConfigMap :: "string \<rightharpoonup> tls_config"
  tlsH3ClientConfigMap :: "string \<rightharpoonup> tls_config"
  tlsH2ServerConfigMap :: "string \<rightharpoonup> tls_config"
  tlsH3ServerConfigMap :: "string \<rightharpoonup> tls_config"
  tls_nextCache :: nat
  tlsKeyLogFileRemovalOnce :: bool

text \<open>
  The files: reading a certificate, the names in the first certificate of a PEM text, creating
  the directory and opening the key log, loading a server's key pair.
\<close>

record tls_env =
  te_ReadFile :: "string \<Rightarrow> bytes res"
  te_DNSNames :: "bytes \<Rightarrow> string list res"
  te_MkdirAll :: "goerr option"
  te_OpenKeyLog :: "goerr option"
  te_LoadX509KeyPair :: "string \<Rightarrow> string \<Rightarrow> goerr option"

definition client_base_config :: "tls_env \<Rightarrow> string \<Rightarrow> string \<Rightarrow> tls_config res" where
  "client_base_config env host tlsCustomCertFile =
     (if tlsCustomCertFile = [] then Inr (new_tls_config\<lparr>tc_ServerName := host\<rparr>)
      else (case te_ReadFile env tlsCustomCertFile of
         Inl err \<Rightarrow> Inl err
       | Inr certBs \<Rightarrow>
           (case te_DNSNames env certBs of
              Inl err \<Rightarrow> Inl err
            | Inr [] \<Rightarrow> Inl (ErrNew ''no DNSNames in the TLS certificate'')
            | Inr (name # names) \<Rightarrow> Inr (new_tls_config\<lparr>tc_RootCAs := Some certBs, tc_ServerName := name\<rparr>))))"

definition open_key_log :: "tls_env \<Rightarrow> tls_config \<Rightarrow> (tls_state, tls_config) io" where
  "open_key_log env cfg s =
     (case te_MkdirAll env of
        Some err \<Rightarrow> (Inl err, s)
      | None \<Rightarrow>
          (case te_OpenKeyLog env of
             Some err \<Rightarrow> (Inl err, s)
           | None \<Rightarrow> (Inr (cfg\<lparr>tc_KeyLog := True\<rparr>), s\<lparr>tlsKeyLogFileRemovalOnce := True\<rparr>)))"

text \<open>The two configurations made of one: each with its protocols and a session cache of its own.\<close>

definition h2_of :: "tls_config \<Rightarrow> nat \<Rightarrow> tls_config" where
  "h2_of cfg n = cfg\<lparr>tc_NextProtos := h2ALPN, tc_SessionCache := n\<rparr>"

definition h3_of :: "tls_config \<Rightarrow> nat \<Rightarrow> tls_config" where
  "h3_of cfg n = cfg\<lparr>tc_NextProtos := h3ALPN, tc_SessionCache := Suc n\<rparr>"

definition store_client_configs :: "string \<Rightarrow> bool \<Rightarrow> tls_config \<Rightarrow> (tls_state, tls_config) io" where
  "store_client_configs host http3 cfg s =
     (let n = tls_nextCache s; h2 = h2_of cfg n; h3 = h3_of cfg n in
      (Inr (if http3 then h3 else h2),
       s\<lparr>tlsH2ClientConfigMap := (tlsH2ClientConfigMap s)(host \<mapsto> h2), tlsH3ClientConfigMap := (tlsH3ClientConfigMap s)(host \<mapsto> h3),
         tls_nextCache := n + 2\<rparr>))"

definition TLSClientConfig :: "tls_env \<Rightarrow> string \<Rightarrow> string \<Rightarrow> bool \<Rightarrow> bool \<Rightarrow> (tls_state, tls_config) io" where
  "TLSClientConfig env host tlsCustomCertFile tlsKeyLog http3 s =
     (case (if http3 then tlsH3ClientConfigMap s host else tlsH2ClientConfigMap s host) of
        Some tlsConfig \<Rightarrow> (Inr tlsConfig, s)
      | None \<Rightarrow>
          io_bind (io_lift (client_base_config env host tlsCustomCertFile)) (\<lambda>cfg.
          io_bind (if tlsKeyLog then open_key_log env cfg else io_ret cfg) (store_client_configs host http3)) s)"

definition store_server_configs :: "string \<Rightarrow> bool \<Rightarrow> tls_config \<Rightarrow> (tls_state, tls_config) io" where
  "store_server_configs host http3 cfg s =
     (let n = tls_nextCache s; h2 = h2_of cfg n; h3 = h3_of cfg n in
      (Inr (if http3 then h3 else h2),
       s\<lparr>tlsH2ServerConfigMap := (tlsH2ServerConfigMap s)(host \<mapsto> h2), tlsH3ServerConfigMap := (tlsH3ServerConfigMap s)(host \<mapsto> h3),
         tls_nextCache := n + 2\<rparr>))"

definition TLSServerConfig :: "tls_env \<Rightarrow> string \<Rightarrow> TLSCertKeyPair option \<Rightarrow> bool \<Rightarrow> (tls_state, tls_config) io" where
  "TLSServerConfig env host tlsCertKeyPair http3 s =
     (case (if http3 then tlsH3ServerConfigMap s host else tlsH2ServerConfigMap s host) of
        Some tlsConfig \<Rightarrow> (Inr tlsConfig, s)
      | None \<Rightarrow>
          (case tlsCertKeyPair of
             None \<Rightarrow> store_server_configs host http3 (new_tls_config\<lparr>tc_AutoCertHost := Some host\<rparr>) s
           | Some pair \<Rightarrow>
               (case te_LoadX509KeyPair env (ck_CertFile pair) (ck_KeyFile pair) of
                  Some err \<Rightarrow> (Inl err, s)
                | None \<Rightarrow> store_server_configs host http3
                    (new_tls_config\<lparr>tc_Certificates := [(ck_CertFile pair, ck_KeyFile pair)]\<rparr>) s)))"

text \<open>
  What a client configuration of a host must be: it trusts the certificate file given for it,
  and speaks the protocols asked for.
\<close>

definition client_config_for :: "tls_env \<Rightarrow> string \<Rightarrow> string \<Rightarrow> bool \<Rightarrow> tls_config \<Rightarrow> bool" where
  "client_config_for env host certFile http3 cfg \<longleftrightarrow>
     tc_NextProtos cfg = (if http3 then h3ALPN else h2ALPN) \<and>
     (\<exists>base. client_base_config env host certFile = Inr base \<and>
        tc_RootCAs cfg = tc_RootCAs base \<and> tc_ServerName cfg = tc_ServerName base)"

text \<open>The invariant of the client maps, for the certificate file that each host is configured with.\<close>

definition tls_inv :: "tls_env \<Rightarrow> (string \<Rightarrow> string) \<Rightarrow> tls_state \<Rightarrow> bool" where
  "tls_inv env certs s \<longleftrightarrow>
     (\<forall>host. (\<forall>cfg. tlsH2ClientConfigMap s host = Some cfg \<longrightarrow> client_config_for env host (certs host) False cfg) \<and>
       (\<forall>cfg. tlsH3ClientConfigMap s host = Some cfg \<longrightarrow> client_config_for env host (certs host) True cfg))"

definition empty_tls :: tls_state where
  "empty_tls = \<lparr>tlsH2ClientConfigMap = Map.empty, tlsH3ClientConfigMap = Map.empty, tlsH2ServerConfigMap = Map.empty,
     tlsH3ServerConfigMap = Map.empty, tls_nextCache = 0, tlsKeyLogFileRemovalOnce = False\<rparr>"

lemma tls_inv_empty [simp]: "tls_inv env certs empty_tls"
  by (simp add: tls_inv_def empty_tls_def)

lemma TLSClientConfig_sound:
  assumes "tls_inv env certs s" "TLSClientConfig env host (certs host) keyLog http3 s = (res, s')"
  shows "tls_inv env certs s' \<and> (\<forall>cfg. res = Inr cfg \<longrightarrow> client_config_for env host (certs host) http3 cfg)"
proof (cases "if http3 then tlsH3ClientConfigMap s host else tlsH2ClientConfigMap s host")
  case (Some cfg)
  with assms show ?thesis by (auto simp: TLSClientConfig_def tls_inv_def split: if_splits)
next
  case None
  show ?thesis
  proof (cases "client_base_config env host (certs host)")
    case (Inl e)
    with None assms show ?thesis by (auto simp: TLSClientConfig_def io_bind_def split: if_splits)
  next
    case (Inr base)
    obtain res1 s1 where r: "(if keyLog then open_key_log env base else io_ret base) s = (res1, s1)" by (metis surj_pair)
    have maps: "tlsH2ClientConfigMap s1 = tlsH2ClientConfigMap s" "tlsH3ClientConfigMap s1 = tlsH3ClientConfigMap s"
      and cfg: "res1 = Inr cfg \<Longrightarrow> tc_RootCAs cfg = tc_RootCAs base \<and> tc_ServerName cfg = tc_ServerName base" for cfg
      using r by (cases keyLog; auto simp: open_key_log_def split: option.splits)+
    have run: "TLSClientConfig env host (certs host) keyLog http3 s = io_bind (io_lift res1) (store_client_configs host http3) s1"
      using None Inr r by (simp add: TLSClientConfig_def io_bind_def)
    show ?thesis
    proof (cases res1)
      case (Inl e)
      with run assms maps show ?thesis by (auto simp: io_bind_def tls_inv_def)
    next
      case (Inr cfg1)
      from cfg [OF this] Inr have "client_config_for env host (certs host) False (h2_of cfg1 n)"
        "client_config_for env host (certs host) True (h3_of cfg1 n)" for n
        using \<open>client_base_config env host (certs host) = Inr base\<close> by (auto simp: client_config_for_def h2_of_def h3_of_def)
      with run Inr assms maps show ?thesis
        by (auto simp: io_bind_def tls_inv_def store_client_configs_def Let_def)
    qed
  qed
qed

text \<open>Both pairs of maps are memos: a configuration that was built is the one every later caller gets.\<close>

definition client_cache :: "bool \<Rightarrow> tls_state \<Rightarrow> string \<rightharpoonup> tls_config" where
  "client_cache http3 s = (if http3 then tlsH3ClientConfigMap s else tlsH2ClientConfigMap s)"

definition server_cache :: "bool \<Rightarrow> tls_state \<Rightarrow> string \<rightharpoonup> tls_config" where
  "server_cache http3 s = (if http3 then tlsH3ServerConfigMap s else tlsH2ServerConfigMap s)"

lemma open_key_log_maps [simp]:
  "open_key_log env cfg s = (r, t) \<Longrightarrow> client_cache http3 t = client_cache http3 s"
  by (auto simp: open_key_log_def client_cache_def split: option.splits)

interpretation client_tls: memo "client_cache http3" "\<lambda>host. TLSClientConfig env host (certs host) tlsKeyLog http3"
  for env certs tlsKeyLog http3
proof (unfold_locales, goal_cases)
  case (1 s host v) then show ?case by (cases http3) (simp_all add: TLSClientConfig_def client_cache_def)
next
  case (2 host s r t j v)
  then show ?case
    by (cases "client_cache http3 s host")
       (auto simp: TLSClientConfig_def client_cache_def store_client_configs_def open_key_log_def io_bind_def Let_def
        split: sum.splits option.splits if_splits)
next
  case (3 host s v t)
  then show ?case
    by (cases "client_cache http3 s host")
       (auto simp: TLSClientConfig_def client_cache_def store_client_configs_def io_bind_def Let_def
        split: sum.splits option.splits if_splits prod.splits)
qed

interpretation server_tls: memo "server_cache http3" "\<lambda>host. TLSServerConfig env host (pairs host) http3"
  for env pairs http3
proof (unfold_locales, goal_cases)
  case (1 s host v) then show ?case by (cases http3) (simp_all add: TLSServerConfig_def server_cache_def)
next
  case (2 host s r t j v)
  then show ?case
    by (cases "server_cache http3 s host")
       (auto simp: TLSServerConfig_def server_cache_def store_server_configs_def Let_def
        split: sum.splits option.splits if_splits)
next
  case (3 host s v t)
  then show ?case
    by (cases "server_cache http3 s host")
       (auto simp: TLSServerConfig_def server_cache_def store_server_configs_def Let_def
        split: sum.splits option.splits if_splits)
qed

text \<open>Plain HTTP on a TLS port.\<close>

definition tlsRecordHeaderLooksLikeHTTP :: "string \<Rightarrow> bool" where
  "tlsRecordHeaderLooksLikeHTTP hdr = (hdr \<in> set [''GET /'', ''HEAD '', ''POST '', ''PUT /'', ''OPTIO''])"

text \<open>A \<open>tls.RecordHeaderError\<close>: the five bytes of the header, and the connection when it is known.\<close>

definition RespondToPlainHTTP :: "(string \<times> netconn option) option \<Rightarrow> netconn option" where
  "RespondToPlainHTTP recordErr =
     (case recordErr of
        Some (hdr, Some conn) \<Rightarrow>
          if tlsRecordHeaderLooksLikeHTTP hdr
          then Some (snd (on_cout (WriteAll (str_bytes (''HTTP/1.0 400 Bad Request'' @ [CHR 0x0D, CHR 0x0A, CHR 0x0D, CHR 0x0A] @
            ''Client sent an HTTP request to an HTTPS server.'' @ [CHR 0x0A]))) conn))
          else Some conn
      | Some (hdr, None) \<Rightarrow> None
      | None \<Rightarrow> None)"

section \<open>Listening\<close>

text \<open>
  What a listening loop does, in order: the listener it opens, the registry entry it adds and
  removes, the connections it hands to handlers, the callbacks and the closing of the listener
  when its context ends.
\<close>

datatype 'c ln_event =
    Opened
  | Registered
  | Callback
  | Handled 'c
  | Unregistered
  | FinishedCallback
  | ClosedListener

text \<open>
  \<open>acceptNetConn\<close> and the loop of \<open>ListenQUICEarlyAndServe\<close>: the outcomes of \<open>Accept\<close> in order,
  a connection for each handler until the first error. A run of the loop is a finite prefix of
  its turns, so the list ends with the error that stopped it, or the loop is still running.
\<close>

fun acceptNetConn :: "'c res list \<Rightarrow> 'c ln_event list \<times> goerr option" where
  "acceptNetConn [] = ([], None)"
| "acceptNetConn (Inl err # rs) = ([], Some err)"
| "acceptNetConn (Inr conn # rs) = (case acceptNetConn rs of (ev, e) \<Rightarrow> (Handled conn # ev, e))"

definition ignoreClosed :: "goerr option \<Rightarrow> goerr option" where
  "ignoreClosed err = (case err of None \<Rightarrow> None | Some e \<Rightarrow> if IsErrClosedOrContextCanceled e then None else Some e)"

text \<open>
  \<open>listenTCPAndAccept\<close>: \<open>ctx\<close> is cancelled on return, which closes the listener. The registry
  is the set of the listeners that \<open>StopAllServerListeners\<close> would close.
\<close>

definition listenTCPAndAccept ::
  "nat res \<Rightarrow> (nat \<Rightarrow> 'c ln_event list \<times> goerr option) \<Rightarrow> bool \<Rightarrow> nat set \<Rightarrow>
   goerr option \<times> 'c ln_event list \<times> nat set \<times> nat set" where
  "listenTCPAndAccept listen listenHandler finished reg =
     (case listen of
        Inl err \<Rightarrow> (Some err, [], reg, reg)
      | Inr ln \<Rightarrow>
          (case listenHandler ln of (ev, err) \<Rightarrow>
             (ignoreClosed err,
              [Opened, Registered] @ ev @ [Unregistered] @ (if finished then [FinishedCallback] else []) @ [ClosedListener],
              insert ln reg, insert ln reg - {ln})))"

definition ListenTCPAndServeWithListenerCallback ::
  "nat res \<Rightarrow> 'c res list \<Rightarrow> bool \<Rightarrow> bool \<Rightarrow> nat set \<Rightarrow> goerr option \<times> 'c ln_event list \<times> nat set \<times> nat set" where
  "ListenTCPAndServeWithListenerCallback listen incoming onListen onFinish reg =
     listenTCPAndAccept listen
       (\<lambda>ln. case acceptNetConn incoming of (ev, e) \<Rightarrow> ((if onListen then [Callback] else []) @ ev, e)) onFinish reg"

definition ListenTCPAndServe ::
  "nat res \<Rightarrow> 'c res list \<Rightarrow> nat set \<Rightarrow> goerr option \<times> 'c ln_event list \<times> nat set \<times> nat set" where
  "ListenTCPAndServe listen incoming reg = ListenTCPAndServeWithListenerCallback listen incoming False False reg"

definition ListenTLSAndAccept ::
  "nat res \<Rightarrow> 'c res list \<Rightarrow> nat set \<Rightarrow> goerr option \<times> 'c ln_event list \<times> nat set \<times> nat set" where
  "ListenTLSAndAccept listen incoming reg = listenTCPAndAccept listen (\<lambda>ln. acceptNetConn incoming) False reg"

text \<open>The QUIC listener needs a packet connection and a listener on it; both are released together.\<close>

datatype quic_close = CloseLn | CloseTr | CloseConn

definition quicServerCloser_Close :: "quic_close list" where
  "quicServerCloser_Close = [CloseLn, CloseTr, CloseConn]"

definition ListenQUICEarlyAndServe ::
  "nat res \<Rightarrow> goerr option \<Rightarrow> 'c res list \<Rightarrow> nat set \<Rightarrow>
   goerr option \<times> 'c ln_event list \<times> quic_close list \<times> nat set" where
  "ListenQUICEarlyAndServe listenPacket listenEarly incoming reg =
     (case listenPacket of
        Inl err \<Rightarrow> (Some err, [], [], reg)
      | Inr conn \<Rightarrow>
          (case listenEarly of
             Some err \<Rightarrow> (Some err, [Opened], [CloseTr, CloseConn], reg)
           | None \<Rightarrow>
               (case acceptNetConn incoming of (ev, err) \<Rightarrow>
                  (ignoreClosed err, [Opened, Registered] @ ev @ [Unregistered, ClosedListener],
                   quicServerCloser_Close, insert conn reg - {conn}))))"

text \<open>\<open>StopAllServerListeners\<close> closes every registered listener: the listeners that are then closed.\<close>

definition StopAllServerListeners :: "nat set \<Rightarrow> nat set \<Rightarrow> nat set" where
  "StopAllServerListeners reg closed = closed \<union> reg"

section \<open>The connection listener\<close>

text \<open>
  \<open>ConnListener\<close>: the connections whose \<open>Push\<close> is blocked, the number of blocked \<open>Accept\<close>
  calls, the connections handed over in order, those closed by \<open>Push\<close>, the number of \<open>Accept\<close>
  calls that ended with \<open>net.ErrClosed\<close>, and whether its context is done. A \<open>select\<close> that has
  both cases ready may take either.
\<close>

record cl_state =
  cl_pushing :: "nat list"
  cl_accepting :: nat
  cl_accepted :: "nat list"
  cl_closed :: "nat list"
  cl_errors :: nat
  cl_done :: bool

definition NewConnListener :: cl_state where
  "NewConnListener = \<lparr>cl_pushing = [], cl_accepting = 0, cl_accepted = [], cl_closed = [], cl_errors = 0, cl_done = False\<rparr>"

text \<open>\<open>pushed\<close> is the list of connections handed to \<open>Push\<close> so far.\<close>

inductive cl_step :: "cl_state \<times> nat list \<Rightarrow> cl_state \<times> nat list \<Rightarrow> bool" where
  Push: "cl_step (s, pushed) (s\<lparr>cl_pushing := cl_pushing s @ [c]\<rparr>, pushed @ [c])"
| Accept: "cl_step (s, pushed) (s\<lparr>cl_accepting := cl_accepting s + 1\<rparr>, pushed)"
| Rendezvous: "cl_pushing s = xs @ c # ys \<Longrightarrow> 0 < cl_accepting s \<Longrightarrow>
    cl_step (s, pushed) (s\<lparr>cl_pushing := xs @ ys, cl_accepting := cl_accepting s - 1, cl_accepted := cl_accepted s @ [c]\<rparr>, pushed)"
| PushClosed: "cl_pushing s = xs @ c # ys \<Longrightarrow> cl_done s \<Longrightarrow>
    cl_step (s, pushed) (s\<lparr>cl_pushing := xs @ ys, cl_closed := cl_closed s @ [c]\<rparr>, pushed)"
| AcceptClosed: "0 < cl_accepting s \<Longrightarrow> cl_done s \<Longrightarrow>
    cl_step (s, pushed) (s\<lparr>cl_accepting := cl_accepting s - 1, cl_errors := cl_errors s + 1\<rparr>, pushed)"
| Close: "cl_step (s, pushed) (s\<lparr>cl_done := True\<rparr>, pushed)"

inductive_cases cl_stepE: "cl_step (s, pushed) t"

definition cl_inv :: "cl_state \<times> nat list \<Rightarrow> bool" where
  "cl_inv t = (case t of (s, pushed) \<Rightarrow>
     mset pushed = mset (cl_pushing s) + mset (cl_accepted s) + mset (cl_closed s) \<and> (\<not> cl_done s \<longrightarrow> cl_closed s = [] \<and> cl_errors s = 0))"

lemma cl_inv_step: "cl_step t t' \<Longrightarrow> cl_inv t \<Longrightarrow> cl_inv t'"
  by (induction rule: cl_step.induct) (auto simp: cl_inv_def)

lemma cl_inv_reachable: "cl_step\<^sup>*\<^sup>* (NewConnListener, []) t \<Longrightarrow> cl_inv t"
  by (induction rule: rtranclp_induct) (auto intro: cl_inv_step, simp add: cl_inv_def NewConnListener_def)

text \<open>The steps that are left once nothing is pushed or accepted any more.\<close>

inductive cl_settle :: "cl_state \<times> nat list \<Rightarrow> cl_state \<times> nat list \<Rightarrow> bool" where
  "cl_step (s, pushed) (s', pushed) \<Longrightarrow> length (cl_pushing s') + cl_accepting s' < length (cl_pushing s) + cl_accepting s \<Longrightarrow>
   cl_settle (s, pushed) (s', pushed)"

lemma cl_settle_progress:
  assumes "cl_done s" "cl_pushing s \<noteq> [] \<or> 0 < cl_accepting s"
  shows "\<exists>s'. cl_settle (s, pushed) (s', pushed)"
  using assms(2)
proof
  assume "cl_pushing s \<noteq> []"
  then obtain c ys where "cl_pushing s = [] @ c # ys" by (cases "cl_pushing s") auto
  from PushClosed [OF this assms(1)] this show ?thesis by (fastforce intro: cl_settle.intros)
next
  assume "0 < cl_accepting s"
  from AcceptClosed [OF this assms(1)] this show ?thesis by (fastforce intro: cl_settle.intros)
qed

lemma cl_settle_wf: "wfP (\<lambda>t' t. cl_settle t t')"
proof -
  have "cl_settle t t' \<Longrightarrow> length (cl_pushing (fst t')) + cl_accepting (fst t') < length (cl_pushing (fst t)) + cl_accepting (fst t)" for t t'
    by (induction rule: cl_settle.induct) simp
  then show ?thesis
    by (intro wfp_subset [OF wfp_if_convertible_to_nat [where f = "\<lambda>t. length (cl_pushing (fst t)) + cl_accepting (fst t)"]]) auto
qed

lemma cl_settle_done: "cl_settle t t' \<Longrightarrow> cl_done (fst t) \<Longrightarrow> cl_done (fst t') \<and> snd t' = snd t"
  by (auto elim!: cl_settle.cases cl_stepE)

section \<open>Properties\<close>

text \<open>
  The TLS client configurations are right as long as every host has one certificate file:
  whatever was asked before, the configuration returned for a host trusts that file (or the
  system's roots when there is none), names the right server and speaks the protocols of the
  carrier that asks.
\<close>

theorem tls_client_config_sound:
  assumes "tls_inv env certs s" "TLSClientConfig env host (certs host) keyLog http3 s = (res, s')"
  shows "tls_inv env certs s' \<and> (\<forall>cfg. res = Inr cfg \<longrightarrow> client_config_for env host (certs host) http3 cfg)"
  by (rule TLSClientConfig_sound [OF assms])

definition sample_tls_env :: tls_env where
  "sample_tls_env = \<lparr>te_ReadFile = (\<lambda>f. if f = ''x'' then Inl (ErrNew ''no such file'') else Inr (str_bytes f)),
     te_DNSNames = (\<lambda>bs. Inr [bytes_str bs]), te_MkdirAll = None, te_OpenKeyLog = None, te_LoadX509KeyPair = (\<lambda>c k. None)\<rparr>"

theorem tls_client_config_sound_witness:
  "client_config_for sample_tls_env ''h'' ''c'' True
     (projr (fst (TLSClientConfig sample_tls_env ''h'' ''c'' False True empty_tls)))"
proof -
  obtain res s' where r: "TLSClientConfig sample_tls_env ''h'' ''c'' False True empty_tls = (res, s')" by (metis surj_pair)
  have "\<exists>cfg. res = Inr cfg"
    using r by (auto simp: TLSClientConfig_def empty_tls_def client_base_config_def sample_tls_env_def io_bind_def
        store_client_configs_def Let_def)
  with tls_client_config_sound [of sample_tls_env "\<lambda>_. ''c''" empty_tls "''h''" False True res s', OF tls_inv_empty r] r
  show ?thesis by auto
qed

text \<open>
  The cache of TLS client configurations knows the host only. Once a configuration for a
  host exists, every later request for that host gets its trust anchors, whatever certificate
  file it names and even if that file cannot be read: of two outbounds on one host with different
  \<open>tls-cert\<close> files, the second is checked against the certificate of the first.
\<close>

theorem tls_client_cert_of_first:
  assumes "TLSClientConfig env host certFile keyLog http3 s = (Inr cfg, s')"
    "tlsH2ClientConfigMap s host = None" "tlsH3ClientConfigMap s host = None"
  shows "\<exists>cfg'. TLSClientConfig env host otherCertFile keyLog' http3' s' = (Inr cfg', s') \<and>
    tc_RootCAs cfg' = tc_RootCAs cfg \<and> tc_ServerName cfg' = tc_ServerName cfg \<and> tc_KeyLog cfg' = tc_KeyLog cfg"
proof -
  from assms obtain cfg0 s0 where st: "store_client_configs host http3 cfg0 s0 = (Inr cfg, s')"
    by (cases http3) (auto simp: TLSClientConfig_def io_bind_eq_Inr)
  then show ?thesis
    by (cases http3; cases http3') (auto simp: store_client_configs_def Let_def TLSClientConfig_def h2_of_def h3_of_def)
qed

theorem tls_client_cert_of_first_witness:
  "\<exists>cfg'. TLSClientConfig sample_tls_env ''h'' ''x'' False False (snd (TLSClientConfig sample_tls_env ''h'' ''c'' False False empty_tls))
     = (Inr cfg', snd (TLSClientConfig sample_tls_env ''h'' ''c'' False False empty_tls)) \<and> tc_RootCAs cfg' = Some (str_bytes ''c'')"
proof -
  let ?base = "new_tls_config\<lparr>tc_RootCAs := Some (str_bytes ''c''), tc_ServerName := ''c''\<rparr>"
  have b: "client_base_config sample_tls_env ''h'' ''c'' = Inr ?base"
    by (simp add: client_base_config_def sample_tls_env_def)
  have "TLSClientConfig sample_tls_env ''h'' ''c'' False False empty_tls = store_client_configs ''h'' False ?base empty_tls"
    by (simp add: TLSClientConfig_def b io_bind_def empty_tls_def)
  then obtain s' where s': "TLSClientConfig sample_tls_env ''h'' ''c'' False False empty_tls = (Inr (h2_of ?base 0), s')"
    by (simp add: store_client_configs_def Let_def empty_tls_def)
  from tls_client_cert_of_first [OF this, of "''x''" False False] s' show ?thesis
    by (auto simp: empty_tls_def h2_of_def)
qed

text \<open>
  Every connection pushed to the connection listener is, at every moment of every schedule,
  blocked in its \<open>Push\<close>, accepted once, or closed once, and none is closed before the listener.
\<close>

theorem conn_listener_conserves:
  assumes "cl_step\<^sup>*\<^sup>* (NewConnListener, []) (s, pushed)"
  shows "mset pushed = mset (cl_pushing s) + mset (cl_accepted s) + mset (cl_closed s) \<and>
    (\<not> cl_done s \<longrightarrow> cl_closed s = [] \<and> cl_errors s = 0)"
  using cl_inv_reachable [OF assms] by (simp add: cl_inv_def)

lemma sample_listener_run:
  "\<exists>s :: cl_state. cl_step\<^sup>*\<^sup>* (NewConnListener, []) (s, [3, 4]) \<and> cl_done s \<and> cl_closed s = [3] \<and> cl_pushing s = [4]"
proof -
  let ?s1 = "NewConnListener\<lparr>cl_pushing := [3]\<rparr>" and ?s2 = "NewConnListener\<lparr>cl_pushing := [3, 4]\<rparr>"
  let ?s3 = "?s2\<lparr>cl_done := True\<rparr>" and ?s4 = "?s2\<lparr>cl_done := True, cl_pushing := [4], cl_closed := [3]\<rparr>"
  have "cl_step (NewConnListener, []) (?s1, [3])"
    using cl_step.Push [of NewConnListener "[]" 3] by (simp add: NewConnListener_def)
  moreover have "cl_step (?s1, [3]) (?s2, [3, 4])"
    using cl_step.Push [of ?s1 "[3]" 4] by (simp add: NewConnListener_def)
  moreover have "cl_step (?s2, [3, 4]) (?s3, [3, 4])" by (rule cl_step.Close)
  moreover have "cl_step (?s3, [3, 4]) (?s4, [3, 4])"
    using cl_step.PushClosed [of ?s3 "[]" 3 "[4]" "[3, 4]"] by (simp add: NewConnListener_def)
  ultimately have "cl_step\<^sup>*\<^sup>* (NewConnListener, []) (?s4, [3, 4])"
    by (meson converse_rtranclp_into_rtranclp rtranclp.rtrancl_refl)
  then show ?thesis by (intro exI [of _ ?s4]) simp
qed

theorem conn_listener_conserves_witness:
  "\<exists>s :: cl_state. cl_closed s = [3] \<and> mset [3, 4 :: nat] = mset (cl_pushing s) + mset (cl_accepted s) + mset (cl_closed s)"
proof -
  from sample_listener_run obtain s where s: "cl_step\<^sup>*\<^sup>* (NewConnListener, []) (s, [3, 4])" "cl_closed s = [3]" by blast
  from conn_listener_conserves [OF s(1)] s(2) show ?thesis by blast
qed

text \<open>
  Closing the connection listener releases everybody: once it is closed, the calls that are
  blocked in \<open>Push\<close> and \<open>Accept\<close> return one after the other, and as long as one is blocked
  there is a step that lets it return.
\<close>

theorem conn_listener_close_releases:
  assumes "cl_done s"
  shows "wfP (\<lambda>t' t. cl_settle t t') \<and>
    (\<forall>s'. cl_settle\<^sup>*\<^sup>* (s, pushed) (s', pushed) \<longrightarrow>
       (cl_pushing s' = [] \<and> cl_accepting s' = 0) \<or> (\<exists>s''. cl_settle (s', pushed) (s'', pushed)))"
proof -
  have "cl_done (fst t)" if "cl_settle\<^sup>*\<^sup>* (s, pushed) t" for t
    using that by (induction rule: rtranclp_induct) (use assms cl_settle_done in auto)
  then show ?thesis using cl_settle_wf cl_settle_progress by fastforce
qed

theorem conn_listener_close_releases_witness:
  "wfP (\<lambda>t' t. cl_settle t t') \<and> (\<exists>s''. cl_settle (NewConnListener\<lparr>cl_pushing := [7], cl_done := True\<rparr>, [7]) (s'', [7]))"
  using conn_listener_close_releases [of "NewConnListener\<lparr>cl_pushing := [7], cl_done := True\<rparr>" "[7]"] by auto

end
