(* ===== verification/SqCarrier.thy ===== *)
theory SqCarrier
  imports GoHttp Relay
begin

text \<open>
  The SunnyQUIC carrier, \<open>transport/sq_carrier\<close>. The server's connection is a step relation: the
  goroutines of its streams, the authentication timer and the events of the QUIC connection
  interleave in every way. The client's authentication and its cached connection are
  functions of what the QUIC library does. Hashing and key derivation are arguments.
\<close>

section \<open>Keys and commands\<close>

definition tcpConnectCommand :: byte where "tcpConnectCommand = 1"
definition authCommand :: byte where "authCommand = 5"

lemmas sq_command_defs = tcpConnectCommand_def authCommand_def

definition sq_AuthPassword :: "(bytes \<Rightarrow> string \<Rightarrow> nat \<Rightarrow> bytes) \<Rightarrow> bytes \<Rightarrow> string" where
  "sq_AuthPassword DeriveN password = base64_EncodeToString (DeriveN password ''hg/sunnyquic/auth-password/v1'' 16)"

text \<open>\<open>copy\<close> into an array of \<open>n\<close> zero bytes.\<close>

definition copy_array :: "nat \<Rightarrow> bytes \<Rightarrow> bytes" where
  "copy_array n bs = take n bs @ replicate (n - length bs) 0"

definition toSunnyQUICAuthHash ::
  "(bytes \<Rightarrow> bytes) \<Rightarrow> (bytes \<Rightarrow> string \<Rightarrow> nat \<Rightarrow> bytes) \<Rightarrow> bytes \<Rightarrow> bytes" where
  "toSunnyQUICAuthHash SHA256 DeriveN password =
     copy_array 64 (SHA256 (str_bytes (''hg:'' @ sq_AuthPassword DeriveN password)))"

definition toStatelessResetKey :: "(bytes \<Rightarrow> string \<Rightarrow> nat \<Rightarrow> bytes) \<Rightarrow> bytes \<Rightarrow> bytes" where
  "toStatelessResetKey DeriveN password =
     copy_array 32 (DeriveN password ''hg/sunnyquic/quic-stateless-reset-key/v1'' 32)"

lemma length_copy_array [simp]: "length (copy_array n bs) = n"
  by (simp add: copy_array_def)

section \<open>The server\<close>

text \<open>\<open>handleAuthCommand\<close> on the rest of a stream, up to closing \<open>authDone\<close>.\<close>

definition handleAuthCommand :: "bytes \<Rightarrow> (reader, unit) io" where
  "handleAuthCommand authHash =
     io_bind (ReadFull (length authHash)) (\<lambda>bs.
     if bs \<noteq> authHash then io_fail (ErrNew ''incorrect auth hash'') else io_ret ())"

text \<open>
  Where the goroutine of a stream is: before its command, waiting for the authentication or for
  the handshake with a connect command read, reading the address of that command, forwarding to
  it, or ended.
\<close>

datatype sq_stream =
    SNew reader
  | SWaitAuth reader
  | SWaitHandshake reader
  | SConnect reader
  | SForward SocketAddress reader
  | SEnded "goerr option"

text \<open>
  The connection: its streams, \<open>authDone\<close>, the cancelled context, the cause the QUIC connection
  was closed with, the handshake, whether \<open>handleAuthTimeout\<close> still waits, and the streams
  accepted so far.
\<close>

record sq_conn =
  q_streams :: "sq_stream list"
  q_authDone :: bool
  q_cancelled :: bool
  q_closed :: "goerr option"
  q_handshake :: bool
  q_timer :: bool
  q_accepted :: "reader list"

definition newServerQUICConn :: sq_conn where
  "newServerQUICConn = \<lparr>q_streams = [], q_authDone = False, q_cancelled = False, q_closed = None, q_handshake = False,
     q_timer = True, q_accepted = []\<rparr>"

definition set_stream :: "nat \<Rightarrow> sq_stream \<Rightarrow> sq_conn \<Rightarrow> sq_conn" where
  "set_stream i st c = c\<lparr>q_streams := (q_streams c)[i := st]\<rparr>"

text \<open>\<open>close\<close> cancels the context and closes the connection; a closed connection keeps its cause.\<close>

definition sq_close :: "sq_conn \<Rightarrow> sq_conn" where
  "sq_close c = c\<lparr>q_cancelled := True, q_closed := (case q_closed c of None \<Rightarrow> Some (ErrNew ''application error 0'') | Some e \<Rightarrow> Some e)\<rparr>"

text \<open>One turn of \<open>handleStream\<close>: the command and what follows it without waiting.\<close>

definition handleStream :: "bytes \<Rightarrow> nat \<Rightarrow> reader \<Rightarrow> sq_conn \<Rightarrow> sq_conn" where
  "handleStream authHash i r c =
     (case Read1 r of
        (Inl err, r') \<Rightarrow> set_stream i (SEnded (Some err)) c
      | (Inr command, r') \<Rightarrow>
          if command = authCommand then
            (case handleAuthCommand authHash r' of
               (Inl err, r'') \<Rightarrow> set_stream i (SEnded (Some err)) (sq_close c)
             | (Inr _, r'') \<Rightarrow> set_stream i (SEnded None) (c\<lparr>q_authDone := True\<rparr>))
          else if command = tcpConnectCommand then set_stream i (SWaitAuth r') c
          else set_stream i (SEnded (Some (ErrNew ''unsupported command type''))) c)"

text \<open>\<open>handleTCPConnectCommand\<close>: \<open>ForwardTCP\<close> refuses when the context is cancelled.\<close>

definition handleTCPConnectCommand :: "nat \<Rightarrow> reader \<Rightarrow> sq_conn \<Rightarrow> sq_conn" where
  "handleTCPConnectCommand i r c =
     (case ReadSOCKS5Address r of
        (Inl err, r') \<Rightarrow> set_stream i (SEnded (Some err)) c
      | (Inr accessAddr, r') \<Rightarrow>
          if q_cancelled c then set_stream i (SEnded (Some CtxCanceled)) c
          else set_stream i (SForward accessAddr r') c)"

text \<open>
  What the server's goroutines do by themselves: a stream that waits goes on or gives up, and
  \<open>handleAuthTimeout\<close> ends. What they wait for are the steps of \<open>sq_env\<close>: streams are opened,
  the bytes of a command or an address arrive, the time-out passes, and the QUIC connection and
  the context change.
\<close>

inductive sq_own :: "sq_conn \<Rightarrow> sq_conn \<Rightarrow> bool" where
  AuthDone: "i < length (q_streams c) \<Longrightarrow> q_streams c ! i = SWaitAuth r \<Longrightarrow> q_authDone c \<Longrightarrow>
    sq_own c (set_stream i (SWaitHandshake r) c)"
| AuthCancelled: "i < length (q_streams c) \<Longrightarrow> q_streams c ! i = SWaitAuth r \<Longrightarrow> q_cancelled c \<Longrightarrow>
    sq_own c (set_stream i (SEnded (Some CtxCanceled)) c)"
| HandshakeComplete: "i < length (q_streams c) \<Longrightarrow> q_streams c ! i = SWaitHandshake r \<Longrightarrow> q_handshake c \<Longrightarrow>
    sq_own c (set_stream i (SConnect r) c)"
| ConnDone: "i < length (q_streams c) \<Longrightarrow> q_streams c ! i = SWaitHandshake r \<Longrightarrow> q_closed c = Some err \<Longrightarrow>
    sq_own c (set_stream i (SEnded (Some err)) c)"
| TimeoutStopped: "q_timer c \<Longrightarrow> q_authDone c \<or> q_cancelled c \<Longrightarrow> sq_own c (c\<lparr>q_timer := False\<rparr>)"

inductive sq_env :: "bytes \<Rightarrow> sq_conn \<Rightarrow> sq_conn \<Rightarrow> bool" for authHash where
  AcceptStream: "\<not> q_cancelled c \<Longrightarrow> q_closed c = None \<Longrightarrow>
    sq_env authHash c (c\<lparr>q_streams := q_streams c @ [SNew r], q_accepted := q_accepted c @ [r]\<rparr>)"
| Command: "i < length (q_streams c) \<Longrightarrow> q_streams c ! i = SNew r \<Longrightarrow> sq_env authHash c (handleStream authHash i r c)"
| Connect: "i < length (q_streams c) \<Longrightarrow> q_streams c ! i = SConnect r \<Longrightarrow>
    sq_env authHash c (handleTCPConnectCommand i r c)"
| TimeoutExpired: "q_timer c \<Longrightarrow> sq_env authHash c (sq_close (c\<lparr>q_timer := False\<rparr>))"
| Handshake: "q_closed c = None \<Longrightarrow> sq_env authHash c (c\<lparr>q_handshake := True\<rparr>)"
| PeerClosed: "q_closed c = None \<Longrightarrow> sq_env authHash c (c\<lparr>q_closed := Some err\<rparr>)"
| ContextDone: "sq_env authHash c (c\<lparr>q_cancelled := True\<rparr>)"

inductive sq_step :: "bytes \<Rightarrow> sq_conn \<Rightarrow> sq_conn \<Rightarrow> bool" for authHash where
  own: "sq_own c c' \<Longrightarrow> sq_step authHash c c'"
| env: "sq_env authHash c c' \<Longrightarrow> sq_step authHash c c'"

inductive_cases sq_ownE: "sq_own c c'"

definition authenticates :: "bytes \<Rightarrow> reader \<Rightarrow> bool" where
  "authenticates authHash r \<longleftrightarrow> take (Suc (length authHash)) (contents r) = authCommand # authHash"

definition stream_ok :: "sq_conn \<Rightarrow> sq_stream \<Rightarrow> bool" where
  "stream_ok c st =
     (case st of
        SNew r \<Rightarrow> r \<in> set (q_accepted c)
      | SWaitAuth r \<Rightarrow> True
      | SWaitHandshake r \<Rightarrow> q_authDone c
      | SConnect r \<Rightarrow> q_authDone c \<and> q_handshake c
      | SForward a r \<Rightarrow> q_authDone c \<and> q_handshake c
      | SEnded e \<Rightarrow> True)"

lemma stream_ok_simps [simp]:
  "stream_ok c (SNew r) \<longleftrightarrow> r \<in> set (q_accepted c)" "stream_ok c (SWaitAuth r)"
  "stream_ok c (SWaitHandshake r) \<longleftrightarrow> q_authDone c" "stream_ok c (SForward a r) \<longleftrightarrow> q_authDone c \<and> q_handshake c"
  "stream_ok c (SEnded e)" "stream_ok c (SConnect r) \<longleftrightarrow> q_authDone c \<and> q_handshake c"
  by (simp_all add: stream_ok_def)

definition sq_inv :: "bytes \<Rightarrow> sq_conn \<Rightarrow> bool" where
  "sq_inv authHash c \<longleftrightarrow>
     (\<forall>st \<in> set (q_streams c). stream_ok c st) \<and>
     (q_authDone c \<longrightarrow> (\<exists>r \<in> set (q_accepted c). authenticates authHash r)) \<and>
     (\<not> q_timer c \<longrightarrow> q_authDone c \<or> q_cancelled c)"

lemma set_stream_simps [simp]:
  "q_streams (set_stream i st c) = (q_streams c)[i := st]" "q_authDone (set_stream i st c) = q_authDone c"
  "q_cancelled (set_stream i st c) = q_cancelled c" "q_closed (set_stream i st c) = q_closed c"
  "q_handshake (set_stream i st c) = q_handshake c" "q_timer (set_stream i st c) = q_timer c"
  "q_accepted (set_stream i st c) = q_accepted c"
  by (simp_all add: set_stream_def)

lemma sq_close_simps [simp]:
  "q_streams (sq_close c) = q_streams c" "q_authDone (sq_close c) = q_authDone c" "q_cancelled (sq_close c)"
  "q_closed (sq_close c) \<noteq> None" "q_handshake (sq_close c) = q_handshake c" "q_timer (sq_close c) = q_timer c"
  "q_accepted (sq_close c) = q_accepted c"
  by (simp_all add: sq_close_def split: option.splits)

lemma handleAuthCommand_ok:
  "Read1 r = (Inr authCommand, r') \<Longrightarrow> handleAuthCommand authHash r' = (Inr (), r'') \<Longrightarrow> authenticates authHash r"
  by (auto simp: handleAuthCommand_def io_bind_eq_Inr authenticates_def dest!: Read1_Inr ReadFull_Inr split: if_splits)

lemma stream_ok_mono:
  assumes "stream_ok c st" "set (q_accepted c) \<subseteq> set (q_accepted c')" "q_authDone c \<Longrightarrow> q_authDone c'"
    "q_handshake c \<Longrightarrow> q_handshake c'"
  shows "stream_ok c' st"
  using assms by (cases st) (auto simp: stream_ok_def)

lemma sq_inv_set_stream:
  assumes "sq_inv authHash c" "stream_ok c st"
  shows "sq_inv authHash (set_stream i st c)"
proof -
  have "stream_ok (set_stream i st c) x" if "x \<in> set ((q_streams c)[i := st])" for x
  proof -
    from that set_update_subset_insert [of "q_streams c" i st] have "x = st \<or> x \<in> set (q_streams c)" by blast
    with assms have "stream_ok c x" by (auto simp only: sq_inv_def)
    then show ?thesis by (rule stream_ok_mono) simp_all
  qed
  with assms(1) show ?thesis by (simp add: sq_inv_def)
qed

lemmas sq_inv_ended = sq_inv_set_stream [where st = "SEnded e" for e, OF _ stream_ok_simps(5)]
lemmas sq_inv_waiting = sq_inv_set_stream [where st = "SWaitAuth r" for r, OF _ stream_ok_simps(2)]

text \<open>Events that change no stream keep the invariant when they only add to what has happened.\<close>

lemma sq_inv_event:
  assumes "sq_inv authHash c" "q_streams c' = q_streams c" "q_accepted c' = q_accepted c" "q_authDone c' = q_authDone c"
    "q_handshake c \<Longrightarrow> q_handshake c'" "\<not> q_timer c' \<Longrightarrow> q_authDone c' \<or> q_cancelled c'"
  shows "sq_inv authHash c'"
proof -
  have "stream_ok c' st" if "st \<in> set (q_streams c)" for st
    using that assms by - (rule stream_ok_mono [of c], auto simp: sq_inv_def)
  with assms show ?thesis by (simp add: sq_inv_def)
qed

lemma sq_inv_handleStream:
  assumes inv: "sq_inv authHash c" and r: "r \<in> set (q_accepted c)"
  shows "sq_inv authHash (handleStream authHash i r c)"
proof -
  obtain res r' where rd: "Read1 r = (res, r')" by (metis surj_pair)
  show ?thesis
  proof (cases "res = Inr authCommand")
    case False
    with inv rd show ?thesis
      by (cases res) (simp_all add: handleStream_def sq_inv_ended sq_inv_waiting)
  next
    case True
    obtain ares r'' where au: "handleAuthCommand authHash r' = (ares, r'')" by (metis surj_pair)
    show ?thesis
    proof (cases ares)
      case (Inl e)
      have "sq_inv authHash (sq_close c)" by (rule sq_inv_event [OF inv]) simp_all
      with Inl True rd au show ?thesis by (simp add: handleStream_def sq_inv_ended)
    next
      case (Inr u)
      with True rd au have a: "authenticates authHash r" using handleAuthCommand_ok by simp
      have "stream_ok (c\<lparr>q_authDone := True\<rparr>) st" if "st \<in> set (q_streams c)" for st
        using that inv by - (rule stream_ok_mono [of c], auto simp: sq_inv_def)
      with a r have "sq_inv authHash (c\<lparr>q_authDone := True\<rparr>)" by (auto simp: sq_inv_def)
      with Inr True rd au show ?thesis by (simp add: handleStream_def sq_inv_ended)
    qed
  qed
qed

lemma sq_inv_own: "sq_own c c' \<Longrightarrow> sq_inv authHash c \<Longrightarrow> sq_inv authHash c'"
proof (induction rule: sq_own.induct)
  case (AuthDone i c r)
  then show ?case by (intro sq_inv_set_stream) simp_all
next
  case (AuthCancelled i c r)
  then show ?case by (intro sq_inv_set_stream) simp_all
next
  case (HandshakeComplete i c r)
  then have "SWaitHandshake r \<in> set (q_streams c)" by (metis nth_mem)
  with HandshakeComplete(4) have "q_authDone c" by (auto simp: sq_inv_def)
  with HandshakeComplete(3) show ?case by (intro sq_inv_set_stream [OF HandshakeComplete(4)]) simp
next
  case (ConnDone i c r err)
  then show ?case by (intro sq_inv_set_stream) simp_all
next
  case (TimeoutStopped c)
  show ?case by (rule sq_inv_event [OF TimeoutStopped(3)]) (use TimeoutStopped in \<open>auto simp: sq_inv_def\<close>)
qed

lemma sq_inv_env: "sq_env authHash c c' \<Longrightarrow> sq_inv authHash c \<Longrightarrow> sq_inv authHash c'"
proof (induction rule: sq_env.induct)
  case (AcceptStream c r)
  let ?c = "c\<lparr>q_streams := q_streams c @ [SNew r], q_accepted := q_accepted c @ [r]\<rparr>"
  have "stream_ok ?c st" if "st \<in> set (q_streams c)" for st
    using that AcceptStream(3) by - (rule stream_ok_mono [of c], auto simp: sq_inv_def)
  moreover have "stream_ok ?c (SNew r)" by simp
  ultimately show ?case using AcceptStream(3) by (auto simp: sq_inv_def)
next
  case (Command i c r)
  then have "SNew r \<in> set (q_streams c)" by (metis nth_mem)
  with Command(3) have "r \<in> set (q_accepted c)" by (auto simp: sq_inv_def)
  with Command(3) show ?case by (rule sq_inv_handleStream)
next
  case (Connect i c r)
  then have "SConnect r \<in> set (q_streams c)" by (metis nth_mem)
  with Connect(3) have "stream_ok c (SConnect r)" unfolding sq_inv_def by blast
  then have "sq_inv authHash (set_stream i (SForward a r') c)" for a r'
    by (intro sq_inv_set_stream [OF Connect(3)]) simp
  with Connect(3) show ?case
    by (simp add: handleTCPConnectCommand_def sq_inv_ended split: prod.split sum.split)
next
  case (TimeoutExpired c)
  show ?case by (rule sq_inv_event [OF TimeoutExpired(2)]) (use TimeoutExpired in \<open>auto simp: sq_inv_def\<close>)
next
  case (Handshake c)
  show ?case by (rule sq_inv_event [OF Handshake(2)]) (use Handshake in \<open>auto simp: sq_inv_def\<close>)
next
  case (PeerClosed c err)
  show ?case by (rule sq_inv_event [OF PeerClosed(2)]) (use PeerClosed in \<open>auto simp: sq_inv_def\<close>)
next
  case (ContextDone c)
  show ?case by (rule sq_inv_event [OF ContextDone(1)]) (use ContextDone in \<open>auto simp: sq_inv_def\<close>)
qed

lemma sq_inv_step: "sq_step authHash c c' \<Longrightarrow> sq_inv authHash c \<Longrightarrow> sq_inv authHash c'"
  by (erule sq_step.cases) (auto intro: sq_inv_own sq_inv_env)

text \<open>The goroutines cannot go on for ever by themselves: every step is one wait less.\<close>

definition sq_waits :: "sq_stream \<Rightarrow> nat" where
  "sq_waits st = (case st of SWaitAuth r \<Rightarrow> 2 | SWaitHandshake r \<Rightarrow> 1 | _ \<Rightarrow> 0)"

definition sq_measure :: "sq_conn \<Rightarrow> nat" where
  "sq_measure c = sum_list (map sq_waits (q_streams c)) + of_bool (q_timer c)"

lemma sum_list_update_less:
  fixes f :: "'a \<Rightarrow> nat"
  assumes "i < length xs" "f x < f (xs ! i)"
  shows "sum_list (map f (xs[i := x])) < sum_list (map f xs)"
proof -
  have "f (xs ! i) \<le> sum_list (map f xs)" using assms(1) member_le_sum_list [of "f (xs ! i)" "map f xs"] by simp
  with assms show ?thesis by (simp add: map_update sum_list_update)
qed

lemma sq_measure_set_stream:
  "i < length (q_streams c) \<Longrightarrow> sq_waits st < sq_waits (q_streams c ! i) \<Longrightarrow> sq_measure (set_stream i st c) < sq_measure c"
  using sum_list_update_less [of i "q_streams c" sq_waits st] by (simp add: sq_measure_def)

lemma sq_measure_own: "sq_own c c' \<Longrightarrow> sq_measure c' < sq_measure c"
proof (induction rule: sq_own.induct)
  case (TimeoutStopped c)
  then show ?case by (simp add: sq_measure_def)
qed (rule sq_measure_set_stream; simp add: sq_waits_def)+

lemma sq_own_enabled:
  assumes "\<nexists>c'. sq_own c c'" "st \<in> set (q_streams c)"
  shows "st = SWaitAuth r \<Longrightarrow> \<not> q_authDone c \<and> \<not> q_cancelled c"
    "st = SWaitHandshake r \<Longrightarrow> \<not> q_handshake c \<and> q_closed c = None"
  using assms by (cases "q_closed c"; auto simp: in_set_conv_nth intro: sq_own.intros)+

lemma sq_inv_reachable: "(sq_step authHash)\<^sup>*\<^sup>* newServerQUICConn c \<Longrightarrow> sq_inv authHash c"
  by (induction rule: rtranclp_induct) (auto intro: sq_inv_step, simp add: sq_inv_def newServerQUICConn_def)

section \<open>The client\<close>

text \<open>The commands as they are written on a new stream; what follows a connect command is the tunnel.\<close>

definition sendAuthenticationCommand :: "bytes \<Rightarrow> bytes" where
  "sendAuthenticationCommand authHash = authCommand # authHash"

definition sendTCPConnectCommand :: "SocketAddress \<Rightarrow> bytes res" where
  "sendTCPConnectCommand addr = (case WriteSOCKSLikeAddr addr of Inl e \<Rightarrow> Inl e | Inr bs \<Rightarrow> Inr (tcpConnectCommand # bs))"

definition Err0RTTRejected :: goerr where "Err0RTTRejected = ErrNew ''0-RTT rejected''"

text \<open>
  What the QUIC library does for one new connection: whether the handshake was complete at the
  start, the result of the first authentication command, which of the three events \<open>select\<close>
  takes, whether 0-RTT data were accepted, \<open>NextConnection\<close> and the second command.
\<close>

datatype sq_wait = CtxDone goerr | ConnClosed goerr | HandshakeDone

record sq_flight =
  f_completeAtStart :: bool
  f_send1 :: "goerr option"
  f_wait :: sq_wait
  f_used0RTT :: bool
  f_next :: "goerr option"
  f_send2 :: "goerr option"

definition sq_authenticate :: "sq_flight \<Rightarrow> goerr option" where
  "sq_authenticate f =
     (let sentAs0RTT = \<not> f_completeAtStart f;
          rtt0Rejected = (case f_send1 f of None \<Rightarrow> False | Some e \<Rightarrow> errIs e Err0RTTRejected) in
      if f_send1 f \<noteq> None \<and> \<not> rtt0Rejected then f_send1 f
      else (case f_wait f of
          CtxDone cause \<Rightarrow> Some (ErrWrap ''a QUIC connection is canceled'' cause)
        | ConnClosed cause \<Rightarrow> Some (ErrWrap ''fail to handshake with the server'' cause)
        | HandshakeDone \<Rightarrow>
            if rtt0Rejected \<or> sentAs0RTT \<and> \<not> f_used0RTT f
            then (case f_next f of Some err \<Rightarrow> Some err | None \<Rightarrow> f_send2 f)
            else None))"

text \<open>The server has the command: one was sent and not thrown away with rejected early data.\<close>

definition auth_delivered :: "sq_flight \<Rightarrow> bool" where
  "auth_delivered f \<longleftrightarrow>
     (f_send1 f = None \<and> (f_completeAtStart f \<or> f_used0RTT f)) \<or> (f_next f = None \<and> f_send2 f = None)"

text \<open>The client's cached connection, by number; a world says which connections are closed and what a dial does.\<close>

record sq_client =
  sqc_serverHostWithPort :: string
  sqc_authHash :: bytes
  sqc_quicConn :: "nat option"

record sq_world =
  sw_ctxErr :: "nat \<Rightarrow> goerr option"
  sw_dial :: "nat res"
  sw_flight :: sq_flight
  sw_openStream :: "nat \<Rightarrow> goerr option"
  sw_writeErr :: "goerr option"

datatype sq_event = SqDialed nat | SqAuthenticated nat | SqClosed nat | SqStreamClosed

definition getQUICConn :: "sq_world \<Rightarrow> sq_client \<Rightarrow> nat res \<times> sq_event list \<times> sq_client" where
  "getQUICConn w c =
     (if (case sqc_quicConn c of None \<Rightarrow> False | Some n \<Rightarrow> sw_ctxErr w n = None)
      then (Inr (the (sqc_quicConn c)), [], c)
      else (let c1 = c\<lparr>sqc_quicConn := None\<rparr> in
        case sw_dial w of
          Inl err \<Rightarrow> (Inl (ErrWrap ''fail to connect to the server'' err), [], c1)
        | Inr conn \<Rightarrow>
            (case sq_authenticate (sw_flight w) of
               Some err \<Rightarrow> (Inl err, [SqDialed conn, SqClosed conn], c1)
             | None \<Rightarrow> (Inr conn, [SqDialed conn, SqAuthenticated conn], c1\<lparr>sqc_quicConn := Some conn\<rparr>))))"

text \<open>\<open>DialTCP\<close>: the connection and the bytes written on the new stream.\<close>

definition sq_DialTCP :: "sq_world \<Rightarrow> SocketAddress \<Rightarrow> sq_client \<Rightarrow> (nat \<times> bytes) res \<times> sq_event list \<times> sq_client" where
  "sq_DialTCP w addr c0 =
     (case getQUICConn w c0 of
        (Inl err, ev, c) \<Rightarrow> (Inl err, ev, c)
      | (Inr conn, ev, c) \<Rightarrow>
          (case sw_openStream w conn of
             Some err \<Rightarrow> (Inl err, ev, c)
           | None \<Rightarrow>
               (case sendTCPConnectCommand addr of
                  Inl e \<Rightarrow> (Inl e, ev, c)
                | Inr cmd \<Rightarrow>
                    (case sw_writeErr w of
                       Some err \<Rightarrow> (Inl err, ev @ [SqStreamClosed], c)
                     | None \<Rightarrow> (Inr (conn, cmd), ev, c)))))"

text \<open>The stream as a \<open>net.Conn\<close>: closing it stops both directions, \<open>CloseWrite\<close> only the sending one.\<close>

definition streamConn_Close :: "netconn \<Rightarrow> netconn" where
  "streamConn_Close c = c\<lparr>cclosed := True, cwclosed := True\<rparr>"

definition streamConn_CloseWrite :: "netconn \<Rightarrow> netconn" where
  "streamConn_CloseWrite c = c\<lparr>cwclosed := True\<rparr>"

lemma sq_authenticate_delivered: "sq_authenticate f = None \<Longrightarrow> auth_delivered f"
  by (auto simp: sq_authenticate_def auth_delivered_def Let_def split: if_splits sq_wait.splits option.splits)

lemma sq_read_command:
  assumes "contents r = cmd # rest"
  obtains r' where "Read1 r = (Inr cmd, r')" "contents r' = rest" "fin r' = fin r"
  using assms by simp

lemma handleStream_auth:
  assumes "contents r = sendAuthenticationCommand authHash @ rest"
  shows "handleStream authHash i r c = set_stream i (SEnded None) (c\<lparr>q_authDone := True\<rparr>)"
proof -
  from assms have "contents r = authCommand # authHash @ rest" by (simp add: sendAuthenticationCommand_def)
  then obtain r' where r': "Read1 r = (Inr authCommand, r')" "contents r' = authHash @ rest" by (rule sq_read_command)
  then have "handleAuthCommand authHash r' = (Inr (), rd_adv (length authHash) r')"
    by (simp add: handleAuthCommand_def io_bind_def)
  with r' show ?thesis by (simp add: handleStream_def)
qed

lemma handleStream_connect:
  assumes "sendTCPConnectCommand a = Inr cmd" "wire_addr a" "contents r = cmd @ payload"
  obtains r1 r2 where "handleStream authHash i r c = set_stream i (SWaitAuth r1) c" "contents r2 = payload"
    "\<And>c'. handleTCPConnectCommand i r1 c' = set_stream i (if q_cancelled c' then SEnded (Some CtxCanceled) else SForward a r2) c'"
proof -
  from assms(1) obtain bs where bs: "WriteSOCKSLikeAddr a = Inr bs" "cmd = tcpConnectCommand # bs"
    by (auto simp: sendTCPConnectCommand_def split: sum.splits)
  with assms(3) have "contents r = tcpConnectCommand # bs @ payload" by simp
  then obtain r1 where r1: "Read1 r = (Inr tcpConnectCommand, r1)" "contents r1 = bs @ payload" by (rule sq_read_command)
  from Read_Write_addr [OF assms(2) bs(1) r1(2)] obtain r2 where
    r2: "ReadSOCKS5Address r1 = (Inr a, r2)" "contents r2 = payload" by blast
  show thesis
    by (rule that [of r1 r2]) (use r1 r2 in \<open>simp_all add: handleStream_def sq_command_defs handleTCPConnectCommand_def\<close>)
qed

text \<open>A sample connection: a stream that authenticates, and one that asks for a tunnel before it.\<close>

definition sample_sq_hash :: bytes where "sample_sq_hash = copy_array 64 [9]"

definition sample_auth_stream :: reader where "sample_auth_stream = mk_reader [[5], sample_sq_hash]"

definition sample_connect_stream :: reader where
  "sample_connect_stream = mk_reader [tcpConnectCommand # projr (WriteSOCKSLikeAddr (NewSocketAddressByDomain ''ab'' 443)) @ [7]]"

definition sample_sq_addr :: SocketAddress where "sample_sq_addr = NewSocketAddressByDomain ''ab'' 443"

lemma sample_sq_streams:
  "contents sample_auth_stream = sendAuthenticationCommand sample_sq_hash @ []"
  "sendTCPConnectCommand sample_sq_addr = Inr (tcpConnectCommand # projr (WriteSOCKSLikeAddr sample_sq_addr))"
  "contents sample_connect_stream = (tcpConnectCommand # projr (WriteSOCKSLikeAddr sample_sq_addr)) @ [7]"
  "wire_addr sample_sq_addr"
  by (simp_all add: sample_auth_stream_def sendAuthenticationCommand_def authCommand_def sample_sq_addr_def
      sample_connect_stream_def sendTCPConnectCommand_def wire_addr_def)

lemma sample_sq_run:
  "\<exists>(c :: sq_conn) r. (sq_step sample_sq_hash)\<^sup>*\<^sup>* newServerQUICConn c \<and> q_streams c = [SEnded None, SForward sample_sq_addr r]"
proof -
  let ?a = sample_auth_stream and ?b = sample_connect_stream
  let ?c1 = "newServerQUICConn\<lparr>q_streams := [SNew ?a], q_accepted := [?a]\<rparr>"
  let ?c2 = "?c1\<lparr>q_streams := [SEnded None], q_authDone := True\<rparr>"
  let ?c3 = "?c2\<lparr>q_streams := [SEnded None, SNew ?b], q_accepted := [?a, ?b]\<rparr>"
  from handleStream_connect [OF sample_sq_streams(2,4,3), of sample_sq_hash 1 ?c3] obtain r1 r2 where
    r: "handleStream sample_sq_hash 1 ?b ?c3 = set_stream 1 (SWaitAuth r1) ?c3"
      "\<And>c'. handleTCPConnectCommand 1 r1 c' = set_stream 1 (if q_cancelled c' then SEnded (Some CtxCanceled) else SForward sample_sq_addr r2) c'"
    by metis
  let ?c4 = "?c3\<lparr>q_streams := [SEnded None, SWaitAuth r1]\<rparr>"
  let ?c5 = "?c4\<lparr>q_handshake := True\<rparr>"
  let ?c6 = "?c5\<lparr>q_streams := [SEnded None, SWaitHandshake r1]\<rparr>"
  let ?c6x = "?c6\<lparr>q_streams := [SEnded None, SConnect r1]\<rparr>"
  let ?c7 = "?c6x\<lparr>q_streams := [SEnded None, SForward sample_sq_addr r2]\<rparr>"
  let ?S = "sq_step sample_sq_hash"
  have "?S newServerQUICConn ?c1"
    using sq_env.AcceptStream [of newServerQUICConn sample_sq_hash ?a, THEN sq_step.env] by (simp add: newServerQUICConn_def)
  moreover have "?S ?c1 ?c2"
    using sq_env.Command [of 0 ?c1 ?a sample_sq_hash, THEN sq_step.env] handleStream_auth [OF sample_sq_streams(1), of 0 ?c1]
    by (simp add: set_stream_def newServerQUICConn_def)
  moreover have "?S ?c2 ?c3"
    using sq_env.AcceptStream [of ?c2 sample_sq_hash ?b, THEN sq_step.env] by (simp add: newServerQUICConn_def)
  moreover have "?S ?c3 ?c4"
    using sq_env.Command [of 1 ?c3 ?b sample_sq_hash, THEN sq_step.env] r(1) by (simp add: set_stream_def newServerQUICConn_def)
  moreover have "?S ?c4 ?c5"
    using sq_env.Handshake [of ?c4 sample_sq_hash, THEN sq_step.env] by (simp add: newServerQUICConn_def)
  moreover have "?S ?c5 ?c6"
    using sq_own.AuthDone [of 1 ?c5 r1, THEN sq_step.own [of _ _ sample_sq_hash]] by (simp add: set_stream_def newServerQUICConn_def)
  moreover have "?S ?c6 ?c6x"
    using sq_own.HandshakeComplete [of 1 ?c6 r1, THEN sq_step.own [of _ _ sample_sq_hash]]
    by (simp add: set_stream_def newServerQUICConn_def)
  moreover have "?S ?c6x ?c7"
    using sq_env.Connect [of 1 ?c6x r1 sample_sq_hash, THEN sq_step.env] r(2) [of ?c6x]
    by (simp add: set_stream_def newServerQUICConn_def)
  ultimately have "?S\<^sup>*\<^sup>* newServerQUICConn ?c7"
    by (meson converse_rtranclp_into_rtranclp rtranclp.rtrancl_refl)
  then show ?thesis by (intro exI [of _ ?c7] exI [of _ r2]) simp
qed

section \<open>Properties\<close>

text \<open>
  C12. The SunnyQUIC server forwards for nobody who has not authenticated: in every state that
  the goroutines of a connection can reach, whatever their interleaving, the time-out and the
  events of the QUIC connection, a stream that is forwarded belongs to a connection on which a
  stream with the authentication command and the right hash has been accepted, and whose
  handshake is complete, so that its data are not replayed early data.
\<close>

theorem sq_forward_authenticated:
  assumes "(sq_step authHash)\<^sup>*\<^sup>* newServerQUICConn c" "SForward a r \<in> set (q_streams c)"
  shows "q_handshake c \<and> (\<exists>s \<in> set (q_accepted c). take (Suc (length authHash)) (contents s) = authCommand # authHash)"
proof -
  from sq_inv_reachable [OF assms(1)] have inv: "sq_inv authHash c" .
  with assms(2) have "stream_ok c (SForward a r)" unfolding sq_inv_def by blast
  then have "q_authDone c" "q_handshake c" by simp_all
  with inv show ?thesis by (auto simp: sq_inv_def authenticates_def)
qed

theorem sq_forward_authenticated_witness:
  "\<exists>c :: sq_conn. q_handshake c \<and> (\<exists>s \<in> set (q_accepted c). take 65 (contents s) = authCommand # sample_sq_hash)"
proof -
  from sample_sq_run obtain c r where c: "(sq_step sample_sq_hash)\<^sup>*\<^sup>* newServerQUICConn c"
    "q_streams c = [SEnded None, SForward sample_sq_addr r]" by blast
  have "SForward sample_sq_addr r \<in> set (q_streams c)" using c(2) by simp
  from sq_forward_authenticated [OF c(1) this] show ?thesis by (auto simp: sample_sq_hash_def)
qed

text \<open>
  C25. Both commands survive the trip: what the client writes to authenticate makes the server
  set \<open>authDone\<close>, and what it writes to open a tunnel makes the server, once authenticated and
  after the handshake, forward to the client's address a stream that holds exactly the bytes
  written after the command, however they are cut. The address is one the format can carry: a
  domain of at most 255 bytes, or an address without a zone.
\<close>

theorem sq_commands_roundtrip:
  assumes "contents ra = sendAuthenticationCommand authHash @ rest"
    "sendTCPConnectCommand a = Inr cmd" "wire_addr a" "contents rc = cmd @ payload"
  shows "handleStream authHash i ra c = set_stream i (SEnded None) (c\<lparr>q_authDone := True\<rparr>) \<and>
    (\<exists>r1 r2. handleStream authHash i rc c = set_stream i (SWaitAuth r1) c \<and> contents r2 = payload \<and>
       (\<forall>c'. handleTCPConnectCommand i r1 c' =
          set_stream i (if q_cancelled c' then SEnded (Some CtxCanceled) else SForward a r2) c'))"
proof -
  from handleStream_connect [OF assms(2-4), of authHash i c] obtain r1 r2 where
    "handleStream authHash i rc c = set_stream i (SWaitAuth r1) c" "contents r2 = payload"
    "\<And>c'. handleTCPConnectCommand i r1 c' = set_stream i (if q_cancelled c' then SEnded (Some CtxCanceled) else SForward a r2) c'"
    by metis
  with handleStream_auth [OF assms(1)] show ?thesis by blast
qed

theorem sq_commands_roundtrip_witness:
  "handleStream sample_sq_hash 0 sample_auth_stream newServerQUICConn =
     set_stream 0 (SEnded None) (newServerQUICConn\<lparr>q_authDone := True\<rparr>) \<and>
   (\<exists>r1 r2. handleStream sample_sq_hash 0 sample_connect_stream newServerQUICConn = set_stream 0 (SWaitAuth r1) newServerQUICConn \<and>
      contents r2 = [7] \<and> handleTCPConnectCommand 0 r1 newServerQUICConn = set_stream 0 (SForward sample_sq_addr r2) newServerQUICConn)"
proof -
  note both = sq_commands_roundtrip [OF sample_sq_streams(1,2,4,3), of 0 newServerQUICConn]
  then obtain r1 r2 where "handleStream sample_sq_hash 0 sample_connect_stream newServerQUICConn = set_stream 0 (SWaitAuth r1) newServerQUICConn"
    "contents r2 = [7]" "handleTCPConnectCommand 0 r1 newServerQUICConn =
      set_stream 0 (if q_cancelled newServerQUICConn then SEnded (Some CtxCanceled) else SForward sample_sq_addr r2) newServerQUICConn"
    by blast
  moreover have "\<not> q_cancelled newServerQUICConn" by (simp add: newServerQUICConn_def)
  ultimately show ?thesis using both by auto
qed

text \<open>
  C36. No tunnel request waits for ever on the server: its goroutines take finitely many steps by
  themselves, and when they can take no more, a stream waits for the authentication only while
  the authentication timer runs, the connection is not authenticated and its context not
  cancelled, and a stream waits for the handshake only while that is not complete and the QUIC
  connection is open. So when the time-out has passed no stream waits for the authentication.
  (How long an unfinished handshake keeps the connection open is up to the QUIC library.)
\<close>

theorem sq_waiting_released:
  "wfP (\<lambda>c' c. sq_own c c') \<and>
   (\<forall>c. (sq_step authHash)\<^sup>*\<^sup>* newServerQUICConn c \<and> (\<nexists>c'. sq_own c c') \<longrightarrow>
      (\<forall>st \<in> set (q_streams c).
         (\<forall>r. st = SWaitAuth r \<longrightarrow> q_timer c \<and> \<not> q_authDone c \<and> \<not> q_cancelled c) \<and>
         (\<forall>r. st = SWaitHandshake r \<longrightarrow> \<not> q_handshake c \<and> q_closed c = None)))"
proof
  show "wfP (\<lambda>c' c. sq_own c c')"
    by (rule wfp_if_convertible_to_nat [of _ sq_measure]) (rule sq_measure_own)
  show "\<forall>c. (sq_step authHash)\<^sup>*\<^sup>* newServerQUICConn c \<and> (\<nexists>c'. sq_own c c') \<longrightarrow>
      (\<forall>st \<in> set (q_streams c).
         (\<forall>r. st = SWaitAuth r \<longrightarrow> q_timer c \<and> \<not> q_authDone c \<and> \<not> q_cancelled c) \<and>
         (\<forall>r. st = SWaitHandshake r \<longrightarrow> \<not> q_handshake c \<and> q_closed c = None))"
  proof (intro allI impI ballI)
    fix c st
    assume c: "(sq_step authHash)\<^sup>*\<^sup>* newServerQUICConn c \<and> (\<nexists>c'. sq_own c c')" and st: "st \<in> set (q_streams c)"
    then have "\<not> q_timer c \<Longrightarrow> q_authDone c \<or> q_cancelled c" using sq_inv_reachable by (auto simp: sq_inv_def)
    then show "(\<forall>r. st = SWaitAuth r \<longrightarrow> q_timer c \<and> \<not> q_authDone c \<and> \<not> q_cancelled c) \<and>
         (\<forall>r. st = SWaitHandshake r \<longrightarrow> \<not> q_handshake c \<and> q_closed c = None)"
      using sq_own_enabled [OF conjunct2 [OF c] st] by blast
  qed
qed

text \<open>A connect command comes, nobody authenticates, and the time-out passes: the stream is released.\<close>

theorem sq_waiting_released_witness:
  "\<exists>c :: sq_conn. (sq_step sample_sq_hash)\<^sup>*\<^sup>* newServerQUICConn c \<and> \<not> q_timer c \<and> \<not> q_authDone c \<and>
     length (q_streams c) = 1 \<and> (\<forall>st \<in> set (q_streams c). \<forall>r. st \<noteq> SWaitAuth r)"
proof -
  let ?b = sample_connect_stream and ?S = "sq_step sample_sq_hash"
  let ?c1 = "newServerQUICConn\<lparr>q_streams := [SNew ?b], q_accepted := [?b]\<rparr>"
  from handleStream_connect [OF sample_sq_streams(2,4,3), of sample_sq_hash 0 ?c1] obtain r1 where
    r: "handleStream sample_sq_hash 0 ?b ?c1 = set_stream 0 (SWaitAuth r1) ?c1" by metis
  let ?c2 = "?c1\<lparr>q_streams := [SWaitAuth r1]\<rparr>"
  let ?c3 = "sq_close (?c2\<lparr>q_timer := False\<rparr>)"
  let ?c4 = "set_stream 0 (SEnded (Some CtxCanceled)) ?c3"
  have "?S newServerQUICConn ?c1"
    using sq_env.AcceptStream [of newServerQUICConn sample_sq_hash ?b, THEN sq_step.env] by (simp add: newServerQUICConn_def)
  moreover have "?S ?c1 ?c2"
    using sq_env.Command [of 0 ?c1 ?b sample_sq_hash, THEN sq_step.env] r by (simp add: set_stream_def newServerQUICConn_def)
  moreover have "?S ?c2 ?c3" by (intro sq_step.env sq_env.TimeoutExpired) (simp add: newServerQUICConn_def)
  moreover have "?S ?c3 ?c4" by (intro sq_step.own sq_own.AuthCancelled) simp_all
  ultimately have run: "?S\<^sup>*\<^sup>* newServerQUICConn ?c4" by (meson converse_rtranclp_into_rtranclp rtranclp.rtrancl_refl)
  have "\<nexists>c'. sq_own ?c4 c'" by (auto elim!: sq_ownE)
  with sq_waiting_released [of sample_sq_hash] run have "\<forall>st \<in> set (q_streams ?c4). \<forall>r. st = SWaitAuth r \<longrightarrow> q_timer ?c4" by blast
  then have "\<forall>st \<in> set (q_streams ?c4). \<forall>r. st \<noteq> SWaitAuth r" by simp
  with run show ?thesis by (intro exI [of _ ?c4]) (simp add: newServerQUICConn_def)
qed

text \<open>
  The client hands out a QUIC connection only if it is alive and the server has its
  authentication: the connection returned is the one that was cached and is still open, or a new
  one whose authentication command was sent and not lost with rejected early data; a connection
  that fails to authenticate is closed and nothing is cached.
\<close>

theorem sq_getQUICConn_sound:
  "case getQUICConn w c of
     (Inr n, ev, c') \<Rightarrow> sqc_quicConn c' = Some n \<and>
       (if ev = [] then sqc_quicConn c = Some n \<and> sw_ctxErr w n = None
        else ev = [SqDialed n, SqAuthenticated n] \<and> auth_delivered (sw_flight w))
   | (Inl e, ev, c') \<Rightarrow> sqc_quicConn c' = None \<and> (\<forall>n. SqDialed n \<in> set ev \<longleftrightarrow> SqClosed n \<in> set ev)"
  by (auto simp: getQUICConn_def Let_def split: sum.splits option.splits dest: sq_authenticate_delivered)

end
