(* ===== verification/SsCarrier.thy ===== *)
theory SsCarrier
  imports SsConn Relay Conf
begin

text \<open>
  The two ends of the Shadowsocks carrier as they are built from a configuration: the client of
  \<open>transport/ss_carrier/client.go\<close> and the server of \<open>transport/ss_carrier/server.go\<close>. HKDF is the
  argument \<open>DeriveN\<close>, as in the other carriers.
\<close>

section \<open>Keys\<close>

definition blake3Aes128GcmKeySize :: nat where "blake3Aes128GcmKeySize = 16"

definition ss_Method :: string where "ss_Method = ''2022-blake3-aes-128-gcm''"

text \<open>A \<open>nil\<close> password cannot be sliced.\<close>

definition slice_password :: "bytes option \<Rightarrow> bytes res" where
  "slice_password password =
     (case password of None \<Rightarrow> Inl (Panic ''nil pointer dereference'') | Some bs \<Rightarrow> Inr bs)"

definition toShadowsocksSharedKey :: "(bytes \<Rightarrow> string \<Rightarrow> nat \<Rightarrow> bytes) \<Rightarrow> bytes \<Rightarrow> bytes" where
  "toShadowsocksSharedKey DeriveN password =
     DeriveN password ''hg/shadowsocks/auth-shared-key/v1'' blake3Aes128GcmKeySize"

definition ss_AuthPassword :: "(bytes \<Rightarrow> string \<Rightarrow> nat \<Rightarrow> bytes) \<Rightarrow> bytes \<Rightarrow> string" where
  "ss_AuthPassword DeriveN password = base64_EncodeToString (toShadowsocksSharedKey DeriveN password)"

definition generateSalt :: "(nat \<Rightarrow> bytes) \<Rightarrow> bytes \<Rightarrow> bytes" where
  "generateSalt RandNBytes psk = RandNBytes (length psk)"

section \<open>The client\<close>

text \<open>\<open>exPicker\<close> is the closure of \<open>weightedIntN\<close> over the weights drawn for it.\<close>

record ss_client =
  scl_serverHostWithPort :: string
  scl_preSharedKey :: bytes
  scl_aeadOverhead :: nat
  scl_exPicker :: "nat \<Rightarrow> nat"

definition ss_NewClient ::
  "(bytes \<Rightarrow> string \<Rightarrow> nat \<Rightarrow> bytes) \<Rightarrow> (nat \<Rightarrow> u32) \<Rightarrow> ProxyNode \<Rightarrow> ss_client res" where
  "ss_NewClient DeriveN weights proxyNode =
     (case pn_TCPPort proxyNode of
        None \<Rightarrow> Inl (Panic ''nil pointer dereference'')
      | Some port \<Rightarrow>
          (case slice_password (pn_Password proxyNode) of
             Inl err \<Rightarrow> Inl err
           | Inr password \<Rightarrow>
               Inr \<lparr>scl_serverHostWithPort = JoinHostPort (pn_Host proxyNode) port,
                 scl_preSharedKey = toShadowsocksSharedKey DeriveN password,
                 scl_aeadOverhead = gcmTagOverhead,
                 scl_exPicker = weightedIntN (map weights [0..<2])\<rparr>))"

text \<open>The random draws of one \<open>DialTCP\<close>: the salt, the draw of the picker and those of the prefix.\<close>

record ss_dial_draws =
  dd_salt :: "nat \<Rightarrow> bytes"
  dd_pick :: nat
  dd_draw6 :: "nat \<Rightarrow> nat"
  dd_pattern :: nat

definition ss_DialTCP ::
  "ss_dial_draws \<Rightarrow> (string \<Rightarrow> netconn res) \<Rightarrow> ss_client \<Rightarrow> SocketAddress \<Rightarrow> ss_conn res" where
  "ss_DialTCP d netDial c addr =
     (case customFirstReqPrefixes (scl_exPicker c (dd_pick d)) (dd_draw6 d) (dd_pattern d)
         (generateSalt (dd_salt d) (scl_preSharedKey c)) of
        Inl err \<Rightarrow> Inl err
      | Inr salt \<Rightarrow>
          (case netDial (scl_serverHostWithPort c) of
             Inl err \<Rightarrow> Inl (ErrWrap ''fail to connect to the server'' err)
           | Inr targetConn \<Rightarrow>
               Inr (newClientConn targetConn addr (scl_preSharedKey c) salt (scl_aeadOverhead c))))"

section \<open>The server\<close>

record ss_server =
  ssv_hostWithPort :: string
  ssv_preSharedKey :: bytes
  ssv_aeadOverhead :: nat
  ssv_saltPool :: "bytes saltPool"

definition ss_NewServer :: "(bytes \<Rightarrow> string \<Rightarrow> nat \<Rightarrow> bytes) \<Rightarrow> int \<Rightarrow> Hg \<Rightarrow> ss_server res" where
  "ss_NewServer DeriveN now hg =
     (case hg_TCPPort hg of
        None \<Rightarrow> Inl (Panic ''nil pointer dereference'')
      | Some port \<Rightarrow>
          (case slice_password (hg_Password hg) of
             Inl err \<Rightarrow> Inl err
           | Inr password \<Rightarrow>
               Inr \<lparr>ssv_hostWithPort = JoinHostPort (hg_Host hg) port,
                 ssv_preSharedKey = toShadowsocksSharedKey DeriveN password,
                 ssv_aeadOverhead = gcmTagOverhead, ssv_saltPool = newSaltPool now\<rparr>))"

text \<open>
  \<open>serve\<close>: how it ends, a refused connection or one piped to its target, and the server with
  the salt pool as the request left it.
\<close>

datatype 'c ss_served = SsFailed goerr ss_conn | SsPiped ss_conn 'c

definition ss_serve ::
  "ss_crypto \<Rightarrow> ss_inputs \<Rightarrow> goerr option \<Rightarrow> (SocketAddress \<Rightarrow> 'c res) \<Rightarrow> netconn \<Rightarrow> ss_server \<Rightarrow>
   'c ss_served \<times> ss_server" where
  "ss_serve env inp ctxErr dial conn s =
     (case readClientFirstPayload env inp (newServerConn conn (ssv_preSharedKey s) (ssv_aeadOverhead s) (ssv_saltPool s)) of
        (r, sc) \<Rightarrow>
          (case r of
             Inl err \<Rightarrow> SsFailed err sc
           | Inr _ \<Rightarrow>
               (case accessAddr sc of
                  None \<Rightarrow> SsFailed (Panic ''nil pointer dereference'') sc
                | Some a \<Rightarrow>
                    (case ForwardTCP ctxErr dial a (tcp sc) of
                       Refused err t \<Rightarrow> SsFailed err (sc\<lparr>tcp := t\<rparr>)
                     | Piped t target \<Rightarrow> SsPiped (sc\<lparr>tcp := t\<rparr>) target)),
           s\<lparr>ssv_saltPool := serverSideSaltPool sc\<rparr>))"

section \<open>Clients and servers of one configuration\<close>

lemma customFirstReqPrefixes_length:
  assumes "customFirstReqPrefixes ex d6 pick bs = Inr salt" "6 \<le> length bs"
  shows "length salt = length bs"
proof -
  have "length (ex5_patterns ! (pick mod 6)) \<le> 6"
  proof -
    have "\<forall>p \<in> set ex5_patterns. length p \<le> 6" by (simp add: ex5_patterns_def)
    moreover have "pick mod 6 < length ex5_patterns" by (simp add: ex5_patterns_def)
    ultimately show ?thesis by (metis nth_mem)
  qed
  with assms show ?thesis
    by (auto simp: customFirstReqPrefixes_def copy_into_def split: if_splits)
qed

text \<open>The documented lengths of the key derivation and of the random source.\<close>

definition derive_ok :: "(bytes \<Rightarrow> string \<Rightarrow> nat \<Rightarrow> bytes) \<Rightarrow> bool" where
  "derive_ok DeriveN \<longleftrightarrow> (\<forall>password info n. length (DeriveN password info n) = n)"

lemma ss_NewClient_fields:
  "ss_NewClient DeriveN weights node = Inr c \<Longrightarrow> pn_Password node = Some pw \<Longrightarrow>
    scl_preSharedKey c = toShadowsocksSharedKey DeriveN pw \<and> scl_aeadOverhead c = 16"
  by (auto simp: ss_NewClient_def slice_password_def gcmTagOverhead_def split: option.splits)

lemma ss_NewServer_fields:
  "ss_NewServer DeriveN now hg = Inr s \<Longrightarrow> hg_Password hg = Some pw \<Longrightarrow>
    ssv_preSharedKey s = toShadowsocksSharedKey DeriveN pw \<and> ssv_aeadOverhead s = 16 \<and> ssv_saltPool s = newSaltPool now"
  by (auto simp: ss_NewServer_def slice_password_def gcmTagOverhead_def split: option.splits)

lemma ss_DialTCP_conn:
  assumes "ss_DialTCP d netDial c a = Inr cc" "6 \<le> length (scl_preSharedKey c)"
    "\<And>n. length (dd_salt d n) = n"
  shows "\<exists>nc salt. netDial (scl_serverHostWithPort c) = Inr nc \<and> length salt = length (scl_preSharedKey c) \<and>
    cc = newClientConn nc a (scl_preSharedKey c) salt (scl_aeadOverhead c)"
  using assms(1) customFirstReqPrefixes_length [where bs = "generateSalt (dd_salt d) (scl_preSharedKey c)"] assms(2,3)
  by (fastforce simp: ss_DialTCP_def generateSalt_def split: sum.splits)

text \<open>A salt pool that is empty accepts every salt.\<close>

lemma checkAndAdd_new [simp]: "fst (checkAndAdd now salt (newSaltPool t))"
  by (simp add: checkAndAdd_def clean_pool_def newSaltPool_def Let_def)

text \<open>The way of a request from one end to the other.\<close>

lemma ss_request_carried:
  assumes node: "ss_NewClient DeriveN weights node = Inr c" "pn_Password node = Some pw"
    and hg: "ss_NewServer DeriveN now hg = Inr s0" "hg_Password hg = Some pw" "s = s0\<lparr>ssv_saltPool := sp\<rparr>"
    and env: "crypto_ok env" "derive_ok DeriveN" "\<And>n. length (dd_salt d n) = n" "padding_ok inp"
    and clock: "0 \<le> in_unix inp" "in_unix inp < 2 ^ 63" "0 \<le> in_unix inp'" "in_unix inp' < 2 ^ 63"
      "\<bar>in_unix inp - in_unix inp'\<bar> \<le> 30"
    and a: "wire_addr a" and dial: "ss_DialTCP d netDial c a = Inr cc" "cout (tcp cc) = \<lparr>wout = [], wplan = []\<rparr>"
    and run: "ReadFrom env inp r cc = (n, err, r', cc')" "fin r = EOF"
    and net: "contents (cin sc) = ss_out cc'" "fin (cin sc) = EOF" "first_read_ok 43 (cin sc)"
    and fresh: "fst (checkAndAdd (in_nanos inp') (clientSalt cc) sp)" and target: "dialTarget a = Inr target"
    and fuel: "length (contents r) + length (ss_out cc') < k"
  shows "n = length (contents r) \<and> err = None \<and>
    (\<exists>sc' s' w' sc''. ss_serve env inp' None dialTarget sc s = (SsPiped sc' target, s') \<and>
       accessAddr sc' = Some a \<and> ss_data env sc' = contents r \<and>
       WriteTo env inp' k 0 (Wr \<lparr>wout = [], wplan = []\<rparr>) sc' = Some (length (contents r), None, Wr w', sc'') \<and>
       sent w' = contents r)"
proof -
  let ?psk = "toShadowsocksSharedKey DeriveN pw"
  have psk: "length ?psk = 16"
    using env(2) by (simp add: derive_ok_def toShadowsocksSharedKey_def blake3Aes128GcmKeySize_def)
  have c: "scl_preSharedKey c = ?psk" "scl_aeadOverhead c = 16" using ss_NewClient_fields [OF node] by simp_all
  have s: "ssv_preSharedKey s = ?psk" "ssv_aeadOverhead s = 16" "ssv_saltPool s = sp"
    using ss_NewServer_fields [OF hg(1,2)] hg(3) by simp_all
  have peers: "ss_peers env ?psk inp inp'" using env(1) clock psk by (simp add: ss_peers_def)
  from ss_DialTCP_conn [OF dial(1) _ env(3)] obtain nc salt where
    cc: "length salt = 16" "cc = newClientConn nc a ?psk salt 16" by (auto simp: c psk)
  then have nc: "cout nc = \<lparr>wout = [], wplan = []\<rparr>" "clientSalt cc = salt"
    using dial(2) by (simp_all add: newClientConn_def)
  have "length salt = length ?psk" "first_read_ok (length ?psk + 27) (cin sc)" "wplan \<lparr>wout = [], wplan = []\<rparr> = []"
    using cc net(3) psk by simp_all
  from ss_request_arrives [OF peers env(4) a this(1) nc(1) run(2) run(1) [unfolded cc(2)] net(1,2) this(2)
      fresh [unfolded nc(2)] this(3) fuel]
  show ?thesis using target by (auto simp: ss_serve_def s ForwardTCP_def sent_def)
qed

section \<open>Properties\<close>

text \<open>
  C8. A client and a server configured with one password carry a request: whatever an application
  sends before it closes, for every draw of salt, exemption prefix and padding and every
  segmentation whose first read covers the salt and the fixed header, the server that receives
  the client's bytes dials exactly the destination the client was asked for, pipes the
  connection to it, and relays exactly the application's bytes. The conditions: the first read of
  the server gets the 43 bytes of the salt and the fixed header, without an error, which the code asks
  for in one read and otherwise refuses; the salt is new to the server's pool; the clocks are at most 30 seconds
  apart; the destination has no zone and, if it is a domain, at most 255 bytes; and no write of the
  client's connection fails.
\<close>

theorem ss_request_delivered:
  assumes node: "ss_NewClient DeriveN weights node = Inr c" "pn_Password node = Some pw"
    and hg: "ss_NewServer DeriveN now hg = Inr s0" "hg_Password hg = Some pw" "s = s0\<lparr>ssv_saltPool := sp\<rparr>"
    and env: "crypto_ok env" "derive_ok DeriveN" "\<And>n. length (dd_salt d n) = n" "padding_ok inp"
    and clock: "0 \<le> in_unix inp" "in_unix inp < 2 ^ 63" "0 \<le> in_unix inp'" "in_unix inp' < 2 ^ 63"
      "\<bar>in_unix inp - in_unix inp'\<bar> \<le> 30"
    and a: "wire_addr a" and dial: "ss_DialTCP d netDial c a = Inr cc" "cout (tcp cc) = \<lparr>wout = [], wplan = []\<rparr>"
    and run: "ReadFrom env inp r cc = (n, err, r', cc')" "fin r = EOF"
    and net: "contents (cin sc) = ss_out cc'" "fin (cin sc) = EOF" "first_read_ok 43 (cin sc)"
    and fresh: "fst (checkAndAdd (in_nanos inp') (clientSalt cc) sp)" and target: "dialTarget a = Inr target"
    and fuel: "length (contents r) + length (ss_out cc') < k"
  shows "n = length (contents r) \<and> err = None \<and>
    (\<exists>sc' s' w' sc''. ss_serve env inp' None dialTarget sc s = (SsPiped sc' target, s') \<and>
       accessAddr sc' = Some a \<and> ss_data env sc' = contents r \<and>
       WriteTo env inp' k 0 (Wr \<lparr>wout = [], wplan = []\<rparr>) sc' = Some (length (contents r), None, Wr w', sc'') \<and>
       sent w' = contents r)"
  using assms by (rule ss_request_carried)

definition sample_derive :: "bytes \<Rightarrow> string \<Rightarrow> nat \<Rightarrow> bytes" where
  "sample_derive password info n = replicate n 1"

definition sample_draws :: ss_dial_draws where
  "sample_draws = \<lparr>dd_salt = (\<lambda>n. replicate n 4), dd_pick = 0, dd_draw6 = id, dd_pattern = 0\<rparr>"

definition sample_ss_node :: ProxyNode where
  "sample_ss_node = zero_ProxyNode\<lparr>pn_Host := ''h'', pn_Password := Some (replicate 16 3), pn_TCPPort := Some 1\<rparr>"

definition sample_ss_hg :: Hg where
  "sample_ss_hg = zero_Hg\<lparr>hg_Host := ''h'', hg_Password := Some (replicate 16 3), hg_TCPPort := Some 1\<rparr>"

definition sample_ss_client :: ss_client where
  "sample_ss_client = \<lparr>scl_serverHostWithPort = JoinHostPort ''h'' 1, scl_preSharedKey = sample_psk,
     scl_aeadOverhead = 16, scl_exPicker = weightedIntN [0, 0]\<rparr>"

definition sample_ss_server :: ss_server where
  "sample_ss_server = \<lparr>ssv_hostWithPort = JoinHostPort ''h'' 1, ssv_preSharedKey = sample_psk,
     ssv_aeadOverhead = 16, ssv_saltPool = newSaltPool 0\<rparr>"

lemma sample_ss_new:
  "ss_NewClient sample_derive (\<lambda>_. 0) sample_ss_node = Inr sample_ss_client"
  "ss_NewServer sample_derive 0 sample_ss_hg = Inr sample_ss_server"
  by (simp_all add: ss_NewClient_def ss_NewServer_def sample_ss_node_def sample_ss_hg_def zero_ProxyNode_def zero_Hg_def
      sample_ss_client_def sample_ss_server_def slice_password_def toShadowsocksSharedKey_def sample_derive_def
      blake3Aes128GcmKeySize_def sample_psk_def gcmTagOverhead_def numeral_2_eq_2)

lemma sample_pick: "weightedIntN [0, 0] 0 = 0"
  by (simp add: weightedIntN_def sort_Search.simps [of 0 "Suc (Suc 0)"] sort_Search.simps [of 0 "Suc 0"] sort_Search.simps [of 0 0])

text \<open>The sample run: the client's connection, and what the server receives in one segment.\<close>

abbreviation "sample_ss_addr \<equiv> NewSocketAddressByDomain ''a.b'' 80"

lemma sample_dial:
  "\<exists>salt. ss_DialTCP sample_draws (\<lambda>_. Inr (mk_conn (mk_reader []))) sample_ss_client sample_ss_addr =
     Inr (newClientConn (mk_conn (mk_reader [])) sample_ss_addr sample_psk salt 16) \<and> length salt = 16"
  by (simp add: ss_DialTCP_def sample_ss_client_def sample_draws_def sample_pick customFirstReqPrefixes_def
      generateSalt_def sample_psk_def copy_into_def) (intro exI conjI, rule refl, simp)

theorem ss_request_delivered_witness:
  "\<exists>sc sc' s' w' sc''. ss_serve tag_crypto sample_inputs None (\<lambda>a. Inr (sa_Port a)) sc sample_ss_server = (SsPiped sc' 80, s') \<and>
     accessAddr sc' = Some sample_ss_addr \<and> ss_data tag_crypto sc' = [1, 2, 3] \<and>
     (\<exists>k. WriteTo tag_crypto sample_inputs k 0 (Wr \<lparr>wout = [], wplan = []\<rparr>) sc' = Some (3, None, Wr w', sc'')) \<and>
     sent w' = [1, 2, 3]"
proof -
  from sample_dial obtain salt where d: "length salt = 16" "ss_DialTCP sample_draws (\<lambda>_. Inr (mk_conn (mk_reader [])))
      sample_ss_client sample_ss_addr = Inr (newClientConn (mk_conn (mk_reader [])) sample_ss_addr sample_psk salt 16)" by blast
  obtain n err r' cc' where run: "ReadFrom tag_crypto sample_inputs (mk_reader [[1, 2], [3]])
      (newClientConn (mk_conn (mk_reader [])) sample_ss_addr sample_psk salt 16) = (n, err, r', cc')" by (metis prod_cases4)
  let ?sc = "mk_conn (mk_reader [ss_out cc'])"
  have read: "first_read_ok 43 (cin ?sc)"
    using sample_first_read [OF run d(1)] sample_addr by (simp add: mk_conn_def mk_reader_def [of "[[1, 2], [3]]"])
  have pw: "pn_Password sample_ss_node = Some (replicate 16 3)" "hg_Password sample_ss_hg = Some (replicate 16 3)"
    by (simp_all add: sample_ss_node_def sample_ss_hg_def)
  have s: "sample_ss_server = sample_ss_server\<lparr>ssv_saltPool := newSaltPool 0\<rparr>" by (simp add: sample_ss_server_def)
  have ok: "derive_ok sample_derive" "\<And>n. length (dd_salt sample_draws n) = n"
    by (simp_all add: derive_ok_def sample_derive_def sample_draws_def)
  have clock: "0 \<le> in_unix sample_inputs" "in_unix sample_inputs < 2 ^ 63" "\<bar>in_unix sample_inputs - in_unix sample_inputs\<bar> \<le> 30"
    by (simp_all add: sample_inputs_def)
  have io: "cout (tcp (newClientConn (mk_conn (mk_reader [])) sample_ss_addr sample_psk salt 16)) = \<lparr>wout = [], wplan = []\<rparr>"
    "fin (mk_reader [[1, 2], [3]]) = EOF" "contents (cin ?sc) = ss_out cc'" "fin (cin ?sc) = EOF"
    by (simp_all add: newClientConn_def mk_conn_def mk_reader_def contents_def)
  have "\<exists>sc' s' w' sc''. ss_serve tag_crypto sample_inputs None (\<lambda>a. Inr (sa_Port a)) ?sc sample_ss_server = (SsPiped sc' 80, s') \<and>
     accessAddr sc' = Some sample_ss_addr \<and> ss_data tag_crypto sc' = contents (mk_reader [[1, 2], [3]]) \<and>
     WriteTo tag_crypto sample_inputs (4 + length (ss_out cc')) 0 (Wr \<lparr>wout = [], wplan = []\<rparr>) sc' =
       Some (length (contents (mk_reader [[1, 2], [3]])), None, Wr w', sc'') \<and>
     sent w' = contents (mk_reader [[1, 2], [3]])"
    by (rule ss_request_delivered [OF sample_ss_new(1) pw(1) sample_ss_new(2) pw(2) s crypto_ok_tag ok sample_padding
          clock(1,2) clock(1,2,3) sample_addr d(2) io(1) run io(2-4) read, THEN conjunct2, THEN conjunct2]) simp_all
  then obtain sc' s' w' sc'' where r: "ss_serve tag_crypto sample_inputs None (\<lambda>a. Inr (sa_Port a)) ?sc sample_ss_server = (SsPiped sc' 80, s')"
    "accessAddr sc' = Some sample_ss_addr" "ss_data tag_crypto sc' = [1, 2, 3]"
    "WriteTo tag_crypto sample_inputs (4 + length (ss_out cc')) 0 (Wr \<lparr>wout = [], wplan = []\<rparr>) sc' = Some (3, None, Wr w', sc'')"
    "sent w' = [1, 2, 3]"
    unfolding contents_mk_reader by (auto simp: numeral_3_eq_3)
  show ?thesis
    by (rule exI [of _ ?sc], rule exI [of _ sc'], rule exI [of _ s'], rule exI [of _ w'], rule exI [of _ sc''])
       (intro conjI r exI [of _ "4 + length (ss_out cc')"])
qed

end
