(* ===== verification/Carriers.thy ===== *)
theory Carriers
  imports SsCarrier TrCarrier NpCarrier SqCarrier NetUtil
begin

text \<open>
  The four carriers as they are built from a configuration: the \<open>NewClient\<close> of each, the choice
  between them in \<open>newCarrierClient\<close> of \<open>transport/router/client.go\<close>, the \<open>NewServer\<close> of each, and
  the credentials that \<open>util/cli/info.go\<close> prints for them. Key derivation, hashing and the TLS
  files are the fields of \<open>carrier_env\<close>.
\<close>

section \<open>Clients\<close>

record carrier_env =
  ce_DeriveN :: "bytes \<Rightarrow> string \<Rightarrow> nat \<Rightarrow> bytes"
  ce_SHA224 :: "bytes \<Rightarrow> bytes"
  ce_SHA256 :: "bytes \<Rightarrow> bytes"
  ce_weights :: "nat \<Rightarrow> u32"
  ce_tls :: tls_env

record tr_client =
  trn_serverHostWithPort :: string
  trn_passwordHash :: bytes
  trn_tlsConfig :: tls_config

definition tr_NewClient :: "carrier_env \<Rightarrow> ProxyNode \<Rightarrow> bool \<Rightarrow> (tls_state, tr_client) io" where
  "tr_NewClient env proxyNode tlsKeyLog =
     io_bind (TLSClientConfig (ce_tls env) (pn_Host proxyNode) (pn_TLSCustomCertFile proxyNode) tlsKeyLog False) (\<lambda>tlsConfig.
     io_bind (io_lift (slice_password (pn_Password proxyNode))) (\<lambda>password.
     io_ret \<lparr>trn_serverHostWithPort = JoinHostPort (pn_Host proxyNode) (pn_TLSPort proxyNode),
       trn_passwordHash = toTrojanPasswordHash (ce_SHA224 env) (ce_DeriveN env) password,
       trn_tlsConfig = tlsConfig\<rparr>))"

definition np_NewClient :: "carrier_env \<Rightarrow> ProxyNode \<Rightarrow> bool \<Rightarrow> (tls_state, np_client \<times> tls_config) io" where
  "np_NewClient env proxyNode tlsKeyLog =
     io_bind (TLSClientConfig (ce_tls env) (pn_Host proxyNode) (pn_TLSCustomCertFile proxyNode) tlsKeyLog False) (\<lambda>tlsConfig.
     io_bind (io_lift (slice_password (pn_Password proxyNode))) (\<lambda>password.
     io_ret (\<lparr>npc_serverHostWithPort = JoinHostPort (pn_Host proxyNode) (pn_TLSPort proxyNode),
       npc_basicAuthToken = basicAuthPrefix @ basicAuthToken (ce_DeriveN env) password,
       npc_clientConn = None, npc_padding = (\<lambda>n. False)\<rparr>, tlsConfig)))"

definition sq_NewClient :: "carrier_env \<Rightarrow> ProxyNode \<Rightarrow> bool \<Rightarrow> (tls_state, sq_client \<times> tls_config) io" where
  "sq_NewClient env proxyNode tlsKeyLog =
     io_bind (TLSClientConfig (ce_tls env) (pn_Host proxyNode) (pn_TLSCustomCertFile proxyNode) tlsKeyLog True) (\<lambda>tlsConfig.
     io_bind (io_lift (slice_password (pn_Password proxyNode))) (\<lambda>password.
     io_ret (\<lparr>sqc_serverHostWithPort = JoinHostPort (pn_Host proxyNode) (pn_QUICPort proxyNode),
       sqc_authHash = toSunnyQUICAuthHash (ce_SHA256 env) (ce_DeriveN env) password,
       sqc_quicConn = None\<rparr>, tlsConfig)))"

text \<open>A \<open>transport.Client\<close> of an outbound is one of the four.\<close>

datatype carrier =
    SsClient ss_client
  | TrClient tr_client
  | NpClient np_client tls_config
  | SqClient sq_client tls_config

definition io_map :: "('a \<Rightarrow> 'b) \<Rightarrow> ('s, 'a) io \<Rightarrow> ('s, 'b) io" where
  "io_map f m = io_bind m (\<lambda>x. io_ret (f x))"

text \<open>An outbound that is not configured is a \<open>nil\<close> pointer, which every \<open>NewClient\<close> dereferences.\<close>

definition newCarrierClient ::
  "carrier_env \<Rightarrow> string \<Rightarrow> ProxyNode option \<Rightarrow> bool \<Rightarrow> (tls_state, carrier) io" where
  "newCarrierClient env transport proxyNode tlsKeyLog =
     (if transport \<notin> {ShadowsocksTransport, ShadowsocksTransportAlias, TrojanTransport, TrojanTransportAlias,
         NaiveProxyTransport, NaiveProxyTransportAlias, SunnyQUICTransport, SunnyQUICTransportAlias}
      then io_fail (ErrNew ''unsupported transport type'')
      else (case proxyNode of
        None \<Rightarrow> io_fail (Panic ''nil pointer dereference'')
      | Some node \<Rightarrow>
          if transport = ShadowsocksTransport \<or> transport = ShadowsocksTransportAlias
          then io_map SsClient (io_lift (ss_NewClient (ce_DeriveN env) (ce_weights env) node))
          else if transport = TrojanTransport \<or> transport = TrojanTransportAlias
          then io_map TrClient (tr_NewClient env node tlsKeyLog)
          else if transport = NaiveProxyTransport \<or> transport = NaiveProxyTransportAlias
          then io_map (\<lambda>(c, cfg). NpClient c cfg) (np_NewClient env node tlsKeyLog)
          else io_map (\<lambda>(c, cfg). SqClient c cfg) (sq_NewClient env node tlsKeyLog)))"

section \<open>Servers\<close>

record tr_server =
  trs_host :: string
  trs_port :: u16
  trs_passwordHash :: bytes
  trs_tlsCertKeyPair :: "TLSCertKeyPair option"

definition tr_NewServer :: "carrier_env \<Rightarrow> Hg \<Rightarrow> tr_server res" where
  "tr_NewServer env hg =
     (case slice_password (hg_Password hg) of
        Inl err \<Rightarrow> Inl err
      | Inr password \<Rightarrow>
          Inr \<lparr>trs_host = hg_Host hg, trs_port = hg_TLSPort hg,
            trs_passwordHash = toTrojanPasswordHash (ce_SHA224 env) (ce_DeriveN env) password,
            trs_tlsCertKeyPair = hg_TLSCertKeyPair hg\<rparr>)"

definition np_NewServer :: "carrier_env \<Rightarrow> Hg \<Rightarrow> np_server res" where
  "np_NewServer env hg =
     (case slice_password (hg_Password hg) of
        Inl err \<Rightarrow> Inl err
      | Inr password \<Rightarrow>
          Inr \<lparr>nps_host = hg_Host hg, nps_port = hg_TLSPort hg,
            nps_authToken = basicAuthToken (ce_DeriveN env) password\<rparr>)"

text \<open>\<open>tr_np_carrier\<close> builds both servers of the TLS port.\<close>

definition tr_np_NewServer :: "carrier_env \<Rightarrow> Hg \<Rightarrow> (tr_server \<times> np_server) res" where
  "tr_np_NewServer env hg =
     (case tr_NewServer env hg of
        Inl err \<Rightarrow> Inl err
      | Inr tr \<Rightarrow> (case np_NewServer env hg of Inl err \<Rightarrow> Inl err | Inr np \<Rightarrow> Inr (tr, np)))"

record sq_server =
  sqs_host :: string
  sqs_port :: u16
  sqs_tlsCertKeyPair :: "TLSCertKeyPair option"
  sqs_authHash :: bytes
  sqs_statelessResetKey :: bytes

definition sq_NewServer :: "carrier_env \<Rightarrow> Hg \<Rightarrow> sq_server res" where
  "sq_NewServer env hg =
     (case slice_password (hg_Password hg) of
        Inl err \<Rightarrow> Inl err
      | Inr password \<Rightarrow>
          Inr \<lparr>sqs_host = hg_Host hg, sqs_port = hg_QUICPort hg, sqs_tlsCertKeyPair = hg_TLSCertKeyPair hg,
            sqs_authHash = toSunnyQUICAuthHash (ce_SHA256 env) (ce_DeriveN env) password,
            sqs_statelessResetKey = toStatelessResetKey (ce_DeriveN env) password\<rparr>)"

section \<open>The printed connection details\<close>

record protocolInfo =
  pi_protocol :: string
  pi_network :: string
  pi_port :: u16
  pi_username :: string
  pi_password :: string

definition DefaultUsername :: string where "DefaultUsername = ''hg''"

definition carrierInfos ::
  "carrier_env \<Rightarrow> bytes option \<Rightarrow> u16 option \<Rightarrow> u16 \<Rightarrow> u16 \<Rightarrow> protocolInfo list res" where
  "carrierInfos env pwd tcpPort tlsPort quicPort =
     (case slice_password pwd of
        Inl err \<Rightarrow> Inl err
      | Inr password \<Rightarrow>
          Inr ((case tcpPort of
              None \<Rightarrow> []
            | Some port \<Rightarrow> [\<lparr>pi_protocol = ''Shadowsocks ('' @ ss_Method @ '')'', pi_network = ''TCP'', pi_port = port,
                pi_username = ''-'', pi_password = ss_AuthPassword (ce_DeriveN env) password\<rparr>]) @
            [\<lparr>pi_protocol = ''Trojan'', pi_network = ''TLS (over TCP)'', pi_port = tlsPort,
               pi_username = ''-'', pi_password = tr_AuthPassword (ce_DeriveN env) password\<rparr>,
             \<lparr>pi_protocol = ''NaiveProxy (HTTP/2)'', pi_network = ''TLS (over TCP)'', pi_port = tlsPort,
               pi_username = DefaultUsername, pi_password = np_AuthPassword (ce_DeriveN env) password\<rparr>,
             \<lparr>pi_protocol = ''SunnyQUIC'', pi_network = ''QUIC (over UDP)'', pi_port = quicPort,
               pi_username = DefaultUsername, pi_password = sq_AuthPassword (ce_DeriveN env) password\<rparr>]))"

section \<open>Lemmas\<close>

lemma io_map_Inr [simp]:
  "io_map f m s = (Inr y, t) \<longleftrightarrow> (\<exists>x. m s = (Inr x, t) \<and> y = f x)"
  by (auto simp: io_map_def io_bind_eq_Inr)

lemma slice_password_simps [simp]:
  "slice_password (Some pw) = Inr pw" "slice_password p = Inr pw \<longleftrightarrow> p = Some pw"
  by (auto simp: slice_password_def split: option.splits)

text \<open>What a client that was built holds, and where its TLS configuration comes from.\<close>

lemma tr_NewClient_Inr:
  "tr_NewClient env node k s = (Inr c, t) \<longleftrightarrow> (\<exists>cfg pw. pn_Password node = Some pw \<and>
     TLSClientConfig (ce_tls env) (pn_Host node) (pn_TLSCustomCertFile node) k False s = (Inr cfg, t) \<and>
     c = \<lparr>trn_serverHostWithPort = JoinHostPort (pn_Host node) (pn_TLSPort node),
       trn_passwordHash = toTrojanPasswordHash (ce_SHA224 env) (ce_DeriveN env) pw, trn_tlsConfig = cfg\<rparr>)"
  by (auto simp: tr_NewClient_def io_bind_eq_Inr)

lemma np_NewClient_Inr:
  "np_NewClient env node k s = (Inr (c, cfg), t) \<longleftrightarrow> (\<exists>pw. pn_Password node = Some pw \<and>
     TLSClientConfig (ce_tls env) (pn_Host node) (pn_TLSCustomCertFile node) k False s = (Inr cfg, t) \<and>
     c = \<lparr>npc_serverHostWithPort = JoinHostPort (pn_Host node) (pn_TLSPort node),
       npc_basicAuthToken = basicAuthPrefix @ basicAuthToken (ce_DeriveN env) pw, npc_clientConn = None, npc_padding = (\<lambda>n. False)\<rparr>)"
  by (auto simp: np_NewClient_def io_bind_eq_Inr)

lemma sq_NewClient_Inr:
  "sq_NewClient env node k s = (Inr (c, cfg), t) \<longleftrightarrow> (\<exists>pw. pn_Password node = Some pw \<and>
     TLSClientConfig (ce_tls env) (pn_Host node) (pn_TLSCustomCertFile node) k True s = (Inr cfg, t) \<and>
     c = \<lparr>sqc_serverHostWithPort = JoinHostPort (pn_Host node) (pn_QUICPort node),
       sqc_authHash = toSunnyQUICAuthHash (ce_SHA256 env) (ce_DeriveN env) pw, sqc_quicConn = None\<rparr>)"
  by (auto simp: sq_NewClient_def io_bind_eq_Inr)

lemma ss_NewClient_Inr:
  "ss_NewClient D weights node = Inr c \<longleftrightarrow> (\<exists>pw port. pn_Password node = Some pw \<and> pn_TCPPort node = Some port \<and>
     c = \<lparr>scl_serverHostWithPort = JoinHostPort (pn_Host node) port, scl_preSharedKey = toShadowsocksSharedKey D pw,
       scl_aeadOverhead = gcmTagOverhead, scl_exPicker = weightedIntN (map weights [0..<2])\<rparr>)"
  by (auto simp: ss_NewClient_def slice_password_def split: option.splits)

lemmas newClient_Inr = tr_NewClient_Inr np_NewClient_Inr sq_NewClient_Inr ss_NewClient_Inr

lemma newServers_Inr:
  assumes "hg_Password hg = Some pw"
  shows "tr_np_NewServer env hg = Inr
      (\<lparr>trs_host = hg_Host hg, trs_port = hg_TLSPort hg,
         trs_passwordHash = toTrojanPasswordHash (ce_SHA224 env) (ce_DeriveN env) pw, trs_tlsCertKeyPair = hg_TLSCertKeyPair hg\<rparr>,
       \<lparr>nps_host = hg_Host hg, nps_port = hg_TLSPort hg, nps_authToken = basicAuthToken (ce_DeriveN env) pw\<rparr>)"
    "sq_NewServer env hg = Inr \<lparr>sqs_host = hg_Host hg, sqs_port = hg_QUICPort hg, sqs_tlsCertKeyPair = hg_TLSCertKeyPair hg,
       sqs_authHash = toSunnyQUICAuthHash (ce_SHA256 env) (ce_DeriveN env) pw,
       sqs_statelessResetKey = toStatelessResetKey (ce_DeriveN env) pw\<rparr>"
  using assms by (simp_all add: tr_np_NewServer_def tr_NewServer_def np_NewServer_def sq_NewServer_def)

lemma basicAuthEqual_self [simp]: "basicAuthEqual (basicAuthPrefix @ token) token"
  by (simp add: basicAuthEqual_def)

text \<open>A sample environment: hashes and derived keys of the right lengths.\<close>

definition sample_cenv :: carrier_env where
  "sample_cenv = \<lparr>ce_DeriveN = sample_derive, ce_SHA224 = (\<lambda>bs. replicate 28 (of_nat (length bs))),
     ce_SHA256 = (\<lambda>bs. replicate 32 (of_nat (length bs))), ce_weights = (\<lambda>i. 0), ce_tls = sample_tls_env\<rparr>"

lemma sample_tls_client: "\<exists>cfg t. TLSClientConfig tenv host [] False http3 empty_tls = (Inr cfg, t)"
  by (simp add: TLSClientConfig_def empty_tls_def client_base_config_def io_bind_def store_client_configs_def Let_def)

lemma sample_passwords: "hg_Password sample_ss_hg = pn_Password sample_ss_node"
  by (simp add: sample_ss_hg_def sample_ss_node_def)

text \<open>
  A client, built for a transport and an outbound, is accepted by the server of the configuration \<open>hg\<close>:
  it dials the port of its protocol on the host of the outbound, and presents what the
  server compares with.
\<close>

definition client_accepted :: "carrier_env \<Rightarrow> string \<Rightarrow> ProxyNode \<Rightarrow> Hg \<Rightarrow> carrier \<Rightarrow> bool" where
  "client_accepted env transport node hg c \<longleftrightarrow> (case c of
      SsClient cl \<Rightarrow> is_ss transport \<and> (\<exists>port. pn_TCPPort node = Some port \<and>
        scl_serverHostWithPort cl = JoinHostPort (pn_Host node) port) \<and>
        (\<forall>now. case ss_NewServer (ce_DeriveN env) now hg of
           Inr srv \<Rightarrow> scl_preSharedKey cl = ssv_preSharedKey srv | Inl _ \<Rightarrow> hg_TCPPort hg = None)
    | TrClient cl \<Rightarrow> transport \<in> {TrojanTransport, TrojanTransportAlias} \<and>
        trn_serverHostWithPort cl = JoinHostPort (pn_Host node) (pn_TLSPort node) \<and>
        (\<exists>tr np. tr_np_NewServer env hg = Inr (tr, np) \<and> trn_passwordHash cl = trs_passwordHash tr)
    | NpClient cl cfg \<Rightarrow> transport \<in> {NaiveProxyTransport, NaiveProxyTransportAlias} \<and>
        npc_serverHostWithPort cl = JoinHostPort (pn_Host node) (pn_TLSPort node) \<and>
        (\<exists>tr np. tr_np_NewServer env hg = Inr (tr, np) \<and> basicAuthEqual (npc_basicAuthToken cl) (nps_authToken np))
    | SqClient cl cfg \<Rightarrow> transport \<in> {SunnyQUICTransport, SunnyQUICTransportAlias} \<and>
        sqc_serverHostWithPort cl = JoinHostPort (pn_Host node) (pn_QUICPort node) \<and>
        (\<exists>srv. sq_NewServer env hg = Inr srv \<and> sqc_authHash cl = sqs_authHash srv))"

lemma newCarrierClient_accepted:
  assumes "newCarrierClient env transport (Some node) tlsKeyLog s = (Inr c, s')" "hg_Password hg = pn_Password node"
  shows "client_accepted env transport node hg c"
  using assms
  by (auto simp: client_accepted_def newCarrierClient_def newClient_Inr newServers_Inr ss_NewServer_def is_ss_def
      split: if_splits carrier.splits option.splits sum.splits)

section \<open>Properties\<close>

text \<open>
  The client that is built for a transport is the one the server of the same password serves:
  the key of the Shadowsocks client is the server's, the Trojan client's hash is the one the
  server looks for, the header of the NaiveProxy client passes the server's check, and the
  SunnyQUIC client's hash is the one the server compares with. The client dials the port of its
  protocol on the configured host.
\<close>

theorem carriers_agree:
  assumes "newCarrierClient env transport (Some node) tlsKeyLog s = (Inr c, s')" "hg_Password hg = pn_Password node"
  shows "case c of
      SsClient cl \<Rightarrow> is_ss transport \<and> (\<exists>port. pn_TCPPort node = Some port \<and>
        scl_serverHostWithPort cl = JoinHostPort (pn_Host node) port) \<and>
        (\<forall>now. case ss_NewServer (ce_DeriveN env) now hg of
           Inr srv \<Rightarrow> scl_preSharedKey cl = ssv_preSharedKey srv | Inl _ \<Rightarrow> hg_TCPPort hg = None)
    | TrClient cl \<Rightarrow> transport \<in> {TrojanTransport, TrojanTransportAlias} \<and>
        trn_serverHostWithPort cl = JoinHostPort (pn_Host node) (pn_TLSPort node) \<and>
        (\<exists>tr np. tr_np_NewServer env hg = Inr (tr, np) \<and> trn_passwordHash cl = trs_passwordHash tr)
    | NpClient cl cfg \<Rightarrow> transport \<in> {NaiveProxyTransport, NaiveProxyTransportAlias} \<and>
        npc_serverHostWithPort cl = JoinHostPort (pn_Host node) (pn_TLSPort node) \<and>
        (\<exists>tr np. tr_np_NewServer env hg = Inr (tr, np) \<and> basicAuthEqual (npc_basicAuthToken cl) (nps_authToken np))
    | SqClient cl cfg \<Rightarrow> transport \<in> {SunnyQUICTransport, SunnyQUICTransportAlias} \<and>
        sqc_serverHostWithPort cl = JoinHostPort (pn_Host node) (pn_QUICPort node) \<and>
        (\<exists>srv. sq_NewServer env hg = Inr srv \<and> sqc_authHash cl = sqs_authHash srv)"
  using newCarrierClient_accepted [OF assms] by (simp add: client_accepted_def)

theorem carriers_agree_witness:
  "\<exists>cl cfg tr np t. newCarrierClient sample_cenv ''np'' (Some sample_ss_node) False empty_tls = (Inr (NpClient cl cfg), t) \<and>
     tr_np_NewServer sample_cenv sample_ss_hg = Inr (tr, np) \<and> basicAuthEqual (npc_basicAuthToken cl) (nps_authToken np)"
proof -
  obtain cfg t where "TLSClientConfig sample_tls_env ''h'' [] False False empty_tls = (Inr cfg, t)"
    using sample_tls_client by blast
  then have "\<exists>cl. newCarrierClient sample_cenv ''np'' (Some sample_ss_node) False empty_tls = (Inr (NpClient cl cfg), t)"
    by (simp add: newCarrierClient_def transport_defs np_NewClient_def io_bind_def io_map_def sample_cenv_def sample_ss_node_def
        zero_ProxyNode_def)
  then obtain cl where cl: "newCarrierClient sample_cenv ''np'' (Some sample_ss_node) False empty_tls = (Inr (NpClient cl cfg), t)" ..
  from carriers_agree [OF cl sample_passwords] cl show ?thesis by auto
qed

text \<open>
  C13. The NaiveProxy server of a configuration forwards a request exactly when it is an HTTP/2
  CONNECT whose \<open>Proxy-Authorization\<close> is the scheme \<open>Basic\<close>, in any case, followed by the encoding of
  the user name \<open>hg\<close> and the derived password, for a destination that can be read, and the answer
  could be sent. Anything without these credentials gets the fallback site of its host and
  nothing else. A forwarded request was answered with status 200 first, and its tunnel is padded
  exactly when the client asked for it, in which case the response says so before the status.
\<close>

theorem np_forward_authenticated:
  fixes env hg r
  defines "authorized \<equiv> \<exists>password scheme. hg_Password hg = Some password \<and> ToLower scheme = ''basic '' \<and>
      rq_ProtoMajor r = 2 \<and> rq_Method r = ''CONNECT'' \<and>
      header_Get (rq_Header r) proxyAuthHeaderKey =
        scheme @ base64_EncodeToString (str_bytes (''hg:'' @ np_AuthPassword (ce_DeriveN env) password))"
    and "wants_padding \<equiv> header_Get (rq_Header r) paddingHeaderKey \<noteq> []"
  assumes "np_NewServer env hg = Inr s"
  shows "(\<not> authorized \<longrightarrow> np_handle s l d flushErr r = [Fallback (JoinHostPort (hg_Host hg) (hg_TLSPort hg))]) \<and>
    (Forward a p \<in> set (np_handle s l d flushErr r) \<longleftrightarrow>
       authorized \<and> ToSocketAddr (rq_URLHost r) True 0 = Inr a \<and> flushErr = None \<and> p = wants_padding) \<and>
    (Forward a p \<in> set (np_handle s l d flushErr r) \<longrightarrow>
       np_handle s l d flushErr r =
         (if p then [SetHeader paddingHeaderKey (generatePaddingHeader False l d)] else []) @ [WriteHeader 200, Forward a p])"
proof -
  obtain pw where pw: "hg_Password hg = Some pw" "nps_authToken s = basicAuthToken (ce_DeriveN env) pw"
    "nps_host s = hg_Host hg" "nps_port s = hg_TLSPort hg"
    using assms(3) by (auto simp: np_NewServer_def slice_password_def split: option.splits)
  have auth: "authorized \<longleftrightarrow> rq_ProtoMajor r = 2 \<and> rq_Method r = ''CONNECT'' \<and>
      basicAuthEqual (header_Get (rq_Header r) proxyAuthHeaderKey) (nps_authToken s)"
    unfolding authorized_def pw(2) basicAuthEqual_iff basicAuthToken_def pw(1) by blast
  have no: "\<not> authorized \<Longrightarrow> np_handle s l d flushErr r = [Fallback (JoinHostPort (hg_Host hg) (hg_TLSPort hg))]"
    using np_handle_outcomes(1) [of r s l d flushErr] auth pw by auto
  moreover have "authorized \<Longrightarrow> ToSocketAddr (rq_URLHost r) True 0 = Inr a \<Longrightarrow> flushErr = None \<Longrightarrow>
      np_handle s l d flushErr r =
        (if wants_padding then [SetHeader paddingHeaderKey (generatePaddingHeader False l d)] else []) @ [WriteHeader 200, Forward a wants_padding]"
    using np_handle_outcomes(2) [of r s a l d] auth by (simp add: wants_padding_def)
  moreover have "Forward a p \<in> set (np_handle s l d flushErr r) \<Longrightarrow>
      authorized \<and> flushErr = None \<and> ToSocketAddr (rq_URLHost r) True 0 = Inr a \<and> p = wants_padding"
    using np_handle_outcomes(3) [of a p s l d flushErr r] no by (cases authorized) (auto simp: wants_padding_def)
  ultimately show ?thesis by auto
qed

text \<open>The request of a client that writes the scheme in another case.\<close>

theorem np_forward_authenticated_witness:
  "\<exists>s. np_NewServer sample_cenv sample_ss_hg = Inr s \<and>
     Forward (NewSocketAddressByDomain ''a'' 5) True \<in> set (np_handle s 0 id None
       (np_request (sample_np_client\<lparr>npc_basicAuthToken := ''bAsIC '' @
         base64_EncodeToString (str_bytes (''hg:'' @ np_AuthPassword (ce_DeriveN sample_cenv) (replicate 16 3)))\<rparr>) 0 id ''a:5''))"
proof -
  have pw: "hg_Password sample_ss_hg = Some (replicate 16 3)" by (simp add: sample_ss_hg_def)
  obtain s where s: "np_NewServer sample_cenv sample_ss_hg = Inr s" using pw by (simp add: np_NewServer_def slice_password_def)
  have "ToLower ''bAsIC '' = ''basic ''" by code_simp
  with np_forward_authenticated [OF s] show ?thesis
    using s pw sample_np_host
    by (fastforce simp: np_request_def header_Get_def header_Set_def np_keys Let_def)
qed

text \<open>
  C38. The printed details are the ones the servers accept: a client that is given the port, the
  user name and the password of a row presents, by the rules of the row's protocol, exactly
  what the server of this configuration compares with.
\<close>

theorem printed_credentials_accepted:
  assumes "carrierInfos env (hg_Password hg) (hg_TCPPort hg) (hg_TLSPort hg) (hg_QUICPort hg) = Inr infos"
  shows "\<exists>tr np sq. tr_np_NewServer env hg = Inr (tr, np) \<and> sq_NewServer env hg = Inr sq \<and>
    (\<forall>i \<in> set infos.
       (pi_network i = ''TCP'' \<longrightarrow> hg_TCPPort hg = Some (pi_port i) \<and>
          (\<forall>now. \<exists>srv. ss_NewServer (ce_DeriveN env) now hg = Inr srv \<and>
             base64_DecodeString (pi_password i) = Some (ssv_preSharedKey srv))) \<and>
       (pi_protocol i = ''Trojan'' \<longrightarrow> pi_port i = trs_port tr \<and>
          hex_Encode (ce_SHA224 env (str_bytes (pi_password i))) = trs_passwordHash tr) \<and>
       (pi_protocol i = ''NaiveProxy (HTTP/2)'' \<longrightarrow> pi_port i = nps_port np \<and>
          basicAuthEqual (basicAuthPrefix @ base64_EncodeToString (str_bytes (pi_username i @ '':'' @ pi_password i))) (nps_authToken np)) \<and>
       (pi_protocol i = ''SunnyQUIC'' \<longrightarrow> pi_port i = sqs_port sq \<and>
          copy_array 64 (ce_SHA256 env (str_bytes (pi_username i @ '':'' @ pi_password i))) = sqs_authHash sq))"
proof -
  from assms obtain pw where pw: "hg_Password hg = Some pw" by (auto simp: carrierInfos_def split: sum.splits)
  show ?thesis
    unfolding newServers_Inr [OF pw]
    using assms by (simp add: pw carrierInfos_def) (auto simp: ss_NewServer_def pw ss_AuthPassword_def base64_roundtrip
        toTrojanPasswordHash_def toSunnyQUICAuthHash_def DefaultUsername_def basicAuthToken_def split: option.splits)
qed

theorem printed_credentials_accepted_witness:
  "\<exists>infos tr np. carrierInfos sample_cenv (hg_Password sample_ss_hg) (hg_TCPPort sample_ss_hg) (hg_TLSPort sample_ss_hg)
       (hg_QUICPort sample_ss_hg) = Inr infos \<and> length infos = 4 \<and> tr_np_NewServer sample_cenv sample_ss_hg = Inr (tr, np) \<and>
     hex_Encode (ce_SHA224 sample_cenv (str_bytes (pi_password (infos ! 1)))) = trs_passwordHash tr"
proof -
  obtain infos where i: "carrierInfos sample_cenv (hg_Password sample_ss_hg) (hg_TCPPort sample_ss_hg) (hg_TLSPort sample_ss_hg)
       (hg_QUICPort sample_ss_hg) = Inr infos" "length infos = 4" "pi_protocol (infos ! 1) = ''Trojan''"
    by (simp add: carrierInfos_def sample_ss_hg_def)
  then have "infos ! 1 \<in> set infos" by simp
  with printed_credentials_accepted [OF i(1)] i show ?thesis by blast
qed

end
