(* ===== verification/Router.thy ===== *)
theory Router
  imports Carriers
begin

text \<open>
  The router, \<open>transport/router/client.go\<close>: the first rule that matches an address decides the
  policy, the policy names the client that dials, carrier clients are built once and kept, and an
  update of the rule database replaces the rules. The fallback site of \<open>transport/fallback_http\<close>
  reaches its port through the same router.
\<close>

section \<open>State\<close>

text \<open>
  The router's fields. The TLS configurations are variables of another package that building a
  carrier client changes, so they are part of the state here.
\<close>

record ('re, 'ps) router =
  rt_routing :: "('re, 'ps) Routing option"
  rt_outbounds :: "(string \<times> ProxyNode option) list"
  rt_ruleDBFilePath :: string
  rt_tlsKeyLog :: bool
  rt_carrierClients :: "string \<rightharpoonup> carrier"
  rt_tls :: tls_state

definition router_NewClient ::
  "('re, 'ps) Routing option \<Rightarrow> (string \<times> ProxyNode option) list \<Rightarrow> string \<Rightarrow> bool \<Rightarrow> tls_state \<Rightarrow> ('re, 'ps) router" where
  "router_NewClient routing outbounds ruleDBFilePath tlsKeyLog tls =
     \<lparr>rt_routing = routing, rt_outbounds = outbounds, rt_ruleDBFilePath = ruleDBFilePath,
      rt_tlsKeyLog = tlsKeyLog, rt_carrierClients = Map.empty, rt_tls = tls\<rparr>"

section \<open>Matching\<close>

text \<open>The loops over the rules: the policy of the first rule whose matcher says yes.\<close>

fun first_match :: "(('re, 'ps) Matcher \<Rightarrow> bool res) \<Rightarrow> ('re, 'ps) Rule list \<Rightarrow> string option res" where
  "first_match f [] = Inr None"
| "first_match f (rule # rules) =
     (case ru_Matcher rule of
        None \<Rightarrow> Inl (Panic ''nil pointer dereference'')
      | Some m \<Rightarrow>
          (case f m of
             Inl err \<Rightarrow> Inl err
           | Inr True \<Rightarrow> Inr (Some (ru_Policy rule))
           | Inr False \<Rightarrow> first_match f rules))"

definition match_ip :: "('re, 'ps) rule_env \<Rightarrow> ('re, 'ps) Rule list \<Rightarrow> addr option \<Rightarrow> string option res" where
  "match_ip env rules ip =
     first_match (\<lambda>m. case ip of None \<Rightarrow> Inl (Panic ''nil pointer dereference'') | Some ip \<Rightarrow> MatchIP env m ip) rules"

text \<open>
  \<open>matchAgain\<close>: the policy, if a rule matched, and the address that is dialed. A domain that no
  rule matches and that is an address is matched again as that address.
\<close>

definition matchAgain ::
  "('re, 'ps) rule_env \<Rightarrow> ('re, 'ps) Rule list \<Rightarrow> SocketAddress \<Rightarrow> (string option \<times> SocketAddress) res" where
  "matchAgain env rules addr =
     (case sa_AddrType addr of
        DomainType \<Rightarrow>
          (case first_match (\<lambda>m. MatchDomain env m (sa_Domain addr)) rules of
             Inl err \<Rightarrow> Inl err
           | Inr (Some policy) \<Rightarrow> Inr (Some policy, addr)
           | Inr None \<Rightarrow>
               (case ParseAddr (sa_Domain addr) of
                  None \<Rightarrow> Inr (None, addr)
                | Some ip \<Rightarrow>
                    (let addr = NewSocketAddressByIP ip (sa_Port addr) in
                     case match_ip env rules (sa_IP addr) of
                       Inl err \<Rightarrow> Inl err
                     | Inr policy \<Rightarrow> Inr (policy, addr))))
      | _ \<Rightarrow>
          (case match_ip env rules (sa_IP addr) of
             Inl err \<Rightarrow> Inl err
           | Inr policy \<Rightarrow> Inr (policy, addr)))"

definition route_policy :: "('re, 'ps) rule_env \<Rightarrow> ('re, 'ps) Routing option \<Rightarrow> SocketAddress \<Rightarrow> (string \<times> SocketAddress) res" where
  "route_policy env routing addr =
     (case routing of
        None \<Rightarrow> Inr (DirectPolicy, addr)
      | Some r \<Rightarrow>
          (case matchAgain env (ro_Rules r) addr of
             Inl err \<Rightarrow> Inl err
           | Inr (matched, a) \<Rightarrow>
               (let policy = (case matched of None \<Rightarrow> [] | Some p \<Rightarrow> p) in
                Inr (if policy = FinalPolicy \<or> policy = [] then ro_Final r else policy, a))))"

section \<open>Dialing\<close>

definition getCarrierClient :: "carrier_env \<Rightarrow> string \<Rightarrow> (('re, 'ps) router, carrier) io" where
  "getCarrierClient cenv outboundName s =
     (case rt_carrierClients s outboundName of
        Some c \<Rightarrow> (Inr c, s)
      | None \<Rightarrow>
          (case rt_routing s of
             None \<Rightarrow> (Inl (Panic ''nil pointer dereference''), s)
           | Some r \<Rightarrow>
               (let proxyNode = (case map_of (rt_outbounds s) outboundName of None \<Rightarrow> None | Some node \<Rightarrow> node) in
                case newCarrierClient cenv (tp_TCP (ro_Transport r)) proxyNode (rt_tlsKeyLog s) (rt_tls s) of
                  (Inl err, tls) \<Rightarrow> (Inl err, s\<lparr>rt_tls := tls\<rparr>)
                | (Inr c, tls) \<Rightarrow>
                    (Inr c, s\<lparr>rt_tls := tls, rt_carrierClients := (rt_carrierClients s)(outboundName \<mapsto> c)\<rparr>))))"

text \<open>The client that dials next, with the address it is given.\<close>

datatype next_client = DirectClient | RejectClient | CarrierClient carrier

definition router_next ::
  "('re, 'ps) rule_env \<Rightarrow> carrier_env \<Rightarrow> SocketAddress \<Rightarrow> (('re, 'ps) router, next_client \<times> SocketAddress) io" where
  "router_next env cenv addr s =
     (case route_policy env (rt_routing s) addr of
        Inl err \<Rightarrow> (Inl err, s)
      | Inr (policy, a) \<Rightarrow>
          if policy = DirectPolicy then (Inr (DirectClient, a), s)
          else if policy = RejectPolicy then (Inr (RejectClient, a), s)
          else (case getCarrierClient cenv policy s of
              (Inl err, s') \<Rightarrow> (Inl err, s')
            | (Inr c, s') \<Rightarrow> (Inr (CarrierClient c, a), s')))"

definition router_DialTCP ::
  "('re, 'ps) rule_env \<Rightarrow> carrier_env \<Rightarrow> (string \<Rightarrow> 'c res) \<Rightarrow> (carrier \<Rightarrow> SocketAddress \<Rightarrow> 'c res) \<Rightarrow> SocketAddress \<Rightarrow>
   (('re, 'ps) router, 'c) io" where
  "router_DialTCP env cenv netDial dialCarrier addr =
     io_bind (router_next env cenv addr) (\<lambda>(client, a). io_lift
       (case client of
          DirectClient \<Rightarrow> direct_DialTCP netDial a
        | RejectClient \<Rightarrow> reject_DialTCP a
        | CarrierClient c \<Rightarrow> dialCarrier c a))"

section \<open>Updating the rules\<close>

text \<open>
  \<open>updateRouting\<close>, given what \<open>UpdateRuleDBFile\<close> returned: errors are logged and the rules stay; a
  panic stops the program.
\<close>

definition updateRouting ::
  "('re, 'ps) rule_env \<Rightarrow> (string \<Rightarrow> DomainIPSetRulesQueryStore res) \<Rightarrow> bool res \<Rightarrow> (('re, 'ps) router, unit) io" where
  "updateRouting env openStore updated s =
     (case updated of
        Inl err \<Rightarrow> (Inr (), s)
      | Inr success \<Rightarrow>
          if \<not> success then (Inr (), s)
          else (case rt_routing s of
              None \<Rightarrow> (Inl (Panic ''nil pointer dereference''), s)
            | Some r \<Rightarrow>
                (case CopyWithNewRulesData env openStore (ro_Rules r) (rt_ruleDBFilePath s) of
                   Inl (Panic p) \<Rightarrow> (Inl (Panic p), s)
                 | Inl err \<Rightarrow> (Inr (), s)
                 | Inr newRules \<Rightarrow> (Inr (), s\<lparr>rt_routing := Some (r\<lparr>ro_Rules := newRules\<rparr>)\<rparr>))))"

section \<open>The fallback site\<close>

definition IPv4Localhost :: string where "IPv4Localhost = ''127.0.0.1''"

text \<open>\<open>Handle\<close> forwards a connection to the port of the site, with \<open>dial\<close> as the target client.\<close>

definition fallback_Handle :: "u16 \<Rightarrow> goerr option \<Rightarrow> (SocketAddress \<Rightarrow> 'c res) \<Rightarrow> netconn \<Rightarrow> 'c forward" where
  "fallback_Handle port ctxErr dial conn =
     (case ParseAddr IPv4Localhost of
        None \<Rightarrow> Refused (Panic ''MustParseAddr'') conn
      | Some ip \<Rightarrow> ForwardTCP ctxErr dial (NewSocketAddressByIP ip port) conn)"

section \<open>What the rules mean\<close>

text \<open>
  The specification: a rule covers an address when one of the entries it denotes, with the
  database it was built from, does; the first rule that covers decides; a rule of policy
  \<open>final\<close> and no rule at all both mean the \<open>final\<close> of the routing. A domain is looked up as a
  domain first and, if it is written as an address and no rule covers it, as that address.
\<close>

definition rule_built :: "('re, 'ps) rule_env \<Rightarrow> DomainIPSetRulesQueryStore \<Rightarrow> ('re, 'ps) Rule \<Rightarrow> bool" where
  "rule_built env store r \<longleftrightarrow>
     (\<exists>m. ru_Matcher r = Some m \<and> SetupRulesData env store (newMatcher (bakedMatchRules m)) = Inr m)"

definition rule_entries :: "('re, 'ps) rule_env \<Rightarrow> DomainIPSetRulesQueryStore \<Rightarrow> ('re, 'ps) Rule \<Rightarrow> 're rule_entry list" where
  "rule_entries env store r = (case ru_Matcher r of None \<Rightarrow> [] | Some m \<Rightarrow> all_entries env store (bakedMatchRules m))"

definition covers_domain :: "('re, 'ps) rule_env \<Rightarrow> DomainIPSetRulesQueryStore \<Rightarrow> string \<Rightarrow> ('re, 'ps) Rule \<Rightarrow> bool" where
  "covers_domain env store d r = (\<exists>e \<in> set (rule_entries env store r). entry_matches_domain env e (trimDomainRootDot d))"

definition covers_ip :: "('re, 'ps) rule_env \<Rightarrow> DomainIPSetRulesQueryStore \<Rightarrow> addr \<Rightarrow> ('re, 'ps) Rule \<Rightarrow> bool" where
  "covers_ip env store ip r = (\<exists>e \<in> set (rule_entries env store r). entry_matches_ip e (Unmap ip))"

definition first_policy :: "(('re, 'ps) Rule \<Rightarrow> bool) \<Rightarrow> ('re, 'ps) Rule list \<Rightarrow> string option" where
  "first_policy P rules = map_option ru_Policy (find P rules)"

definition or_final :: "('re, 'ps) Routing \<Rightarrow> string option \<Rightarrow> string" where
  "or_final r p = (case p of None \<Rightarrow> ro_Final r | Some q \<Rightarrow> if q = FinalPolicy \<or> q = [] then ro_Final r else q)"

definition addr_ip :: "SocketAddress \<Rightarrow> addr option" where
  "addr_ip addr = (case sa_IP addr of None \<Rightarrow> ParseAddr (sa_Domain addr) | Some ip \<Rightarrow> Some ip)"

definition spec_route ::
  "('re, 'ps) rule_env \<Rightarrow> DomainIPSetRulesQueryStore \<Rightarrow> ('re, 'ps) Routing \<Rightarrow> SocketAddress \<Rightarrow> string \<times> SocketAddress" where
  "spec_route env store r addr =
     (let by_domain = (if sa_IP addr = None then first_policy (covers_domain env store (sa_Domain addr)) (ro_Rules r) else None) in
      case by_domain of
        Some p \<Rightarrow> (or_final r (Some p), addr)
      | None \<Rightarrow>
          (case addr_ip addr of
             None \<Rightarrow> (ro_Final r, addr)
           | Some ip \<Rightarrow> (or_final r (first_policy (covers_ip env store ip) (ro_Rules r)),
               NewSocketAddressByIP ip (sa_Port addr))))"

lemma first_match_policy:
  "(\<And>rule. rule \<in> set rules \<Longrightarrow> \<exists>m. ru_Matcher rule = Some m \<and> f m = Inr (P rule)) \<Longrightarrow>
    first_match f rules = Inr (first_policy P rules)"
proof (induction rules)
  case Nil
  then show ?case by (simp add: first_policy_def)
next
  case (Cons rule rules)
  then obtain m where "ru_Matcher rule = Some m" "f m = Inr (P rule)" by auto
  with Cons show ?case by (cases "P rule") (simp_all add: first_policy_def)
qed

lemma built_domain:
  "rule_built env store rule \<Longrightarrow> \<exists>m. ru_Matcher rule = Some m \<and> MatchDomain env m d = Inr (covers_domain env store d rule)"
  unfolding rule_built_def by (elim exE conjE, drule MatchDomain_built [where d = d]) (simp add: covers_domain_def rule_entries_def)

lemma built_ip:
  "rule_store (ps_new env) (ps_Insert env) (ps_Contains env) pfx_Contains zone_free \<Longrightarrow> zone_free ip \<Longrightarrow>
    rule_built env store rule \<Longrightarrow> \<exists>m. ru_Matcher rule = Some m \<and> MatchIP env m ip = Inr (covers_ip env store ip rule)"
  unfolding rule_built_def by (elim exE conjE, drule (2) MatchIP_built [where ip = ip, rotated 1]) (simp add: covers_ip_def rule_entries_def)

section \<open>What a router keeps\<close>

definition router_inv :: "('re, 'ps) rule_env \<Rightarrow> ('re, 'ps) router \<Rightarrow> bool" where
  "router_inv env s \<longleftrightarrow> outbounds_ok (rt_outbounds s) \<and> ptr_rule (routing_ok env (rt_outbounds s)) (rt_routing s)"

text \<open>The operations of a running router: a connection is routed, and the rules are updated.\<close>

inductive router_step :: "('re, 'ps) rule_env \<Rightarrow> carrier_env \<Rightarrow> ('re, 'ps) router \<Rightarrow> ('re, 'ps) router \<Rightarrow> bool"
  for env cenv where
  Routed: "router_next env cenv addr s = (r, s') \<Longrightarrow> router_step env cenv s s'"
| Updated: "updateRouting env openStore upd s = (Inr (), s') \<Longrightarrow> router_step env cenv s s'"

lemma getCarrierClient_frame:
  "getCarrierClient cenv name s = (r, t) \<Longrightarrow>
    rt_routing t = rt_routing s \<and> rt_outbounds t = rt_outbounds s \<and> rt_tlsKeyLog t = rt_tlsKeyLog s"
  by (auto simp: getCarrierClient_def Let_def split: option.splits prod.splits sum.splits)

lemma router_next_frame:
  "router_next env cenv addr s = (r, t) \<Longrightarrow>
    rt_routing t = rt_routing s \<and> rt_outbounds t = rt_outbounds s \<and> rt_tlsKeyLog t = rt_tlsKeyLog s"
  by (auto simp: router_next_def split: sum.splits prod.splits if_splits dest: getCarrierClient_frame)

text \<open>Copying gives the rules as they were written, and setting them up again gives matchers that are ready.\<close>

lemma copy_rules_fresh:
  "copy_rules rs = Inr rs0 \<Longrightarrow> list_all rule_fresh rs0 \<and> map ru_Policy rs0 = map ru_Policy rs"
proof (induction rs arbitrary: rs0)
  case Nil
  then show ?case by simp
next
  case (Cons r rs)
  then obtain m rs1 where "ru_Matcher r = Some m" "copy_rules rs = Inr rs1"
    "rs0 = \<lparr>ru_Matcher = Some (CopyWithBakedRulesOnly m), ru_Policy = ru_Policy r\<rparr> # rs1"
    by (auto split: option.splits sum.splits)
  with Cons.IH show ?case by (simp add: rule_fresh_def ptr_rule_def CopyWithBakedRulesOnly_def)
qed

lemma CopyWithNewRulesData_ok:
  assumes "CopyWithNewRulesData env openStore rs path = Inr rs'"
  shows "map ru_Policy rs' = map ru_Policy rs \<and> list_all (rule_ready env) rs'"
proof -
  from assms obtain rs0 store where "copy_rules rs = Inr rs0" "setup_rule_list env store rs0 = Inr rs'"
    by (auto simp: CopyWithNewRulesData_def setupRulesData_def split: sum.splits)
  with copy_rules_fresh setup_rule_list_ok show ?thesis by metis
qed

lemma routing_ok_new_rules:
  assumes "routing_ok env os r" "map ru_Policy rs = map ru_Policy (ro_Rules r)" "list_all (rule_ready env) rs"
  shows "routing_ok env os (r\<lparr>ro_Rules := rs\<rparr>)"
proof -
  have "ru_Policy ` set rs = ru_Policy ` set (ro_Rules r)" using assms(2) by (metis set_map)
  then have "\<exists>r0 \<in> set (ro_Rules r). ru_Policy r0 = ru_Policy rule" if "rule \<in> set rs" for rule
    using that by (metis imageE imageI)
  with assms(1,3) show ?thesis by (fastforce simp: routing_ok_def list_all_iff)
qed

lemma updateRouting_inv:
  "updateRouting env openStore upd s = (r, t) \<Longrightarrow> router_inv env s \<Longrightarrow> router_inv env t"
  by (auto simp: updateRouting_def router_inv_def dest!: CopyWithNewRulesData_ok
      intro: routing_ok_new_rules split: sum.splits option.splits goerr.splits if_splits)

lemma router_inv_step: "router_step env cenv s t \<Longrightarrow> router_inv env s \<Longrightarrow> router_inv env t"
  by (erule router_step.cases) (auto simp: router_inv_def dest: router_next_frame updateRouting_inv [unfolded router_inv_def])

lemma router_inv_reachable:
  "(router_step env cenv)\<^sup>*\<^sup>* s t \<Longrightarrow> router_inv env s \<Longrightarrow> router_inv env t"
  by (induction rule: rtranclp_induct) (auto intro: router_inv_step)

text \<open>Every policy of a well-formed routing leads somewhere, and every address has one.\<close>

lemma rule_ready_built: "rule_ready env r \<longleftrightarrow> (\<exists>store. rule_built env store r)"
  by (auto simp: rule_ready_def rule_built_def)

lemma MatchIP_total: "rule_built env store r \<Longrightarrow> \<exists>m b. ru_Matcher r = Some m \<and> MatchIP env m ip = Inr b"
  unfolding rule_built_def
  by (elim exE conjE, erule SetupRulesData_represents) (metis MatchIP_def Matcher.select_convs(3) option.simps(5))

lemma first_match_total:
  assumes "\<forall>rule \<in> set rules. \<exists>m b. ru_Matcher rule = Some m \<and> f m = Inr b"
  shows "\<exists>p. first_match f rules = Inr p \<and> (\<forall>q. p = Some q \<longrightarrow> q \<in> ru_Policy ` set rules)"
  using assms
proof (induction rules)
  case Nil
  then show ?case by simp
next
  case (Cons rule rules)
  then obtain m b where "ru_Matcher rule = Some m" "f m = Inr b" by auto
  with Cons show ?case by (cases b) auto
qed

lemma match_ip_total:
  assumes "\<forall>rule \<in> set rules. rule_ready env rule"
  shows "\<exists>p. match_ip env rules (Some ip) = Inr p \<and> (\<forall>q. p = Some q \<longrightarrow> q \<in> ru_Policy ` set rules)"
  unfolding match_ip_def option.case
  by (rule first_match_total) (use assms MatchIP_total in \<open>unfold rule_ready_built, blast\<close>)

lemma match_domain_rules_total:
  assumes "\<forall>rule \<in> set rules. rule_ready env rule"
  shows "\<exists>p. first_match (\<lambda>m. MatchDomain env m d) rules = Inr p \<and> (\<forall>q. p = Some q \<longrightarrow> q \<in> ru_Policy ` set rules)"
  by (rule first_match_total) (use assms built_domain in \<open>unfold rule_ready_built, blast\<close>)

lemma matchAgain_total:
  assumes "\<forall>rule \<in> set rules. rule_ready env rule" "wf_addr addr"
  shows "\<exists>p a. matchAgain env rules addr = Inr (p, a) \<and> wf_addr a \<and> (\<forall>q. p = Some q \<longrightarrow> q \<in> ru_Policy ` set rules)"
proof (cases "sa_AddrType addr = DomainType")
  case True
  obtain p where "first_match (\<lambda>m. MatchDomain env m (sa_Domain addr)) rules = Inr p"
    "\<forall>q. p = Some q \<longrightarrow> q \<in> ru_Policy ` set rules"
    using match_domain_rules_total [OF assms(1)] by blast
  note p = this
  show ?thesis
  proof (cases "p = None \<and> ParseAddr (sa_Domain addr) \<noteq> None")
    case again: True
    then obtain ip where ip: "ParseAddr (sa_Domain addr) = Some ip" by auto
    obtain q where "match_ip env rules (Some ip) = Inr q" "\<forall>x. q = Some x \<longrightarrow> x \<in> ru_Policy ` set rules"
      using match_ip_total [OF assms(1)] by blast
    with again ip p(1) True show ?thesis by (simp add: matchAgain_def Let_def)
  next
    case False
    with p True assms(2) show ?thesis by (cases p) (auto simp: matchAgain_def)
  qed
next
  case False
  with assms(2) obtain ip where "sa_IP addr = Some ip"
    by (auto simp: wf_addr_def split: AddrType.splits option.splits)
  with False assms(2) match_ip_total [OF assms(1), of ip] show ?thesis
    by (auto simp: matchAgain_def split: AddrType.splits)
qed

lemma route_policy_ok:
  assumes "ptr_rule (routing_ok env os) routing" "wf_addr addr"
  shows "\<exists>p a. route_policy env routing addr = Inr (p, a) \<and> wf_addr a \<and> policy_ok os p"
proof (cases routing)
  case None
  with assms(2) show ?thesis by (simp add: route_policy_def policy_ok_def)
next
  case (Some r)
  with assms(1) have r: "routing_ok env os r" by simp
  then have "\<forall>rule \<in> set (ro_Rules r). rule_ready env rule" by (simp add: routing_ok_def)
  from matchAgain_total [OF this assms(2)] obtain p a where
    m: "matchAgain env (ro_Rules r) addr = Inr (p, a)" "wf_addr a" "\<forall>q. p = Some q \<longrightarrow> q \<in> ru_Policy ` set (ro_Rules r)"
    by blast
  let ?q = "case p of None \<Rightarrow> [] | Some p \<Rightarrow> p"
  have "policy_ok os (if ?q = FinalPolicy \<or> ?q = [] then ro_Final r else ?q)"
    using m(3) r by (cases p) (auto simp: routing_ok_def)
  with Some m(1,2) show ?thesis by (simp add: route_policy_def Let_def del: if_split)
qed

text \<open>Building the client of a configured outbound fails only when its TLS configuration cannot be built.\<close>

lemma newCarrierClient_ok:
  assumes "node_ok n" "is_ss transport \<longrightarrow> pn_TCPPort n \<noteq> None"
    "transport \<in> {ShadowsocksTransport, ShadowsocksTransportAlias, TrojanTransport, TrojanTransportAlias,
         NaiveProxyTransport, NaiveProxyTransportAlias, SunnyQUICTransport, SunnyQUICTransportAlias}"
  shows "(\<exists>c t. newCarrierClient cenv transport (Some n) k s = (Inr c, t)) \<or>
    (\<exists>err t http3. newCarrierClient cenv transport (Some n) k s = (Inl err, t) \<and>
       fst (TLSClientConfig (ce_tls cenv) (pn_Host n) (pn_TLSCustomCertFile n) k http3 s) = Inl err)"
proof -
  from assms(1) obtain pw where pw: "pn_Password n = Some pw" by (auto simp: node_ok_def)
  show ?thesis
  proof (cases "is_ss transport")
    case True
    with assms(2) pw obtain c where "ss_NewClient (ce_DeriveN cenv) (ce_weights cenv) n = Inr c"
      by (auto simp: ss_NewClient_Inr)
    with True assms(3) show ?thesis by (auto simp: newCarrierClient_def is_ss_def io_map_def io_bind_def)
  next
    case False
    have tr: "(\<exists>c t. io_map f (tr_NewClient cenv n k) s = (Inr c, t)) \<or> (\<exists>err t. io_map f (tr_NewClient cenv n k) s = (Inl err, t) \<and>
        fst (TLSClientConfig (ce_tls cenv) (pn_Host n) (pn_TLSCustomCertFile n) k False s) = Inl err)" for f :: "tr_client \<Rightarrow> carrier"
      by (simp add: tr_NewClient_def io_map_def io_bind_def pw split: prod.split sum.split)
    have np: "(\<exists>c t. io_map f (np_NewClient cenv n k) s = (Inr c, t)) \<or> (\<exists>err t. io_map f (np_NewClient cenv n k) s = (Inl err, t) \<and>
        fst (TLSClientConfig (ce_tls cenv) (pn_Host n) (pn_TLSCustomCertFile n) k False s) = Inl err)" for f :: "_ \<Rightarrow> carrier"
      by (simp add: np_NewClient_def io_map_def io_bind_def pw split: prod.split sum.split)
    have sq: "(\<exists>c t. io_map f (sq_NewClient cenv n k) s = (Inr c, t)) \<or> (\<exists>err t. io_map f (sq_NewClient cenv n k) s = (Inl err, t) \<and>
        fst (TLSClientConfig (ce_tls cenv) (pn_Host n) (pn_TLSCustomCertFile n) k True s) = Inl err)" for f :: "_ \<Rightarrow> carrier"
      by (simp add: sq_NewClient_def io_map_def io_bind_def pw split: prod.split sum.split)
    from False assms(3) have "newCarrierClient cenv transport (Some n) k =
      (if transport = TrojanTransport \<or> transport = TrojanTransportAlias then io_map TrClient (tr_NewClient cenv n k)
       else if transport = NaiveProxyTransport \<or> transport = NaiveProxyTransportAlias
       then io_map (\<lambda>(c, cfg). NpClient c cfg) (np_NewClient cenv n k)
       else io_map (\<lambda>(c, cfg). SqClient c cfg) (sq_NewClient cenv n k))"
      by (simp add: newCarrierClient_def is_ss_def)
    then show ?thesis using tr np sq by (simp split: if_split) blast
  qed
qed

interpretation carriers: memo rt_carrierClients "getCarrierClient cenv" for cenv
  by unfold_locales (auto simp: getCarrierClient_def Let_def split: option.splits prod.splits sum.splits if_splits)

lemma router_next_ok:
  assumes inv: "router_inv env s" and addr: "wf_addr addr"
  shows "(\<exists>client a s'. router_next env cenv addr s = (Inr (client, a), s') \<and> wf_addr a) \<or>
    (\<exists>name n err s' http3. map_of (rt_outbounds s) name = Some (Some n) \<and> router_next env cenv addr s = (Inl err, s') \<and>
       fst (TLSClientConfig (ce_tls cenv) (pn_Host n) (pn_TLSCustomCertFile n) (rt_tlsKeyLog s) http3 (rt_tls s)) = Inl err)"
proof -
  from inv have os: "outbounds_ok (rt_outbounds s)" and ro: "ptr_rule (routing_ok env (rt_outbounds s)) (rt_routing s)"
    by (simp_all add: router_inv_def)
  from route_policy_ok [OF ro addr] obtain p a where
    p: "route_policy env (rt_routing s) addr = Inr (p, a)" "wf_addr a" "policy_ok (rt_outbounds s) p" by blast
  show ?thesis
  proof (cases "p = DirectPolicy \<or> p = RejectPolicy \<or> rt_carrierClients s p \<noteq> None")
    case True
    with p(1,2) show ?thesis by (auto simp: router_next_def getCarrierClient_def)
  next
    case False
    with p(3) obtain n where n: "map_of (rt_outbounds s) p = Some (Some n)" by (auto simp: policy_ok_def)
    with os have "\<exists>m. Some n = Some m \<and> node_ok m" unfolding outbounds_ok_def by blast
    then have "node_ok n" by simp
    from False p(1) obtain r where r: "rt_routing s = Some r"
      by (auto simp: route_policy_def split: option.splits)
    with ro n have t: "is_ss (tp_TCP (ro_Transport r)) \<longrightarrow> pn_TCPPort n \<noteq> None"
      "tp_TCP (ro_Transport r) \<in> {ShadowsocksTransport, ShadowsocksTransportAlias, TrojanTransport, TrojanTransportAlias,
         NaiveProxyTransport, NaiveProxyTransportAlias, SunnyQUICTransport, SunnyQUICTransportAlias}"
      by (auto simp: routing_ok_def)
    from newCarrierClient_ok [OF \<open>node_ok n\<close> t, of cenv "rt_tlsKeyLog s" "rt_tls s"] show ?thesis
      using False p(1,2) n r by (elim disjE exE conjE) (auto simp: router_next_def getCarrierClient_def)
  qed
qed

section \<open>Properties\<close>

text \<open>
  C6. Routing is by the first rule: the policy and the dialed address are the ones of the
  specification, where the first rule with an entry that covers the address decides, \<open>final\<close> and
  no rule mean the final policy, and a domain that is written as an address and that no domain
  rule covers is matched and dialed as that address.
\<close>

theorem router_first_match:
  assumes "rule_store (ps_new env) (ps_Insert env) (ps_Contains env) pfx_Contains zone_free"
    and "\<forall>rule \<in> set (ro_Rules r). rule_built env store rule"
    and "wf_addr addr" and "\<And>ip. addr_ip addr = Some ip \<Longrightarrow> zone_free ip"
  shows "route_policy env (Some r) addr = Inr (spec_route env store r addr)"
proof -
  have dom: "first_match (\<lambda>m. MatchDomain env m d) (ro_Rules r) = Inr (first_policy (covers_domain env store d) (ro_Rules r))" for d
    by (rule first_match_policy) (use assms(2) built_domain in blast)
  have ip: "match_ip env (ro_Rules r) (Some ip) = Inr (first_policy (covers_ip env store ip) (ro_Rules r))"
    if "addr_ip addr = Some ip" for ip
    unfolding match_ip_def option.case by (rule first_match_policy) (use assms(1,2) assms(4) [OF that] built_ip in blast)
  from assms(3) show ?thesis
  proof (cases rule: wf_addr_cases)
    case (dom d p)
    with \<open>\<And>d. first_match (\<lambda>m. MatchDomain env m d) (ro_Rules r) = _\<close> [of d] ip show ?thesis
      by (cases "first_policy (covers_domain env store d) (ro_Rules r)"; cases "ParseAddr d")
         (simp_all add: route_policy_def matchAgain_def spec_route_def addr_ip_def or_final_def Let_def split: option.split)
  qed (use ip in \<open>simp_all add: route_policy_def matchAgain_def spec_route_def addr_ip_def or_final_def Let_def Is4_def
      split: option.split\<close>)
qed

text \<open>
  C1. A program that has read its configuration never gets stuck on an address: in every state the
  router reaches by routing connections and updating its rules, every address is dialed directly,
  rejected or handed to a carrier client, and the only error before the dial is one of building
  the TLS configuration of a configured outbound. No nil pointer is dereferenced, no policy names
  a missing outbound and no transport is unsupported.
\<close>

theorem router_never_stuck:
  assumes "config_ok env c"
    and "(router_step env cenv)\<^sup>*\<^sup>* (router_NewClient (co_Routing c) (co_Outbounds c) path keyLog tls) s"
    and "wf_addr addr"
  shows "(\<exists>client a s'. router_next env cenv addr s = (Inr (client, a), s') \<and> wf_addr a) \<or>
    (\<exists>name n err s' http3. map_of (rt_outbounds s) name = Some (Some n) \<and> router_next env cenv addr s = (Inl err, s') \<and>
       fst (TLSClientConfig (ce_tls cenv) (pn_Host n) (pn_TLSCustomCertFile n) (rt_tlsKeyLog s) http3 (rt_tls s)) = Inl err)"
proof (rule router_next_ok [OF _ assms(3)])
  have "router_inv env (router_NewClient (co_Routing c) (co_Outbounds c) path keyLog tls)"
    using assms(1) by (simp add: router_inv_def router_NewClient_def config_ok_def)
  then show "router_inv env s" by (rule router_inv_reachable [OF assms(2)])
qed

text \<open>
  A carrier client is built once for each outbound: in any sequence of requests, the later
  requests for an outbound get the client that the first one got, and a build that fails is
  tried again and leaves the other clients as they are.
\<close>

theorem carrier_built_once:
  assumes "run_gets (getCarrierClient cenv) names s = (rs, t)"
    and "i \<le> j" "j < length names" "names ! j = names ! i" "rs ! i = Inr c"
  shows "rs ! j = Inr c \<and> rt_carrierClients t (names ! i) = Some c"
  using carriers.run_gets_stable [OF assms] carriers.run_gets_final [OF assms(1) _ assms(5)] assms(2,3) by simp

text \<open>What was written survives a reload, every rule of which is built from the one database.\<close>

definition written :: "('re, 'ps) Rule \<Rightarrow> string list option \<times> string" where
  "written r = (map_option bakedMatchRules (ru_Matcher r), ru_Policy r)"

lemma copy_rules_written: "copy_rules rs = Inr rs0 \<Longrightarrow> map written rs0 = map written rs"
  by (induction rs arbitrary: rs0) (auto simp: written_def CopyWithBakedRulesOnly_def split: option.splits sum.splits)

lemma setup_rule_list_built:
  "setup_rule_list env store rs = Inr rs' \<Longrightarrow> list_all rule_fresh rs \<Longrightarrow>
    (\<forall>r \<in> set rs'. rule_built env store r) \<and> map written rs' = map written rs"
proof (induction rs arbitrary: rs')
  case Nil
  then show ?case by simp
next
  case (Cons r rs)
  then obtain m m' rs1 where m: "ru_Matcher r = Some m" "SetupRulesData env store m = Inr m'"
    "setup_rule_list env store rs = Inr rs1" "rs' = r\<lparr>ru_Matcher := Some m'\<rparr> # rs1"
    by (auto split: option.splits sum.splits)
  from Cons.prems(2) m(1) have "m = newMatcher (bakedMatchRules m)" by (simp add: rule_fresh_def)
  moreover have "bakedMatchRules m' = bakedMatchRules m" by (rule SetupRulesData_baked [OF m(2)])
  ultimately have "SetupRulesData env store (newMatcher (bakedMatchRules m')) = Inr m'" using m(2) by simp
  with Cons.IH [OF m(3)] Cons.prems(2) m \<open>bakedMatchRules m' = bakedMatchRules m\<close> show ?case
    by (simp add: rule_built_def written_def)
qed

lemma reload_same:
  "\<forall>r \<in> set rs. rule_built env store r \<Longrightarrow> \<exists>rs0. copy_rules rs = Inr rs0 \<and> setup_rule_list env store rs0 = Inr rs"
proof (induction rs)
  case Nil
  then show ?case by simp
next
  case (Cons r rs)
  then obtain m where m: "ru_Matcher r = Some m" "SetupRulesData env store (newMatcher (bakedMatchRules m)) = Inr m"
    by (auto simp: rule_built_def)
  from Cons obtain rs0 where "copy_rules rs = Inr rs0" "setup_rule_list env store rs0 = Inr rs" by auto
  with m show ?case by (cases r) (auto simp: CopyWithBakedRulesOnly_def)
qed

lemma CopyWithNewRulesData_built:
  assumes "CopyWithNewRulesData env openStore rs path = Inr rs'"
  shows "\<exists>store. openStore path = Inr store \<and> (\<forall>r \<in> set rs'. rule_built env store r) \<and> map written rs' = map written rs"
proof -
  from assms obtain rs0 store where r: "copy_rules rs = Inr rs0" "openStore path = Inr store"
    "setup_rule_list env store rs0 = Inr rs'"
    by (auto simp: CopyWithNewRulesData_def setupRulesData_def split: sum.splits)
  from copy_rules_fresh [OF r(1)] setup_rule_list_built [OF r(3)] copy_rules_written [OF r(1)] r(2) show ?thesis by auto
qed

lemma CopyWithNewRulesData_same:
  "openStore path = Inr store \<Longrightarrow> \<forall>r \<in> set rs. rule_built env store r \<Longrightarrow> CopyWithNewRulesData env openStore rs path = Inr rs"
  using reload_same [of rs env store] by (auto simp: CopyWithNewRulesData_def setupRulesData_def)

lemma updateRouting_cases:
  "updateRouting env openStore upd s = (res, t) \<Longrightarrow>
    t = s \<or> (\<exists>r r' store. rt_routing s = Some r \<and> rt_routing t = Some r' \<and> r' = r\<lparr>ro_Rules := ro_Rules r'\<rparr> \<and>
       openStore (rt_ruleDBFilePath s) = Inr store \<and> (\<forall>rule \<in> set (ro_Rules r'). rule_built env store rule) \<and>
       map written (ro_Rules r') = map written (ro_Rules r))"
  by (auto simp: updateRouting_def dest!: CopyWithNewRulesData_built split: sum.splits option.splits goerr.splits if_splits)

lemma updateRouting_idle:
  "updateRouting env openStore upd s = (res, t) \<Longrightarrow> upd \<noteq> Inr True \<Longrightarrow> t = s"
  by (auto simp: updateRouting_def split: sum.splits if_splits)

text \<open>
  C21. An update of the rules is all or nothing: the router keeps its rules, or it has the same rules
  in the same order with the same policies, every one of them built from the new database; its
  carrier clients and the rest of its state stay, what the configuration promised still holds,
  and an update to the database the rules were built from changes nothing.
\<close>

theorem update_all_or_nothing:
  assumes "updateRouting env openStore upd s = (res, t)" "router_inv env s"
  shows "router_inv env t \<and> t = s\<lparr>rt_routing := rt_routing t\<rparr> \<and>
    (t = s \<or> (\<exists>r r' store. rt_routing s = Some r \<and> rt_routing t = Some r' \<and> r' = r\<lparr>ro_Rules := ro_Rules r'\<rparr> \<and>
       openStore (rt_ruleDBFilePath s) = Inr store \<and> (\<forall>rule \<in> set (ro_Rules r'). rule_built env store rule) \<and>
       map written (ro_Rules r') = map written (ro_Rules r))) \<and>
    (\<forall>r store. rt_routing s = Some r \<and> openStore (rt_ruleDBFilePath s) = Inr store \<and>
       (\<forall>rule \<in> set (ro_Rules r). rule_built env store rule) \<longrightarrow> t = s \<and> res = Inr ())"
proof (intro conjI)
  show "router_inv env t" by (rule updateRouting_inv [OF assms])
  show "t = s\<lparr>rt_routing := rt_routing t\<rparr>"
    using assms(1) by (auto simp: updateRouting_def split: sum.splits option.splits goerr.splits if_splits)
  show "t = s \<or> (\<exists>r r' store. rt_routing s = Some r \<and> rt_routing t = Some r' \<and> r' = r\<lparr>ro_Rules := ro_Rules r'\<rparr> \<and>
       openStore (rt_ruleDBFilePath s) = Inr store \<and> (\<forall>rule \<in> set (ro_Rules r'). rule_built env store rule) \<and>
       map written (ro_Rules r') = map written (ro_Rules r))"
    by (rule updateRouting_cases [OF assms(1)])
  have same: "t = s \<and> res = Inr ()" if "rt_routing s = Some r" "openStore (rt_ruleDBFilePath s) = Inr store"
    "\<forall>rule \<in> set (ro_Rules r). rule_built env store rule" for r store
    using assms(1) that(1) CopyWithNewRulesData_same [of openStore, OF that(2,3)]
    by (cases s) (auto simp: updateRouting_def split: sum.splits if_splits)
  then show "\<forall>r store. rt_routing s = Some r \<and> openStore (rt_ruleDBFilePath s) = Inr store \<and>
       (\<forall>rule \<in> set (ro_Rules r). rule_built env store rule) \<longrightarrow> t = s \<and> res = Inr ()" by blast
qed

lemma localhost_addr: "ParseAddr IPv4Localhost = Some (Addr4 2130706433)"
proof -
  have "v4_fields ''127.0.0.1'' = Some [127, 0, 0, 1]" by code_simp
  then show ?thesis by (simp add: ParseAddr_def IPv4Localhost_def parseIPv4_def AddrFrom4_def bytes_nat_def)
qed

lemma route_policy_ip:
  "route_policy env routing (NewSocketAddressByIP ip port) = Inr (p, a) \<Longrightarrow> a = NewSocketAddressByIP ip port"
  by (auto simp: route_policy_def matchAgain_def Let_def split: option.splits sum.splits if_splits AddrType.splits)

text \<open>
  The fallback site is reached through the rules: what a probe of a TLS port gets depends on the
  policy of the loopback address of the site. It reaches the site when that is \<open>direct\<close>, the
  connection is closed without an answer when it is \<open>reject\<close>, and it is sent to another
  server's loopback when it is an outbound, which a final outbound without a rule for
  127.0.0.1 makes it.
\<close>

theorem fallback_follows_rules:
  assumes "route_policy env (rt_routing s) (NewSocketAddressByIP (Addr4 2130706433) port) = Inr (policy, a)"
  shows "(policy = DirectPolicy \<longrightarrow>
      fallback_Handle port None (\<lambda>addr. fst (router_DialTCP env cenv netDial dialCarrier addr s)) conn =
        ForwardTCP None (\<lambda>addr. netDial (JoinHostPort (addr_String (Addr4 2130706433)) port)) a conn) \<and>
    (policy = RejectPolicy \<longrightarrow>
      fallback_Handle port None (\<lambda>addr. fst (router_DialTCP env cenv netDial dialCarrier addr s)) conn =
        Refused (ErrNew ''rejected'') (conn_Close conn)) \<and>
    (\<forall>c. policy \<notin> {DirectPolicy, RejectPolicy} \<and> rt_carrierClients s policy = Some c \<longrightarrow>
      fallback_Handle port None (\<lambda>addr. fst (router_DialTCP env cenv netDial dialCarrier addr s)) conn =
        ForwardTCP None (dialCarrier c) (NewSocketAddressByIP (Addr4 2130706433) port) conn)"
proof -
  have a: "a = NewSocketAddressByIP (Addr4 2130706433) port" by (rule route_policy_ip [OF assms])
  have host: "ToHostStr (NewSocketAddressByIP (Addr4 2130706433) port) = Inr (JoinHostPort (addr_String (Addr4 2130706433)) port)"
    by (simp add: ToHostStr_def Is4_def)
  have "fst (router_DialTCP env cenv netDial dialCarrier (NewSocketAddressByIP (Addr4 2130706433) port) s) =
      (if policy = DirectPolicy then netDial (JoinHostPort (addr_String (Addr4 2130706433)) port)
       else if policy = RejectPolicy then Inl (ErrNew ''rejected'')
       else fst (io_bind (getCarrierClient cenv policy) (\<lambda>c. io_lift (dialCarrier c (NewSocketAddressByIP (Addr4 2130706433) port))) s))"
    by (simp add: router_DialTCP_def router_next_def io_bind_def assms a reject_DialTCP_def direct_DialTCP_def host
        split: prod.split sum.split)
  then show ?thesis
    by (auto simp: fallback_Handle_def localhost_addr ForwardTCP_def a policy_defs
        io_bind_Inr [OF carriers.get_hit])
qed

text \<open>A configuration without \<open>routing\<close> that asks for updates of the rules.\<close>

definition no_routing_json :: json where
  "no_routing_json = JObj
     [(''inbounds'', JObj [(''http-socks'', JObj [(''host'', JStr ''a'')])]),
      (''misc'', JObj [(''rules-file-auto-update'', JBool True)])]"

definition no_routing_conf :: "('re, 'ps) Config" where
  "no_routing_conf =
     \<lparr>co_Inbounds = \<lparr>in_HTTPSOCKS = Some \<lparr>hs_Host = ''a'', hs_Port = 1080, hs_Username = [], hs_Password = [], hs_SystemProxy = False\<rparr>,
        in_Hg = None\<rparr>,
      co_Outbounds = [], co_Routing = None,
      co_Misc = zero_Misc\<lparr>mi_RulesFileAutoUpdate := True, mi_ProfilingPort := 6060\<rparr>\<rparr>"

lemma no_routing_decode: "dec_Config no_routing_json zero_Config = Inr no_routing_conf"
  by (simp add: no_routing_json_def no_routing_conf_def dec_Config_def decode_defs zero_Config_def zero_Inbounds_def dec_Inbounds_def
      HTTPSOCKS_UnmarshalJSONFrom_def zero_HTTPSOCKS_def defaultHTTPSOCKSPort_def Misc_UnmarshalJSONFrom_def
      zero_Misc_def defaultProfilingPort_def)

lemma no_routing_parse: "Parse env openStore (\<lambda>_. Inr []) (\<lambda>_. Inr no_routing_json) ''/e/f'' ''d'' =
    Inr (no_routing_conf :: ('re, 'ps) Config)"
proof -
  let ?c = "no_routing_conf :: ('re, 'ps) Config"
  have "validate ?c = Inr ()"
    by (simp add: validate_Inr no_routing_conf_def inboundsValidator_def httpSOCKSValidator_def hostRule_def sample_hosts
      miscValidator_def zero_Misc_def nonNullValueOutboundsRules_def)
  moreover have "co_Routing ?c = None" by (simp add: no_routing_conf_def)
  moreover have "resolveAllFilePathsToConfigFolder ?c folder = Inr ?c" for folder
    by (simp add: resolveAllFilePathsToConfigFolder_def no_routing_conf_def)
  ultimately show ?thesis by (simp add: Parse_def no_routing_decode)
qed

text \<open>
  C40. A configuration without \<open>routing\<close> may ask for updates of the rules, and is accepted; the first
  update that succeeds then dereferences the nil routing and stops the program.
\<close>

theorem update_without_routing_panics:
  "\<exists>c :: ('re, 'ps) Config. Parse env openStore (\<lambda>_. Inr []) (\<lambda>_. Inr no_routing_json) ''/e/f'' ''d'' = Inr c \<and>
     mi_RulesFileAutoUpdate (co_Misc c) \<and>
     fst (updateRouting env openStore (Inr True) (router_NewClient (co_Routing c) (co_Outbounds c) ''d'' keyLog tls)) =
       Inl (Panic ''nil pointer dereference'')"
  by (rule exI [of _ no_routing_conf]) (simp add: no_routing_parse, simp add: no_routing_conf_def updateRouting_def router_NewClient_def)

section \<open>Witnesses\<close>

definition sample_routing :: "(string, prefix list) Routing" where
  "sample_routing = \<lparr>ro_Transport = \<lparr>tp_TCP = ''tr'', tp_UDP = []\<rparr>, ro_Rules = [sample_ready], ro_Final = ''n''\<rparr>"

definition sample_router :: "(string, prefix list) router" where
  "sample_router = router_NewClient (Some sample_routing) (co_Outbounds sample_resolved) ''d'' False empty_tls"

lemma sample_router_new: "sample_router = router_NewClient (co_Routing sample_resolved) (co_Outbounds sample_resolved) ''d'' False empty_tls"
  by (simp add: sample_router_def sample_resolved_def sample_conf_def sample_routing_def)

lemma sample_built: "\<forall>rule \<in> set (ro_Rules sample_routing). rule_built sample_env sample_store rule"
  using sample_setup setup_rule_list_built [of sample_env sample_store "[\<lparr>ru_Matcher = Some (newMatcher [''domain-full/x'']), ru_Policy = ''reject''\<rparr>]" "[sample_ready]"]
  by (simp add: setupRulesData_def sample_routing_def rule_fresh_def ptr_rule_def split: sum.splits)

lemma sample_inv: "router_inv sample_env sample_router"
  unfolding sample_router_new using sample_config_ok by (simp add: router_inv_def router_NewClient_def config_ok_def)

theorem router_first_match_witness:
  "route_policy sample_env (Some sample_routing) (NewSocketAddressByDomain ''x.'' 80) =
     Inr (spec_route sample_env sample_store sample_routing (NewSocketAddressByDomain ''x.'' 80))"
proof (rule router_first_match [OF rule_store_sample_env sample_built])
  have "ParseAddr ''x.'' = None" by code_simp
  then show "addr_ip (NewSocketAddressByDomain ''x.'' 80) = Some ip \<Longrightarrow> zone_free ip" for ip by (simp add: addr_ip_def)
qed simp

theorem router_never_stuck_witness:
  "(\<exists>client a s'. router_next sample_env sample_cenv (NewSocketAddressByDomain ''y'' 80) sample_router = (Inr (client, a), s') \<and> wf_addr a) \<or>
    (\<exists>name n err s' http3. map_of (rt_outbounds sample_router) name = Some (Some n) \<and>
       router_next sample_env sample_cenv (NewSocketAddressByDomain ''y'' 80) sample_router = (Inl err, s') \<and>
       fst (TLSClientConfig (ce_tls sample_cenv) (pn_Host n) (pn_TLSCustomCertFile n) (rt_tlsKeyLog sample_router) http3
         (rt_tls sample_router)) = Inl err)"
  unfolding sample_router_new by (rule router_never_stuck [OF sample_config_ok rtranclp.rtrancl_refl]) simp

theorem carrier_built_once_witness:
  "\<exists>c rs t. run_gets (getCarrierClient sample_cenv) [''n'', ''n''] (sample_router\<lparr>rt_outbounds := [(''n'', Some sample_ss_node)]\<rparr>) = (rs, t) \<and>
     rs ! 1 = Inr c \<and> rt_carrierClients t ''n'' = Some c"
proof -
  let ?s = "sample_router\<lparr>rt_outbounds := [(''n'', Some sample_ss_node)]\<rparr>"
  obtain cfg u where "TLSClientConfig sample_tls_env ''h'' [] False False empty_tls = (Inr cfg, u)" using sample_tls_client by blast
  then have "\<exists>c s'. getCarrierClient sample_cenv ''n'' ?s = (Inr c, s')"
    by (simp add: getCarrierClient_def sample_router_def router_NewClient_def sample_routing_def newCarrierClient_def transport_defs
        tr_NewClient_def io_map_def io_bind_def sample_cenv_def sample_ss_node_def zero_ProxyNode_def)
  then obtain c s' where "getCarrierClient sample_cenv ''n'' ?s = (Inr c, s')" by blast
  moreover obtain rs t where run: "run_gets (getCarrierClient sample_cenv) [''n'', ''n''] ?s = (rs, t)" by (metis surj_pair)
  ultimately have "rs ! 0 = Inr c" by (auto split: prod.splits)
  with carrier_built_once [OF run, of 0 1 c] run show ?thesis by auto
qed

theorem update_all_or_nothing_witness:
  "updateRouting sample_env (\<lambda>_. Inr sample_store) (Inr True) sample_router = (Inr (), sample_router)"
proof -
  obtain res t where u: "updateRouting sample_env (\<lambda>_. Inr sample_store) (Inr True) sample_router = (res, t)" by (metis surj_pair)
  have "rt_routing sample_router = Some sample_routing" by (simp add: sample_router_def router_NewClient_def)
  with update_all_or_nothing [OF u sample_inv] sample_built u show ?thesis by blast
qed

theorem fallback_follows_rules_witness:
  "fallback_Handle 80 None (\<lambda>addr. fst (router_DialTCP sample_env sample_cenv (\<lambda>_. Inr ()) (\<lambda>_ _. Inr ()) addr
      (sample_router\<lparr>rt_routing := Some (sample_routing\<lparr>ro_Rules := [], ro_Final := ''reject''\<rparr>)\<rparr>))) sample_a =
     Refused (ErrNew ''rejected'') (conn_Close sample_a)"
  by (rule fallback_follows_rules [where policy = RejectPolicy, THEN conjunct2, THEN conjunct1, rule_format])
     (simp_all add: route_policy_def matchAgain_def match_ip_def Is4_def FinalPolicy_def RejectPolicy_def)

end
