(* ===== verification/Updater.thy ===== *)
theory Updater
  imports Conf "HOL-Library.Sublist"
begin

text \<open>
  The updates of the rule database and of the program itself, \<open>util/updater\<close>: downloading a file
  and its list of checksums, verifying the one with the other, unpacking an archive and replacing
  the destination. The file system is a map from paths to files with the history of its states,
  so that what a crash would leave behind is visible; HTTP, SHA-256, archives and the failures of
  the system calls are the fields of \<open>upd_env\<close>.
\<close>

section \<open>Files\<close>

record osfile =
  fi_data :: bytes
  fi_mode :: nat
  fi_mtime :: int

record fsys =
  fs_files :: "string \<rightharpoonup> osfile"
  fs_hist :: "(string \<rightharpoonup> osfile) list"

text \<open>An entry of a tar archive: its name, whether it is a regular file, its mode, and what reading it gives.\<close>

record tar_entry =
  th_Name :: string
  th_regular :: bool
  th_Mode :: nat
  th_data :: bytes
  th_err :: "goerr option"

text \<open>
  What the code calls: the name of a new temporary file, \<open>Get\<close> with the status, the body and the
  error that ended it, SHA-256, the entries of a compressed archive with the error that ended
  them, the errors of system calls by call and path, and how many bytes a copy can write.
\<close>

record upd_env =
  ue_TempName :: "string \<Rightarrow> (string \<rightharpoonup> osfile) \<Rightarrow> string res"
  ue_Get :: "string \<Rightarrow> (nat \<times> bytes \<times> goerr option) res"
  ue_SHA256 :: "bytes \<Rightarrow> bytes"
  ue_untar :: "bytes \<Rightarrow> (tar_entry list \<times> goerr option) res"
  ue_fault :: "string \<Rightarrow> string \<Rightarrow> goerr option"
  ue_write :: "string \<Rightarrow> bytes \<Rightarrow> nat \<times> goerr option"
  ue_now :: int
  ue_GOOS :: string
  ue_GOARCH :: string

definition fs_put :: "string \<Rightarrow> osfile option \<Rightarrow> fsys \<Rightarrow> fsys" where
  "fs_put path f s = s\<lparr>fs_files := (fs_files s)(path := f), fs_hist := fs_hist s @ [fs_files s]\<rparr>"

definition sys :: "upd_env \<Rightarrow> string \<Rightarrow> string \<Rightarrow> (fsys, unit) io" where
  "sys env op path = io_lift (case ue_fault env op path of None \<Rightarrow> Inr () | Some err \<Rightarrow> Inl err)"

definition os_Remove :: "string \<Rightarrow> fsys \<Rightarrow> fsys" where
  "os_Remove path = fs_put path None"

text \<open>Deferred clean-up: always, or only after an error.\<close>

definition deferred :: "('s \<Rightarrow> 's) \<Rightarrow> ('s, 'a) io \<Rightarrow> ('s, 'a) io" where
  "deferred c m s = (case m s of (r, t) \<Rightarrow> (r, c t))"

definition on_error :: "('s \<Rightarrow> 's) \<Rightarrow> ('s, 'a) io \<Rightarrow> ('s, 'a) io" where
  "on_error c m s = (case m s of (Inl e, t) \<Rightarrow> (Inl e, c t) | (Inr x, t) \<Rightarrow> (Inr x, t))"

definition read_file :: "upd_env \<Rightarrow> string \<Rightarrow> (fsys, bytes) io" where
  "read_file env path =
     io_bind (sys env ''read'' path) (\<lambda>_ s. (Inr (case fs_files s path of None \<Rightarrow> [] | Some f \<Rightarrow> fi_data f), s))"

text \<open>A \<open>bufio.Scanner\<close> whose \<open>Err\<close> is not asked for sees a file that cannot be read as empty.\<close>

definition scan_file :: "upd_env \<Rightarrow> string \<Rightarrow> (fsys, bytes) io" where
  "scan_file env path s = (Inr (case read_file env path s of (Inl _, _) \<Rightarrow> [] | (Inr data, _) \<Rightarrow> data), s)"

text \<open>
  \<open>io.Copy\<close> to an open file whose offset is 0: the bytes that can be written replace as many of the
  file, and the error is the one of the file or the one that ended the source.
\<close>

definition io_Copy :: "upd_env \<Rightarrow> string \<Rightarrow> bytes \<Rightarrow> goerr option \<Rightarrow> (fsys, unit) io" where
  "io_Copy env path data srcErr s =
     (case ue_write env path data of (n, werr) \<Rightarrow>
        (case fs_files s path of
           None \<Rightarrow> (Inl (ErrNew ''no such file''), s)
         | Some f \<Rightarrow>
             (case (if werr = None then srcErr else werr) of None \<Rightarrow> Inr () | Some err \<Rightarrow> Inl err,
              fs_put path (Some (f\<lparr>fi_data := take n data @ drop (min n (length data)) (fi_data f), fi_mtime := ue_now env\<rparr>)) s)))"

definition os_CreateTemp :: "upd_env \<Rightarrow> string \<Rightarrow> (fsys, string) io" where
  "os_CreateTemp env filename s =
     (case ue_TempName env filename (fs_files s) of
        Inl err \<Rightarrow> (Inl err, s)
      | Inr name \<Rightarrow> (Inr name, fs_put name (Some \<lparr>fi_data = [], fi_mode = 384, fi_mtime = ue_now env\<rparr>) s))"

text \<open>Modes are 0600 for a temporary file and 0644 for a created one. \<open>os.Create\<close> truncates; \<open>os.OpenFile\<close> with \<open>O_CREATE\<close> and \<open>O_WRONLY\<close> keeps what is there.\<close>

definition os_Create :: "upd_env \<Rightarrow> string \<Rightarrow> (fsys, unit) io" where
  "os_Create env path =
     io_bind (sys env ''create'' path) (\<lambda>_ s. (Inr (), fs_put path
       (Some \<lparr>fi_data = [], fi_mode = (case fs_files s path of None \<Rightarrow> 420 | Some f \<Rightarrow> fi_mode f), fi_mtime = ue_now env\<rparr>) s))"

definition os_OpenFile :: "upd_env \<Rightarrow> string \<Rightarrow> nat \<Rightarrow> (fsys, unit) io" where
  "os_OpenFile env path mode =
     io_bind (sys env ''open'' path) (\<lambda>_ s. (Inr (), case fs_files s path of
         None \<Rightarrow> fs_put path (Some \<lparr>fi_data = [], fi_mode = mode, fi_mtime = ue_now env\<rparr>) s
       | Some f \<Rightarrow> s))"

text \<open>\<open>os.Rename\<close> is one step; a source that is not there is \<open>os.ErrNotExist\<close>.\<close>

definition ErrNotExist :: goerr where "ErrNotExist = ErrNew ''file does not exist''"

definition os_Rename :: "upd_env \<Rightarrow> string \<Rightarrow> string \<Rightarrow> (fsys, unit) io" where
  "os_Rename env old new =
     io_bind (sys env ''rename'' old) (\<lambda>_ s. (case fs_files s old of
         None \<Rightarrow> (Inl ErrNotExist, s)
       | Some f \<Rightarrow> (Inr (), s\<lparr>fs_files := (fs_files s)(new := Some f, old := None), fs_hist := fs_hist s @ [fs_files s]\<rparr>)))"

section \<open>Paths\<close>

fun strip_slashes :: "string \<Rightarrow> string" where
  "strip_slashes p = (if p \<noteq> [] \<and> last p = CHR ''/'' then strip_slashes (butlast p) else p)"

declare strip_slashes.simps [simp del]

definition path_Base :: "string \<Rightarrow> string" where
  "path_Base p =
     (if p = [] then ''.''
      else (let q = strip_slashes p; b = (case LastIndexByte q CHR ''/'' of None \<Rightarrow> q | Some i \<Rightarrow> drop (i + 1) q) in
        if b = [] then ''/'' else b))"

fun Contains :: "string \<Rightarrow> string \<Rightarrow> bool" where
  "Contains [] sub = (sub = [])"
| "Contains (c # cs) sub = (HasPrefix (c # cs) sub \<or> Contains cs sub)"

section \<open>Downloading and verifying\<close>

definition downloadFile :: "upd_env \<Rightarrow> string \<Rightarrow> (fsys, string) io" where
  "downloadFile env url =
     io_bind (os_CreateTemp env (path_Base url)) (\<lambda>file.
     on_error (os_Remove file)
       (io_bind (io_lift (ue_Get env url)) (\<lambda>(status, body, bodyErr).
        if status \<noteq> 200 then io_fail (ErrNew ''bad status'')
        else io_bind (io_Copy env file body bodyErr) (\<lambda>_. io_ret file))))"

text \<open>
  \<open>bufio.Scanner\<close>: the lines up to the first one that does not fit its buffer of 64 KB, without a
  final carriage return. A text that ends with a line feed has no empty last line.
\<close>

definition drop_cr :: "string \<Rightarrow> string" where
  "drop_cr l = (if l \<noteq> [] \<and> last l = CHR 0x0D then butlast l else l)"

definition scan_lines :: "string \<Rightarrow> string list" where
  "scan_lines t =
     (let ls = Split t (CHR 0x0A); ls = (if last ls = [] then butlast ls else ls) in
      map drop_cr (takeWhile (\<lambda>l. length l < 65536) ls))"

definition is_space :: "char \<Rightarrow> bool" where
  "is_space c = (c \<in> set [CHR '' '', CHR 0x09, CHR 0x0A, CHR 0x0C, CHR 0x0D])"

text \<open>
  The match of \<open>^([^\s]+)\s+NAME$\<close>: the group takes all the characters before the first space, since
  a space must follow it, and the rest is spaces and the name.
\<close>

definition sum_line :: "string \<Rightarrow> string \<Rightarrow> string option" where
  "sum_line filename line =
     (let sum = takeWhile (Not \<circ> is_space) line; rest = dropWhile (Not \<circ> is_space) line;
          spaces = length (takeWhile is_space rest) in
      if sum \<noteq> [] \<and> (\<exists>k \<in> set [1..<spaces + 1]. drop k rest = filename) then Some sum else None)"

fun expected_sum :: "string \<Rightarrow> string list \<Rightarrow> string option" where
  "expected_sum filename [] = None"
| "expected_sum filename (l # ls) = (case sum_line filename l of Some s \<Rightarrow> Some s | None \<Rightarrow> expected_sum filename ls)"

definition verifyRulesFileSHA256Sum :: "upd_env \<Rightarrow> bytes \<Rightarrow> bytes \<Rightarrow> string \<Rightarrow> unit res" where
  "verifyRulesFileSHA256Sum env file sha256SumFile filename =
     (case expected_sum filename (scan_lines (bytes_str sha256SumFile)) of
        None \<Rightarrow> Inl (ErrNew ''fail to find the SHA256 sum for the file'')
      | Some expectedSum \<Rightarrow>
          if bytes_str (hex_Encode (ue_SHA256 env file)) \<noteq> expectedSum
          then Inl (ErrNew ''the SHA256 of the downloaded file is not the same as the one from the downloaded sha256sum file'')
          else Inr ())"

section \<open>Unpacking and replacing\<close>

definition AppName :: string where "AppName = ''heteroglossia''"

fun extract_entries :: "upd_env \<Rightarrow> string \<Rightarrow> string \<Rightarrow> tar_entry list \<Rightarrow> goerr option \<Rightarrow> (fsys, string) io" where
  "extract_entries env targetDir found [] None =
     (if found = [] then io_fail (ErrNew ''fail to find the hg binary in the downloaded compressed file'') else io_ret found)"
| "extract_entries env targetDir found [] (Some err) = io_fail err"
| "extract_entries env targetDir found (h # hs) end =
     (if th_regular h then
        (let target = filepath_Join targetDir (th_Name h) in
         io_bind (os_OpenFile env target (th_Mode h)) (\<lambda>_.
         io_bind (io_Copy env target (th_data h) (th_err h)) (\<lambda>_.
         extract_entries env targetDir (if Contains target AppName then target else found) hs end)))
      else extract_entries env targetDir found hs end)"

definition extractHgBinaryTarGz :: "upd_env \<Rightarrow> string \<Rightarrow> (fsys, string) io" where
  "extractHgBinaryTarGz env tarGzFile =
     io_bind (read_file env tarGzFile) (\<lambda>data.
     io_bind (io_lift (ue_untar env data)) (\<lambda>(entries, end).
     extract_entries env (filepath_Dir tarGzFile) [] entries end))"

definition replaceFile :: "upd_env \<Rightarrow> string \<Rightarrow> string \<Rightarrow> (fsys, unit) io" where
  "replaceFile env src dstFilepath =
     (let new = dstFilepath @ ''.new''; old = dstFilepath @ ''.old'' in
      io_bind (sys env ''mkdir'' (filepath_Dir dstFilepath)) (\<lambda>_.
      io_bind (os_Create env new) (\<lambda>_.
      io_bind (read_file env src) (\<lambda>data.
      io_bind (io_Copy env new data None) (\<lambda>_.
      io_bind (sys env ''stat'' src) (\<lambda>_.
      io_bind (sys env ''chmod'' new) (\<lambda>_.
      io_bind (\<lambda>s. (Inr (), case (fs_files s src, fs_files s new) of
          (Some f, Some g) \<Rightarrow> fs_put new (Some (g\<lparr>fi_mode := fi_mode f\<rparr>)) s | _ \<Rightarrow> s)) (\<lambda>_.
      io_bind (if ue_GOOS env = ''windows'' then
          (\<lambda>s. case os_Rename env dstFilepath old s of
             (Inl err, t) \<Rightarrow> (if errIs err ErrNotExist then Inr () else Inl err, t) | (Inr u, t) \<Rightarrow> (Inr u, t))
          else io_ret ()) (\<lambda>_.
      os_Rename env new dstFilepath)))))))))"

definition updateFile :: "upd_env \<Rightarrow> string \<Rightarrow> string \<Rightarrow> string \<Rightarrow> (fsys, unit) io" where
  "updateFile env filePath fileURL fileSHA256SumURL =
     io_bind (downloadFile env fileURL) (\<lambda>file. deferred (os_Remove file) (
     io_bind (downloadFile env fileSHA256SumURL) (\<lambda>sumFile. deferred (os_Remove sumFile) (
     let filename = path_Base fileURL in
     io_bind (sys env ''seek'' file) (\<lambda>_.
     io_bind (sys env ''seek'' sumFile) (\<lambda>_.
     io_bind (read_file env file) (\<lambda>data.
     io_bind (scan_file env sumFile) (\<lambda>sums.
     io_bind (io_lift (verifyRulesFileSHA256Sum env data sums filename)) (\<lambda>_.
     io_bind (sys env ''seek'' file) (\<lambda>_.
     if HasSuffix filename ''.tar.gz'' then
       io_bind (extractHgBinaryTarGz env file) (\<lambda>binary.
       io_bind (sys env ''open'' binary) (\<lambda>_. deferred (os_Remove binary) (replaceFile env binary filePath)))
     else replaceFile env file filePath))))))))))"

section \<open>When to update\<close>

definition needUpdateFile :: "upd_env \<Rightarrow> string \<Rightarrow> int \<Rightarrow> (fsys, bool) io" where
  "needUpdateFile env path needUpdateInterval s =
     (case ue_fault env ''stat'' path of
        Some err \<Rightarrow> (Inl err, s)
      | None \<Rightarrow>
          (case fs_files s path of
             None \<Rightarrow> (Inr True, s)
           | Some f \<Rightarrow> (Inr (needUpdateInterval \<le> ue_now env - fi_mtime f), s)))"

definition domainIPSetRulesFileURL :: string where
  "domainIPSetRulesFileURL = ''https://github.com/floating-cat/domain-ip-set-rules/raw/release/domain-ip-set-rules.db''"

definition domainIPSetRulesFileSHA256SumURL :: string where
  "domainIPSetRulesFileSHA256SumURL =
     ''https://github.com/floating-cat/domain-ip-set-rules/raw/release/domain-ip-set-rules.db.sha256sum''"

definition ruleFileNeedUpdateInterval :: int where
  "ruleFileNeedUpdateInterval = 15 * 10 * 3600 * 1000000000"

definition UpdateRuleDBFile :: "upd_env \<Rightarrow> string \<Rightarrow> (fsys, bool) io" where
  "UpdateRuleDBFile env ruleDBFilePath =
     io_bind (needUpdateFile env ruleDBFilePath ruleFileNeedUpdateInterval) (\<lambda>update.
     if \<not> update then io_ret False
     else io_bind (updateFile env ruleDBFilePath domainIPSetRulesFileURL domainIPSetRulesFileSHA256SumURL) (\<lambda>_. io_ret True))"

text \<open>
  The program's own update; versions are compared by \<open>golang.org/x/mod/semver\<close>, and the tag is
  read from the JSON of GitHub's answer.
\<close>

record ver_env =
  ve_Version :: string
  ve_IsValid :: "string \<Rightarrow> bool"
  ve_Compare :: "string \<Rightarrow> string \<Rightarrow> int"
  ve_TagName :: "bytes \<Rightarrow> goerr option \<Rightarrow> string res"
  ve_Executable :: "string res"

definition hgBinaryLatestVersionURL :: string where
  "hgBinaryLatestVersionURL = ''https://api.github.com/repos/floating-cat/heteroglossia/releases/latest''"

definition hgBinaryURL :: "upd_env \<Rightarrow> string \<Rightarrow> string" where
  "hgBinaryURL env version =
     ''https://github.com/floating-cat/heteroglossia/releases/download/'' @ version @ ''/heteroglossia_'' @
     drop 1 version @ ''_'' @ ue_GOOS env @ ''_'' @ ue_GOARCH env @ ''.tar.gz''"

definition hgBinaryURLSHA256SumURL :: "string \<Rightarrow> string" where
  "hgBinaryURLSHA256SumURL version =
     ''https://github.com/floating-cat/heteroglossia/releases/download/'' @ version @ ''/sha256sums.txt''"

definition latestTagVersion :: "upd_env \<Rightarrow> ver_env \<Rightarrow> string res" where
  "latestTagVersion env ver =
     (case ue_Get env hgBinaryLatestVersionURL of
        Inl err \<Rightarrow> Inl err
      | Inr (status, body, bodyErr) \<Rightarrow>
          if status \<noteq> 200 then Inl (ErrNew ''bad status when checking the latest heteroglossia version'')
          else (case ve_TagName ver body bodyErr of
              Inl err \<Rightarrow> Inl err
            | Inr tag \<Rightarrow> if tag = [] then Inl (ErrNew ''fail to get the last tag name from GitHub'') else Inr tag))"

definition UpdateHgBinary :: "upd_env \<Rightarrow> ver_env \<Rightarrow> (fsys, bool \<times> string) io" where
  "UpdateHgBinary env ver =
     (let currentVersion = ''v'' @ ve_Version ver in
      if \<not> ve_IsValid ver currentVersion then io_fail (ErrNew ''the current binary has an invalid semantic version, so skip the update'')
      else io_bind (io_lift (latestTagVersion env ver)) (\<lambda>latest.
        if \<not> ve_IsValid ver latest then io_fail (ErrNew ''the latest version from GitHub is an invalid semantic version so skipping update'')
        else if 0 < ve_Compare ver latest currentVersion then
          io_bind (io_lift (ve_Executable ver)) (\<lambda>executablePath.
          io_bind (updateFile env executablePath (hgBinaryURL env latest) (hgBinaryURLSHA256SumURL latest)) (\<lambda>_.
          io_ret (True, latest)))
        else io_ret (False, [])))"

section \<open>What an update can change\<close>

text \<open>
  \<open>frame ps s t\<close>: between \<open>s\<close> and \<open>t\<close> only the paths in \<open>ps\<close> were touched, at any moment; the history
  goes on from \<open>s\<close>.
\<close>

definition frame :: "string set \<Rightarrow> fsys \<Rightarrow> fsys \<Rightarrow> bool" where
  "frame ps s t \<longleftrightarrow> (\<exists>h. fs_hist t = fs_hist s @ h \<and> fs_files s \<in> set h \<union> {fs_files t} \<and>
     (\<forall>fs \<in> set h \<union> {fs_files t}. \<forall>p. p \<notin> ps \<longrightarrow> fs p = fs_files s p))"

lemma frame_refl [simp, intro]: "frame ps s s"
  by (simp add: frame_def)

lemma frame_trans [trans]:
  assumes "frame ps s t" "frame ps t u"
  shows "frame ps s u"
proof -
  let ?ok = "\<lambda>s fs. \<forall>p. p \<notin> ps \<longrightarrow> fs p = fs_files s p"
  from assms(1) obtain h where g: "fs_hist t = fs_hist s @ h" "fs_files s \<in> set h \<union> {fs_files t}"
    "\<forall>fs \<in> set h \<union> {fs_files t}. ?ok s fs" unfolding frame_def by blast
  from assms(2) obtain h' where h': "fs_hist u = fs_hist t @ h'" "fs_files t \<in> set h' \<union> {fs_files u}"
    "\<forall>fs \<in> set h' \<union> {fs_files u}. ?ok t fs" unfolding frame_def by blast
  have tt: "?ok s (fs_files t)" by (rule bspec [OF g(3)]) simp
  have "?ok s fs" if "fs \<in> set h' \<union> {fs_files u}" for fs
    using bspec [OF h'(3) that] tt by metis
  with g(3) have "\<forall>fs \<in> set (h @ h') \<union> {fs_files u}. ?ok s fs" by auto
  moreover have "fs_files s \<in> set (h @ h') \<union> {fs_files u}" using g(2) h'(2) by auto
  ultimately show ?thesis using g(1) h'(1) unfolding frame_def by (intro exI [of _ "h @ h'"]) simp
qed

lemma frame_mono: "frame ps s t \<Longrightarrow> ps \<subseteq> qs \<Longrightarrow> frame qs s t"
  unfolding frame_def by blast

lemma frame_put [intro]: "p \<in> ps \<Longrightarrow> frame ps s (fs_put p f s)"
  unfolding frame_def by (rule exI [of _ "[fs_files s]"]) (auto simp: fs_put_def)

text \<open>An operation that touches only \<open>ps\<close>; the rules follow the structure of the code.\<close>

definition touches :: "string set \<Rightarrow> (fsys, 'a) io \<Rightarrow> bool" where
  "touches ps m \<longleftrightarrow> (\<forall>s r t. m s = (r, t) \<longrightarrow> frame ps s t)"

named_theorems touch "rules for the paths that an operation touches"

lemma touches_bind [touch]: "touches ps m \<Longrightarrow> (\<And>x. touches ps (f x)) \<Longrightarrow> touches ps (io_bind m f)"
  unfolding touches_def io_bind_def by (auto split: prod.splits sum.splits) (blast intro: frame_trans)

lemma touches_ret [touch]: "touches ps (io_ret x)" "touches ps (io_fail e)" "touches ps (io_lift r)" "touches ps (sys env op p)"
  by (simp_all add: touches_def io_ret_def io_fail_def io_lift_def sys_def)

lemma touches_deferred [touch]: "touches ps m \<Longrightarrow> p \<in> ps \<Longrightarrow> touches ps (deferred (os_Remove p) m)"
  unfolding touches_def deferred_def os_Remove_def by (auto split: prod.splits) (blast intro: frame_trans frame_put)

lemma touches_on_error [touch]: "touches ps m \<Longrightarrow> p \<in> ps \<Longrightarrow> touches ps (on_error (os_Remove p) m)"
  unfolding touches_def on_error_def os_Remove_def by (auto split: prod.splits sum.splits) (blast intro: frame_trans frame_put)

lemma touches_read [touch]: "touches ps (read_file env p)" "touches ps (scan_file env p)"
  by (auto simp: touches_def read_file_def scan_file_def io_bind_def sys_def split: prod.splits sum.splits)

lemma touches_Copy [touch]: "p \<in> ps \<Longrightarrow> touches ps (io_Copy env p data err)"
  by (auto simp: touches_def io_Copy_def split: prod.splits option.splits)

lemma touches_Create [touch]: "p \<in> ps \<Longrightarrow> touches ps (os_Create env p)" "p \<in> ps \<Longrightarrow> touches ps (os_OpenFile env p mode)"
  by (auto simp: touches_def os_Create_def os_OpenFile_def io_bind_def sys_def split: prod.splits sum.splits option.splits)

lemma touches_if [touch]: "touches ps m \<Longrightarrow> touches ps n \<Longrightarrow> touches ps (if b then m else n)"
  by simp

lemma touches_extract [touch]:
  "(\<And>h. h \<in> set hs \<Longrightarrow> filepath_Join dir (th_Name h) \<in> ps) \<Longrightarrow> touches ps (extract_entries env dir found hs end)"
proof (induction hs arbitrary: found)
  case Nil
  then show ?case by (cases "end") (auto intro!: touches_if touch simp del: io_ret_apply io_fail_apply)
next
  case (Cons h hs)
  then show ?case by (cases "end") (auto simp: Let_def intro!: touch)
qed

text \<open>
  A temporary file is new and is not the destination or a file beside it; a copy without an error
  has written everything.
\<close>

definition dst_paths :: "string \<Rightarrow> string set" where
  "dst_paths dst = {dst, dst @ ''.new'', dst @ ''.old''}"

definition os_ok :: "upd_env \<Rightarrow> string \<Rightarrow> bool" where
  "os_ok env dst \<longleftrightarrow>
     (\<forall>base files name. ue_TempName env base files = Inr name \<longrightarrow> files name = None \<and> name \<notin> dst_paths dst) \<and>
     (\<forall>path data n. ue_write env path data = (n, None) \<longrightarrow> length data \<le> n)"

text \<open>The paths that an update may touch before it replaces the destination.\<close>

abbreviation beside :: "string \<Rightarrow> string set" where
  "beside dst \<equiv> - {dst, dst @ ''.old''}"

lemma downloadFile_frame:
  assumes "os_ok env dst" "downloadFile env url s = (r, t)"
  shows "frame (beside dst) s t"
proof (cases "ue_TempName env (path_Base url) (fs_files s)")
  case (Inl e)
  with assms(2) show ?thesis by (simp add: downloadFile_def io_bind_def os_CreateTemp_def)
next
  case (Inr name)
  let ?m = "on_error (os_Remove name) (io_bind (io_lift (ue_Get env url)) (\<lambda>(status, body, bodyErr).
        if status \<noteq> 200 then io_fail (ErrNew ''bad status'')
        else io_bind (io_Copy env name body bodyErr) (\<lambda>_. io_ret name)))"
  let ?s = "fs_put name (Some \<lparr>fi_data = [], fi_mode = 384, fi_mtime = ue_now env\<rparr>) s"
  have "name \<noteq> dst" "name \<noteq> dst @ ''.old''" using Inr assms(1) by (auto simp: os_ok_def dst_paths_def)
  then have "touches (beside dst) ?m" "frame (beside dst) s ?s"
    by (auto intro!: touch simp del: io_ret_apply io_fail_apply io_lift_apply)
  moreover have "?m ?s = (r, t)" using assms(2) Inr by (simp add: downloadFile_def io_bind_def [of "os_CreateTemp env _"] os_CreateTemp_def)
  ultimately show ?thesis unfolding touches_def by (blast intro: frame_trans)
qed

text \<open>A download that succeeds leaves the body of the answer in a new file, and nothing else.\<close>

lemma downloadFile_Inr:
  assumes "os_ok env dst" "downloadFile env url s = (Inr file, t)"
  shows "file \<notin> dst_paths dst \<and> fs_files s file = None \<and> (\<forall>p. p \<noteq> file \<longrightarrow> fs_files t p = fs_files s p) \<and>
    (\<exists>f. ue_Get env url = Inr (200, fi_data f, None) \<and> fs_files t file = Some f)"
  using assms
  by (auto simp: downloadFile_def io_bind_eq_Inr os_CreateTemp_def on_error_def io_Copy_def os_ok_def fs_put_def
      split: sum.splits prod.splits if_splits option.splits)

lemma downloadFile_name:
  "downloadFile env url s = (Inr file, t) \<Longrightarrow> \<exists>files. ue_TempName env (path_Base url) files = Inr file"
  by (auto simp: downloadFile_def io_bind_eq_Inr os_CreateTemp_def on_error_def split: sum.splits prod.splits if_splits)

section \<open>Replacing the destination\<close>

text \<open>
  What is at the destination at one moment, after \<open>s\<close>: what it was, or a file that satisfies \<open>P\<close>, or,
  on Windows (\<open>w\<close>), nothing, and then the file it was, or one that satisfies \<open>P\<close>, is beside it
  under the name \<open>.old\<close>.
\<close>

definition at_dst :: "bool \<Rightarrow> (osfile \<Rightarrow> bool) \<Rightarrow> string \<Rightarrow> fsys \<Rightarrow> (string \<rightharpoonup> osfile) \<Rightarrow> bool" where
  "at_dst w P dst s fs \<longleftrightarrow>
     (fs dst = fs_files s dst \<and> fs (dst @ ''.old'') = fs_files s (dst @ ''.old'')) \<or>
     (\<exists>f. fs dst = Some f \<and> P f) \<or>
     (w \<and> fs dst = None \<and> (\<exists>f. fs (dst @ ''.old'') = Some f \<and> (fs_files s dst = Some f \<or> P f)))"

text \<open>\<open>swap w P dst s t\<close>: that holds at every moment between \<open>s\<close> and \<open>t\<close>.\<close>

definition swap :: "bool \<Rightarrow> (osfile \<Rightarrow> bool) \<Rightarrow> string \<Rightarrow> fsys \<Rightarrow> fsys \<Rightarrow> bool" where
  "swap w P dst s t \<longleftrightarrow> (\<exists>h. fs_hist t = fs_hist s @ h \<and> fs_files s \<in> set h \<union> {fs_files t} \<and>
     (\<forall>fs \<in> set h \<union> {fs_files t}. at_dst w P dst s fs))"

lemma at_dst_trans: "at_dst w P dst s (fs_files t) \<Longrightarrow> at_dst w P dst t fs \<Longrightarrow> at_dst w P dst s fs"
  unfolding at_dst_def by (elim disjE exE conjE) auto

lemma swap_trans:
  assumes "swap w P dst s t" "swap w P dst t u"
  shows "swap w P dst s u"
proof -
  from assms(1) obtain h where h: "fs_hist t = fs_hist s @ h" "fs_files s \<in> set h \<union> {fs_files t}"
    "\<forall>fs \<in> set h \<union> {fs_files t}. at_dst w P dst s fs" unfolding swap_def by blast
  from assms(2) obtain h' where h': "fs_hist u = fs_hist t @ h'" "fs_files t \<in> set h' \<union> {fs_files u}"
    "\<forall>fs \<in> set h' \<union> {fs_files u}. at_dst w P dst t fs" unfolding swap_def by blast
  from h(3) h'(3) have "\<forall>fs \<in> set h' \<union> {fs_files u}. at_dst w P dst s fs" by (blast intro: at_dst_trans)
  with h(3) have "\<forall>fs \<in> set (h @ h') \<union> {fs_files u}. at_dst w P dst s fs" by auto
  moreover have "fs_files s \<in> set (h @ h') \<union> {fs_files u}" using h(2) h'(2) by auto
  ultimately show ?thesis using h(1) h'(1) unfolding swap_def by (intro exI [of _ "h @ h'"]) simp
qed

lemma frame_swap: "frame (beside dst) s t \<Longrightarrow> swap w P dst s t"
  unfolding frame_def swap_def at_dst_def by (elim exE conjE, rule exI, intro conjI) (assumption | blast)+

lemma frame_dst:
  assumes "frame (beside dst) s t"
  shows "fs_files t dst = fs_files s dst" "fs_files t (dst @ ''.old'') = fs_files s (dst @ ''.old'')"
  using assms unfolding frame_def by auto

text \<open>
  The result of an update of \<open>dst\<close>: every moment is safe, and the end agrees with the result. After an
  error the destination is what it was, or, on Windows, the file it was is beside it.
\<close>

definition not_updated :: "bool \<Rightarrow> string \<Rightarrow> fsys \<Rightarrow> fsys \<Rightarrow> bool" where
  "not_updated w dst s t \<longleftrightarrow>
     (fs_files t dst = fs_files s dst \<and> fs_files t (dst @ ''.old'') = fs_files s (dst @ ''.old'')) \<or>
     (w \<and> fs_files t dst = None \<and> fs_files s dst \<noteq> None \<and> fs_files t (dst @ ''.old'') = fs_files s dst)"

definition updated :: "bool \<Rightarrow> (osfile \<Rightarrow> bool) \<Rightarrow> string \<Rightarrow> fsys \<Rightarrow> unit res \<Rightarrow> fsys \<Rightarrow> bool" where
  "updated w P dst s r t \<longleftrightarrow> swap w P dst s t \<and>
     (case r of Inr _ \<Rightarrow> \<exists>f. fs_files t dst = Some f \<and> P f | Inl _ \<Rightarrow> not_updated w dst s t)"

lemma updated_frame_left: "frame (beside dst) s t \<Longrightarrow> updated w P dst t r u \<Longrightarrow> updated w P dst s r u"
  unfolding updated_def not_updated_def using frame_dst [of dst s t] by (auto intro: swap_trans frame_swap split: sum.splits)

lemma updated_frame_right: "updated w P dst s r t \<Longrightarrow> frame (beside dst) t u \<Longrightarrow> updated w P dst s r u"
  unfolding updated_def not_updated_def using frame_dst [of dst t u] by (auto intro: swap_trans frame_swap split: sum.splits)

lemma updated_error: "frame (beside dst) s t \<Longrightarrow> updated w P dst s (Inl e) t"
  by (simp add: updated_def not_updated_def frame_swap frame_dst)

definition updates :: "bool \<Rightarrow> (osfile \<Rightarrow> bool) \<Rightarrow> string \<Rightarrow> (fsys, unit) io \<Rightarrow> fsys \<Rightarrow> bool" where
  "updates w P dst m s \<longleftrightarrow> (\<forall>r t. m s = (r, t) \<longrightarrow> updated w P dst s r t)"

lemma updates_bind:
  assumes "\<And>r t. m s = (r, t) \<Longrightarrow> frame (beside dst) s t" "\<And>x t. m s = (Inr x, t) \<Longrightarrow> updates w P dst (f x) t"
  shows "updates w P dst (io_bind m f) s"
  unfolding updates_def io_bind_def
  by (auto split: prod.splits sum.splits dest: assms(1) intro: updated_error)
     (metis assms updated_frame_left updates_def)

lemma updates_deferred:
  assumes "updates w P dst m s" "p \<notin> dst_paths dst"
  shows "updates w P dst (deferred (os_Remove p) m) s"
  using assms frame_put [of p "beside dst"] unfolding updates_def deferred_def os_Remove_def
  by (auto simp: dst_paths_def split: prod.splits intro: updated_frame_right)

text \<open>One rename, and a rename after the file was set aside.\<close>

lemma updates_Rename:
  assumes "fs_files s new = Some g" "P g" "new \<noteq> dst"
  shows "updates w P dst (os_Rename env new dst) s"
proof (cases "ue_fault env ''rename'' new")
  case None
  let ?t = "s\<lparr>fs_files := (fs_files s)(dst := Some g, new := None), fs_hist := fs_hist s @ [fs_files s]\<rparr>"
  have "os_Rename env new dst s = (Inr (), ?t)" using None assms(1) by (simp add: os_Rename_def io_bind_def sys_def)
  moreover have "swap w P dst s ?t" unfolding swap_def at_dst_def by (rule exI [of _ "[fs_files s]"]) (use assms(2,3) in simp)
  ultimately show ?thesis using assms(2,3) by (simp add: updates_def updated_def)
next
  case (Some e)
  then have "os_Rename env new dst s = (Inl e, s)" by (simp add: os_Rename_def io_bind_def sys_def)
  then show ?thesis by (simp add: updates_def updated_error)
qed

definition set_aside :: "upd_env \<Rightarrow> string \<Rightarrow> (fsys, unit) io" where
  "set_aside env dst s =
     (case os_Rename env dst (dst @ ''.old'') s of
        (Inl err, t) \<Rightarrow> (if errIs err ErrNotExist then Inr () else Inl err, t)
      | (Inr u, t) \<Rightarrow> (Inr u, t))"

lemma set_aside_cases:
  assumes "set_aside env dst s = (r, t)"
  shows "t = s \<or> (\<exists>f. fs_files s dst = Some f \<and> r = Inr () \<and>
    t = s\<lparr>fs_files := (fs_files s)(dst @ ''.old'' := Some f, dst := None), fs_hist := fs_hist s @ [fs_files s]\<rparr>)"
  using assms by (auto simp: set_aside_def os_Rename_def io_bind_def sys_def split: option.splits if_splits)

lemma updates_set_aside:
  assumes "fs_files s new = Some g" "P g" "new \<noteq> dst" "new \<noteq> dst @ ''.old''"
  shows "updates True P dst (io_bind (set_aside env dst) (\<lambda>_. os_Rename env new dst)) s"
proof -
  obtain r t where sa: "set_aside env dst s = (r, t)" by fastforce
  from set_aside_cases [OF sa] show ?thesis
  proof (elim disjE exE conjE)
    assume "t = s"
    then show ?thesis using sa updates_Rename [where new = new and s = s and g = g and P = P and w = True and env = env and dst = dst] assms(1-3)
      by (cases r) (auto simp: updates_def io_bind_def updated_error)
  next
    fix f assume f: "fs_files s dst = Some f" "r = Inr ()"
      "t = s\<lparr>fs_files := (fs_files s)(dst @ ''.old'' := Some f, dst := None), fs_hist := fs_hist s @ [fs_files s]\<rparr>"
    have t: "fs_files t new = Some g" using f assms by simp
    have st: "swap True P dst s t"
      unfolding swap_def at_dst_def by (rule exI [of _ "[fs_files s]"]) (use f in simp)
    have rest: "updates True P dst (os_Rename env new dst) t" by (rule updates_Rename) (rule t assms(2,3))+
    have "updated True P dst s r2 u" if "os_Rename env new dst t = (r2, u)" for r2 u
    proof -
      from rest that have u: "updated True P dst t r2 u" by (simp add: updates_def)
      have "r2 = Inl e \<Longrightarrow> u = t" for e
        using that t by (auto simp: os_Rename_def io_bind_def sys_def split: option.splits)
      then show ?thesis using u st f swap_trans [OF st] by (cases r2) (auto simp: updated_def not_updated_def)
    qed
    then show ?thesis using sa f(2) by (auto simp: updates_def io_bind_def)
  qed
qed

lemma sys_state: "sys env op path s = (r, t) \<Longrightarrow> t = s"
  by (simp add: sys_def)

lemma updates_sys: "(\<And>u. updates w P dst (f u) s) \<Longrightarrow> updates w P dst (io_bind (sys env op path) f) s"
  by (rule updates_bind) (auto dest: sys_state)

lemma read_file_Inr:
  "read_file env path s = (r, t) \<Longrightarrow> t = s \<and> (\<forall>x. r = Inr x \<longrightarrow> x = (case fs_files s path of None \<Rightarrow> [] | Some f \<Rightarrow> fi_data f))"
  by (auto simp: read_file_def io_bind_def sys_def split: prod.splits sum.splits option.splits)

lemma updates_read:
  assumes "fs_files s path = Some f" "updates w P dst (g (fi_data f)) s"
  shows "updates w P dst (io_bind (read_file env path) g) s"
proof (rule updates_bind)
  fix r t assume "read_file env path s = (r, t)"
  then show "frame (beside dst) s t" using read_file_Inr by blast
next
  fix x t assume "read_file env path s = (Inr x, t)"
  from read_file_Inr [OF this] assms show "updates w P dst (g x) t" by simp
qed

text \<open>The new content is put beside the destination and moved over it in one step, on Windows in two.\<close>

lemma updates_replaceFile:
  assumes os: "os_ok env dst" and w: "w = (ue_GOOS env = ''windows'')"
    and src: "src \<noteq> dst @ ''.new''" "fs_files s src = Some f"
    and P: "\<And>g. fi_data g = fi_data f \<Longrightarrow> P g"
  shows "updates w P dst (replaceFile env src dst) s"
  unfolding replaceFile_def Let_def
proof (rule updates_sys, rule updates_bind, goal_cases)
  case (1 u r t)
  then show ?case
    using touches_Create(1) [of "dst @ ''.new''" "beside dst" env] by (auto simp: touches_def)
next
  case (2 u v t)
  then have t: "fs_files t src = Some f" "\<exists>g. fs_files t (dst @ ''.new'') = Some g \<and> fi_data g = []"
    using src by (auto simp: os_Create_def io_bind_def sys_def fs_put_def split: option.splits)
  show ?case
  proof (rule updates_read [OF t(1)], rule updates_bind, goal_cases)
    case (1 r u)
    then show ?case
      using touches_Copy [of "dst @ ''.new''" "beside dst" env "fi_data f" None] by (auto simp: touches_def)
  next
    case (2 x u)
    then obtain g where g: "fs_files u (dst @ ''.new'') = Some g" "fi_data g = fi_data f"
      using t os by (auto simp: io_Copy_def os_ok_def fs_put_def split: prod.splits option.splits if_splits)
    show ?case
    proof (rule updates_sys, rule updates_sys, rule updates_bind, goal_cases)
      case (1 v wa r z)
      have "frame (beside dst) u (fs_put (dst @ ''.new'') h u)" for h by (rule frame_put) simp
      with 1 show ?case by (auto split: option.splits)
    next
      case (2 v wa x z)
      then obtain h where h: "fs_files z (dst @ ''.new'') = Some h" "P h"
        using g P by (auto simp: fs_put_def split: option.splits)
      show ?case
      proof (cases w)
        case True
        then show ?thesis using updates_set_aside [of z "dst @ ''.new''" h P dst env] h w
          by (simp add: set_aside_def [abs_def])
      next
        case False
        then show ?thesis using updates_Rename [of z "dst @ ''.new''" h P dst w env] h w
          by (simp add: io_bind_def [of "io_ret _"] updates_def)
      qed
    qed
  qed
qed

lemma updates_fail: "updates w P dst (io_fail e) s"
  by (simp add: updates_def updated_error)

section \<open>The whole update\<close>

text \<open>
  What may come to the destination of a download that is not an archive: the body of the answer,
  if the checksum in the body of the other answer is the one of these bytes.
\<close>

definition verified :: "upd_env \<Rightarrow> string \<Rightarrow> string \<Rightarrow> bytes \<Rightarrow> bool" where
  "verified env url sumURL data \<longleftrightarrow>
     (\<exists>sums. ue_Get env url = Inr (200, data, None) \<and> ue_Get env sumURL = Inr (200, sums, None) \<and>
        verifyRulesFileSHA256Sum env data sums (path_Base url) = Inr ())"

lemma scan_file_state: "scan_file env path s = (r, t) \<Longrightarrow> t = s"
  by (simp add: scan_file_def)

lemma scan_file_Inr:
  "scan_file env path s = (Inr x, t) \<Longrightarrow> fs_files s path = Some f \<Longrightarrow> x = [] \<or> x = fi_data f"
  by (auto simp: scan_file_def read_file_def io_bind_def sys_def split: prod.splits sum.splits option.splits)

lemma verify_empty: "verifyRulesFileSHA256Sum env data [] filename \<noteq> Inr ()"
  by (simp add: verifyRulesFileSHA256Sum_def scan_lines_def bytes_str_def)

definition update_last :: "upd_env \<Rightarrow> string \<Rightarrow> string \<Rightarrow> string \<Rightarrow> (fsys, unit) io" where
  "update_last env file filePath filename =
     (if HasSuffix filename ''.tar.gz'' then
       io_bind (extractHgBinaryTarGz env file) (\<lambda>binary.
       io_bind (sys env ''open'' binary) (\<lambda>_. deferred (os_Remove binary) (replaceFile env binary filePath)))
     else replaceFile env file filePath)"

text \<open>Everything before the last step is the same for the database and for the program.\<close>

lemma updates_updateFile_last:
  assumes os: "os_ok env dst"
    and last: "\<And>fl f u base files. fl \<notin> dst_paths dst \<Longrightarrow> ue_TempName env base files = Inr fl \<Longrightarrow>
      (\<And>p. \<forall>base files. ue_TempName env base files \<noteq> Inr p \<Longrightarrow> fs_files u p = fs_files s p) \<Longrightarrow>
      fs_files u fl = Some f \<Longrightarrow> verified env url sumURL (fi_data f) \<Longrightarrow> updates w P dst (update_last env fl dst (path_Base url)) u"
  shows "updates w P dst (updateFile env dst url sumURL) s"
  unfolding updateFile_def Let_def update_last_def [symmetric]
proof (rule updates_bind, goal_cases)
  case (1 r t)
  then show ?case by (rule downloadFile_frame [OF os(1)])
next
  case (2 fl t)
  from downloadFile_Inr [OF os(1) 2] obtain f where f: "fl \<notin> dst_paths dst"
    "\<And>p. p \<noteq> fl \<Longrightarrow> fs_files t p = fs_files s p"
    "ue_Get env url = Inr (200, fi_data f, None)" "fs_files t fl = Some f" by blast
  from downloadFile_name [OF 2] obtain files where name: "ue_TempName env (path_Base url) files = Inr fl" ..
  show ?case
  proof (rule updates_deferred [OF _ f(1)], rule updates_bind, goal_cases)
    case (1 r u)
    then show ?case by (rule downloadFile_frame [OF os(1)])
  next
    case (2 sumFile u)
    from downloadFile_Inr [OF os(1) 2] obtain sf' where sf: "sumFile \<notin> dst_paths dst" "fs_files t sumFile = None"
      "\<forall>p. p \<noteq> sumFile \<longrightarrow> fs_files u p = fs_files t p"
      "ue_Get env sumURL = Inr (200, fi_data sf', None)" "fs_files u sumFile = Some sf'" by blast
    with f(4) have fu: "fs_files u fl = Some f" by (cases "fl = sumFile") simp_all
    from downloadFile_name [OF 2] obtain files2 where name2: "ue_TempName env (path_Base sumURL) files2 = Inr sumFile" ..
    have rest: "fs_files u p = fs_files s p" if "\<forall>base files. ue_TempName env base files \<noteq> Inr p" for p
      using that name name2 f(2) sf(3) by metis
    show ?case
    proof (rule updates_deferred [OF _ sf(1)], rule updates_sys, rule updates_sys, rule updates_read [OF fu],
        rule updates_bind, goal_cases)
      case (1 a b r v)
      then show ?case by (auto dest: scan_file_state)
    next
      case (2 a b sums v)
      then have v: "v = u" "sums = [] \<or> sums = fi_data sf'" using scan_file_state scan_file_Inr [OF _ sf(5)] by blast+
      show ?case
      proof (rule updates_bind, goal_cases)
        case (1 r x)
        then show ?case by simp
      next
        case (2 x z)
        then have z: "z = u" "verifyRulesFileSHA256Sum env (fi_data f) sums (path_Base url) = Inr ()" using v by simp_all
        then have "sums = fi_data sf'" using v(2) verify_empty by metis
        then have "updates w P dst (update_last env fl dst (path_Base url)) u"
          by (intro last [OF f(1) name rest fu]) (use f(3) z(2) sf(4) in \<open>auto simp: verified_def\<close>)
        then show ?case using z(1) by (auto intro: updates_sys)
      qed
    qed
  qed
qed

lemma updates_updateFile:
  assumes os: "os_ok env dst" "w = (ue_GOOS env = ''windows'')" and plain: "\<not> HasSuffix (path_Base url) ''.tar.gz''"
    and P: "\<And>g. verified env url sumURL (fi_data g) \<Longrightarrow> P g"
  shows "updates w P dst (updateFile env dst url sumURL) s"
  by (rule updates_updateFile_last [OF os(1)])
     (use plain in \<open>auto simp: update_last_def dst_paths_def intro!: updates_replaceFile [OF os] P\<close>)

text \<open>
  Unpacking: the places of the entries that have the name of the program, and the content of a place
  after all entries. A file that is there already is written over without being truncated.
\<close>

definition program_paths :: "string \<Rightarrow> tar_entry list \<Rightarrow> string list" where
  "program_paths dir entries =
     filter (\<lambda>p. Contains p AppName) (map (\<lambda>h. filepath_Join dir (th_Name h)) (filter th_regular entries))"

definition written_over :: "bytes \<Rightarrow> bytes \<Rightarrow> bytes" where
  "written_over old new = new @ drop (length new) old"

fun unpacked_data :: "string \<Rightarrow> string \<Rightarrow> tar_entry list \<Rightarrow> bytes \<Rightarrow> bytes" where
  "unpacked_data dir target [] old = old"
| "unpacked_data dir target (h # hs) old =
     unpacked_data dir target hs
       (if th_regular h \<and> filepath_Join dir (th_Name h) = target then written_over old (th_data h) else old)"

definition data_at :: "(string \<rightharpoonup> osfile) \<Rightarrow> string \<Rightarrow> bytes" where
  "data_at fs p = (case fs p of None \<Rightarrow> [] | Some f \<Rightarrow> fi_data f)"

text \<open>
  What may come to the place of the program, when the files were \<open>fs\<close> before the update: what unpacking
  a verified archive puts at the place of its last entry with the program's name. It is that
  entry alone if nothing was there before and no other entry has the same place; otherwise see
  \<open>extract_keeps_tail\<close> below.
\<close>

definition released :: "upd_env \<Rightarrow> string \<Rightarrow> string \<Rightarrow> (string \<rightharpoonup> osfile) \<Rightarrow> bytes \<Rightarrow> bool" where
  "released env url sumURL fs data \<longleftrightarrow>
     (\<exists>archive entries dir. verified env url sumURL archive \<and> ue_untar env archive = Inr (entries, None) \<and>
        program_paths dir entries \<noteq> [] \<and>
        (let target = last (program_paths dir entries) in data = unpacked_data dir target entries (data_at fs target)))"

lemma unpacked_data_alone:
  assumes "h \<in> set entries" "th_regular h" "filepath_Join dir (th_Name h) = target"
    "\<And>x. x \<in> set entries \<Longrightarrow> th_regular x \<Longrightarrow> filepath_Join dir (th_Name x) = target \<Longrightarrow> th_data x = th_data h"
  shows "unpacked_data dir target entries [] = th_data h"
proof -
  have "unpacked_data dir target es old = (if \<exists>x \<in> set es. th_regular x \<and> filepath_Join dir (th_Name x) = target then th_data h else old)"
    if "set es \<subseteq> set entries" "old = [] \<or> old = th_data h" for es old
    using that by (induction es arbitrary: old) (auto simp: written_over_def assms(4))
  from this [of entries "[]"] assms(1-3) show ?thesis by auto
qed

text \<open>No entry of an archive is unpacked over the program, a file beside it or a temporary file.\<close>

definition archive_ok :: "upd_env \<Rightarrow> string \<Rightarrow> bool" where
  "archive_ok env dst \<longleftrightarrow> (\<forall>data entries end h base files name. ue_untar env data = Inr (entries, end) \<longrightarrow> h \<in> set entries \<longrightarrow>
     ue_TempName env base files = Inr name \<longrightarrow>
     filepath_Join (filepath_Dir name) (th_Name h) \<notin> dst_paths dst \<and>
     (\<forall>base files. ue_TempName env base files \<noteq> Inr (filepath_Join (filepath_Dir name) (th_Name h))))"

lemma extract_write:
  assumes "os_ok env dst" "io_bind (os_OpenFile env target mode) (\<lambda>_. io_Copy env target data err) s = (Inr (), t)"
  shows "\<forall>p. p \<noteq> target \<longrightarrow> fs_files t p = fs_files s p"
    "\<exists>f. fs_files t target = Some f \<and> fi_data f = written_over (data_at (fs_files s) target) data"
  using assms
  by (auto simp: io_bind_eq_Inr os_OpenFile_def io_Copy_def fs_put_def sys_def os_ok_def written_over_def data_at_def
      split: prod.splits option.splits if_splits)

text \<open>The path that is returned, and what is at every path then.\<close>

lemma extract_unpacked:
  assumes "os_ok env dst"
  shows "extract_entries env dir found hs end s = (Inr b, t) \<Longrightarrow>
    end = None \<and> b \<noteq> [] \<and> b = (if program_paths dir hs = [] then found else last (program_paths dir hs)) \<and>
    (program_paths dir hs \<noteq> [] \<longrightarrow> fs_files t b \<noteq> None) \<and>
    (\<forall>p. fs_files s p \<noteq> None \<longrightarrow> fs_files t p \<noteq> None) \<and>
    (\<forall>p. data_at (fs_files t) p = unpacked_data dir p hs (data_at (fs_files s) p))"
proof (induction hs arbitrary: found s)
  case Nil
  then show ?case by (cases "end") (auto simp: program_paths_def split: if_splits)
next
  case (Cons h hs)
  show ?case
  proof (cases "th_regular h")
    case False
    with Cons.prems Cons.IH [of found s] show ?thesis by (cases "end") (auto simp: program_paths_def)
  next
    case True
    let ?target = "filepath_Join dir (th_Name h)"
    let ?found = "if Contains ?target AppName then ?target else found"
    from Cons.prems True obtain u where
      u: "io_bind (os_OpenFile env ?target (th_Mode h)) (\<lambda>_. io_Copy env ?target (th_data h) (th_err h)) s = (Inr (), u)"
      "extract_entries env dir ?found hs end u = (Inr b, t)"
      by (cases "end") (auto simp: Let_def io_bind_eq_Inr)
    note w = extract_write [OF assms u(1)] and ih = Cons.IH [OF u(2)]
    have "data_at (fs_files u) p = (if p = ?target then written_over (data_at (fs_files s) p) (th_data h) else data_at (fs_files s) p)" for p
      using w by (auto simp: data_at_def)
    moreover have "fs_files s p \<noteq> None \<Longrightarrow> fs_files u p \<noteq> None" for p using w by (cases "p = ?target") auto
    moreover have "program_paths dir (h # hs) = (if Contains ?target AppName then [?target] else []) @ program_paths dir hs"
      using True by (simp add: program_paths_def)
    moreover have "fs_files t ?target \<noteq> None" using ih w(2) by auto
    ultimately show ?thesis using ih True by (auto split: if_splits)
  qed
qed

lemma updates_extract:
  assumes "os_ok env dst" "archive_ok env dst" "ue_TempName env base files = Inr fl" "fs_files s fl = Some f"
    and "\<And>b t entries. extract_entries env (filepath_Dir fl) [] entries None s = (Inr b, t) \<Longrightarrow> ue_untar env (fi_data f) = Inr (entries, None) \<Longrightarrow>
      updates w P dst (g b) t"
  shows "updates w P dst (io_bind (extractHgBinaryTarGz env fl) g) s"
proof -
  have "frame (beside dst) s t" if "extractHgBinaryTarGz env fl s = (r, t)" for r t
  proof -
    have "touches (beside dst) (extract_entries env (filepath_Dir fl) [] entries end)"
      if "ue_untar env (fi_data f) = Inr (entries, end)" for entries "end"
      using assms(2,3) that unfolding archive_ok_def dst_paths_def by (intro touches_extract) blast
    then have "touches (beside dst) (io_bind (io_lift (ue_untar env (fi_data f))) (\<lambda>(entries, end). extract_entries env (filepath_Dir fl) [] entries end))"
      by (cases "ue_untar env (fi_data f)") (auto simp: touches_def io_bind_def)
    then show ?thesis using that assms(4) unfolding extractHgBinaryTarGz_def
      by (cases "ue_fault env ''read'' fl") (auto simp: io_bind_def [of "read_file env fl"] read_file_def sys_def io_bind_def touches_def split: sum.splits prod.splits)
  qed
  moreover have "updates w P dst (g b) t" if "extractHgBinaryTarGz env fl s = (Inr b, t)" for b t
  proof -
    from that assms(4) obtain entries e where x: "ue_untar env (fi_data f) = Inr (entries, e)"
      "extract_entries env (filepath_Dir fl) [] entries e s = (Inr b, t)"
      by (auto simp: extractHgBinaryTarGz_def io_bind_eq_Inr read_file_def sys_def split: option.splits)
    with extract_unpacked [OF assms(1) x(2)] show ?thesis using assms(5) by blast
  qed
  ultimately show ?thesis by (rule updates_bind)
qed

lemma program_paths_entry:
  "p \<in> set (program_paths dir entries) \<Longrightarrow> \<exists>h \<in> set entries. p = filepath_Join dir (th_Name h)"
  by (auto simp: program_paths_def)

lemma updates_updateFile_archive:
  assumes os: "os_ok env dst" "w = (ue_GOOS env = ''windows'')" "archive_ok env dst" and tar: "HasSuffix (path_Base url) ''.tar.gz''"
  shows "updates w (\<lambda>g. released env url sumURL (fs_files s) (fi_data g)) dst (updateFile env dst url sumURL) s"
proof (rule updates_updateFile_last [OF os(1)], goal_cases)
  case (1 fl f u base files)
  show ?case unfolding update_last_def if_P [OF tar]
  proof (rule updates_extract [OF os(1,3) 1(2,4)], rule updates_sys, goal_cases)
    case (1 b t entries wa)
    let ?dir = "filepath_Dir fl"
    note x = extract_unpacked [OF os(1) 1(1)]
    then have ne: "program_paths ?dir entries \<noteq> []" and b: "b = last (program_paths ?dir entries)" by (auto split: if_splits)
    with x obtain g where g: "fs_files t b = Some g" by blast
    from ne b obtain h where h: "h \<in> set entries" "b = filepath_Join ?dir (th_Name h)"
      using program_paths_entry last_in_set by metis
    with os(3) 1(2) \<open>ue_TempName env base files = Inr fl\<close> have nb: "b \<notin> dst_paths dst" "\<forall>base files. ue_TempName env base files \<noteq> Inr b"
      unfolding archive_ok_def by blast+
    from nb(2) have "fs_files u b = fs_files s b" by (rule \<open>\<And>p. \<forall>base files. ue_TempName env base files \<noteq> Inr p \<Longrightarrow> fs_files u p = fs_files s p\<close>)
    then have "fi_data g = unpacked_data ?dir b entries (data_at (fs_files s) b)"
      using x g by (metis data_at_def option.simps(5))
    then have "released env url sumURL (fs_files s) (fi_data g)"
      using \<open>verified env url sumURL (fi_data f)\<close> 1(2) ne b unfolding released_def Let_def by blast
    then show ?case
      by (intro updates_deferred [OF _ nb(1)] updates_replaceFile [OF os(1,2) _ g])
         (use nb(1) in \<open>auto simp: dst_paths_def\<close>)
  qed
qed

section \<open>Properties\<close>

text \<open>
  C18. An update of the rule database is safe at every moment: whatever fails and wherever the program
  is stopped, the destination is the file it was or a file whose bytes are the downloaded ones and
  have the SHA-256 that the list of checksums gives for its name; it is the new one when the
  update reports success and the old one when it reports an error. On Windows, where the file
  is moved away before the new one is moved to its place, there may be no file between the two
  moves, or after an error of the second: then the one it was is beside it as \<open>.old\<close>.
\<close>

theorem update_file_safe:
  assumes "os_ok env dst" "\<not> HasSuffix (path_Base url) ''.tar.gz''"
    and "updateFile env dst url sumURL s = (r, t)"
  shows "(\<exists>h. fs_hist t = fs_hist s @ h \<and> (\<forall>fs \<in> set h \<union> {fs_files t}.
      fs dst = fs_files s dst \<or> (\<exists>f. fs dst = Some f \<and> verified env url sumURL (fi_data f)) \<or>
      (ue_GOOS env = ''windows'' \<and> fs dst = None \<and>
         (\<exists>f. fs (dst @ ''.old'') = Some f \<and> (fs_files s dst = Some f \<or> verified env url sumURL (fi_data f)))))) \<and>
    (case r of Inr _ \<Rightarrow> \<exists>f. fs_files t dst = Some f \<and> verified env url sumURL (fi_data f)
     | Inl _ \<Rightarrow> fs_files t dst = fs_files s dst \<or>
         (ue_GOOS env = ''windows'' \<and> fs_files t dst = None \<and> fs_files s dst \<noteq> None \<and> fs_files t (dst @ ''.old'') = fs_files s dst))"
proof -
  have "updates (ue_GOOS env = ''windows'') (\<lambda>f. verified env url sumURL (fi_data f)) dst (updateFile env dst url sumURL) s"
    by (rule updates_updateFile [OF assms(1) refl assms(2)])
  then have u: "updated (ue_GOOS env = ''windows'') (\<lambda>f. verified env url sumURL (fi_data f)) dst s r t"
    using assms(3) by (simp add: updates_def)
  then obtain h where "fs_hist t = fs_hist s @ h"
    "\<forall>fs \<in> set h \<union> {fs_files t}. at_dst (ue_GOOS env = ''windows'') (\<lambda>f. verified env url sumURL (fi_data f)) dst s fs"
    unfolding updated_def swap_def by blast
  then show ?thesis using u
    by (intro conjI exI [of _ h]) (auto simp: at_dst_def updated_def not_updated_def split: sum.splits)
qed

text \<open>A system on which every call succeeds, and an update of one byte on it.\<close>

definition sample_upd :: upd_env where
  "sample_upd = \<lparr>ue_TempName = (\<lambda>base files. if files (''/t/'' @ base) = None then Inr (''/t/'' @ base) else Inl (ErrNew ''exists'')),
     ue_Get = (\<lambda>url. Inr (200, if url = ''h/db'' then [7] else str_bytes ''01 db'', None)), ue_SHA256 = (\<lambda>bs. [1]),
     ue_untar = (\<lambda>bs. Inr ([], None)), ue_fault = (\<lambda>op path. None), ue_write = (\<lambda>path data. (length data, None)),
     ue_now = 9, ue_GOOS = ''linux'', ue_GOARCH = ''amd64''\<rparr>"

definition sample_fs :: fsys where
  "sample_fs = \<lparr>fs_files = [''/d'' \<mapsto> \<lparr>fi_data = [1, 2, 3], fi_mode = 420, fi_mtime = 0\<rparr>], fs_hist = []\<rparr>"

lemma sample_base: "path_Base ''h/db'' = ''db''" "path_Base ''h/s'' = ''s''" "\<not> HasSuffix ''db'' ''.tar.gz''"
  by code_simp+

lemma sample_sum: "verifyRulesFileSHA256Sum sample_upd [7] (str_bytes ''01 db'') ''db'' = Inr ()"
proof -
  have "scan_lines ''01 db'' = [''01 db'']" by (simp add: scan_lines_def drop_cr_def)
  moreover have "sum_line ''db'' ''01 db'' = Some ''01''" by (simp add: sum_line_def is_space_def)
  moreover have "bytes_str (hex_Encode [1]) = ''01''" by code_simp
  ultimately show ?thesis by (simp add: verifyRulesFileSHA256Sum_def sample_upd_def)
qed

lemma sample_os: "os_ok sample_upd ''/d''"
  by (auto simp: os_ok_def sample_upd_def dst_paths_def split: if_splits)

lemma sample_upd_simps:
  "ue_TempName sample_upd base files = (if files (''/t/'' @ base) = None then Inr (''/t/'' @ base) else Inl (ErrNew ''exists''))"
  "ue_Get sample_upd url = Inr (200, if url = ''h/db'' then [7] else str_bytes ''01 db'', None)"
  "ue_fault sample_upd op path = None" "ue_write sample_upd path data = (length data, None)" "ue_GOOS sample_upd = ''linux''"
  by (simp_all add: sample_upd_def)

lemma sample_update: "fst (updateFile sample_upd ''/d'' ''h/db'' ''h/s'' sample_fs) = Inr ()"
  by (simp add: updateFile_def downloadFile_def io_bind_def os_CreateTemp_def on_error_def deferred_def io_Copy_def sys_def
      read_file_def scan_file_def Let_def sample_base fs_put_def os_Remove_def replaceFile_def os_Create_def os_Rename_def
      sample_fs_def sample_sum sample_upd_simps)

theorem update_file_safe_witness:
  "\<exists>t f. updateFile sample_upd ''/d'' ''h/db'' ''h/s'' sample_fs = (Inr (), t) \<and>
     fs_files t ''/d'' = Some f \<and> verified sample_upd ''h/db'' ''h/s'' (fi_data f)"
proof -
  obtain t where t: "updateFile sample_upd ''/d'' ''h/db'' ''h/s'' sample_fs = (Inr (), t)"
    using sample_update by (metis prod.collapse)
  have "\<not> HasSuffix (path_Base ''h/db'') ''.tar.gz''" by (simp only: sample_base) simp
  with update_file_safe [OF sample_os _ t] t show ?thesis by auto
qed

text \<open>
  Unpacking over an existing file keeps its tail: the file is opened without truncation, so the
  binary that is put in place of the program is the new one followed by the rest of a longer file
  of the same name, which an update that was interrupted leaves in the directory for temporary
  files. The checksum was of the archive and does not see it.
\<close>

theorem extract_keeps_tail:
  assumes "\<And>op path. ue_fault env op path = None" "\<And>path data. ue_write env path data = (length data, None)"
    and "th_regular h" "th_err h = None" "Contains (filepath_Join dir (th_Name h)) AppName"
    and "fs_files s (filepath_Join dir (th_Name h)) = Some old" "length (th_data h) < length (fi_data old)"
  shows "\<exists>t f. extract_entries env dir [] [h] None s = (Inr (filepath_Join dir (th_Name h)), t) \<and>
    fs_files t (filepath_Join dir (th_Name h)) = Some f \<and>
    fi_data f = th_data h @ drop (length (th_data h)) (fi_data old) \<and> fi_data f \<noteq> th_data h"
  using assms
  by (auto simp: Let_def io_bind_def os_OpenFile_def sys_def io_Copy_def fs_put_def AppName_def)

definition sample_entry :: tar_entry where
  "sample_entry = \<lparr>th_Name = ''heteroglossia'', th_regular = True, th_Mode = 493, th_data = [7], th_err = None\<rparr>"

lemma sample_target: "filepath_Join ''/t'' ''heteroglossia'' = ''/t/heteroglossia''" "Contains ''/t/heteroglossia'' AppName"
  by code_simp+

theorem extract_keeps_tail_witness:
  "\<exists>t f. extract_entries sample_upd ''/t'' [] [sample_entry] None
      (sample_fs\<lparr>fs_files := [''/t/heteroglossia'' \<mapsto> \<lparr>fi_data = [1, 2, 3], fi_mode = 493, fi_mtime = 0\<rparr>]\<rparr>) =
        (Inr ''/t/heteroglossia'', t) \<and> fs_files t ''/t/heteroglossia'' = Some f \<and> fi_data f = [7, 2, 3]"
proof -
  let ?old = "\<lparr>fi_data = [1, 2, 3], fi_mode = 493, fi_mtime = 0\<rparr>"
  let ?s = "sample_fs\<lparr>fs_files := [''/t/heteroglossia'' \<mapsto> ?old]\<rparr>"
  have e: "th_regular sample_entry" "th_err sample_entry = None" "filepath_Join ''/t'' (th_Name sample_entry) = ''/t/heteroglossia''"
    "th_data sample_entry = [7]" by (simp_all add: sample_entry_def sample_target)
  have "fs_files ?s (filepath_Join ''/t'' (th_Name sample_entry)) = Some ?old" by (simp add: e)
  moreover have "Contains (filepath_Join ''/t'' (th_Name sample_entry)) AppName" unfolding e by (rule sample_target)
  ultimately show ?thesis
    using extract_keeps_tail [OF sample_upd_simps(3,4) e(1,2), of "''/t''" ?s ?old] by (simp add: e del: extract_entries.simps) blast
qed

end
