(* ===== verification/SystemProxy.thy ===== *)
theory SystemProxy
  imports GoHttp SocksServer
begin

text \<open>
  The system proxy, \<open>util/proxy\<close> and \<open>util/cmd\<close>: the commands that set and unset it on Linux and
  macOS, and the order in which they run. What a command does is outside the program: \<open>exec\<close> gives
  its output and error, depending on the commands that ran before it, and the state of the model
  is the list of those commands.
\<close>

section \<open>Running commands\<close>

text \<open>A command: its program, its arguments and its standard input.\<close>

record command =
  cm_name :: string
  cm_args :: "string list"
  cm_input :: string

type_synonym exec = "command list \<Rightarrow> command \<Rightarrow> string \<times> string \<times> goerr option"

definition run_command :: "exec \<Rightarrow> command \<Rightarrow> command list \<Rightarrow> (string \<times> string \<times> goerr option) \<times> command list" where
  "run_command exec cmd h = (exec h cmd, h @ [cmd])"

definition cmd_Run :: "exec \<Rightarrow> string \<Rightarrow> string list \<Rightarrow> (command list, string) io" where
  "cmd_Run exec name args h =
     (case run_command exec \<lparr>cm_name = name, cm_args = args, cm_input = []\<rparr> h of
        ((stdout, stderr, Some err), h') \<Rightarrow> (Inl (ErrWrap ''running the command'' err), h')
      | ((stdout, stderr, None), h') \<Rightarrow>
          if 0 < length stderr then (Inl (ErrNew ''standard error when running the command''), h')
          else (Inr stdout, h'))"

definition RunWithStdoutErrResults :: "exec \<Rightarrow> string \<Rightarrow> string list \<Rightarrow> (command list, string \<times> string) io" where
  "RunWithStdoutErrResults exec name args h =
     (case run_command exec \<lparr>cm_name = name, cm_args = args, cm_input = []\<rparr> h of
        ((stdout, stderr, Some err), h') \<Rightarrow> (Inl (ErrWrap ''error when running command'' err), h')
      | ((stdout, stderr, None), h') \<Rightarrow> (Inr (stdout, stderr), h'))"

definition RunWithInput :: "exec \<Rightarrow> string \<Rightarrow> string \<Rightarrow> (command list, string) io" where
  "RunWithInput exec name input h =
     (case run_command exec \<lparr>cm_name = name, cm_args = [], cm_input = input\<rparr> h of
        ((stdout, stderr, Some err), h') \<Rightarrow> (Inl (ErrWrap ''error when running command'' err), h')
      | ((stdout, stderr, None), h') \<Rightarrow>
          if 0 < length stderr then (Inl (ErrNew ''error when running command''), h')
          else (Inr stdout, h'))"

section \<open>Command lines\<close>

text \<open>
  The raw string literals, whose lines end in \<open>&&\<close> and lose their line breaks, are the commands of
  a list with \<open>&&\<close> between them; \<open>quoted\<close> puts a value between the single quotes of the literal.
\<close>

fun sh_and :: "string list \<Rightarrow> string" where
  "sh_and [] = []"
| "sh_and [c] = c"
| "sh_and (c # cs) = c @ '' && '' @ sh_and cs"

definition quoted :: "string \<Rightarrow> string" where
  "quoted s = [CHR 0x27] @ s @ [CHR 0x27]"

definition bin_sh :: "string \<Rightarrow> string list" where
  "bin_sh line = [''-c'', line]"

text \<open>\<open>url.QueryEscape\<close>.\<close>

definition unreserved :: "char \<Rightarrow> bool" where
  "unreserved c \<longleftrightarrow> is_lower c \<or> is_upper c \<or> is_digit c \<or> c \<in> set ''-_.~''"

definition upper_hex :: "nat \<Rightarrow> char" where
  "upper_hex n = ''0123456789ABCDEF'' ! n"

definition QueryEscape :: "string \<Rightarrow> string" where
  "QueryEscape s = concat (map (\<lambda>c.
     if unreserved c then [c]
     else if c = CHR '' '' then ''+''
     else [CHR ''%'', upper_hex (of_char c div 16), upper_hex (of_char c mod 16)]) s)"

section \<open>Linux\<close>

text \<open>The settings of GNOME: schema, key and value, and those of KDE: key and value.\<close>

definition gsettings :: "string \<times> string \<times> string \<Rightarrow> string" where
  "gsettings x = (case x of (schema, key, v) \<Rightarrow> ''gsettings set '' @ schema @ '' '' @ key @ '' '' @ v)"

definition kwriteconfig :: "string \<times> string \<Rightarrow> string" where
  "kwriteconfig x = (case x of (key, v) \<Rightarrow>
     ''kwriteconfig6 --file kioslaverc --group '' @ quoted ''Proxy Settings'' @ '' --key '' @ key @ '' '' @ v)"

definition gnome_set :: "string \<Rightarrow> u16 \<Rightarrow> HTTPSOCKSAuthInfo \<Rightarrow> (string \<times> string \<times> string) list" where
  "gnome_set host port a =
     [(''org.gnome.system.proxy'', ''mode'', quoted ''manual''),
      (''org.gnome.system.proxy.http'', ''host'', quoted host),
      (''org.gnome.system.proxy.http'', ''port'', ToA port),
      (''org.gnome.system.proxy.http'', ''authentication-password'', quoted (Username a)),
      (''org.gnome.system.proxy.http'', ''authentication-user'', quoted (Password a)),
      (''org.gnome.system.proxy.http'', ''use-authentication'', if auth_IsEmpty (Some a) then ''false'' else ''true''),
      (''org.gnome.system.proxy.https'', ''host'', quoted host),
      (''org.gnome.system.proxy.https'', ''port'', ToA port),
      (''org.gnome.system.proxy.socks'', ''host'', quoted host),
      (''org.gnome.system.proxy.socks'', ''port'', ToA port)]"

definition gnome_unset :: "(string \<times> string \<times> string) list" where
  "gnome_unset =
     [(''org.gnome.system.proxy'', ''mode'', quoted ''none''),
      (''org.gnome.system.proxy.http'', ''host'', quoted ''8080''),
      (''org.gnome.system.proxy.http'', ''port'', ''0''),
      (''org.gnome.system.proxy.http'', ''authentication-password'', quoted []),
      (''org.gnome.system.proxy.http'', ''authentication-user'', quoted []),
      (''org.gnome.system.proxy.http'', ''use-authentication'', ''false''),
      (''org.gnome.system.proxy.https'', ''host'', quoted []),
      (''org.gnome.system.proxy.https'', ''port'', ''0''),
      (''org.gnome.system.proxy.socks'', ''host'', quoted []),
      (''org.gnome.system.proxy.socks'', ''port'', ''0'')]"

definition kde_set :: "string \<Rightarrow> u16 \<Rightarrow> HTTPSOCKSAuthInfo \<Rightarrow> (string \<times> string) list" where
  "kde_set host0 port a =
     (let host = (if CHR '':'' \<in> set host0 then ''['' @ host0 @ '']'' else host0);
          hostWithPort = (if auth_IsEmpty (Some a) then host @ '':'' @ ToA port
            else QueryEscape (Username a) @ '':'' @ QueryEscape (Password a) @ ''@'' @ host @ '':'' @ ToA port)
      in [(''ProxyType'', ''1''),
          (''httpProxy'', quoted (''http://'' @ hostWithPort)),
          (''httpsProxy'', quoted (''http://'' @ hostWithPort)),
          (''socksProxy'', quoted (''socks://'' @ hostWithPort))])"

definition kde_unset :: "(string \<times> string) list" where
  "kde_unset = [(''ProxyType'', ''0''), (''httpProxy'', quoted []), (''httpsProxy'', quoted []), (''socksProxy'', quoted [])]"

text \<open>
  Both desktops get their commands whatever the other one answers; an error is logged and dropped.
\<close>

definition run_both :: "exec \<Rightarrow> (string \<times> string \<times> string) list \<Rightarrow> (string \<times> string) list \<Rightarrow> command list \<Rightarrow> command list" where
  "run_both exec gnome kde h =
     (case RunWithStdoutErrResults exec ''dbus-run-session'' (''--'' # ''/bin/sh'' # bin_sh (sh_and (map gsettings gnome))) h of
        (r, h1) \<Rightarrow> snd (cmd_Run exec ''/bin/sh'' (bin_sh (sh_and (map kwriteconfig kde))) h1))"

definition SetSystemProxy_linux :: "exec \<Rightarrow> string \<Rightarrow> u16 \<Rightarrow> HTTPSOCKSAuthInfo option \<Rightarrow> (command list, unit) io" where
  "SetSystemProxy_linux exec host port authInfo h =
     (case authInfo of
        None \<Rightarrow> (Inl (Panic ''nil pointer dereference''), h)
      | Some a \<Rightarrow> (Inr (), run_both exec (gnome_set host port a) (kde_set host port a) h))"

definition unsetSystemProxy_linux :: "exec \<Rightarrow> command list \<Rightarrow> command list" where
  "unsetSystemProxy_linux exec h = run_both exec gnome_unset kde_unset h"

section \<open>macOS\<close>

text \<open>
  \<open>FindStringSubmatch\<close> for an expression of the form \<open>key\<close>, white space, a colon, white space and
  the group \<open>(.+)\<close>. White space is taken greedily, and given back as long as nothing is left of
  the line for the group.
\<close>

definition is_space :: "char \<Rightarrow> bool" where
  "is_space c = (c \<in> set [CHR '' '', CHR 0x09, CHR 0x0A, CHR 0x0C, CHR 0x0D])"

fun space_suffixes :: "string \<Rightarrow> string list" where
  "space_suffixes [] = [[]]"
| "space_suffixes (c # s) = (if is_space c then space_suffixes s @ [c # s] else [c # s])"

definition group_at :: "string \<Rightarrow> string option" where
  "group_at s = (case filter (\<lambda>g. g \<noteq> []) (map (takeWhile (\<lambda>c. c \<noteq> CHR 0x0A)) (space_suffixes s)) of
     [] \<Rightarrow> None | g # gs \<Rightarrow> Some g)"

definition match_at :: "string \<Rightarrow> string \<Rightarrow> string option" where
  "match_at key s =
     (if HasPrefix s key
      then (case dropWhile is_space (drop (length key) s) of
          c # rest \<Rightarrow> if c = CHR '':'' then group_at rest else None
        | [] \<Rightarrow> None)
      else None)"

fun FindSubmatch :: "string \<Rightarrow> string \<Rightarrow> string option" where
  "FindSubmatch key [] = None"
| "FindSubmatch key (c # s) = (case match_at key (c # s) of Some g \<Rightarrow> Some g | None \<Rightarrow> FindSubmatch key s)"

definition currentNetworkServiceName :: "exec \<Rightarrow> (command list, string) io" where
  "currentNetworkServiceName exec =
     io_bind (RunWithInput exec ''/usr/sbin/scutil'' (''show State:/Network/Global/IPv4'' @ [CHR 0x0A])) (\<lambda>interfaceOutput.
     case FindSubmatch ''PrimaryService'' interfaceOutput of
       None \<Rightarrow> io_fail (ErrNew ''fail to find the primary service'')
     | Some primaryServiceID \<Rightarrow>
         io_bind (RunWithInput exec ''/usr/sbin/scutil''
           (''show Setup:/Network/Service/'' @ primaryServiceID @ [CHR 0x0A])) (\<lambda>serviceNameOutput.
         case FindSubmatch ''UserDefinedName'' serviceNameOutput of
           None \<Rightarrow> io_fail (ErrNew ''fail to find the service name of the primary service'')
         | Some name \<Rightarrow> io_ret name))"

definition unsetAuthInfo :: "exec \<Rightarrow> string \<Rightarrow> command list \<Rightarrow> command list" where
  "unsetAuthInfo exec proxyHost h =
     snd (cmd_Run exec ''/bin/sh''
       (bin_sh (sh_and (replicate 3 (''security delete-internet-password -s '' @ proxyHost)))) h)"

definition networksetup :: "string \<Rightarrow> string \<Rightarrow> string \<Rightarrow> string" where
  "networksetup option serviceName args = ''networksetup '' @ option @ '' '' @ serviceName @ '' '' @ args"

definition darwin_set_command :: "string \<Rightarrow> string \<Rightarrow> u16 \<Rightarrow> HTTPSOCKSAuthInfo \<Rightarrow> string" where
  "darwin_set_command serviceName host port a =
     (let args = host @ '' '' @ ToA port @
        (if auth_IsEmpty (Some a) then '' off'' else '' on '' @ Username a @ '' '' @ Password a)
      in sh_and (map (\<lambda>opt. networksetup opt serviceName args)
           [''-setwebproxy'', ''-setsecurewebproxy'', ''-setsocksfirewallproxy'']))"

text \<open>The third line of the literal has no space after its \<open>&&\<close>.\<close>

definition darwin_unset_command :: "string \<Rightarrow> string" where
  "darwin_unset_command serviceName =
     sh_and (map (\<lambda>opt. networksetup opt serviceName (quoted [] @ '' '' @ quoted [] @ '' off''))
       [''-setwebproxy'', ''-setsecurewebproxy'', ''-setsocksfirewallproxy'']) @ '' &&'' @
     sh_and (map (\<lambda>opt. networksetup opt serviceName ''off'')
       [''-setwebproxystate'', ''-setsecurewebproxystate'', ''-setsocksfirewallproxystate''])"

definition unsetSystemProxy_darwin :: "exec \<Rightarrow> string \<Rightarrow> string \<Rightarrow> bool \<Rightarrow> command list \<Rightarrow> command list" where
  "unsetSystemProxy_darwin exec serviceName proxyHost hasAuthInfo h =
     (let h1 = snd (cmd_Run exec ''/bin/sh'' (bin_sh (darwin_unset_command serviceName)) h)
      in if hasAuthInfo then unsetAuthInfo exec proxyHost h1 else h1)"

section \<open>Setting the proxy of the system\<close>

text \<open>
  The function \<open>SetSystemProxy\<close> returns to unset the proxy again, as the data it captures, next to
  its error: on macOS both can be there.
\<close>

datatype unset = UnsetLinux | UnsetDarwin string string bool

definition run_unset :: "exec \<Rightarrow> unset \<Rightarrow> command list \<Rightarrow> command list" where
  "run_unset exec u h =
     (case u of
        UnsetLinux \<Rightarrow> unsetSystemProxy_linux exec h
      | UnsetDarwin serviceName host hasAuthInfo \<Rightarrow> unsetSystemProxy_darwin exec serviceName host hasAuthInfo h)"

definition SetSystemProxy_darwin ::
  "exec \<Rightarrow> string \<Rightarrow> u16 \<Rightarrow> HTTPSOCKSAuthInfo option \<Rightarrow> (command list, unset option \<times> goerr option) io" where
  "SetSystemProxy_darwin exec host port authInfo h =
     (case currentNetworkServiceName exec h of
        (Inl err, h1) \<Rightarrow> (Inr (None, Some err), h1)
      | (Inr serviceName, h1) \<Rightarrow>
          (case authInfo of
             None \<Rightarrow> (Inl (Panic ''nil pointer dereference''), h1)
           | Some a \<Rightarrow>
               (let hasAuth = (\<not> auth_IsEmpty authInfo);
                    h2 = (if hasAuth then unsetAuthInfo exec host h1 else h1)
                in case cmd_Run exec ''/bin/sh'' (bin_sh (darwin_set_command serviceName host port a)) h2 of
                     (Inl err, h3) \<Rightarrow> (Inr (Some (UnsetDarwin serviceName host hasAuth), Some err), h3)
                   | (Inr out, h3) \<Rightarrow> (Inr (Some (UnsetDarwin serviceName host hasAuth), None), h3))))"

datatype goos = Linux | Darwin | OtherOS

definition SetSystemProxy ::
  "goos \<Rightarrow> exec \<Rightarrow> string \<Rightarrow> u16 \<Rightarrow> HTTPSOCKSAuthInfo option \<Rightarrow> (command list, unset option \<times> goerr option) io" where
  "SetSystemProxy os exec host port authInfo =
     (case os of
        Linux \<Rightarrow> io_bind (SetSystemProxy_linux exec host port authInfo) (\<lambda>_. io_ret (Some UnsetLinux, None))
      | Darwin \<Rightarrow> SetSystemProxy_darwin exec host port authInfo
      | OtherOS \<Rightarrow> io_ret (None, Some (ErrNew ''the system proxy is not supported in this OS'')))"

section \<open>Lemmas\<close>

text \<open>What is escaped for a URL can stand between single quotes, and before the \<open>@\<close> of the URL.\<close>

lemma upper_hex_unreserved: "n < 16 \<Longrightarrow> unreserved (upper_hex n)"
proof -
  have "\<forall>n \<in> set [0..<16]. unreserved (upper_hex n)" by code_simp
  then show "n < 16 \<Longrightarrow> unreserved (upper_hex n)" by simp
qed

lemma QueryEscape_safe:
  assumes "x \<in> set (QueryEscape s)"
  shows "unreserved x \<or> x = CHR ''+'' \<or> x = CHR ''%''"
proof -
  from assms obtain c where "x = c \<and> unreserved c \<or> x = CHR ''+'' \<or> x = CHR ''%'' \<or>
      x = upper_hex (of_char c div 16) \<or> x = upper_hex (of_char c mod 16)"
    by (auto simp: QueryEscape_def split: if_splits)
  moreover have "(of_char c :: nat) div 16 < 16" by (simp add: less_mult_imp_div_less of_char_less_256)
  ultimately show ?thesis using upper_hex_unreserved by auto
qed

lemma unset_covers_set:
  "map (\<lambda>(schema, key, v). (schema, key)) (gnome_set host port a) = map (\<lambda>(schema, key, v). (schema, key)) gnome_unset"
  "map fst (kde_set host port a) = map fst kde_unset"
  by (simp_all add: gnome_set_def gnome_unset_def kde_set_def kde_unset_def Let_def)

text \<open>The service name is not quoted on macOS: one with a space is the same text as a shorter name and one more argument.\<close>

lemma networksetup_ambiguous: "networksetup opt (name @ '' '' @ rest) args = networksetup opt name (rest @ '' '' @ args)"
  by (simp add: networksetup_def)

text \<open>Reading a value off the output of \<open>scutil\<close>.\<close>

lemma FindSubmatch_skip:
  assumes "\<forall>i < length pre. \<not> HasPrefix (drop i (pre @ s)) key"
  shows "FindSubmatch key (pre @ s) = FindSubmatch key s"
  using assms
proof (induction pre)
  case (Cons c pre)
  have "\<not> HasPrefix (c # pre @ s) key" using Cons.prems by force
  moreover have "\<forall>i < length pre. \<not> HasPrefix (drop i (pre @ s)) key"
    using Cons.prems by (metis Suc_less_eq append_Cons drop_Suc_Cons length_Cons)
  ultimately show ?case using Cons.IH by (simp add: match_at_def)
qed simp

lemma dropWhile_spaces: "list_all is_space sp \<Longrightarrow> dropWhile is_space (sp @ s) = dropWhile is_space s"
  by (induction sp) auto

lemma space_suffixes_spaces:
  "list_all is_space sp \<Longrightarrow> \<exists>xs. space_suffixes (sp @ s) = space_suffixes s @ xs"
proof (induction sp)
  case Nil
  show ?case by simp
next
  case (Cons c sp)
  then obtain xs where "space_suffixes (sp @ s) = space_suffixes s @ xs" "is_space c" by auto
  then show ?case by simp
qed

lemma group_at_line:
  assumes "list_all is_space sp" "g \<noteq> []" "\<not> is_space (hd g)" "CHR 0x0A \<notin> set g"
  shows "group_at (sp @ g @ CHR 0x0A # rest) = Some g"
proof -
  obtain c g' where g: "g = c # g'" using assms(2) by (cases g) auto
  have "takeWhile (\<lambda>x. x \<noteq> CHR 0x0A) (g @ CHR 0x0A # rest) = g"
    using assms(4) by (auto simp: takeWhile_append takeWhile_eq_all_conv)
  moreover have "space_suffixes (g @ CHR 0x0A # rest) = [g @ CHR 0x0A # rest]" using assms(3) by (simp add: g)
  moreover obtain xs where "space_suffixes (sp @ g @ CHR 0x0A # rest) = space_suffixes (g @ CHR 0x0A # rest) @ xs"
    using space_suffixes_spaces [OF assms(1)] by blast
  ultimately show ?thesis using assms(2) by (simp add: group_at_def)
qed

section \<open>Properties\<close>

text \<open>
  On Linux the proxy is always set by two commands, whatever they answer. The one for GNOME stores
  the user's name as the password and the password as the user's name; the one for KDE has them
  in order, and escaped so that they cannot leave the quotes of the command or the user part of the
  URL. Unsetting it later writes exactly the settings that were written here.
\<close>

theorem linux_proxy_credentials:
  "\<exists>gnome kde. SetSystemProxy Linux exec host port (Some a) h = (Inr (Some UnsetLinux, None), h @ [gnome, kde]) \<and>
     cm_args gnome = [''--'', ''/bin/sh'', ''-c'', sh_and (map gsettings (gnome_set host port a))] \<and>
     (''org.gnome.system.proxy.http'', ''authentication-password'', quoted (Username a)) \<in> set (gnome_set host port a) \<and>
     (''org.gnome.system.proxy.http'', ''authentication-user'', quoted (Password a)) \<in> set (gnome_set host port a) \<and>
     cm_args kde = [''-c'', sh_and (map kwriteconfig (kde_set host port a))] \<and>
     (\<not> auth_IsEmpty (Some a) \<longrightarrow> (\<exists>rest. map_of (kde_set host port a) ''httpProxy'' =
        Some (quoted (''http://'' @ QueryEscape (Username a) @ '':'' @ QueryEscape (Password a) @ ''@'' @ rest)))) \<and>
     set (QueryEscape (Username a)) \<inter> {CHR 0x27, CHR '':'', CHR ''@''} = {} \<and>
     set (QueryEscape (Password a)) \<inter> {CHR 0x27, CHR '':'', CHR ''@''} = {} \<and>
     map (\<lambda>(schema, key, v). (schema, key)) (gnome_set host port a) = map (\<lambda>(schema, key, v). (schema, key)) gnome_unset \<and>
     map fst (kde_set host port a) = map fst kde_unset"
proof -
  have safe: "set (QueryEscape s) \<inter> {CHR 0x27, CHR '':'', CHR ''@''} = {}" for s
  proof -
    have "list_all (\<lambda>x. \<not> (unreserved x \<or> x = CHR ''+'' \<or> x = CHR ''%'')) [CHR 0x27, CHR '':'', CHR ''@'']" by code_simp
    then show ?thesis using QueryEscape_safe by (auto simp: list_all_iff)
  qed
  let ?g = "\<lparr>cm_name = ''dbus-run-session'',
      cm_args = [''--'', ''/bin/sh'', ''-c'', sh_and (map gsettings (gnome_set host port a))], cm_input = []\<rparr>"
  let ?k = "\<lparr>cm_name = ''/bin/sh'', cm_args = [''-c'', sh_and (map kwriteconfig (kde_set host port a))], cm_input = []\<rparr>"
  have run: "SetSystemProxy Linux exec host port (Some a) h = (Inr (Some UnsetLinux, None), h @ [?g, ?k])"
    by (simp add: SetSystemProxy_def SetSystemProxy_linux_def io_bind_def run_both_def RunWithStdoutErrResults_def cmd_Run_def
        run_command_def bin_sh_def split: prod.splits option.splits)
  have gnome: "(''org.gnome.system.proxy.http'', ''authentication-password'', quoted (Username a)) \<in> set (gnome_set host port a)"
    "(''org.gnome.system.proxy.http'', ''authentication-user'', quoted (Password a)) \<in> set (gnome_set host port a)"
    by (simp_all add: gnome_set_def)
  have kde: "\<not> auth_IsEmpty (Some a) \<longrightarrow> (\<exists>rest. map_of (kde_set host port a) ''httpProxy'' =
      Some (quoted (''http://'' @ QueryEscape (Username a) @ '':'' @ QueryEscape (Password a) @ ''@'' @ rest)))"
    by (auto simp: kde_set_def Let_def)
  show ?thesis
    by (intro exI conjI) (rule run gnome kde safe unset_covers_set command.simps | simp)+
qed

text \<open>
  On macOS the name of the network service is the one of the line of the primary service, whatever
  the white space around its colon, when \<open>scutil\<close> answers both questions.
\<close>

theorem current_service_found:
  assumes "exec h q1 = (out1, [], None)" "exec (h @ [q1]) q2 = (out2, [], None)"
    and "q1 = \<lparr>cm_name = ''/usr/sbin/scutil'', cm_args = [], cm_input = ''show State:/Network/Global/IPv4'' @ [CHR 0x0A]\<rparr>"
    and "q2 = \<lparr>cm_name = ''/usr/sbin/scutil'', cm_args = [], cm_input = ''show Setup:/Network/Service/'' @ sid @ [CHR 0x0A]\<rparr>"
    and "out1 = prea @ ''PrimaryService'' @ spa @ '':'' @ spb @ sid @ CHR 0x0A # resta" "\<forall>i < length prea. \<not> HasPrefix (drop i out1) ''PrimaryService''"
    and "out2 = preb @ ''UserDefinedName'' @ spc @ '':'' @ spd @ name @ CHR 0x0A # restb" "\<forall>i < length preb. \<not> HasPrefix (drop i out2) ''UserDefinedName''"
    and "list_all is_space (spa @ spb @ spc @ spd)"
    and "sid \<noteq> []" "\<not> is_space (hd sid)" "CHR 0x0A \<notin> set sid" "name \<noteq> []" "\<not> is_space (hd name)" "CHR 0x0A \<notin> set name"
  shows "currentNetworkServiceName exec h = (Inr name, h @ [q1, q2])"
proof -
  have colon: "dropWhile is_space (sp @ CHR '':'' # s) = CHR '':'' # s" if "list_all is_space sp" for sp s
    using that by (simp add: dropWhile_spaces is_space_def)
  have found: "FindSubmatch key out = Some g"
    if "out = pre @ key @ sp @ '':'' @ sp' @ g @ CHR 0x0A # rest" "\<forall>i < length pre. \<not> HasPrefix (drop i out) key"
      "list_all is_space sp" "list_all is_space sp'" "g \<noteq> []" "\<not> is_space (hd g)" "CHR 0x0A \<notin> set g" "key \<noteq> []"
    for key out pre sp sp' g rest
  proof -
    let ?s = "key @ sp @ '':'' @ sp' @ g @ CHR 0x0A # rest"
    have "match_at key ?s = Some g"
      by (simp add: match_at_def HasPrefix_def colon that(3-7) group_at_line)
    then have "FindSubmatch key ?s = Some g"
      using that(8) by (cases key) auto
    then show ?thesis using FindSubmatch_skip [of pre ?s key] that(1,2) by simp
  qed
  have 1: "FindSubmatch ''PrimaryService'' out1 = Some sid" by (rule found [OF assms(5,6)]) (use assms(9-) in simp_all)
  have 2: "FindSubmatch ''UserDefinedName'' out2 = Some name" by (rule found [OF assms(7,8)]) (use assms(9-) in simp_all)
  show ?thesis
    using assms(1,2) by (simp add: currentNetworkServiceName_def io_bind_def RunWithInput_def run_command_def assms(3,4) 1 2)
qed

theorem current_service_found_witness:
  "currentNetworkServiceName (\<lambda>h cmd.
      (if h = [] then ''{  PrimaryInterface : en0'' @ [CHR 0x0A] @ ''  PrimaryService : 1A-2'' @ [CHR 0x0A] @ ''}''
       else ''UserDefinedName :  USB LAN'' @ [CHR 0x0A], [], None)) [] =
   (Inr ''USB LAN'',
    [\<lparr>cm_name = ''/usr/sbin/scutil'', cm_args = [], cm_input = ''show State:/Network/Global/IPv4'' @ [CHR 0x0A]\<rparr>,
     \<lparr>cm_name = ''/usr/sbin/scutil'', cm_args = [], cm_input = ''show Setup:/Network/Service/'' @ ''1A-2'' @ [CHR 0x0A]\<rparr>])"
  (is "currentNetworkServiceName ?exec [] = (_, [?q1, ?q2])")
proof -
  let ?out = "''{  PrimaryInterface : en0'' @ [CHR 0x0A] @ ''  PrimaryService : 1A-2'' @ [CHR 0x0A] @ ''}''"
  let ?pre = "''{  PrimaryInterface : en0'' @ [CHR 0x0A] @ ''  ''"
  have "\<forall>i \<in> {0..<length ?pre}. \<not> HasPrefix (drop i ?out) ''PrimaryService''"
    unfolding set_upt [symmetric] list_all_iff [symmetric] by code_simp
  then have first: "\<forall>i < length ?pre. \<not> HasPrefix (drop i ?out) ''PrimaryService''"
    by (metis atLeastLessThan_iff zero_le)
  have "currentNetworkServiceName ?exec [] = (Inr ''USB LAN'', [] @ [?q1, ?q2])"
    by (rule current_service_found [where spb = "'' ''" and spa = "'' ''" and spc = "'' ''" and spd = "''  ''" and
        resta = "''}''" and restb = "[]" and preb = "[]", OF _ _ refl refl _ first]) (simp_all add: is_space_def)
  then show ?thesis by simp
qed

end
