(* ===== verification/HttpSocks.thy ===== *)
theory HttpSocks
  imports HttpProxy NetUtil SystemProxy
begin

text \<open>
  The port for local programs, \<open>transport/http_socks/server.go\<close>: its one or two listeners run side by
  side, the system proxy is set while the first one listens, and the first listener that ends
  stops the other. The goroutines interleave in every way with the signal that ends the program.
\<close>

section \<open>State\<close>

text \<open>
  A listener before it listens, listening but before its callback, serving, its handler returned,
  inside the function that unsets the proxy, and returned.
\<close>

datatype listener =
    LStart
  | LOpen
  | LServe
  | LStopped "goerr option"
  | LUnset "goerr option"
  | LDone

text \<open>The handler of the program's end: not called, inside the function that unsets the proxy, done.\<close>

datatype termination_handler = TIdle | TUnset | TDone

text \<open>
  \<open>hs_f2\<close> is \<open>None\<close> when there is one listener. \<open>hs_unset\<close> is the variable \<open>unsetProxy\<close>, \<open>hs_hasUnset\<close> the
  atomic flag \<open>hasUnsetProxy\<close>, \<open>hs_handler\<close> whether the handler is registered, \<open>hs_first\<close> the result
  taken from the channel and \<open>hs_ret\<close> what \<open>ListenAndServe\<close> returned. The results in the order in
  which the listeners ended, and the unset functions that have run, are kept for the statements.
\<close>

record hs_state =
  hs_f1 :: listener
  hs_f2 :: "listener option"
  hs_cancelled :: bool
  hs_ch :: "goerr option list"
  hs_first :: "goerr option option"
  hs_ret :: "goerr option option"
  hs_unset :: "unset option"
  hs_hasUnset :: bool
  hs_handler :: bool
  hs_term :: termination_handler
  hs_commands :: "command list"
  hs_results :: "goerr option list"
  hs_ran :: "unset list"

section \<open>Addresses and the start\<close>

text \<open>The addresses to listen on: \<open>::\<close> is all addresses of both families, \<open>::1\<close> needs a second listener.\<close>

definition listen_addrs :: "HTTPSOCKS \<Rightarrow> string \<times> string option" where
  "listen_addrs c =
     (let host = hs_Host c in
      (JoinHostPort (if host = ''::'' then [] else host) (hs_Port c),
       if host = ''::1'' then Some (JoinHostPort ''127.0.0.1'' (hs_Port c)) else None))"

definition hs_init :: "HTTPSOCKS \<Rightarrow> command list \<Rightarrow> hs_state" where
  "hs_init c h = \<lparr>hs_f1 = LStart, hs_f2 = map_option (\<lambda>_. LStart) (snd (listen_addrs c)), hs_cancelled = False,
     hs_ch = [], hs_first = None, hs_ret = None, hs_unset = None, hs_hasUnset = False, hs_handler = False,
     hs_term = TIdle, hs_commands = h, hs_results = [], hs_ran = []\<rparr>"

section \<open>Steps\<close>

text \<open>
  The result of a listener goes to the channel, or is the result of \<open>ListenAndServe\<close> when there is
  only one listener.
\<close>

definition emit :: "goerr option \<Rightarrow> hs_state \<Rightarrow> hs_state" where
  "emit err s =
     (let s1 = s\<lparr>hs_results := hs_results s @ [err]\<rparr> in
      if hs_f2 s = None then s1\<lparr>hs_ret := Some err, hs_cancelled := True\<rparr>
      else s1\<lparr>hs_ch := hs_ch s @ [err]\<rparr>)"

text \<open>The callback of the first listener.\<close>

definition listenSuccessCallback :: "goos \<Rightarrow> exec \<Rightarrow> HTTPSOCKS \<Rightarrow> hs_state \<Rightarrow> hs_state" where
  "listenSuccessCallback os exec c s =
     (if hs_SystemProxy c
      then (case SetSystemProxy os exec (hs_Host c) (hs_Port c) (Some (ToHTTPSOCKSAuthInfo c)) (hs_commands s) of
          (Inl err, h) \<Rightarrow> s\<lparr>hs_commands := h\<rparr>
        | (Inr (u, err), h) \<Rightarrow> s\<lparr>hs_commands := h, hs_unset := u, hs_handler := (u \<noteq> None)\<rparr>)
      else s)"

text \<open>The call of \<open>unsetProxyFunc\<close>, by the one that won the flag.\<close>

definition unset_now :: "exec \<Rightarrow> hs_state \<Rightarrow> hs_state" where
  "unset_now exec s =
     (case hs_unset s of
        None \<Rightarrow> s
      | Some u \<Rightarrow> s\<lparr>hs_commands := run_unset exec u (hs_commands s), hs_ran := hs_ran s @ [u]\<rparr>)"

text \<open>
  The steps the program takes by itself, and with \<open>own = False\<close> those that wait for the world: an
  error of \<open>Accept\<close> while the context lives, the end of the parent's context and a signal. An
  \<open>Accept\<close> of a closed listener returns \<open>net.ErrClosed\<close>.
\<close>

inductive hs_step :: "goos \<Rightarrow> exec \<Rightarrow> HTTPSOCKS \<Rightarrow> bool \<Rightarrow> hs_state \<Rightarrow> hs_state \<Rightarrow> bool" for os exec c where
  ListenFails1: "hs_f1 s = LStart \<Longrightarrow> hs_step os exec c True s (emit (Some err) (s\<lparr>hs_f1 := LDone\<rparr>))"
| Listens1: "hs_f1 s = LStart \<Longrightarrow> hs_step os exec c True s (s\<lparr>hs_f1 := LOpen\<rparr>)"
| Callback1: "hs_f1 s = LOpen \<Longrightarrow> hs_step os exec c True s ((listenSuccessCallback os exec c s)\<lparr>hs_f1 := LServe\<rparr>)"
| Closed1: "hs_f1 s = LServe \<Longrightarrow> hs_cancelled s \<Longrightarrow>
    hs_step os exec c True s (s\<lparr>hs_f1 := LStopped (ignoreClosed (Some NetClosed))\<rparr>)"
| AcceptFails1: "hs_f1 s = LServe \<Longrightarrow> hs_step os exec c False s (s\<lparr>hs_f1 := LStopped (ignoreClosed (Some err))\<rparr>)"
| FinishUnset1: "hs_f1 s = LStopped err \<Longrightarrow> hs_unset s \<noteq> None \<Longrightarrow> \<not> hs_hasUnset s \<Longrightarrow>
    hs_step os exec c True s (s\<lparr>hs_f1 := LUnset err, hs_hasUnset := True\<rparr>)"
| Finish1: "hs_f1 s = LStopped err \<Longrightarrow> hs_unset s = None \<or> hs_hasUnset s \<Longrightarrow>
    hs_step os exec c True s (emit err (s\<lparr>hs_f1 := LDone\<rparr>))"
| Unset1: "hs_f1 s = LUnset err \<Longrightarrow> hs_step os exec c True s (emit err (unset_now exec (s\<lparr>hs_f1 := LDone\<rparr>)))"
| ListenFails2: "hs_f2 s = Some LStart \<Longrightarrow> hs_step os exec c True s (emit (Some err) (s\<lparr>hs_f2 := Some LDone\<rparr>))"
| Listens2: "hs_f2 s = Some LStart \<Longrightarrow> hs_step os exec c True s (s\<lparr>hs_f2 := Some LServe\<rparr>)"
| Closed2: "hs_f2 s = Some LServe \<Longrightarrow> hs_cancelled s \<Longrightarrow>
    hs_step os exec c True s (s\<lparr>hs_f2 := Some (LStopped (ignoreClosed (Some NetClosed)))\<rparr>)"
| AcceptFails2: "hs_f2 s = Some LServe \<Longrightarrow>
    hs_step os exec c False s (s\<lparr>hs_f2 := Some (LStopped (ignoreClosed (Some err)))\<rparr>)"
| Finish2: "hs_f2 s = Some (LStopped err) \<Longrightarrow> hs_step os exec c True s (emit err (s\<lparr>hs_f2 := Some LDone\<rparr>))"
| First: "hs_first s = None \<Longrightarrow> hs_ch s = err # errs \<Longrightarrow>
    hs_step os exec c True s (s\<lparr>hs_first := Some err, hs_ch := errs, hs_cancelled := True\<rparr>)"
| Drain: "hs_first s = Some err \<Longrightarrow> hs_ret s = None \<Longrightarrow> hs_ch s = err' # errs \<Longrightarrow>
    hs_step os exec c True s (s\<lparr>hs_ret := Some err, hs_ch := errs\<rparr>)"
| SignalUnset: "hs_term s = TIdle \<Longrightarrow> hs_handler s \<Longrightarrow> hs_unset s \<noteq> None \<Longrightarrow> \<not> hs_hasUnset s \<Longrightarrow>
    hs_step os exec c False s (s\<lparr>hs_term := TUnset, hs_hasUnset := True\<rparr>)"
| Signal: "hs_term s = TIdle \<Longrightarrow> \<not> hs_handler s \<or> hs_hasUnset s \<Longrightarrow> hs_step os exec c False s (s\<lparr>hs_term := TDone\<rparr>)"
| UnsetTerm: "hs_term s = TUnset \<Longrightarrow> hs_step os exec c True s (unset_now exec (s\<lparr>hs_term := TDone\<rparr>))"
| ParentCancel: "\<not> hs_cancelled s \<Longrightarrow> hs_step os exec c False s (s\<lparr>hs_cancelled := True\<rparr>)"

inductive_cases hs_stepE: "hs_step os exec c own s t"

definition hs_any :: "goos \<Rightarrow> exec \<Rightarrow> HTTPSOCKS \<Rightarrow> hs_state \<Rightarrow> hs_state \<Rightarrow> bool" where
  "hs_any os exec c s t \<longleftrightarrow> (\<exists>own. hs_step os exec c own s t)"

section \<open>Invariants\<close>

text \<open>
  Who unsets the proxy: nobody yet, the first listener, the handler, or it is done; whoever does has
  won the flag.
\<close>

definition hs_proxy_inv :: "hs_state \<Rightarrow> bool" where
  "hs_proxy_inv s \<longleftrightarrow>
     hs_handler s = (hs_unset s \<noteq> None) \<and>
     (hs_f1 s \<in> {LStart, LOpen} \<longrightarrow> hs_unset s = None) \<and>
     (hs_hasUnset s \<longrightarrow> hs_unset s \<noteq> None) \<and>
     (hs_f1 s = LDone \<and> hs_unset s \<noteq> None \<longrightarrow> hs_hasUnset s) \<and>
     hs_ran s = (if hs_hasUnset s \<and> hs_term s \<noteq> TUnset \<and> (\<forall>err. hs_f1 s \<noteq> LUnset err) then [the (hs_unset s)] else []) \<and>
     (hs_term s = TUnset \<longrightarrow> hs_hasUnset s \<and> (\<forall>err. hs_f1 s \<noteq> LUnset err)) \<and>
     (\<forall>err. hs_f1 s = LUnset err \<longrightarrow> hs_hasUnset s)"

text \<open>Where the results of the listeners are: in the channel, taken from it, or returned.\<close>

definition hs_result_inv :: "hs_state \<Rightarrow> bool" where
  "hs_result_inv s \<longleftrightarrow>
     (hs_results s \<noteq> [] \<longrightarrow> hs_f1 s = LDone \<or> hs_f2 s = Some LDone) \<and>
     (case hs_f2 s of
        None \<Rightarrow> hs_ch s = [] \<and> hs_first s = None \<and> (hs_results s = [] \<longleftrightarrow> hs_f1 s \<noteq> LDone) \<and>
          (case hs_ret s of None \<Rightarrow> hs_results s = [] | Some err \<Rightarrow> hs_results s = [err] \<and> hs_cancelled s)
      | Some l \<Rightarrow> l \<noteq> LOpen \<and> (\<forall>err. l \<noteq> LUnset err) \<and>
          length (hs_results s) = of_bool (hs_f1 s = LDone) + of_bool (l = LDone) \<and>
          (case hs_first s of
             None \<Rightarrow> hs_ch s = hs_results s \<and> hs_ret s = None
           | Some err \<Rightarrow> hs_cancelled s \<and>
               (case hs_ret s of
                  None \<Rightarrow> hs_results s = err # hs_ch s
                | Some err' \<Rightarrow> err' = err \<and> hs_ch s = [] \<and> hd (hs_results s) = err \<and> length (hs_results s) = 2)))"

definition hs_inv :: "hs_state \<Rightarrow> bool" where
  "hs_inv s \<longleftrightarrow> hs_proxy_inv s \<and> hs_result_inv s"

lemma hs_inv_init: "hs_inv (hs_init c h)"
  by (simp add: hs_inv_def hs_proxy_inv_def hs_result_inv_def hs_init_def split: option.splits)

text \<open>What the two effects on several fields leave alone.\<close>

lemma emit_frame [simp]:
  "hs_f1 (emit err s) = hs_f1 s" "hs_f2 (emit err s) = hs_f2 s" "hs_unset (emit err s) = hs_unset s"
  "hs_hasUnset (emit err s) = hs_hasUnset s" "hs_handler (emit err s) = hs_handler s" "hs_term (emit err s) = hs_term s"
  "hs_ran (emit err s) = hs_ran s" "hs_results (emit err s) = hs_results s @ [err]" "hs_first (emit err s) = hs_first s"
  by (simp_all add: emit_def Let_def)

lemma unset_now_frame [simp]:
  "hs_f1 (unset_now exec s) = hs_f1 s" "hs_f2 (unset_now exec s) = hs_f2 s" "hs_unset (unset_now exec s) = hs_unset s"
  "hs_hasUnset (unset_now exec s) = hs_hasUnset s" "hs_handler (unset_now exec s) = hs_handler s"
  "hs_term (unset_now exec s) = hs_term s" "hs_results (unset_now exec s) = hs_results s" "hs_first (unset_now exec s) = hs_first s"
  "hs_ch (unset_now exec s) = hs_ch s" "hs_cancelled (unset_now exec s) = hs_cancelled s" "hs_ret (unset_now exec s) = hs_ret s"
  by (simp_all add: unset_now_def split: option.splits)

lemma callback_frame [simp]:
  fixes os :: goos and exec :: exec and c :: HTTPSOCKS and s :: hs_state
  defines "t \<equiv> listenSuccessCallback os exec c s"
  shows "hs_f1 t = hs_f1 s" "hs_f2 t = hs_f2 s" "hs_hasUnset t = hs_hasUnset s" "hs_term t = hs_term s" "hs_ran t = hs_ran s"
    "hs_results t = hs_results s" "hs_first t = hs_first s" "hs_ch t = hs_ch s" "hs_cancelled t = hs_cancelled s" "hs_ret t = hs_ret s"
  by (simp_all add: t_def listenSuccessCallback_def split: prod.splits sum.splits)

lemma callback_handler:
  "hs_handler s = (hs_unset s \<noteq> None) \<Longrightarrow>
   hs_handler (listenSuccessCallback os exec c s) = (hs_unset (listenSuccessCallback os exec c s) \<noteq> None)"
  by (simp add: listenSuccessCallback_def split: prod.splits sum.splits)

lemma hs_proxy_inv_step: "hs_step os exec c own s t \<Longrightarrow> hs_proxy_inv s \<Longrightarrow> hs_proxy_inv t"
proof (induction rule: hs_step.induct)
  case (ListenFails1 s err)
  then show ?case by (cases "hs_unset s"; cases "hs_hasUnset s"; cases "hs_term s"; simp add: hs_proxy_inv_def unset_now_def)
next
  case (Listens1 s)
  then show ?case by (cases "hs_unset s"; cases "hs_hasUnset s"; cases "hs_term s"; simp add: hs_proxy_inv_def unset_now_def)
next
  case (Callback1 s)
  then show ?case by (auto simp: hs_proxy_inv_def callback_handler)
next
  case (FinishUnset1 s err)
  then show ?case by (cases "hs_unset s"; cases "hs_hasUnset s"; cases "hs_term s"; simp add: hs_proxy_inv_def unset_now_def)
next
  case (Finish1 s err)
  then show ?case by (cases "hs_unset s"; cases "hs_hasUnset s"; cases "hs_term s"; simp add: hs_proxy_inv_def unset_now_def)
next
  case (Unset1 s err)
  then show ?case by (cases "hs_unset s"; cases "hs_hasUnset s"; cases "hs_term s"; simp add: hs_proxy_inv_def unset_now_def)
next
  case (SignalUnset s)
  then show ?case by (cases "hs_unset s"; cases "hs_hasUnset s"; cases "hs_term s"; simp add: hs_proxy_inv_def unset_now_def)
next
  case (Signal s)
  then show ?case by (cases "hs_unset s"; cases "hs_hasUnset s"; cases "hs_term s"; simp add: hs_proxy_inv_def unset_now_def)
next
  case (UnsetTerm s)
  then show ?case by (cases "hs_unset s"; cases "hs_hasUnset s"; cases "hs_term s"; simp add: hs_proxy_inv_def unset_now_def)
qed (simp_all add: hs_proxy_inv_def)

lemma hs_result_inv_step: "hs_step os exec c own s t \<Longrightarrow> hs_result_inv s \<Longrightarrow> hs_result_inv t"
  by (induction rule: hs_step.induct)
     (auto simp: hs_result_inv_def emit_def Let_def of_bool_def split: option.splits if_splits)

lemma hs_inv_step: "hs_any os exec c s t \<Longrightarrow> hs_inv s \<Longrightarrow> hs_inv t"
  unfolding hs_any_def hs_inv_def by (blast intro: hs_proxy_inv_step hs_result_inv_step)

lemma hs_inv_steps: "(hs_any os exec c)\<^sup>*\<^sup>* s t \<Longrightarrow> hs_inv s \<Longrightarrow> hs_inv t"
  by (induction rule: rtranclp_induct) (auto intro: hs_inv_step)

section \<open>Every run ends\<close>

text \<open>How far a listener is from its end, and the steps that can be left in a state.\<close>

fun listener_rank :: "listener \<Rightarrow> nat" where
  "listener_rank LStart = 6"
| "listener_rank LOpen = 5"
| "listener_rank LServe = 4"
| "listener_rank (LStopped err) = 3"
| "listener_rank (LUnset err) = 2"
| "listener_rank LDone = 0"

definition hs_measure :: "hs_state \<Rightarrow> nat" where
  "hs_measure s = 3 * listener_rank (hs_f1 s) + (case hs_f2 s of None \<Rightarrow> 0 | Some l \<Rightarrow> 3 * listener_rank l) +
     (case hs_term s of TIdle \<Rightarrow> 2 | TUnset \<Rightarrow> 1 | TDone \<Rightarrow> 0) + length (hs_ch s) + of_bool (\<not> hs_cancelled s)"

lemma emit_measure: "hs_measure (emit err s) \<le> Suc (hs_measure s)"
  by (simp add: hs_measure_def emit_def Let_def)

lemma hs_measure_step: "hs_step os exec c own s t \<Longrightarrow> hs_measure t < hs_measure s"
proof (induction rule: hs_step.induct)
  case (ListenFails1 s err)
  then show ?case by (intro le_less_trans [OF emit_measure]) (simp add: hs_measure_def)
next
  case (Finish1 s err)
  then show ?case by (intro le_less_trans [OF emit_measure]) (simp add: hs_measure_def)
next
  case (Unset1 s err)
  then show ?case by (intro le_less_trans [OF emit_measure]) (simp add: hs_measure_def)
next
  case (ListenFails2 s err)
  then show ?case by (intro le_less_trans [OF emit_measure]) (simp add: hs_measure_def)
next
  case (Finish2 s err)
  then show ?case by (intro le_less_trans [OF emit_measure]) (simp add: hs_measure_def)
qed (auto simp: hs_measure_def)

lemma hs_step_ends: "wfP (\<lambda>t s. hs_any os exec c s t)"
  by (rule wfp_if_convertible_to_nat [of _ hs_measure]) (auto simp: hs_any_def dest: hs_measure_step)

text \<open>The program can go on by itself until it has returned, once it was told to stop or a listener has ended.\<close>

lemma hs_progress:
  assumes "hs_inv s" "hs_cancelled s \<or> hs_results s \<noteq> []" "hs_ret s = None \<or> hs_term s = TUnset"
  shows "\<exists>t. hs_step os exec c True s t"
proof (cases "hs_term s = TUnset")
  case True
  then show ?thesis by (blast intro: UnsetTerm)
next
  case False
  with assms(3) have ret: "hs_ret s = None" by simp
  have inv: "hs_result_inv s" using assms(1) by (simp add: hs_inv_def)
  show ?thesis
  proof (cases "hs_cancelled s")
    case False
    with assms(2) inv ret have "hs_first s = None" "hs_ch s \<noteq> []"
      by (auto simp: hs_result_inv_def split: option.splits)
    then show ?thesis by (metis First list.exhaust)
  next
    case c: True
    show ?thesis
    proof (cases "hs_f1 s")
      case done1: LDone
      show ?thesis
      proof (cases "hs_f2 s")
        case None
        with inv ret done1 show ?thesis by (simp add: hs_result_inv_def)
      next
        case (Some l)
        show ?thesis
        proof (cases l)
          case LDone
          with inv ret done1 Some have "hs_ch s \<noteq> []"
            by (auto simp: hs_result_inv_def split: option.splits)
          with ret show ?thesis by (cases "hs_first s") (metis First Drain list.exhaust)+
        qed (use inv Some c in \<open>auto simp: hs_result_inv_def intro: hs_step.intros\<close>)
      qed
    qed (use c in \<open>blast intro: hs_step.intros\<close>)+
  qed
qed

section \<open>A run\<close>

text \<open>
  Two listeners on a desktop whose commands all succeed: the port is taken on the second address, the
  first listener stops, unsets the proxy, and the error is returned.
\<close>

definition sample_hs_conf :: HTTPSOCKS where
  "sample_hs_conf = \<lparr>hs_Host = ''::1'', hs_Port = 1080, hs_Username = ''u'', hs_Password = ''p'', hs_SystemProxy = True\<rparr>"

definition sample_exec :: exec where
  "sample_exec h cmd = ([], [], None)"

lemma sample_hs_run:
  "\<exists>t. (hs_any Linux sample_exec sample_hs_conf)\<^sup>*\<^sup>* (hs_init sample_hs_conf []) t \<and> hs_ret t = Some (Some EOF) \<and>
     hs_unset t = Some UnsetLinux \<and> hs_term t = TIdle \<and> hs_f2 t \<noteq> None \<and> hs_cancelled t \<and>
     \<not> (\<exists>t'. hs_step Linux sample_exec sample_hs_conf True t t')"
proof -
  let ?R = "hs_any Linux sample_exec sample_hs_conf"
  have step: "?R\<^sup>*\<^sup>* a b \<Longrightarrow> hs_step Linux sample_exec sample_hs_conf True b c \<Longrightarrow> ?R\<^sup>*\<^sup>* a c" for a b c
    by (rule rtranclp.rtrancl_into_rtrancl) (auto simp: hs_any_def)
  define s0 where "s0 = hs_init sample_hs_conf []"
  define s1 where "s1 = s0\<lparr>hs_f1 := LOpen\<rparr>"
  define s2 where "s2 = (listenSuccessCallback Linux sample_exec sample_hs_conf s1)\<lparr>hs_f1 := LServe\<rparr>"
  define s3 where "s3 = emit (Some EOF) (s2\<lparr>hs_f2 := Some LDone\<rparr>)"
  define s4 where "s4 = s3\<lparr>hs_first := Some (Some EOF), hs_ch := [], hs_cancelled := True\<rparr>"
  define s5 where "s5 = s4\<lparr>hs_f1 := LStopped (ignoreClosed (Some NetClosed))\<rparr>"
  define s6 where "s6 = s5\<lparr>hs_f1 := LUnset None, hs_hasUnset := True\<rparr>"
  define s7 where "s7 = emit None (unset_now sample_exec (s6\<lparr>hs_f1 := LDone\<rparr>))"
  define s8 where "s8 = s7\<lparr>hs_ret := Some (Some EOF), hs_ch := []\<rparr>"
  have init: "hs_f1 s0 = LStart" "hs_f2 s0 = Some LStart" "hs_first s0 = None" "hs_ch s0 = []" "hs_ret s0 = None"
    "hs_hasUnset s0 = False" "hs_term s0 = TIdle" "hs_unset s0 = None"
    by (simp_all add: s0_def hs_init_def listen_addrs_def sample_hs_conf_def)
  have set_proxy: "hs_unset s2 = Some UnsetLinux"
    by (simp add: s2_def listenSuccessCallback_def sample_hs_conf_def SetSystemProxy_def SetSystemProxy_linux_def io_bind_def
        split: prod.splits)
  have ch3: "hs_ch s3 = [Some EOF]" using init by (simp add: s3_def s2_def s1_def emit_def)
  have closed: "ignoreClosed (Some NetClosed) = None" by (simp add: ignoreClosed_def IsErrClosedOrContextCanceled_def)
  have "?R\<^sup>*\<^sup>* s0 s1" by (rule step [OF rtranclp.rtrancl_refl]) (simp add: s1_def Listens1 init)
  then have "?R\<^sup>*\<^sup>* s0 s2" by (rule step) (simp add: s2_def Callback1 s1_def)
  then have "?R\<^sup>*\<^sup>* s0 s3" by (rule step) (simp add: s3_def ListenFails2 s2_def s1_def init)
  then have "?R\<^sup>*\<^sup>* s0 s4" unfolding s4_def by (rule step) (rule First, simp add: s3_def s2_def s1_def init, rule ch3)
  then have "?R\<^sup>*\<^sup>* s0 s5" by (rule step) (simp add: s5_def Closed1 s4_def s3_def s2_def)
  then have "?R\<^sup>*\<^sup>* s0 s6"
    unfolding s6_def by (rule step) (rule FinishUnset1, simp_all add: s5_def s4_def s3_def set_proxy closed, simp add: s2_def s1_def init)
  then have "?R\<^sup>*\<^sup>* s0 s7" unfolding s7_def by (rule step) (rule Unset1, simp add: s6_def)
  moreover have "hs_first s7 = Some (Some EOF)" "hs_ret s7 = None" "hs_ch s7 = [None]"
    using init by (simp_all add: s7_def s6_def s5_def s4_def s3_def s2_def s1_def emit_def)
  ultimately have "?R\<^sup>*\<^sup>* s0 s8" unfolding s8_def by (blast intro: step Drain)
  moreover have "hs_unset s8 = Some UnsetLinux" "hs_term s8 = TIdle" "hs_ret s8 = Some (Some EOF)" "hs_f2 s8 = Some LDone"
    "hs_cancelled s8" "hs_f1 s8 = LDone" "hs_ch s8 = []" "hs_first s8 \<noteq> None"
    using set_proxy init by (simp_all add: s8_def s7_def s6_def s5_def s4_def s3_def s2_def s1_def emit_def)
  moreover have "\<not> (\<exists>t'. hs_step Linux sample_exec sample_hs_conf True s8 t')"
    using calculation by (auto elim!: hs_stepE)
  ultimately show ?thesis unfolding s0_def by blast
qed

section \<open>Properties\<close>

text \<open>
  C29. What \<open>ListenAndServe\<close> leaves behind: when it returns, no listener is running, its result is
  that of the listener that ended first, and a system proxy that was set is unset again, or is just being
  unset by the handler of the program's end. The proxy is never unset twice, whatever the order in
  which the listeners, the context and the signal come.
\<close>

theorem http_socks_stops_clean:
  assumes "(hs_any os exec c)\<^sup>*\<^sup>* (hs_init c h) t"
  shows "length (hs_ran t) \<le> 1 \<and>
    (\<forall>err. hs_ret t = Some err \<longrightarrow> hs_f1 t = LDone \<and> (hs_f2 t = None \<or> hs_f2 t = Some LDone) \<and>
      hs_results t \<noteq> [] \<and> err = hd (hs_results t) \<and> hs_cancelled t \<and>
      (\<forall>u. hs_unset t = Some u \<longrightarrow> hs_ran t = [u] \<or> hs_term t = TUnset))"
proof -
  have inv: "hs_proxy_inv t" "hs_result_inv t"
    using hs_inv_steps [OF assms hs_inv_init] by (simp_all add: hs_inv_def)
  have "hs_f1 t = LDone \<and> (hs_f2 t = None \<or> hs_f2 t = Some LDone) \<and>
      hs_results t \<noteq> [] \<and> err = hd (hs_results t) \<and> hs_cancelled t" if "hs_ret t = Some err" for err
    using inv(2) that by (auto simp: hs_result_inv_def of_bool_def split: option.splits if_splits)
  with inv(1) show ?thesis by (auto simp: hs_proxy_inv_def)
qed

theorem http_socks_stops_clean_witness:
  "\<exists>t. (hs_any Linux sample_exec sample_hs_conf)\<^sup>*\<^sup>* (hs_init sample_hs_conf []) t \<and> hs_ret t = Some (Some EOF) \<and>
     hs_ran t = [UnsetLinux] \<and> hs_f2 t = Some LDone"
proof -
  obtain t where t: "(hs_any Linux sample_exec sample_hs_conf)\<^sup>*\<^sup>* (hs_init sample_hs_conf []) t" "hs_ret t = Some (Some EOF)"
    "hs_unset t = Some UnsetLinux" "hs_term t = TIdle" "hs_f2 t \<noteq> None"
    using sample_hs_run by blast
  from http_socks_stops_clean [OF t(1)] t(2-5) have "hs_ran t = [UnsetLinux] \<and> hs_f2 t = Some LDone" by auto
  then show ?thesis using t by blast
qed

text \<open>
  C30. The port always comes to its end: every run of the listeners is finite, and once the context
  is cancelled or one listener has ended, a run that the program continues until it can do nothing
  more by itself has returned, with the proxy unset exactly once if it was set.
\<close>

theorem http_socks_returns:
  "wfP (\<lambda>t s. hs_any os exec c s t) \<and>
   (\<forall>t. (hs_any os exec c)\<^sup>*\<^sup>* (hs_init c h) t \<longrightarrow> hs_cancelled t \<or> hs_results t \<noteq> [] \<longrightarrow>
     \<not> (\<exists>t'. hs_step os exec c True t t') \<longrightarrow>
     hs_ret t \<noteq> None \<and> hs_ran t = (case hs_unset t of None \<Rightarrow> [] | Some u \<Rightarrow> [u]))"
proof (intro conjI allI impI)
  show "wfP (\<lambda>t s. hs_any os exec c s t)" by (rule hs_step_ends)
next
  fix t
  assume t: "(hs_any os exec c)\<^sup>*\<^sup>* (hs_init c h) t" "hs_cancelled t \<or> hs_results t \<noteq> []"
    and stuck: "\<not> (\<exists>t'. hs_step os exec c True t t')"
  have inv: "hs_inv t" by (rule hs_inv_steps [OF t(1) hs_inv_init])
  have ret: "hs_ret t \<noteq> None \<and> hs_term t \<noteq> TUnset"
    using hs_progress [OF inv t(2)] stuck by (metis option.exhaust)
  then show "hs_ret t \<noteq> None" ..
  have "hs_f1 t = LDone"
    using inv ret by (auto simp: hs_inv_def hs_result_inv_def of_bool_def split: option.splits if_splits)
  with ret inv show "hs_ran t = (case hs_unset t of None \<Rightarrow> [] | Some u \<Rightarrow> [u])"
    by (auto simp: hs_inv_def hs_proxy_inv_def split: option.splits)
qed

theorem http_socks_returns_witness:
  "\<exists>t. (hs_any Linux sample_exec sample_hs_conf)\<^sup>*\<^sup>* (hs_init sample_hs_conf []) t \<and> hs_cancelled t \<and>
     \<not> (\<exists>t'. hs_step Linux sample_exec sample_hs_conf True t t') \<and> hs_ret t \<noteq> None \<and> hs_ran t = [UnsetLinux]"
proof -
  obtain t where t: "(hs_any Linux sample_exec sample_hs_conf)\<^sup>*\<^sup>* (hs_init sample_hs_conf []) t" "hs_cancelled t"
    "hs_unset t = Some UnsetLinux" "\<not> (\<exists>t'. hs_step Linux sample_exec sample_hs_conf True t t')"
    using sample_hs_run by blast
  with http_socks_returns [of Linux sample_exec sample_hs_conf "[]"]
  have "hs_ret t \<noteq> None \<and> hs_ran t = [UnsetLinux]" by fastforce
  with t show ?thesis by blast
qed

end
