(* ===== verification/Startup.thy ===== *)
theory Startup
  imports Router HttpSocks "HOL-Library.Sublist" "HOL-Library.Char_ord" "HOL-Library.List_Lexorder"
begin

text \<open>
  The start of the program: the command line of \<open>util/cli/parser.go\<close>, the connection details of
  \<open>util/cli/info.go\<close>, the start of the fallback site in \<open>transport/fallback_http/server.go\<close> and the
  composition of everything in \<open>main.go\<close>. Listening, the alignment of columns by \<open>text/tabwriter\<close> and
  the files are arguments.
\<close>

section \<open>The command line\<close>

record cli_flags =
  fl_version :: bool
  fl_db :: string
  fl_info :: bool

definition ParseBool :: "string \<Rightarrow> bool option" where
  "ParseBool s =
     (if s \<in> set [''1'', ''t'', ''T'', ''TRUE'', ''true'', ''True''] then Some True
      else if s \<in> set [''0'', ''f'', ''F'', ''FALSE'', ''false'', ''False''] then Some False
      else None)"

text \<open>The name of a flag and its value after an equals sign, which cannot be the first character.\<close>

definition split_flag :: "string \<Rightarrow> string \<times> string option" where
  "split_flag name =
     (case IndexByte (drop 1 name) (CHR ''='') of
        None \<Rightarrow> (name, None)
      | Some i \<Rightarrow> (take (i + 1) name, Some (drop (i + 2) name)))"

definition set_bool :: "string \<Rightarrow> bool \<Rightarrow> cli_flags \<Rightarrow> cli_flags option" where
  "set_bool name b fl =
     (if name = ''version'' \<or> name = ''v'' then Some (fl\<lparr>fl_version := b\<rparr>)
      else if name = ''info'' \<or> name = ''i'' then Some (fl\<lparr>fl_info := b\<rparr>)
      else None)"

text \<open>
  \<open>FlagSet.Parse\<close> with \<open>ExitOnError\<close>: the flags and the arguments that are left, or the code the
  program exits with.
\<close>

fun parse_flags :: "string list \<Rightarrow> cli_flags \<Rightarrow> nat + cli_flags \<times> string list" where
  "parse_flags [] fl = Inr (fl, [])"
| "parse_flags (s # args) fl =
     (if length s < 2 \<or> hd s \<noteq> CHR ''-'' then Inr (fl, s # args)
      else if s = ''--'' then Inr (fl, args)
      else (let name0 = (if s ! 1 = CHR ''-'' then drop 2 s else drop 1 s) in
        if hd name0 = CHR ''-'' \<or> hd name0 = CHR ''='' then Inl 2
        else (case split_flag name0 of (name, v) \<Rightarrow>
          if name = ''db''
          then (case v of
              Some x \<Rightarrow> parse_flags args (fl\<lparr>fl_db := x\<rparr>)
            | None \<Rightarrow> (case args of [] \<Rightarrow> Inl 2 | x # rest \<Rightarrow> parse_flags rest (fl\<lparr>fl_db := x\<rparr>)))
          else (case set_bool name True fl of
              None \<Rightarrow> Inl (if name = ''help'' \<or> name = ''h'' then 0 else 2)
            | Some fl1 \<Rightarrow>
                (case v of
                   None \<Rightarrow> parse_flags args fl1
                 | Some x \<Rightarrow>
                     (case ParseBool x of
                        None \<Rightarrow> Inl 2
                      | Some b \<Rightarrow> parse_flags args (the (set_bool name b fl))))))))"

record Args =
  ar_ConfigFile :: string
  ar_RulesDBFile :: string
  ar_ShowInfo :: bool

text \<open>\<open>cli.Parse\<close>: the arguments, or the code the program exits with after printing.\<close>

definition cli_Parse :: "string list \<Rightarrow> nat + Args" where
  "cli_Parse args =
     (case parse_flags args \<lparr>fl_version = False, fl_db = [], fl_info = False\<rparr> of
        Inl code \<Rightarrow> Inl code
      | Inr (fl, rest) \<Rightarrow>
          if fl_version fl then Inl 0
          else (case rest of
              [] \<Rightarrow> Inl 0
            | configFile # _ \<Rightarrow> Inr \<lparr>ar_ConfigFile = configFile, ar_RulesDBFile = fl_db fl, ar_ShowInfo = fl_info fl\<rparr>))"

section \<open>The connection details\<close>

definition tab :: string where "tab = [CHR 0x09]"
definition newline :: string where "newline = [CHR 0x0A]"

definition info_row :: "string \<Rightarrow> string \<Rightarrow> string \<Rightarrow> protocolInfo \<Rightarrow> string" where
  "info_row name host systemProxy i =
     ''  '' @ name @ tab @ host @ tab @ pi_protocol i @ tab @ pi_network i @ tab @ ToA (pi_port i) @ tab @
     pi_username i @ tab @ pi_password i @ (if systemProxy \<noteq> [] then tab @ systemProxy else []) @ newline"

definition printInfoRows :: "string \<Rightarrow> string \<Rightarrow> protocolInfo list \<Rightarrow> string \<Rightarrow> string" where
  "printInfoRows name host infos systemProxy =
     (case infos of
        [] \<Rightarrow> []
      | i # rest \<Rightarrow> info_row name host systemProxy i @ concat (map (info_row [] [] systemProxy) rest))"

definition printInfoHeader :: "bool \<Rightarrow> string" where
  "printInfoHeader systemProxyColumn =
     ''  NAME'' @ tab @ ''HOST'' @ tab @ ''PROTOCOL'' @ tab @ ''NETWORK'' @ tab @ ''PORT'' @ tab @ ''USERNAME'' @ tab @
     ''PASSWORD'' @ (if systemProxyColumn then tab @ ''SYSTEM PROXY'' else []) @ newline"

definition print_http_socks :: "HTTPSOCKS option \<Rightarrow> string" where
  "print_http_socks h =
     (case h of
        None \<Rightarrow> []
      | Some c \<Rightarrow> printInfoRows ''http-socks'' (hs_Host c)
          [\<lparr>pi_protocol = ''HTTP/SOCKS'', pi_network = ''TCP'', pi_port = hs_Port c,
            pi_username = hs_Username c, pi_password = hs_Password c\<rparr>]
          (if hs_SystemProxy c then ''on'' else ''off''))"

definition print_hg :: "carrier_env \<Rightarrow> Hg option \<Rightarrow> bool \<Rightarrow> string res" where
  "print_hg cenv h systemProxyColumn =
     (case h of
        None \<Rightarrow> Inr []
      | Some hg \<Rightarrow>
          (case carrierInfos cenv (hg_Password hg) (hg_TCPPort hg) (hg_TLSPort hg) (hg_QUICPort hg) of
             Inl err \<Rightarrow> Inl err
           | Inr infos \<Rightarrow> Inr (printInfoRows ''hg'' (hg_Host hg) infos (if systemProxyColumn then ''-'' else []))))"

text \<open>The loop over the outbounds; a \<open>nil\<close> outbound is dereferenced.\<close>

fun print_outbounds :: "carrier_env \<Rightarrow> (string \<times> ProxyNode option) list \<Rightarrow> string list \<Rightarrow> string res" where
  "print_outbounds cenv outbounds [] = Inr []"
| "print_outbounds cenv outbounds (name # names) =
     (case map_of outbounds name of
        Some (Some node) \<Rightarrow>
          (case carrierInfos cenv (pn_Password node) (pn_TCPPort node) (pn_TLSPort node) (pn_QUICPort node) of
             Inl err \<Rightarrow> Inl err
           | Inr infos \<Rightarrow>
               (case print_outbounds cenv outbounds names of
                  Inl err \<Rightarrow> Inl err
                | Inr text \<Rightarrow> Inr (printInfoRows name (pn_Host node) infos [] @ text)))
      | _ \<Rightarrow> Inl (Panic ''nil pointer dereference''))"

text \<open>The text before the columns are aligned.\<close>

definition info_text :: "carrier_env \<Rightarrow> string \<Rightarrow> ('re, 'ps) Config \<Rightarrow> string res" where
  "info_text cenv configFile config =
     (let inb = co_Inbounds config; outs = co_Outbounds config; column = (in_HTTPSOCKS inb \<noteq> None) in
      case print_hg cenv (in_Hg inb) column of
        Inl err \<Rightarrow> Inl err
      | Inr hgRows \<Rightarrow>
          (case (if outs \<noteq> [] then print_outbounds cenv outs (sort (map fst outs)) else Inr []) of
             Inl err \<Rightarrow> Inl err
           | Inr outRows \<Rightarrow>
               Inr (''Below are the connection details in the '' @ configFile @ '' file.'' @ newline @
                 (if in_Hg inb \<noteq> None \<or> outs \<noteq> []
                  then ''Passwords for Shadowsocks, Trojan, NaiveProxy, and SunnyQUIC are derived from'' @ newline @
                    ''the '' @ [CHR 0x22] @ ''password'' @ [CHR 0x22] @
                    '' field. Use the passwords below when configuring other clients.'' @ newline
                  else []) @
                 newline @ ''Inbounds:'' @ newline @ printInfoHeader column @ print_http_socks (in_HTTPSOCKS inb) @ hgRows @
                 (if outs \<noteq> [] then newline @ ''Outbounds:'' @ newline @ printInfoHeader False @ outRows else []) @
                 (if mi_Profiling (co_Misc config)
                  then newline @ ''Misc:'' @ newline @ ''  profiling-port'' @ tab @ ToA (mi_ProfilingPort (co_Misc config)) @ newline
                  else []))))"

definition PrintInfo :: "(string \<Rightarrow> string) \<Rightarrow> carrier_env \<Rightarrow> string \<Rightarrow> ('re, 'ps) Config \<Rightarrow> string res" where
  "PrintInfo tabwriter cenv configFile config =
     (case info_text cenv configFile config of Inl err \<Rightarrow> Inl err | Inr text \<Rightarrow> Inr (tabwriter text))"

section \<open>The fallback site\<close>

datatype site = FileServer string | NotFoundHandler

record fallback_server =
  fb_port :: u16
  fb_site :: site

text \<open>
  \<open>Start\<close>: the listener's callback sends the port, or listening fails. An error of \<open>Serve\<close> that comes
  before the \<open>select\<close> makes both channels ready, and \<open>errFirst\<close> is which one it takes.
\<close>

definition fallback_Start :: "nat res \<Rightarrow> goerr option \<Rightarrow> bool \<Rightarrow> Hg \<Rightarrow> fallback_server res" where
  "fallback_Start listen serveErr errFirst hg =
     (let handler = (if hg_TLSBadAuthFallbackSiteDir hg \<noteq> [] then FileServer (hg_TLSBadAuthFallbackSiteDir hg) else NotFoundHandler) in
      case listen of
        Inl err \<Rightarrow> Inl err
      | Inr port \<Rightarrow>
          (case ignoreClosed serveErr of
             Some err \<Rightarrow> if errFirst then Inl err else Inr \<lparr>fb_port = of_nat port, fb_site = handler\<rparr>
           | None \<Rightarrow> Inr \<lparr>fb_port = of_nat port, fb_site = handler\<rparr>))"

section \<open>The start of the servers\<close>

record http_socks_server =
  hss_httpSOCKS :: HTTPSOCKS
  hss_authInfo :: HTTPSOCKSAuthInfo

definition http_socks_NewServer :: "HTTPSOCKS \<Rightarrow> http_socks_server" where
  "http_socks_NewServer c = \<lparr>hss_httpSOCKS = c, hss_authInfo = ToHTTPSOCKSAuthInfo c\<rparr>"

text \<open>What runs once the program has started, in the order of \<open>main\<close>.\<close>

datatype service =
    ProfilingServer string
  | RulesUpdates
  | SsServer ss_server
  | FallbackSite fallback_server
  | TlsServer tr_server np_server
  | QuicServer sq_server
  | LocalServer http_socks_server
  | BinaryUpdates

text \<open>
  The servers of the \<open>hg\<close> inbound. A panic of one of the goroutines ends the program, as the
  error of the fallback site does through \<open>log.Fatal\<close>.
\<close>

definition start_hg :: "carrier_env \<Rightarrow> int \<Rightarrow> (Hg \<Rightarrow> fallback_server res) \<Rightarrow> Hg \<Rightarrow> service list res" where
  "start_hg cenv now fallbackStart hg =
     (case (if hg_TCPPort hg \<noteq> None
            then (case ss_NewServer (ce_DeriveN cenv) now hg of Inl err \<Rightarrow> Inl err | Inr srv \<Rightarrow> Inr [SsServer srv])
            else Inr []) of
        Inl err \<Rightarrow> Inl err
      | Inr ss \<Rightarrow>
          (case fallbackStart hg of
             Inl err \<Rightarrow> Inl (ErrWrap ''fail to start the fallback HTTP server'' err)
           | Inr fallback \<Rightarrow>
               (case tr_np_NewServer cenv hg of
                  Inl err \<Rightarrow> Inl err
                | Inr (tr, np) \<Rightarrow>
                    (case sq_NewServer cenv hg of
                       Inl err \<Rightarrow> Inl err
                     | Inr sq \<Rightarrow> Inr (ss @ [FallbackSite fallback, TlsServer tr np, QuicServer sq])))))"

definition start_all ::
  "carrier_env \<Rightarrow> int \<Rightarrow> (Hg \<Rightarrow> fallback_server res) \<Rightarrow> ('re, 'ps) Config \<Rightarrow> service list res" where
  "start_all cenv now fallbackStart config =
     (let inb = co_Inbounds config; misc = co_Misc config in
      case (case in_Hg inb of None \<Rightarrow> Inr [] | Some hg \<Rightarrow> start_hg cenv now fallbackStart hg) of
        Inl err \<Rightarrow> Inl err
      | Inr hgServices \<Rightarrow>
          Inr ((if mi_Profiling misc then [ProfilingServer (JoinHostPort ''127.0.0.1'' (mi_ProfilingPort misc))] else []) @
               (if mi_RulesFileAutoUpdate misc then [RulesUpdates] else []) @
               hgServices @
               (case in_HTTPSOCKS inb of None \<Rightarrow> [] | Some c \<Rightarrow> [LocalServer (http_socks_NewServer c)]) @
               (if mi_HgBinaryAutoUpdate misc then [BinaryUpdates] else [])))"

text \<open>
  How \<open>main\<close> ends or goes on: it exits with a code, printed the details, stopped with a panic or a
  fatal error, or serves with the router in its first state.
\<close>

datatype ('re, 'ps) main_result =
    Exited nat
  | InfoShown string
  | Stopped goerr
  | Serving "service list" "('re, 'ps) router"

definition DefaultDomainIPSetRulesDBFileName :: string where
  "DefaultDomainIPSetRulesDBFileName = ''domain-ip-set-rules.db''"

definition rule_db_path :: "Args \<Rightarrow> string" where
  "rule_db_path args =
     (if ar_ShowInfo args then []
      else if ar_RulesDBFile args = []
      then filepath_Join (filepath_Dir (ar_ConfigFile args)) DefaultDomainIPSetRulesDBFileName
      else ar_RulesDBFile args)"

definition main_run ::
  "('re, 'ps) rule_env \<Rightarrow> carrier_env \<Rightarrow> (string \<Rightarrow> DomainIPSetRulesQueryStore res) \<Rightarrow> (string \<Rightarrow> bytes res) \<Rightarrow> (bytes \<Rightarrow> json res) \<Rightarrow>
   (string \<Rightarrow> string) \<Rightarrow> int \<Rightarrow> (Hg \<Rightarrow> fallback_server res) \<Rightarrow> tls_state \<Rightarrow> string list \<Rightarrow> ('re, 'ps) main_result" where
  "main_run env cenv openStore ReadFile parseText tabwriter now fallbackStart tls osArgs =
     (case cli_Parse osArgs of
        Inl code \<Rightarrow> Exited code
      | Inr args \<Rightarrow>
          (case Parse env openStore ReadFile parseText (ar_ConfigFile args) (rule_db_path args) of
             Inl (Panic p) \<Rightarrow> Stopped (Panic p)
           | Inl err \<Rightarrow> Exited 1
           | Inr config \<Rightarrow>
               if ar_ShowInfo args
               then (case PrintInfo tabwriter cenv (ar_ConfigFile args) config of
                   Inl err \<Rightarrow> Stopped err | Inr text \<Rightarrow> InfoShown text)
               else (case start_all cenv now fallbackStart config of
                   Inl err \<Rightarrow> Stopped err
                 | Inr services \<Rightarrow> Serving services
                     (router_NewClient (co_Routing config) (co_Outbounds config) (rule_db_path args)
                       (mi_TLSKeyLog (co_Misc config)) tls))))"

section \<open>Lemmas\<close>

lemma filepath_Clean_not_Nil: "filepath_Clean p \<noteq> []"
  by (simp add: filepath_Clean_def Let_def)

lemma rule_db_path_not_Nil: "\<not> ar_ShowInfo args \<Longrightarrow> rule_db_path args \<noteq> []"
  using filepath_Clean_not_Nil by (auto simp: rule_db_path_def filepath_Join_def DefaultDomainIPSetRulesDBFileName_def)

lemma carrierInfos_total: "pwd = Some pw \<Longrightarrow> \<exists>infos. carrierInfos cenv pwd tcpPort tlsPort quicPort = Inr infos"
  by (simp add: carrierInfos_def)

lemma nodes_ok_hg: "nodes_ok c \<Longrightarrow> in_Hg (co_Inbounds c) = Some hg \<Longrightarrow> hg_ok hg"
  by (simp add: nodes_ok_def)

lemma outbounds_ok_node: "outbounds_ok os \<Longrightarrow> map_of os name = Some v \<Longrightarrow> \<exists>n pw. v = Some n \<and> pn_Password n = Some pw"
  by (fastforce simp: outbounds_ok_def node_ok_def)

lemma sublist_within: "sublist t s \<Longrightarrow> sublist t (a @ s @ b)"
  by (rule sublist_order.order.trans [OF _ sublist_appendI])

text \<open>Every outbound that is asked for gets its rows.\<close>

lemma print_outbounds_rows:
  assumes "outbounds_ok os" "set names \<subseteq> set (map fst os)"
  shows "\<exists>details. print_outbounds cenv os names = Inr details \<and>
    (\<forall>name \<in> set names. \<forall>node. map_of os name = Some (Some node) \<longrightarrow>
      (\<exists>infos. carrierInfos cenv (pn_Password node) (pn_TCPPort node) (pn_TLSPort node) (pn_QUICPort node) = Inr infos \<and>
        sublist (printInfoRows name (pn_Host node) infos []) details))"
  using assms(2)
proof (induction names)
  case Nil
  show ?case by simp
next
  case (Cons name names)
  then obtain details where details: "print_outbounds cenv os names = Inr details"
    "\<forall>name \<in> set names. \<forall>node. map_of os name = Some (Some node) \<longrightarrow>
      (\<exists>infos. carrierInfos cenv (pn_Password node) (pn_TCPPort node) (pn_TLSPort node) (pn_QUICPort node) = Inr infos \<and>
        sublist (printInfoRows name (pn_Host node) infos []) details)"
    by auto
  from Cons.prems have "map_of os name \<noteq> None" by (auto simp: map_of_eq_None_iff)
  then obtain v where "map_of os name = Some v" by blast
  with outbounds_ok_node [OF assms(1)] obtain n pw where n: "map_of os name = Some (Some n)" "pn_Password n = Some pw" by blast
  from carrierInfos_total [OF n(2)] obtain infos
    where i: "carrierInfos cenv (pn_Password n) (pn_TCPPort n) (pn_TLSPort n) (pn_QUICPort n) = Inr infos" by blast
  let ?rows = "printInfoRows name (pn_Host n) infos []"
  have "\<exists>infos. carrierInfos cenv (pn_Password node) (pn_TCPPort node) (pn_TLSPort node) (pn_QUICPort node) = Inr infos \<and>
      sublist (printInfoRows m (pn_Host node) infos []) (?rows @ details)"
    if "m \<in> set (name # names)" "map_of os m = Some (Some node)" for m node
  proof (cases "m = name")
    case True
    with that(2) n i show ?thesis by auto
  next
    case False
    with that details(2) obtain infos' where
      "carrierInfos cenv (pn_Password node) (pn_TCPPort node) (pn_TLSPort node) (pn_QUICPort node) = Inr infos'"
      "sublist (printInfoRows m (pn_Host node) infos' []) details" by auto
    then show ?thesis using sublist_within [of _ details ?rows "[]"] by auto
  qed
  moreover have "print_outbounds cenv os (name # names) = Inr (?rows @ details)" using details(1) n(1) i by simp
  ultimately show ?case by blast
qed

lemma info_text_rows:
  assumes "nodes_ok c"
  shows "\<exists>details. info_text cenv configFile c = Inr details \<and>
    (\<forall>name node. map_of (co_Outbounds c) name = Some (Some node) \<longrightarrow>
      (\<exists>infos. carrierInfos cenv (pn_Password node) (pn_TCPPort node) (pn_TLSPort node) (pn_QUICPort node) = Inr infos \<and>
        sublist (printInfoRows name (pn_Host node) infos []) details)) \<and>
    (\<forall>hg. in_Hg (co_Inbounds c) = Some hg \<longrightarrow>
      (\<exists>infos sp. carrierInfos cenv (hg_Password hg) (hg_TCPPort hg) (hg_TLSPort hg) (hg_QUICPort hg) = Inr infos \<and>
        sublist (printInfoRows ''hg'' (hg_Host hg) infos sp) details))"
proof -
  let ?os = "co_Outbounds c"
  have os: "outbounds_ok ?os" using assms by (simp add: nodes_ok_def)
  obtain outRows where out: "print_outbounds cenv ?os (sort (map fst ?os)) = Inr outRows"
    "\<forall>name node. map_of ?os name = Some (Some node) \<longrightarrow>
      (\<exists>infos. carrierInfos cenv (pn_Password node) (pn_TCPPort node) (pn_TLSPort node) (pn_QUICPort node) = Inr infos \<and>
        sublist (printInfoRows name (pn_Host node) infos []) outRows)"
  proof -
    have "name \<in> set (sort (map fst ?os))" if "map_of ?os name = Some v" for name v
      using map_of_SomeD [OF that] by force
    with that show ?thesis using print_outbounds_rows [OF os, of "sort (map fst ?os)" cenv] by fastforce
  qed
  obtain hgRows where hg: "print_hg cenv (in_Hg (co_Inbounds c)) (in_HTTPSOCKS (co_Inbounds c) \<noteq> None) = Inr hgRows"
    "\<forall>hg. in_Hg (co_Inbounds c) = Some hg \<longrightarrow>
      (\<exists>infos sp. carrierInfos cenv (hg_Password hg) (hg_TCPPort hg) (hg_TLSPort hg) (hg_QUICPort hg) = Inr infos \<and>
        hgRows = printInfoRows ''hg'' (hg_Host hg) infos sp)"
  proof (cases "in_Hg (co_Inbounds c)")
    case None
    then show ?thesis using that by (simp add: print_hg_def)
  next
    case (Some h)
    with nodes_ok_hg [OF assms] obtain pw where "hg_Password h = Some pw" by (auto simp: hg_ok_def)
    from carrierInfos_total [OF this] obtain infos where
      "carrierInfos cenv (hg_Password h) (hg_TCPPort h) (hg_TLSPort h) (hg_QUICPort h) = Inr infos" by blast
    with Some show ?thesis by (intro that [of "printInfoRows ''hg'' (hg_Host h) infos
        (if in_HTTPSOCKS (co_Inbounds c) \<noteq> None then ''-'' else [])"]) (auto simp: print_hg_def)
  qed
  let ?head = "''Below are the connection details in the '' @ configFile @ '' file.'' @ newline @
    (if in_Hg (co_Inbounds c) \<noteq> None \<or> ?os \<noteq> []
     then ''Passwords for Shadowsocks, Trojan, NaiveProxy, and SunnyQUIC are derived from'' @ newline @
       ''the '' @ [CHR 0x22] @ ''password'' @ [CHR 0x22] @
       '' field. Use the passwords below when configuring other clients.'' @ newline
     else []) @
    newline @ ''Inbounds:'' @ newline @ printInfoHeader (in_HTTPSOCKS (co_Inbounds c) \<noteq> None) @
    print_http_socks (in_HTTPSOCKS (co_Inbounds c))"
  let ?tail = "if mi_Profiling (co_Misc c)
     then newline @ ''Misc:'' @ newline @ ''  profiling-port'' @ tab @ ToA (mi_ProfilingPort (co_Misc c)) @ newline else []"
  have "info_text cenv configFile c = Inr (?head @ hgRows @ (if ?os \<noteq> [] then newline @ ''Outbounds:'' @ newline @
      printInfoHeader False @ outRows else []) @ ?tail)"
    unfolding info_text_def Let_def hg(1) out(1) by (cases "?os = []") (simp_all only: if_True if_False append_assoc sum.case simp_thms)
  moreover have "sublist t (if ?os \<noteq> [] then newline @ ''Outbounds:'' @ newline @ printInfoHeader False @ outRows else [])"
    if "sublist t outRows" "?os \<noteq> []" for t
    using sublist_within [OF that(1), of "newline @ ''Outbounds:'' @ newline @ printInfoHeader False" "[]"] that(2)
    by (simp only: append_assoc append_Nil2 if_True simp_thms)
  ultimately obtain pre outs suf where details: "info_text cenv configFile c = Inr (pre @ hgRows @ outs @ suf)"
    and outs: "sublist t outRows \<Longrightarrow> ?os \<noteq> [] \<Longrightarrow> sublist t outs" for t by blast
  have "\<exists>infos. carrierInfos cenv (pn_Password node) (pn_TCPPort node) (pn_TLSPort node) (pn_QUICPort node) = Inr infos \<and>
      sublist (printInfoRows name (pn_Host node) infos []) (pre @ hgRows @ outs @ suf)"
    if "map_of ?os name = Some (Some node)" for name node
  proof -
    from out(2) that obtain infos where
      i: "carrierInfos cenv (pn_Password node) (pn_TCPPort node) (pn_TLSPort node) (pn_QUICPort node) = Inr infos"
      "sublist (printInfoRows name (pn_Host node) infos []) outRows" by blast
    have "?os \<noteq> []" using that by auto
    from sublist_within [OF outs [OF i(2) this], of "pre @ hgRows" suf] i(1) show ?thesis by auto
  qed
  moreover have "sublist hgRows (pre @ hgRows @ outs @ suf)" by (rule sublist_appendI)
  ultimately show ?thesis using details hg(2) by fastforce
qed

text \<open>Without a path the database is not opened.\<close>

lemma Parse_no_db:
  "Parse env openStore ReadFile parseText path [] = Parse env openStore' ReadFile parseText path []"
  by (simp add: Parse_def cong: option.case_cong sum.case_cong)

text \<open>The servers of the \<open>hg\<close> inbound, written out: their addresses, ports and secrets. All of them can be built.\<close>

definition hg_ss_server :: "carrier_env \<Rightarrow> int \<Rightarrow> Hg \<Rightarrow> bytes \<Rightarrow> u16 \<Rightarrow> ss_server" where
  "hg_ss_server cenv now hg pw port =
     \<lparr>ssv_hostWithPort = JoinHostPort (hg_Host hg) port, ssv_preSharedKey = toShadowsocksSharedKey (ce_DeriveN cenv) pw,
       ssv_aeadOverhead = gcmTagOverhead, ssv_saltPool = newSaltPool now\<rparr>"

definition hg_tls_server :: "carrier_env \<Rightarrow> Hg \<Rightarrow> bytes \<Rightarrow> tr_server \<times> np_server" where
  "hg_tls_server cenv hg pw =
     (\<lparr>trs_host = hg_Host hg, trs_port = hg_TLSPort hg,
        trs_passwordHash = toTrojanPasswordHash (ce_SHA224 cenv) (ce_DeriveN cenv) pw, trs_tlsCertKeyPair = hg_TLSCertKeyPair hg\<rparr>,
      \<lparr>nps_host = hg_Host hg, nps_port = hg_TLSPort hg, nps_authToken = basicAuthToken (ce_DeriveN cenv) pw\<rparr>)"

definition hg_quic_server :: "carrier_env \<Rightarrow> Hg \<Rightarrow> bytes \<Rightarrow> sq_server" where
  "hg_quic_server cenv hg pw =
     \<lparr>sqs_host = hg_Host hg, sqs_port = hg_QUICPort hg, sqs_tlsCertKeyPair = hg_TLSCertKeyPair hg,
       sqs_authHash = toSunnyQUICAuthHash (ce_SHA256 cenv) (ce_DeriveN cenv) pw,
       sqs_statelessResetKey = toStatelessResetKey (ce_DeriveN cenv) pw\<rparr>"

lemmas hg_server_defs = hg_ss_server_def hg_tls_server_def hg_quic_server_def

lemma start_hg_total:
  assumes "hg_Password hg = Some pw" "fallbackStart hg = Inr fb"
  shows "start_hg cenv now fallbackStart hg = Inr
    ((case hg_TCPPort hg of None \<Rightarrow> [] | Some port \<Rightarrow> [SsServer (hg_ss_server cenv now hg pw port)]) @
     [FallbackSite fb, case hg_tls_server cenv hg pw of (tr, np) \<Rightarrow> TlsServer tr np, QuicServer (hg_quic_server cenv hg pw)])"
  using assms(2)
  by (cases "hg_TCPPort hg") (auto simp: start_hg_def newServers_Inr [OF assms(1)] ss_NewServer_def assms(1) hg_server_defs)

text \<open>The canonical command line.\<close>

definition cli_args :: "Args \<Rightarrow> string list" where
  "cli_args a = (if ar_ShowInfo a then [''--info''] else []) @ (if ar_RulesDBFile a = [] then [] else [''-db'', ar_RulesDBFile a]) @
     [ar_ConfigFile a]"

lemma flag_names: "split_flag ''info'' = (''info'', None)" "split_flag ''db'' = (''db'', None)"
  by code_simp+

section \<open>Properties\<close>

text \<open>
  What can be written on the command line is read back: with a configuration file that does not
  look like a flag, the options and the file are the ones given, whatever the name of the database
  is and whatever follows the file.
\<close>

theorem cli_roundtrip:
  assumes "length (ar_ConfigFile a) < 2 \<or> hd (ar_ConfigFile a) \<noteq> CHR ''-''"
  shows "cli_Parse (cli_args a @ rest) = Inr a"
proof -
  have stop: "parse_flags (ar_ConfigFile a # rest) fl = Inr (fl, ar_ConfigFile a # rest)" for fl
    using assms by simp
  have db: "parse_flags (''-db'' # x # args) fl = parse_flags args (fl\<lparr>fl_db := x\<rparr>)" for x args fl
    by (simp add: flag_names)
  have info: "parse_flags (''--info'' # args) fl = parse_flags args (fl\<lparr>fl_info := True\<rparr>)" for args fl
    by (simp add: flag_names set_bool_def)
  show ?thesis
    by (cases "ar_ShowInfo a"; cases "ar_RulesDBFile a = []")
       (simp_all add: cli_Parse_def cli_args_def stop db info del: parse_flags.simps)
qed

theorem cli_roundtrip_witness:
  "cli_Parse [''--info'', ''-db'', ''-x'', ''c.json'', ''-v''] = Inr \<lparr>ar_ConfigFile = ''c.json'', ar_RulesDBFile = ''-x'', ar_ShowInfo = True\<rparr>"
  using cli_roundtrip [of "\<lparr>ar_ConfigFile = ''c.json'', ar_RulesDBFile = ''-x'', ar_ShowInfo = True\<rparr>" "[''-v'']"]
  by (simp add: cli_args_def)

text \<open>
  C5. A configuration that was accepted starts, provided its fallback site does: no server that
  \<open>main\<close> builds dereferences a missing password or port. The servers that run are exactly those of
  the configuration: for the \<open>hg\<close> inbound the Trojan and NaiveProxy servers on its TLS port and the
  SunnyQUIC server on its QUIC port, which are not 0, the Shadowsocks server exactly when there is a
  TCP port, on that port, each with the secret its protocol derives from the inbound's password; the
  local server with the configured credentials. At least one of them runs, and the router starts
  in a state that satisfies its invariant.
\<close>

theorem main_serves:
  assumes "cli_Parse osArgs = Inr args" "\<not> ar_ShowInfo args"
    and "Parse env openStore ReadFile parseText (ar_ConfigFile args) (rule_db_path args) = Inr config"
    and "\<And>hg. in_Hg (co_Inbounds config) = Some hg \<Longrightarrow> \<exists>fb. fallbackStart hg = Inr fb"
  shows "\<exists>services router. main_run env cenv openStore ReadFile parseText tabwriter now fallbackStart tls osArgs = Serving services router \<and>
    router_inv env router \<and> (\<exists>s \<in> set services. (\<exists>c. s = LocalServer c) \<or> (\<exists>tr np. s = TlsServer tr np)) \<and>
    (\<forall>srv. LocalServer srv \<in> set services \<longleftrightarrow> (\<exists>c. in_HTTPSOCKS (co_Inbounds config) = Some c \<and>
      srv = \<lparr>hss_httpSOCKS = c, hss_authInfo = \<lparr>Username = hs_Username c, Password = hs_Password c\<rparr>\<rparr>)) \<and>
    (case in_Hg (co_Inbounds config) of
       None \<Rightarrow> \<forall>ss fb tr np sq. {SsServer ss, FallbackSite fb, TlsServer tr np, QuicServer sq} \<inter> set services = {}
     | Some hg \<Rightarrow> hg_TLSPort hg \<noteq> 0 \<and> hg_QUICPort hg \<noteq> 0 \<and> hg_TCPPort hg \<noteq> Some 0 \<and>
        (\<exists>pw. hg_Password hg = Some pw \<and>
          (\<forall>fb. FallbackSite fb \<in> set services \<longleftrightarrow> fallbackStart hg = Inr fb) \<and>
          (\<forall>srv. SsServer srv \<in> set services \<longleftrightarrow> (\<exists>port. hg_TCPPort hg = Some port \<and>
             srv = \<lparr>ssv_hostWithPort = JoinHostPort (hg_Host hg) port, ssv_preSharedKey = toShadowsocksSharedKey (ce_DeriveN cenv) pw,
               ssv_aeadOverhead = gcmTagOverhead, ssv_saltPool = newSaltPool now\<rparr>)) \<and>
          (\<forall>tr np. TlsServer tr np \<in> set services \<longleftrightarrow>
             tr = \<lparr>trs_host = hg_Host hg, trs_port = hg_TLSPort hg,
               trs_passwordHash = toTrojanPasswordHash (ce_SHA224 cenv) (ce_DeriveN cenv) pw, trs_tlsCertKeyPair = hg_TLSCertKeyPair hg\<rparr> \<and>
             np = \<lparr>nps_host = hg_Host hg, nps_port = hg_TLSPort hg, nps_authToken = basicAuthToken (ce_DeriveN cenv) pw\<rparr>) \<and>
          (\<forall>sq. QuicServer sq \<in> set services \<longleftrightarrow>
             sq = \<lparr>sqs_host = hg_Host hg, sqs_port = hg_QUICPort hg, sqs_tlsCertKeyPair = hg_TLSCertKeyPair hg,
               sqs_authHash = toSunnyQUICAuthHash (ce_SHA256 cenv) (ce_DeriveN cenv) pw,
               sqs_statelessResetKey = toStatelessResetKey (ce_DeriveN cenv) pw\<rparr>)))"
proof -
  have ok: "config_ok env config" by (rule Parse_config_ok [OF assms(3) rule_db_path_not_Nil [OF assms(2)]])
  then have nodes: "nodes_ok config" by (simp add: config_ok_iff)
  let ?r = "router_NewClient (co_Routing config) (co_Outbounds config) (rule_db_path args) (mi_TLSKeyLog (co_Misc config)) tls"
  have inv: "router_inv env ?r" using ok by (simp add: router_inv_def router_NewClient_def config_ok_def)
  have run: "main_run env cenv openStore ReadFile parseText tabwriter now fallbackStart tls osArgs =
      (case start_all cenv now fallbackStart config of Inl err \<Rightarrow> Stopped err | Inr services \<Rightarrow> Serving services ?r)"
    using assms(1-3) by (simp add: main_run_def)
  have inb: "in_HTTPSOCKS (co_Inbounds config) \<noteq> None \<or> in_Hg (co_Inbounds config) \<noteq> None" using nodes by (simp add: nodes_ok_def)
  define pre where "pre = (if mi_Profiling (co_Misc config) then [ProfilingServer (JoinHostPort ''127.0.0.1'' (mi_ProfilingPort (co_Misc config)))] else []) @
      (if mi_RulesFileAutoUpdate (co_Misc config) then [RulesUpdates] else [])"
  define post where "post = (if mi_HgBinaryAutoUpdate (co_Misc config) then [BinaryUpdates] else [])"
  define own where "own = (case in_HTTPSOCKS (co_Inbounds config) of None \<Rightarrow> [] | Some c \<Rightarrow> [LocalServer (http_socks_NewServer c)])"
  have pre: "set pre \<union> set post \<subseteq> {RulesUpdates, BinaryUpdates} \<union> range ProfilingServer" by (auto simp: pre_def post_def)
  have local_srv: "LocalServer srv \<in> set own \<longleftrightarrow> (\<exists>c. in_HTTPSOCKS (co_Inbounds config) = Some c \<and>
      srv = \<lparr>hss_httpSOCKS = c, hss_authInfo = \<lparr>Username = hs_Username c, Password = hs_Password c\<rparr>\<rparr>)"
    "set own \<subseteq> range LocalServer" for srv
    by (auto simp: own_def http_socks_NewServer_def ToHTTPSOCKSAuthInfo_def split: option.splits)
  show ?thesis
  proof (cases "in_Hg (co_Inbounds config)")
    case None
    then have "start_all cenv now fallbackStart config = Inr (pre @ own @ post)"
      by (simp add: start_all_def Let_def pre_def post_def own_def)
    moreover have "own \<noteq> []" using inb None by (auto simp: own_def)
    then have "\<exists>s \<in> set own. \<exists>c. s = LocalServer c" using local_srv(2) by (cases own) auto
    ultimately show ?thesis unfolding run using pre local_srv inv None by auto
  next
    case (Some hg)
    then obtain fb where fb: "fallbackStart hg = Inr fb" using assms(4) by blast
    have hg: "hg_ok hg" by (rule nodes_ok_hg [OF nodes Some])
    then obtain pw where pw: "hg_Password hg = Some pw" by (auto simp: hg_ok_def)
    obtain tr np where tls: "hg_tls_server cenv hg pw = (tr, np)" by fastforce
    define ss where "ss = (case hg_TCPPort hg of None \<Rightarrow> [] | Some port \<Rightarrow> [SsServer (hg_ss_server cenv now hg pw port)])"
    have ss: "SsServer srv \<in> set ss \<longleftrightarrow> (\<exists>port. hg_TCPPort hg = Some port \<and> srv = hg_ss_server cenv now hg pw port)"
      "set ss \<subseteq> range SsServer" for srv by (cases "hg_TCPPort hg"; auto simp: ss_def)+
    have all: "start_all cenv now fallbackStart config =
        Inr (pre @ (ss @ [FallbackSite fb, TlsServer tr np, QuicServer (hg_quic_server cenv hg pw)]) @ own @ post)"
      using start_hg_total [where fallbackStart = fallbackStart, OF pw fb, of cenv now] Some tls
      by (simp add: start_all_def Let_def pre_def post_def own_def ss_def)
    have ports: "hg_TLSPort hg \<noteq> 0" "hg_QUICPort hg \<noteq> 0" "hg_TCPPort hg \<noteq> Some 0" using hg by (simp_all add: hg_ok_def)
    let ?all = "set (pre @ (ss @ [FallbackSite fb, TlsServer tr np, QuicServer (hg_quic_server cenv hg pw)]) @ own @ post)"
    have mem: "LocalServer c \<in> ?all \<longleftrightarrow> LocalServer c \<in> set own" "SsServer srv \<in> ?all \<longleftrightarrow> SsServer srv \<in> set ss"
      "FallbackSite f \<in> ?all \<longleftrightarrow> f = fb" "TlsServer t n \<in> ?all \<longleftrightarrow> t = tr \<and> n = np"
      "QuicServer sq \<in> ?all \<longleftrightarrow> sq = hg_quic_server cenv hg pw" for c srv f t n sq
      using pre local_srv(2) ss(2) by auto
    have served: "\<exists>s \<in> ?all. (\<exists>c. s = LocalServer c) \<or> (\<exists>tr np. s = TlsServer tr np)" by auto
    have locals: "LocalServer srv \<in> ?all \<longleftrightarrow> (\<exists>c. in_HTTPSOCKS (co_Inbounds config) = Some c \<and>
        srv = \<lparr>hss_httpSOCKS = c, hss_authInfo = \<lparr>Username = hs_Username c, Password = hs_Password c\<rparr>\<rparr>)" for srv
      by (simp only: mem(1) local_srv(1))
    have fallback: "FallbackSite f \<in> ?all \<longleftrightarrow> fallbackStart hg = Inr f" for f by (simp only: mem(3) fb) auto
    have shadowsocks: "SsServer srv \<in> ?all \<longleftrightarrow> (\<exists>port. hg_TCPPort hg = Some port \<and>
        srv = \<lparr>ssv_hostWithPort = JoinHostPort (hg_Host hg) port, ssv_preSharedKey = toShadowsocksSharedKey (ce_DeriveN cenv) pw,
          ssv_aeadOverhead = gcmTagOverhead, ssv_saltPool = newSaltPool now\<rparr>)" for srv
      by (simp only: mem(2) ss(1) hg_ss_server_def)
    have trojan: "TlsServer t n \<in> ?all \<longleftrightarrow>
        t = \<lparr>trs_host = hg_Host hg, trs_port = hg_TLSPort hg,
          trs_passwordHash = toTrojanPasswordHash (ce_SHA224 cenv) (ce_DeriveN cenv) pw, trs_tlsCertKeyPair = hg_TLSCertKeyPair hg\<rparr> \<and>
        n = \<lparr>nps_host = hg_Host hg, nps_port = hg_TLSPort hg, nps_authToken = basicAuthToken (ce_DeriveN cenv) pw\<rparr>" for t n
      using tls unfolding mem(4) hg_tls_server_def prod.inject by blast
    have quic: "QuicServer sq \<in> ?all \<longleftrightarrow>
        sq = \<lparr>sqs_host = hg_Host hg, sqs_port = hg_QUICPort hg, sqs_tlsCertKeyPair = hg_TLSCertKeyPair hg,
          sqs_authHash = toSunnyQUICAuthHash (ce_SHA256 cenv) (ce_DeriveN cenv) pw,
          sqs_statelessResetKey = toStatelessResetKey (ce_DeriveN cenv) pw\<rparr>" for sq
      using mem(5) [of sq] unfolding hg_quic_server_def .
    show ?thesis unfolding run all sum.case Some option.case
      by (intro exI conjI allI) (rule refl inv served locals ports pw fallback shadowsocks trojan quic)+
  qed
qed

text \<open>
  \<open>--info\<close> shows the details of every accepted configuration, and never looks at a database of
  rules: the result is the same whatever opening one would give. Every outbound has its rows, with
  the credentials a client needs, and so has the \<open>hg\<close> inbound.
\<close>

theorem info_shown:
  assumes "cli_Parse osArgs = Inr args" "ar_ShowInfo args"
    and "Parse env openStore ReadFile parseText (ar_ConfigFile args) [] = Inr config"
  shows "\<exists>details. (\<forall>openStore'. main_run env cenv openStore' ReadFile parseText tabwriter now fallbackStart tls osArgs =
      InfoShown (tabwriter details)) \<and>
    (\<forall>name node. map_of (co_Outbounds config) name = Some (Some node) \<longrightarrow>
      (\<exists>infos. carrierInfos cenv (pn_Password node) (pn_TCPPort node) (pn_TLSPort node) (pn_QUICPort node) = Inr infos \<and>
        sublist (printInfoRows name (pn_Host node) infos []) details)) \<and>
    (\<forall>hg. in_Hg (co_Inbounds config) = Some hg \<longrightarrow>
      (\<exists>infos sp. carrierInfos cenv (hg_Password hg) (hg_TCPPort hg) (hg_TLSPort hg) (hg_QUICPort hg) = Inr infos \<and>
        sublist (printInfoRows ''hg'' (hg_Host hg) infos sp) details))"
proof -
  have "Parse env openStore' ReadFile parseText (ar_ConfigFile args) (rule_db_path args) = Inr config" for openStore'
    using assms(2,3) Parse_no_db [of env openStore' ReadFile parseText _ openStore] by (simp add: rule_db_path_def)
  moreover obtain details where d: "info_text cenv (ar_ConfigFile args) config = Inr details"
    "\<forall>name node. map_of (co_Outbounds config) name = Some (Some node) \<longrightarrow>
      (\<exists>infos. carrierInfos cenv (pn_Password node) (pn_TCPPort node) (pn_TLSPort node) (pn_QUICPort node) = Inr infos \<and>
        sublist (printInfoRows name (pn_Host node) infos []) details)"
    "\<forall>hg. in_Hg (co_Inbounds config) = Some hg \<longrightarrow>
      (\<exists>infos sp. carrierInfos cenv (hg_Password hg) (hg_TCPPort hg) (hg_TLSPort hg) (hg_QUICPort hg) = Inr infos \<and>
        sublist (printInfoRows ''hg'' (hg_Host hg) infos sp) details)"
    using info_text_rows [OF Parse_nodes_ok [OF assms(3)], of cenv "ar_ConfigFile args"] by blast
  ultimately have "main_run env cenv openStore' ReadFile parseText tabwriter now fallbackStart tls osArgs = InfoShown (tabwriter details)"
    for openStore'
    using assms(1,2) by (simp add: main_run_def PrintInfo_def)
  with d(2,3) show ?thesis by blast
qed

section \<open>Witnesses\<close>

lemma sample_info_parse:
  "\<exists>config. Parse sample_env openStore (\<lambda>_. Inr []) (\<lambda>_. Inr (sample_json [])) ''/e/f'' [] = Inr config \<and>
     co_Outbounds config = [(''n'', Some (sample_node\<lparr>pn_TLSCustomCertFile := ''/e/c.pem''\<rparr>))]"
proof -
  have "dec_Config (sample_json []) zero_Config = Inr (sample_conf [] :: (string, prefix list) Config)"
    by (rule sample_decode) simp
  moreover have "validate (sample_conf [] :: (string, prefix list) Config) = Inr ()"
    by (simp add: validate_Inr sample_conf_def inboundsValidator_def httpSOCKSValidator_def hostRule_def sample_hosts
        proxyNodeValidator_def sample_node_def routingValidator_def transportValidator_def transport_defs
        miscValidator_def zero_Misc_def nonNullValueOutboundsRules_def)
  moreover have "\<exists>config. resolveAllFilePathsToConfigFolder (sample_conf [] :: (string, prefix list) Config) ''/e'' = Inr config \<and>
      co_Outbounds config = [(''n'', Some (sample_node\<lparr>pn_TLSCustomCertFile := ''/e/c.pem''\<rparr>))]"
    by (simp add: resolveAllFilePathsToConfigFolder_def sample_conf_def sample_node_def sample_join)
  ultimately show ?thesis
    by (auto simp: Parse_def sample_join split: option.splits)
qed

theorem info_shown_witness:
  "\<exists>details infos. main_run sample_env sample_cenv (\<lambda>_. Inl (ErrNew ''no database'')) (\<lambda>_. Inr []) (\<lambda>_. Inr (sample_json [])) (\<lambda>t. t) 0
      (\<lambda>_. Inl EOF) empty_tls [''-i'', ''/e/f''] = InfoShown details \<and> length infos = 3 \<and>
    sublist (printInfoRows ''n'' ''b'' infos []) details"
proof -
  have cli: "cli_Parse [''-i'', ''/e/f''] = Inr \<lparr>ar_ConfigFile = ''/e/f'', ar_RulesDBFile = [], ar_ShowInfo = True\<rparr>" by code_simp
  obtain config where c: "Parse sample_env (\<lambda>_. Inl (ErrNew ''no database'')) (\<lambda>_. Inr []) (\<lambda>_. Inr (sample_json [])) ''/e/f'' [] = Inr config"
    "co_Outbounds config = [(''n'', Some (sample_node\<lparr>pn_TLSCustomCertFile := ''/e/c.pem''\<rparr>))]"
    using sample_info_parse by blast
  have node: "map_of (co_Outbounds config) ''n'' = Some (Some (sample_node\<lparr>pn_TLSCustomCertFile := ''/e/c.pem''\<rparr>))" by (simp add: c(2))
  have "\<exists>details. main_run sample_env sample_cenv (\<lambda>_. Inl (ErrNew ''no database'')) (\<lambda>_. Inr []) (\<lambda>_. Inr (sample_json [])) (\<lambda>t. t) 0
      (\<lambda>_. Inl EOF) empty_tls [''-i'', ''/e/f''] = InfoShown details \<and>
      (\<exists>infos. carrierInfos sample_cenv (pn_Password sample_node) (pn_TCPPort sample_node) (pn_TLSPort sample_node) (pn_QUICPort sample_node) = Inr infos \<and>
        sublist (printInfoRows ''n'' (pn_Host sample_node) infos []) details)"
    using info_shown [OF cli, where tabwriter = "\<lambda>t. t" and now = 0 and fallbackStart = "\<lambda>_. Inl EOF" and tls = empty_tls and cenv = sample_cenv,
        unfolded Args.simps, OF TrueI c(1)] node by fastforce
  then obtain details infos where d: "main_run sample_env sample_cenv (\<lambda>_. Inl (ErrNew ''no database'')) (\<lambda>_. Inr []) (\<lambda>_. Inr (sample_json [])) (\<lambda>t. t) 0
      (\<lambda>_. Inl EOF) empty_tls [''-i'', ''/e/f''] = InfoShown details"
    "carrierInfos sample_cenv (pn_Password sample_node) (pn_TCPPort sample_node) (pn_TLSPort sample_node) (pn_QUICPort sample_node) = Inr infos"
    "sublist (printInfoRows ''n'' (pn_Host sample_node) infos []) details" by blast
  moreover from d(2) have "length infos = 3" by (auto simp: carrierInfos_def sample_node_def)
  ultimately show ?thesis by (auto simp: sample_node_def)
qed

text \<open>An \<open>hg\<close> inbound with a TCP port and nothing else.\<close>

definition sample_hg_json :: json where
  "sample_hg_json = JObj [(''inbounds'', JObj [(''hg'', JObj [(''host'', JStr ''a''),
     (''password'', JStr (bytes_str (hex_Encode (replicate 16 0)))), (''tcp-port'', JNum 8388)])])]"

definition sample_hg :: Hg where
  "sample_hg = zero_Hg\<lparr>hg_Host := ''a'', hg_Password := Some (replicate 16 0), hg_TCPPort := Some 8388,
     hg_TLSPort := 443, hg_QUICPort := 443\<rparr>"

definition sample_hg_conf :: "(string, prefix list) Config" where
  "sample_hg_conf = \<lparr>co_Inbounds = \<lparr>in_HTTPSOCKS = None, in_Hg = Some sample_hg\<rparr>, co_Outbounds = [], co_Routing = None,
     co_Misc = zero_Misc\<rparr>"

lemma sample_hg_decode: "dec_Config sample_hg_json zero_Config = Inr sample_hg_conf"
  by (simp add: sample_hg_json_def sample_hg_conf_def dec_Config_def decode_defs zero_Config_def zero_Inbounds_def dec_Inbounds_def
      Hg_UnmarshalJSONFrom_def zero_Hg_def sample_hg_def defaultTLSPort_def defaultQUICPort_def sample_password)

lemma sample_hg_parse:
  "Parse sample_env (\<lambda>_. Inr sample_store) (\<lambda>_. Inr []) (\<lambda>_. Inr sample_hg_json) ''/e/f'' ''d'' = Inr sample_hg_conf"
proof -
  have "validate sample_hg_conf = Inr ()"
    by (simp add: validate_Inr sample_hg_conf_def sample_hg_def zero_Hg_def inboundsValidator_def hgValidator_def hostRule_def
        sample_hosts miscValidator_def zero_Misc_def nonNullValueOutboundsRules_def)
  moreover have "co_Routing sample_hg_conf = None" by (simp add: sample_hg_conf_def)
  moreover have "resolveAllFilePathsToConfigFolder sample_hg_conf folder = Inr sample_hg_conf" for folder
    by (simp add: resolveAllFilePathsToConfigFolder_def resolve_hg_def sample_hg_conf_def sample_hg_def zero_Hg_def)
  ultimately show ?thesis by (simp add: Parse_def sample_hg_decode)
qed

theorem main_serves_witness:
  "\<exists>services router srv. main_run sample_env sample_cenv (\<lambda>_. Inr sample_store) (\<lambda>_. Inr []) (\<lambda>_. Inr sample_hg_json) (\<lambda>t. t) 0
      (fallback_Start (Inr 8080) None False) empty_tls [''-db'', ''d'', ''/e/f''] = Serving services router \<and> router_inv sample_env router \<and>
    SsServer srv \<in> set services \<and> ssv_hostWithPort srv = JoinHostPort ''a'' 8388 \<and>
    ssv_preSharedKey srv = toShadowsocksSharedKey (ce_DeriveN sample_cenv) (replicate 16 0)"
proof -
  have cli: "cli_Parse [''-db'', ''d'', ''/e/f''] = Inr \<lparr>ar_ConfigFile = ''/e/f'', ar_RulesDBFile = ''d'', ar_ShowInfo = False\<rparr>" by code_simp
  have hg: "in_Hg (co_Inbounds sample_hg_conf) = Some sample_hg" "hg_TCPPort sample_hg = Some 8388" "hg_Host sample_hg = ''a''"
    "hg_Password sample_hg = Some (replicate 16 0)"
    by (simp_all add: sample_hg_conf_def sample_hg_def)
  have "Parse sample_env (\<lambda>_. Inr sample_store) (\<lambda>_. Inr []) (\<lambda>_. Inr sample_hg_json) ''/e/f''
      (rule_db_path \<lparr>ar_ConfigFile = ''/e/f'', ar_RulesDBFile = ''d'', ar_ShowInfo = False\<rparr>) = Inr sample_hg_conf"
    by (simp add: rule_db_path_def sample_hg_parse)
  moreover have "\<exists>fb. fallback_Start (Inr 8080) None False h = Inr fb" for h by (simp add: fallback_Start_def ignoreClosed_def)
  ultimately show ?thesis
    using main_serves [OF cli, where config = sample_hg_conf and fallbackStart = "fallback_Start (Inr 8080) None False"
        and cenv = sample_cenv and tabwriter = "\<lambda>t. t" and now = 0 and tls = empty_tls]
    unfolding hg option.case by (simp only: Args.simps option.inject) (fastforce simp del: replicate.simps)
qed

end
