(* ===== verification/NpFastOpen.thy ===== *)
theory NpFastOpen
  imports NpCarrier
begin

text \<open>
  Fast open in \<open>transport/np_carrier/client.go\<close> and \<open>conn.go\<close>: a tunnel is returned before the response
  to its CONNECT request has come, and its reads wait in \<open>pendingBody\<close> until it has, and then for the
  bytes of its body, which may come late or never. The goroutine of the request, the arrival of the
  body, the reads and the closing of the tunnel interleave in every way. Of \<open>net/http\<close> the model
  uses that a cancelled context ends the request and the reads of its body.
\<close>

section \<open>State\<close>

text \<open>
  The client and the number of its connection; whether the channel \<open>done\<close> is closed; the reader of
  the tunnel, over the body of the response or, after an error, over a stream that only reports
  it; how many pieces of that stream (its segments and its end) have not arrived; whether the tunnel
  was closed, the request's context is cancelled and the writing side is closed; the sizes of the
  reads that wait, and what the stream gave to the reads. \<open>fo_start\<close> keeps the reader as it was when
  the response came. A read that a cancelled context ended goes to \<open>fo_aborted\<close>, and \<open>fo_cut\<close> is what
  it left of the stream that had arrived.
\<close>

record fo_state =
  fo_client :: np_client
  fo_conn :: nat
  fo_done :: bool
  fo_body :: paddingReader
  fo_start :: paddingReader
  fo_late :: nat
  fo_closed :: bool
  fo_cancelled :: bool
  fo_pipeClosed :: bool
  fo_waiting :: "nat list"
  fo_got :: "(bytes \<times> goerr option) list"
  fo_cut :: "paddingReader option"
  fo_aborted :: "(bytes \<times> goerr option) list"

definition new_body :: "reader \<Rightarrow> paddingReader" where
  "new_body r = \<lparr>pr_r = r, pr_count = 0, payloadRemaining = 0, paddingRemaining = 0\<rparr>"

definition fo_init :: "np_client \<Rightarrow> nat \<Rightarrow> fo_state" where
  "fo_init c n = \<lparr>fo_client = c, fo_conn = n, fo_done = False, fo_body = new_body \<lparr>segs = [], fin = EOF, glue = False\<rparr>,
     fo_start = new_body \<lparr>segs = [], fin = EOF, glue = False\<rparr>, fo_late = 0, fo_closed = False,
     fo_cancelled = False, fo_pipeClosed = False, fo_waiting = [], fo_got = [], fo_cut = None, fo_aborted = []\<rparr>"

section \<open>Steps\<close>

text \<open>\<open>pendingBody.Read\<close>: it waits for the response, reports its error, or reads its body.\<close>

datatype pending = Pending | Failed goerr | Arrived reader

definition pending_Read :: "nat \<Rightarrow> pending \<Rightarrow> (bytes \<times> goerr option \<times> pending) option" where
  "pending_Read n b =
     (case b of
        Pending \<Rightarrow> None
      | Failed err \<Rightarrow> Some ([], Some err, b)
      | Arrived r \<Rightarrow> (case rd_read n r of (d, e, r') \<Rightarrow> Some (d, e, Arrived r')))"

text \<open>The stream it stands for once the response is there.\<close>

definition pending_reader :: "pending \<Rightarrow> reader" where
  "pending_reader b =
     (case b of
        Pending \<Rightarrow> \<lparr>segs = [], fin = EOF, glue = False\<rparr>
      | Failed err \<Rightarrow> \<lparr>segs = [], fin = err, glue = False\<rparr>
      | Arrived r \<Rightarrow> r)"

definition pending_pieces :: "pending \<Rightarrow> nat" where
  "pending_pieces b = (case b of Arrived r \<Rightarrow> Suc (length (segs r)) | _ \<Rightarrow> 0)"

text \<open>The goroutine of \<open>fastOpen\<close>: \<open>connect\<close>, then the body or the error, then \<open>close(body.done)\<close>.\<close>

definition fo_connect :: "(nat \<times> string) res \<Rightarrow> reader \<Rightarrow> fo_state \<Rightarrow> fo_state" where
  "fo_connect resp body s =
     (case np_connect resp (fo_conn s) (fo_client s) of (r, c) \<Rightarrow>
        let p = (case r of Inl err \<Rightarrow> Failed err | Inr padding \<Rightarrow> Arrived body); b = new_body (pending_reader p) in
        s\<lparr>fo_client := c, fo_done := True, fo_body := b, fo_start := b, fo_late := pending_pieces p\<rparr>)"

text \<open>\<open>closeFunc\<close>: it cancels the context of the request and closes the pipe of the writing side.\<close>

definition fo_closeFunc :: "fo_state \<Rightarrow> fo_state" where
  "fo_closeFunc s = s\<lparr>fo_cancelled := True, fo_pipeClosed := True\<rparr>"

text \<open>
  Whether a read that left \<open>b\<close> and returned \<open>e\<close> used only what has arrived: the segments that \<open>b\<close> no
  longer has, and the end of the stream only when that has come too.
\<close>

definition read_arrived :: "nat \<Rightarrow> goerr option \<Rightarrow> paddingReader \<Rightarrow> bool" where
  "read_arrived late e b \<longleftrightarrow> late \<le> Suc (length (segs (pr_r b))) \<and> (e \<noteq> None \<longrightarrow> late = 0)"

text \<open>What a body whose context is cancelled still gives: the segments that have arrived, then the error.\<close>

definition cut_reader :: "nat \<Rightarrow> paddingReader \<Rightarrow> paddingReader" where
  "cut_reader late b =
     b\<lparr>pr_r := \<lparr>segs = take (Suc (length (segs (pr_r b))) - late) (segs (pr_r b)), fin = CtxCanceled, glue = False\<rparr>\<rparr>"

definition aborted_body :: "fo_state \<Rightarrow> paddingReader" where
  "aborted_body s = (case fo_cut s of Some b \<Rightarrow> b | None \<Rightarrow> cut_reader (fo_late s) (fo_body s))"

text \<open>The next read ends without waiting and without the context's error.\<close>

definition read_served :: "nat \<Rightarrow> fo_state \<Rightarrow> bool" where
  "read_served n s \<longleftrightarrow> fo_cut s = None \<and>
     (case padding_Read n (fo_body s) of (d, e, b) \<Rightarrow> read_arrived (fo_late s) e b)"

text \<open>
  With \<open>own = False\<close> the step is of the world: the response comes, a piece of its body arrives, a read
  of a non-empty buffer starts, the tunnel or its writing side is closed. A request whose context is
  cancelled ends with its error, and so does a read of a body that would have to wait; nothing of the
  body arrives any more.
\<close>

inductive fo_step :: "bool \<Rightarrow> fo_state \<Rightarrow> fo_state \<Rightarrow> bool" where
  Respond: "\<not> fo_done s \<Longrightarrow> fo_step False s (fo_connect resp body s)"
| Cancelled: "\<not> fo_done s \<Longrightarrow> fo_cancelled s \<Longrightarrow> fo_step True s (fo_connect (Inl CtxCanceled) body s)"
| Deliver: "fo_done s \<Longrightarrow> \<not> fo_cancelled s \<Longrightarrow> 0 < fo_late s \<Longrightarrow> fo_step False s (s\<lparr>fo_late := fo_late s - 1\<rparr>)"
| StartRead: "0 < n \<Longrightarrow> fo_step False s (s\<lparr>fo_waiting := fo_waiting s @ [n]\<rparr>)"
| EndRead: "fo_done s \<Longrightarrow> fo_waiting s = n # ns \<Longrightarrow> read_served n s \<Longrightarrow> padding_Read n (fo_body s) = (d, e, b) \<Longrightarrow>
    fo_step True s (s\<lparr>fo_waiting := ns, fo_body := b, fo_got := fo_got s @ [(d, e)]\<rparr>)"
| AbortRead: "fo_done s \<Longrightarrow> fo_cancelled s \<Longrightarrow> fo_waiting s = n # ns \<Longrightarrow> \<not> read_served n s \<Longrightarrow>
    padding_Read n (aborted_body s) = (d, e, b) \<Longrightarrow>
    fo_step True s (s\<lparr>fo_waiting := ns, fo_cut := Some b, fo_aborted := fo_aborted s @ [(d, e)]\<rparr>)"
| CloseConn: "fo_step False s ((fo_closeFunc s)\<lparr>fo_closed := True\<rparr>)"
| CloseWrite: "fo_step False s (s\<lparr>fo_pipeClosed := True\<rparr>)"

inductive_cases fo_stepE: "fo_step own s t"

definition fo_any :: "fo_state \<Rightarrow> fo_state \<Rightarrow> bool" where
  "fo_any s t \<longleftrightarrow> (\<exists>own. fo_step own s t)"

section \<open>Lemmas\<close>

text \<open>A pending body reads as the stream it stands for.\<close>

lemma pending_Read_reader:
  assumes "b \<noteq> Pending" "0 < n"
  shows "\<exists>b'. pending_Read n b = Some (fst (rd_read n (pending_reader b)), fst (snd (rd_read n (pending_reader b))), b') \<and>
    pending_reader b' = snd (snd (rd_read n (pending_reader b)))"
  using assms by (cases b) (auto simp: pending_Read_def pending_reader_def rd_read_def split: prod.splits)

definition fo_inv :: "fo_state \<Rightarrow> bool" where
  "fo_inv s \<longleftrightarrow> (\<forall>n \<in> set (fo_waiting s). 0 < n) \<and> (fo_closed s \<longrightarrow> fo_cancelled s) \<and>
     (fo_aborted s \<noteq> [] \<longrightarrow> fo_cancelled s) \<and> (fo_cut s \<noteq> None \<longrightarrow> fo_cancelled s) \<and>
     (\<not> fo_done s \<longrightarrow> fo_got s = [] \<and> fo_body s = fo_start s) \<and>
     (np_ok (fo_start s) \<longrightarrow> np_ok (fo_body s) \<and> fin (pr_r (fo_body s)) = fin (pr_r (fo_start s)) \<and>
        np_data (fo_start s) = concat (map fst (fo_got s)) @ np_data (fo_body s) \<and>
        (\<forall>(d, e) \<in> set (fo_got s). e = None \<or> e = Some (fin (pr_r (fo_start s)))) \<and>
        ((\<exists>d x. (d, Some x) \<in> set (fo_got s)) \<longrightarrow> np_data (fo_body s) = []))"

lemma fo_inv_init: "fo_inv (fo_init c n)"
  by (simp add: fo_inv_def fo_init_def)

lemma fo_inv_step: "fo_step own s t \<Longrightarrow> fo_inv s \<Longrightarrow> fo_inv t"
proof (induction rule: fo_step.induct)
  case (EndRead s n ns d e b)
  then have n: "0 < n" by (simp add: fo_inv_def)
  show ?case
  proof (cases "np_ok (fo_start s)")
    case True
    with EndRead have ok: "np_ok (fo_body s)" by (simp add: fo_inv_def)
    note laws = np.rd_data [OF ok n EndRead(4)] np.rd_final [OF ok n EndRead(4)] np.rd_ok [OF ok n EndRead(4)]
    have "x = fin (pr_r (fo_body s)) \<and> np_data b = []" if "e = Some x" for x
      using np.rd_error [OF ok n] EndRead(4) that by blast
    with EndRead laws True show ?thesis by (cases e) (auto simp: fo_inv_def)
  qed (use EndRead in \<open>auto simp: fo_inv_def\<close>)
qed (auto simp: fo_inv_def fo_connect_def fo_closeFunc_def Let_def split: prod.splits)

lemma fo_inv_steps: "fo_any\<^sup>*\<^sup>* s t \<Longrightarrow> fo_inv s \<Longrightarrow> fo_inv t"
  by (induction rule: rtranclp_induct) (auto simp: fo_any_def intro: fo_inv_step)

definition fo_measure :: "fo_state \<Rightarrow> nat" where
  "fo_measure s = length (fo_waiting s) + of_bool (\<not> fo_done s)"

lemma fo_measure_step: "fo_step True s t \<Longrightarrow> fo_measure t < fo_measure s"
  by (auto elim!: fo_stepE simp: fo_measure_def fo_connect_def Let_def split: prod.splits)

text \<open>A read that waits can end when nothing is outstanding, and when the context is cancelled.\<close>

lemma fo_progress:
  assumes "fo_cancelled s \<or> fo_done s \<and> fo_late s = 0 \<and> fo_cut s = None" "fo_waiting s \<noteq> []"
  shows "\<exists>t. fo_step True s t"
proof (cases "fo_done s")
  case True
  obtain n ns where w: "fo_waiting s = n # ns" using assms(2) by (cases "fo_waiting s") auto
  obtain d e b where r: "padding_Read n (fo_body s) = (d, e, b)" by (metis prod_cases3)
  obtain d2 e2 b2 where a: "padding_Read n (aborted_body s) = (d2, e2, b2)" by (metis prod_cases3)
  show ?thesis
  proof (cases "read_served n s")
    case True
    with \<open>fo_done s\<close> w r show ?thesis by (blast intro: EndRead)
  next
    case False
    then have "fo_cancelled s" using assms(1) r by (auto simp: read_served_def read_arrived_def)
    with \<open>fo_done s\<close> w a False show ?thesis by (blast intro: AbortRead)
  qed
qed (use assms in \<open>blast intro: Cancelled\<close>)

section \<open>Properties\<close>

text \<open>
  C23. A tunnel that was opened fast reads what the server sends: no read returns before the response,
  the bytes of all reads in their order are a prefix of the payload of the response's body, padding
  removed, an error is the one the body ends with, and it comes when the payload is complete. A
  refused request is an empty body that ends with the error. Only the cancelled context of a closed
  tunnel ends reads in another way: these are kept apart.
\<close>

theorem fast_open_reads:
  assumes "fo_any\<^sup>*\<^sup>* (fo_init c n) t" "np_ok (fo_start t)"
  shows "(\<not> fo_done t \<longrightarrow> fo_got t = []) \<and>
    np_data (fo_start t) = concat (map fst (fo_got t)) @ np_data (fo_body t) \<and>
    (\<forall>d x. (d, Some x) \<in> set (fo_got t) \<longrightarrow> x = fin (pr_r (fo_start t)) \<and> concat (map fst (fo_got t)) = np_data (fo_start t)) \<and>
    (fo_aborted t \<noteq> [] \<longrightarrow> fo_cancelled t)"
  using fo_inv_steps [OF assms(1) fo_inv_init] assms(2) by (fastforce simp: fo_inv_def)

text \<open>
  C24. Closing a tunnel that was opened fast releases its reads, before the response, after it and in
  the middle of its body: the program takes finitely many steps by itself, and when it can take no
  more, a read waits only in a tunnel that was not closed, for a response or a piece of its body
  that has not come.
\<close>

theorem fast_open_close_releases:
  "wfP (\<lambda>t s. fo_step True s t) \<and>
   (\<forall>t. fo_any\<^sup>*\<^sup>* (fo_init c n) t \<longrightarrow> \<not> (\<exists>t'. fo_step True t t') \<longrightarrow>
      (fo_closed t \<longrightarrow> fo_waiting t = []) \<and> (fo_waiting t \<noteq> [] \<longrightarrow> \<not> fo_done t \<or> 0 < fo_late t))"
proof
  show "wfP (\<lambda>t s. fo_step True s t)"
    by (rule wfp_if_convertible_to_nat [of _ fo_measure]) (rule fo_measure_step)
  have "(fo_closed t \<longrightarrow> fo_cancelled t) \<and> (fo_cut t \<noteq> None \<longrightarrow> fo_cancelled t)" if "fo_any\<^sup>*\<^sup>* (fo_init c n) t" for t
    using fo_inv_steps [OF that fo_inv_init] by (simp add: fo_inv_def)
  then show "\<forall>t. fo_any\<^sup>*\<^sup>* (fo_init c n) t \<longrightarrow> \<not> (\<exists>t'. fo_step True t t') \<longrightarrow>
      (fo_closed t \<longrightarrow> fo_waiting t = []) \<and> (fo_waiting t \<noteq> [] \<longrightarrow> \<not> fo_done t \<or> 0 < fo_late t)"
    using fo_progress by (metis not_gr_zero)
qed

section \<open>Witnesses\<close>

definition sample_np_body :: reader where
  "sample_np_body = \<lparr>segs = [[0, 2], [1, 7, 8, 0]], fin = EOF, glue = False\<rparr>"

lemma fo_any_step: "fo_any\<^sup>*\<^sup>* a b \<Longrightarrow> fo_step own b c \<Longrightarrow> fo_any\<^sup>*\<^sup>* a c"
  by (rule rtranclp.rtrancl_into_rtrancl) (auto simp: fo_any_def)

text \<open>
  The response comes with its first two segments; a read of four bytes gets two, and a second one waits.
\<close>

lemma sample_fast_open:
  "\<exists>t. fo_any\<^sup>*\<^sup>* (fo_init sample_np_client 0) t \<and> fo_start t = new_body sample_np_body \<and> fo_got t = [([7, 8], None)] \<and>
     fo_done t \<and> fo_late t = 1 \<and> fo_waiting t = [4] \<and> \<not> read_served 4 t \<and> fo_aborted t = []"
proof -
  let ?s = "fo_init sample_np_client 0"
  let ?b = "new_body sample_np_body"
  have "fst (padding_Read 4 ?b) = [7, 8]" "fst (snd (padding_Read 4 ?b)) = None"
    "length (segs (pr_r (snd (snd (padding_Read 4 ?b))))) = 0"
    "fst (snd (padding_Read 4 (snd (snd (padding_Read 4 ?b))))) = Some EOF" by code_simp+
  then obtain b where b: "padding_Read 4 ?b = ([7, 8], None, b)" "length (segs (pr_r b)) = 0"
    "fst (snd (padding_Read 4 b)) = Some EOF"
    by (metis prod.collapse)
  have "fo_any\<^sup>*\<^sup>* ?s (?s\<lparr>fo_waiting := [4]\<rparr>)"
    using fo_any_step [OF rtranclp.rtrancl_refl StartRead, of 4 ?s] by (simp add: fo_init_def)
  note run = fo_any_step [OF this Respond, of "Inr (200, ''x'')" sample_np_body]
  let ?t = "fo_connect (Inr (200, ''x'')) sample_np_body (?s\<lparr>fo_waiting := [4]\<rparr>)"
  have t: "fo_done ?t" "fo_body ?t = ?b" "fo_start ?t = ?b" "fo_waiting ?t = [4]" "fo_got ?t = []" "fo_late ?t = 3"
    "\<not> fo_cancelled ?t" "fo_cut ?t = None" "fo_aborted ?t = []"
    by (simp_all add: fo_connect_def np_connect_def pending_reader_def pending_pieces_def fo_init_def Let_def sample_np_body_def)
  have run1: "fo_any\<^sup>*\<^sup>* ?s ?t" by (rule run) (simp add: fo_init_def)
  define u where "u = ?t\<lparr>fo_late := fo_late ?t - 1\<rparr>"
  have run2: "fo_any\<^sup>*\<^sup>* ?s u" unfolding u_def by (rule fo_any_step [OF run1 Deliver]) (simp_all add: t)
  define v where "v = u\<lparr>fo_late := fo_late u - 1\<rparr>"
  have run3: "fo_any\<^sup>*\<^sup>* ?s v" unfolding v_def by (rule fo_any_step [OF run2 Deliver]) (simp_all add: u_def t)
  define w where "w = v\<lparr>fo_waiting := [], fo_body := b, fo_got := fo_got v @ [([7, 8], None)]\<rparr>"
  have "fo_any\<^sup>*\<^sup>* ?s w" unfolding w_def
    by (rule fo_any_step [OF run3 EndRead]) (use b in \<open>simp_all add: v_def u_def t read_served_def read_arrived_def\<close>)
  then have "fo_any\<^sup>*\<^sup>* ?s (w\<lparr>fo_waiting := fo_waiting w @ [4]\<rparr>)" by (rule fo_any_step [OF _ StartRead]) simp
  moreover have "\<not> read_served 4 (w\<lparr>fo_waiting := fo_waiting w @ [4]\<rparr>)"
    using b(3) by (auto simp: read_served_def read_arrived_def w_def v_def u_def t)
  ultimately show ?thesis by (intro exI conjI) (assumption | simp add: w_def v_def u_def t)+
qed

theorem fast_open_reads_witness:
  "\<exists>t. fo_any\<^sup>*\<^sup>* (fo_init sample_np_client 0) t \<and> fo_done t \<and> np_data (fo_start t) = [7, 8] @ np_data (fo_body t)"
proof -
  obtain t where t: "fo_any\<^sup>*\<^sup>* (fo_init sample_np_client 0) t" "fo_start t = new_body sample_np_body" "fo_got t = [([7, 8], None)]"
    using sample_fast_open by blast
  have "np_ok (new_body sample_np_body)" by code_simp
  with fast_open_reads [OF t(1)] t show ?thesis by auto
qed

text \<open>The tunnel is closed while the second read waits in the middle of the body.\<close>

theorem fast_open_close_releases_witness:
  "\<exists>t. fo_any\<^sup>*\<^sup>* (fo_init sample_np_client 0) t \<and> fo_closed t \<and> fo_late t = 1 \<and> fo_waiting t = [] \<and> fo_aborted t \<noteq> []"
proof -
  let ?s = "fo_init sample_np_client 0"
  obtain t where t: "fo_any\<^sup>*\<^sup>* ?s t" "fo_done t" "fo_late t = 1" "fo_waiting t = [4]" "\<not> read_served 4 t" "fo_aborted t = []"
    using sample_fast_open by blast
  define u where "u = (fo_closeFunc t)\<lparr>fo_closed := True\<rparr>"
  have u: "fo_done u" "fo_cancelled u" "fo_waiting u = [4]" "\<not> read_served 4 u" "fo_closed u" "fo_late u = 1"
    using t by (simp_all add: u_def fo_closeFunc_def read_served_def)
  have run: "fo_any\<^sup>*\<^sup>* ?s u" unfolding u_def by (rule fo_any_step [OF t(1) CloseConn])
  obtain d e b where r: "padding_Read 4 (aborted_body u) = (d, e, b)" by (metis prod_cases3)
  define v where "v = u\<lparr>fo_waiting := [], fo_cut := Some b, fo_aborted := fo_aborted u @ [(d, e)]\<rparr>"
  have v: "fo_any\<^sup>*\<^sup>* ?s v" unfolding v_def by (rule fo_any_step [OF run AbortRead [OF u(1-4) r]])
  have "\<not> (\<exists>t'. fo_step True v t')" using u by (auto simp: v_def elim!: fo_stepE)
  with fast_open_close_releases [of sample_np_client 0] v have "fo_closed v \<longrightarrow> fo_waiting v = []" by blast
  with v u show ?thesis by (intro exI [of _ v]) (simp add: v_def)
qed

end
