(* ===== verification/NpConn.thy ===== *)
theory NpConn
  imports NpFastOpen
begin

text \<open>
  \<open>transport/np_carrier/conn.go\<close>: the connection that both ends make of a CONNECT stream, with its
  optional close functions and its padding, and the writer that flushes every write. It is a source
  of bytes like the others.
\<close>

section \<open>The connection\<close>

text \<open>
  The reader and the writer below the padding, with the counters of the padding; \<open>'s\<close> is what the
  close functions change.
\<close>

record 's np_conn =
  nc_r :: paddingReader
  nc_w :: paddingWriter
  nc_padding :: bool
  nc_closeFunc :: "('s \<Rightarrow> goerr option \<times> 's) option"
  nc_closeWrite :: "('s \<Rightarrow> goerr option \<times> 's) option"
  nc_localAddr :: string
  nc_remoteAddr :: string

definition np_newConn ::
  "reader \<Rightarrow> writer \<Rightarrow> bool \<Rightarrow> ('s \<Rightarrow> goerr option \<times> 's) option \<Rightarrow> ('s \<Rightarrow> goerr option \<times> 's) option \<Rightarrow> string \<Rightarrow> string \<Rightarrow> 's np_conn" where
  "np_newConn r w padding closeFunc closeWrite local remote =
     \<lparr>nc_r = fresh_reader r, nc_w = \<lparr>pw_w = w, pw_count = 0\<rparr>, nc_padding = padding, nc_closeFunc = closeFunc,
       nc_closeWrite = closeWrite, nc_localAddr = local, nc_remoteAddr = remote\<rparr>"

definition np_Conn_Read :: "nat \<Rightarrow> 's np_conn \<Rightarrow> bytes \<times> goerr option \<times> 's np_conn" where
  "np_Conn_Read n c = (case np_newConn_read (nc_padding c) n (nc_r c) of (d, e, r) \<Rightarrow> (d, e, c\<lparr>nc_r := r\<rparr>))"

definition np_Conn_Write :: "(nat \<Rightarrow> nat) \<Rightarrow> bytes \<Rightarrow> 's np_conn \<Rightarrow> nat \<times> goerr option \<times> 's np_conn" where
  "np_Conn_Write draws p c = (case np_newConn_write (nc_padding c) draws p (nc_w c) of (n, e, w) \<Rightarrow> (n, e, c\<lparr>nc_w := w\<rparr>))"

definition np_Conn_Close :: "'s np_conn \<Rightarrow> 's \<Rightarrow> goerr option \<times> 's" where
  "np_Conn_Close c s = (case nc_closeFunc c of None \<Rightarrow> (None, s) | Some f \<Rightarrow> f s)"

definition np_Conn_CloseWrite :: "'s np_conn \<Rightarrow> 's \<Rightarrow> goerr option \<times> 's" where
  "np_Conn_CloseWrite c s = (case nc_closeWrite c of None \<Rightarrow> (None, s) | Some f \<Rightarrow> f s)"

text \<open>The setters of deadlines do nothing.\<close>

definition np_Conn_SetDeadline :: "nat \<Rightarrow> 's np_conn \<Rightarrow> goerr option \<times> 's np_conn" where
  "np_Conn_SetDeadline t c = (None, c)"

text \<open>An address that is only a string.\<close>

definition tcpStringAddr_Network :: "string \<Rightarrow> string" where "tcpStringAddr_Network addr = ''tcp''"
definition tcpStringAddr_String :: "string \<Rightarrow> string" where "tcpStringAddr_String addr = addr"

section \<open>Flushing\<close>

text \<open>The writer of a response keeps bytes back until they are flushed; \<open>rc\<close> is the result of \<open>Flush\<close>.\<close>

record flushWriter =
  fw_w :: writer
  fw_flushed :: bytes

definition rc_Flush :: "goerr option \<Rightarrow> flushWriter \<Rightarrow> goerr option \<times> flushWriter" where
  "rc_Flush rc fw = (case rc of None \<Rightarrow> (None, fw\<lparr>fw_flushed := sent (fw_w fw)\<rparr>) | Some err \<Rightarrow> (Some err, fw))"

definition flushWriter_Write :: "goerr option \<Rightarrow> bytes \<Rightarrow> flushWriter \<Rightarrow> nat \<times> goerr option \<times> flushWriter" where
  "flushWriter_Write rc p fw =
     (case w_write p (fw_w fw) of
        (n, Some err, w') \<Rightarrow> (n, Some err, fw\<lparr>fw_w := w'\<rparr>)
      | (n, None, w') \<Rightarrow> (case rc_Flush rc (fw\<lparr>fw_w := w'\<rparr>) of (err, fw') \<Rightarrow> (n, err, fw')))"

text \<open>After a write without an error nothing is kept back.\<close>

lemma flushWriter_Write_flushed:
  assumes "flushWriter_Write rc p fw = (n, None, fw')"
  shows "n = length p \<and> fw_flushed fw' = sent (fw_w fw') \<and> sent (fw_w fw') = sent (fw_w fw) @ p"
proof -
  obtain m e w' where w: "w_write p (fw_w fw) = (m, e, w')" by (metis prod_cases3)
  from w_write_sent [OF w] assms w show ?thesis
    by (cases e; cases rc) (auto simp: flushWriter_Write_def rc_Flush_def)
qed

section \<open>The two ends\<close>

text \<open>
  What the close functions of the two ends change: the body that is read, the pipe into the
  request and the context of the request.
\<close>

record np_stream =
  ns_bodyClosed :: bool
  ns_pipeClosed :: bool
  ns_cancelled :: bool

definition body_Close :: "goerr option \<Rightarrow> np_stream \<Rightarrow> goerr option \<times> np_stream" where
  "body_Close err s = (err, s\<lparr>ns_bodyClosed := True\<rparr>)"

definition pipeWriter_Close :: "np_stream \<Rightarrow> goerr option \<times> np_stream" where
  "pipeWriter_Close s = (None, s\<lparr>ns_pipeClosed := True\<rparr>)"

text \<open>The connection of \<open>DialTCP\<close> after a response, that of \<open>fastOpen\<close>, and the server's.\<close>

definition np_client_conn :: "reader \<Rightarrow> writer \<Rightarrow> bool \<Rightarrow> goerr option \<Rightarrow> string \<Rightarrow> string \<Rightarrow> np_stream np_conn" where
  "np_client_conn respBody pipeWriter padding closeErr local remote =
     np_newConn respBody pipeWriter padding
       (Some (\<lambda>s. case body_Close closeErr s of (err, s1) \<Rightarrow> (err, snd (pipeWriter_Close s1))))
       (Some pipeWriter_Close) local remote"

definition np_fastOpen_conn :: "reader \<Rightarrow> writer \<Rightarrow> string \<Rightarrow> string \<Rightarrow> np_stream np_conn" where
  "np_fastOpen_conn body pipeWriter local remote =
     np_newConn body pipeWriter True (Some (\<lambda>s. pipeWriter_Close (s\<lparr>ns_cancelled := True\<rparr>))) (Some pipeWriter_Close) local remote"

definition np_server_conn :: "np_server \<Rightarrow> reader \<Rightarrow> writer \<Rightarrow> bool \<Rightarrow> goerr option \<Rightarrow> string \<Rightarrow> np_stream np_conn" where
  "np_server_conn srv body w padding closeErr remoteAddr =
     np_newConn body w padding (Some (body_Close closeErr)) None
       (tcpStringAddr_String (JoinHostPort (nps_host srv) (nps_port srv))) (tcpStringAddr_String remoteAddr)"

text \<open>
  Closing a client's tunnel ends both directions, and closing its write side only the request. On
  the server, closing the write side does nothing.
\<close>

lemma close_effects:
  "np_Conn_Close (np_client_conn r w padding err local remote) s = (err, s\<lparr>ns_bodyClosed := True, ns_pipeClosed := True\<rparr>)"
  "np_Conn_CloseWrite (np_client_conn r w padding err local remote) s = (None, s\<lparr>ns_pipeClosed := True\<rparr>)"
  "np_Conn_Close (np_fastOpen_conn r w local remote) s = (None, s\<lparr>ns_cancelled := True, ns_pipeClosed := True\<rparr>)"
  "np_Conn_CloseWrite (np_fastOpen_conn r w local remote) s = (None, s\<lparr>ns_pipeClosed := True\<rparr>)"
  "np_Conn_Close (np_server_conn srv r w padding err a) s = (err, s\<lparr>ns_bodyClosed := True\<rparr>)"
  "np_Conn_CloseWrite (np_server_conn srv r w padding err a) s = (None, s)"
  by (simp_all add: np_Conn_Close_def np_Conn_CloseWrite_def np_client_conn_def np_fastOpen_conn_def np_server_conn_def np_newConn_def
      body_Close_def pipeWriter_Close_def)

section \<open>The connection is a source of bytes\<close>

definition nc_data :: "'s np_conn \<Rightarrow> bytes" where
  "nc_data c = (if nc_padding c then np_data (nc_r c) else contents (pr_r (nc_r c)))"

definition nc_ok :: "'s np_conn \<Rightarrow> bool" where
  "nc_ok c \<longleftrightarrow> (nc_padding c \<longrightarrow> np_ok (nc_r c))"

lemma np_Conn_Read_cases:
  assumes "np_Conn_Read n c = (d, e, c')"
  shows "nc_padding c' = nc_padding c \<and>
    (if nc_padding c then padding_Read n (nc_r c) = (d, e, nc_r c')
     else rd_read n (pr_r (nc_r c)) = (d, e, pr_r (nc_r c')))"
  using assms by (auto simp: np_Conn_Read_def np_newConn_read_def split: prod.splits if_splits)

interpretation npc: byte_source np_Conn_Read nc_data "\<lambda>c. fin (pr_r (nc_r c))" "\<lambda>c. rd_left (pr_r (nc_r c))" nc_ok
proof (unfold_locales, goal_cases)
  case (1 s n d e s')
  with np_Conn_Read_cases [OF 1(3)] show ?case
    by (cases "nc_padding s") (auto simp: nc_ok_def nc_data_def dest: np.rd_data tcp.rd_data [OF TrueI])
next
  case (2 s n d e s')
  with np_Conn_Read_cases [OF 2(3)] show ?case
    by (cases "nc_padding s") (auto simp: nc_ok_def dest: np.rd_final tcp.rd_final [OF TrueI])
next
  case (3 s n d e s')
  with np_Conn_Read_cases [OF 3(3)] show ?case
    by (cases "nc_padding s") (auto simp: nc_ok_def dest: np.rd_bound tcp.rd_bound [OF TrueI])
next
  case (4 s n d e s')
  with np_Conn_Read_cases [OF 4(3)] show ?case
    by (cases "nc_padding s") (auto simp: nc_ok_def dest: np.rd_ok)
next
  case (5 s n d x s')
  with np_Conn_Read_cases [OF 5(3)] show ?case
    by (cases "nc_padding s") (auto simp: nc_ok_def nc_data_def dest: np.rd_error tcp.rd_error [OF TrueI])
next
  case (6 s n d s')
  with np_Conn_Read_cases [OF 6(3)] show ?case
    by (cases "nc_padding s") (auto simp: nc_ok_def dest: np.rd_progress tcp.rd_progress [OF TrueI])
qed

fun np_Conn_Writes :: "(nat \<Rightarrow> nat) \<Rightarrow> bytes list \<Rightarrow> 's np_conn \<Rightarrow> 's np_conn" where
  "np_Conn_Writes draws [] c = c"
| "np_Conn_Writes draws (p # ps) c = np_Conn_Writes draws ps (snd (snd (np_Conn_Write draws p c)))"

lemma np_Conn_Writes_padded:
  "nc_padding c \<Longrightarrow> nc_w (np_Conn_Writes draws ps c) = padding_Writes draws ps (nc_w c)"
  by (induction ps arbitrary: c) (auto simp: np_Conn_Write_def np_newConn_write_def split: prod.splits)

lemma np_Conn_Writes_plain:
  "\<not> nc_padding c \<Longrightarrow> wplan (pw_w (nc_w c)) = [] \<Longrightarrow>
   sent (pw_w (nc_w (np_Conn_Writes draws ps c))) = sent (pw_w (nc_w c)) @ concat ps"
  by (induction ps arbitrary: c) (simp_all add: np_Conn_Write_def np_newConn_write_def sent_def)

lemma written_contents:
  assumes "contents r = sent (pw_w (nc_w (np_Conn_Writes draws ps (np_newConn r0 \<lparr>wout = [], wplan = []\<rparr> padding cf cw l1 m1))))"
  shows "nc_ok (np_newConn r w padding cf' cw' l2 m2) \<and> nc_data (np_newConn r w padding cf' cw' l2 m2) = concat ps"
proof (cases padding)
  case True
  have "contents r = pw_out (padding_Writes draws ps fresh_writer)"
    using assms True np_Conn_Writes_padded [of "np_newConn r0 \<lparr>wout = [], wplan = []\<rparr> padding cf cw l1 m1" draws ps]
    by (simp add: np_newConn_def fresh_writer_def pw_out_def)
  then have "np_rest (fresh_reader r) = Some (concat ps)"
    using padding_Writes_ok [of fresh_writer draws ps] by (auto simp: np_rest_def fresh_reader_def fresh_writer_def pw_out_def sent_def)
  then show ?thesis using True by (simp add: nc_ok_def nc_data_def np_newConn_def np_ok_def np_data_def fresh_reader_def)
next
  case False
  then show ?thesis
    using assms np_Conn_Writes_plain [of "np_newConn r0 \<lparr>wout = [], wplan = []\<rparr> padding cf cw l1 m1" draws ps]
    by (simp add: nc_ok_def nc_data_def np_newConn_def fresh_reader_def sent_def)
qed

section \<open>Properties\<close>

text \<open>
  C22. A tunnel of NaiveProxy carries every byte, with padding and without: what is written into the
  connection of one end, in whatever pieces and with whatever padding sizes, a copy out of
  the connection of the other end returns, without an error and in order, when both ends took the
  same view of the padding header, for every way the network cuts the stream and every buffer size.
\<close>

theorem np_tunnel_delivers:
  assumes "contents r = sent (pw_w (nc_w (np_Conn_Writes draws ps (np_newConn r0 \<lparr>wout = [], wplan = []\<rparr> padding cf cw l1 m1))))"
    "fin r = EOF" "0 < n" "wplan w = []" "rd_left r < k"
  shows "\<exists>c' w'. copy_loop np_Conn_Read n k (np_newConn r w0 padding cf' cw' l2 m2) w = Some (None, c', w') \<and>
    sent w' = sent w @ concat ps"
proof -
  let ?c = "np_newConn r w0 padding cf' cw' l2 m2"
  note c = written_contents [OF assms(1), of w0 cf' cw' l2 m2]
  have reader: "pr_r (nc_r ?c) = r" by (simp add: np_newConn_def fresh_reader_def)
  obtain e c' w' where run: "copy_loop np_Conn_Read n k ?c w = Some (e, c', w')"
    using npc.copy_terminates [of ?c n k w] c assms(3,5) reader by auto
  from npc.copy_delivers [OF _ assms(3,4) run] c assms(2) reader run show ?thesis by simp
qed

theorem np_tunnel_delivers_witness:
  "\<exists>c' w'. copy_loop np_Conn_Read 2 99 (np_server_conn sample_np_server
       (mk_reader [sent (pw_w (nc_w (np_Conn_Writes (\<lambda>i. i) [[1, 2, 3], [4]]
         (np_client_conn (mk_reader []) \<lparr>wout = [], wplan = []\<rparr> True None ''l'' ''r''))))])
       \<lparr>wout = [], wplan = []\<rparr> True None ''a'') \<lparr>wout = [], wplan = []\<rparr> = Some (None, c', w') \<and>
     sent w' = sent \<lparr>wout = [], wplan = []\<rparr> @ concat [[1, 2, 3], [4]]"
  unfolding np_client_conn_def np_server_conn_def
proof (rule np_tunnel_delivers)
  have "nc_w (np_Conn_Writes (\<lambda>i. i) [[1, 2, 3], [4]] (np_newConn (mk_reader []) \<lparr>wout = [], wplan = []\<rparr> True
      (Some (\<lambda>s. case body_Close None s of (err, s1) \<Rightarrow> (err, snd (pipeWriter_Close s1)))) (Some pipeWriter_Close) ''l'' ''r'')) =
      padding_Writes (\<lambda>i. i) [[1, 2, 3], [4]] fresh_writer"
    by (simp add: np_Conn_Writes_padded np_newConn_def fresh_writer_def del: np_Conn_Writes.simps padding_Writes.simps)
  then show "rd_left (mk_reader [sent (pw_w (nc_w (np_Conn_Writes (\<lambda>i. i) [[1, 2, 3], [4]] (np_newConn (mk_reader []) \<lparr>wout = [], wplan = []\<rparr> True
      (Some (\<lambda>s. case body_Close None s of (err, s1) \<Rightarrow> (err, snd (pipeWriter_Close s1)))) (Some pipeWriter_Close) ''l'' ''r''))))]) < 99"
    by (simp add: fresh_writer_def padding_Write_def write_frames.simps np_const_defs pw_out_def sent_def
        rd_left_def pad_frame_def mk_reader_def contents_def)
qed (simp_all add: mk_reader_def contents_def)

end
