(* ===== verification/Servers.thy ===== *)
theory Servers
  imports Startup
begin

text \<open>
  The \<open>ListenAndServe\<close> of the carriers' servers, which joins the servers that \<open>main\<close> starts with the
  network layer: \<open>transport/ss_carrier/server.go\<close>, \<open>transport/tr_np_carrier/server.go\<close>,
  \<open>transport/np_carrier/server.go\<close> and \<open>transport/sq_carrier/server.go\<close>, and the profiling server of \<open>main.go\<close>.
  \<open>listen\<close> is the operating system's answer for an address.
\<close>

section \<open>Listening\<close>

text \<open>
  What a server does when it runs: the addresses it asked to listen on, the result it returns with
  and what happened on the way, with the registry of listeners after it.
\<close>

type_synonym 'c served = "goerr option \<times> 'c ln_event list \<times> nat set"

definition served_of :: "goerr option \<times> 'c ln_event list \<times> nat set \<times> nat set \<Rightarrow> 'c served" where
  "served_of x = (case x of (err, ev, reg, reg') \<Rightarrow> (err, ev, reg'))"

definition ss_ListenAndServe :: "(string \<Rightarrow> nat res) \<Rightarrow> 'c res list \<Rightarrow> nat set \<Rightarrow> ss_server \<Rightarrow> 'c served" where
  "ss_ListenAndServe listen incoming reg srv = served_of (ListenTCPAndServe (listen (ssv_hostWithPort srv)) incoming reg)"

text \<open>\<open>np_carrier\<close>'s \<open>Serve\<close>: the end of \<open>http.Server.Serve\<close>.\<close>

definition np_Serve :: "goerr option \<Rightarrow> goerr option" where
  "np_Serve serveErr = ignoreClosed serveErr"

text \<open>
  The TLS port. The connection listener between the Trojan and the NaiveProxy server is closed on
  return, which ends \<open>np_Serve\<close> too.
\<close>

definition tr_np_ListenAndServe ::
  "tls_env \<Rightarrow> (string \<Rightarrow> nat res) \<Rightarrow> 'c res list \<Rightarrow> nat set \<Rightarrow> tr_server \<Rightarrow> tls_state \<Rightarrow> 'c served \<times> tls_state" where
  "tr_np_ListenAndServe tenv listen incoming reg srv t =
     (case TLSServerConfig tenv (trs_host srv) (trs_tlsCertKeyPair srv) False t of
        (Inl err, t') \<Rightarrow> ((Some err, [], reg), t')
      | (Inr tlsConfig, t') \<Rightarrow>
          (served_of (ListenTLSAndAccept (listen (JoinHostPort (trs_host srv) (trs_port srv))) incoming reg), t'))"

definition sq_ListenAndServe ::
  "tls_env \<Rightarrow> (string \<Rightarrow> nat res) \<Rightarrow> goerr option \<Rightarrow> 'c res list \<Rightarrow> nat set \<Rightarrow> sq_server \<Rightarrow> tls_state \<Rightarrow> 'c served \<times> tls_state" where
  "sq_ListenAndServe tenv listenPacket listenEarly incoming reg srv t =
     (case TLSServerConfig tenv (sqs_host srv) (sqs_tlsCertKeyPair srv) True t of
        (Inl err, t') \<Rightarrow> ((Some err, [], reg), t')
      | (Inr tlsConfig, t') \<Rightarrow>
          (case ListenQUICEarlyAndServe (listenPacket (JoinHostPort (sqs_host srv) (sqs_port srv))) listenEarly incoming reg of
             (err, ev, closes, reg') \<Rightarrow> ((err, ev, reg'), t')))"

text \<open>The Trojan server and the NaiveProxy server can also be run on a port of their own.\<close>

definition tr_ListenAndServe ::
  "tls_env \<Rightarrow> (string \<Rightarrow> nat res) \<Rightarrow> 'c res list \<Rightarrow> nat set \<Rightarrow> tr_server \<Rightarrow> tls_state \<Rightarrow> 'c served \<times> tls_state" where
  "tr_ListenAndServe tenv listen incoming reg srv t =
     (case TLSServerConfig tenv (trs_host srv) (trs_tlsCertKeyPair srv) False t of
        (Inl err, t') \<Rightarrow> ((Some err, [], reg), t')
      | (Inr tlsConfig, t') \<Rightarrow>
          (served_of (ListenTLSAndAccept (listen (JoinHostPort (trs_host srv) (trs_port srv))) incoming reg), t'))"

text \<open>The listeners of an HTTP server; \<open>serveErr\<close> is the result of \<open>http.Server.Serve\<close>.\<close>

definition ListenUnencryptedHTTPAndServeWithListenerCallback ::
  "nat res \<Rightarrow> goerr option \<Rightarrow> bool \<Rightarrow> nat set \<Rightarrow> goerr option \<times> 'c ln_event list \<times> nat set \<times> nat set" where
  "ListenUnencryptedHTTPAndServeWithListenerCallback listen serveErr onListen reg =
     listenTCPAndAccept listen (\<lambda>ln. (if onListen then [Callback] else [], serveErr)) False reg"

definition ListenUnencryptedHTTPAndServe ::
  "nat res \<Rightarrow> goerr option \<Rightarrow> nat set \<Rightarrow> goerr option \<times> 'c ln_event list \<times> nat set \<times> nat set" where
  "ListenUnencryptedHTTPAndServe listen serveErr reg =
     ListenUnencryptedHTTPAndServeWithListenerCallback listen serveErr False reg"

definition ListenTLSAndServe ::
  "nat res \<Rightarrow> goerr option \<Rightarrow> nat set \<Rightarrow> goerr option \<times> 'c ln_event list \<times> nat set \<times> nat set" where
  "ListenTLSAndServe listen serveErr reg = listenTCPAndAccept listen (\<lambda>ln. ([], serveErr)) False reg"

text \<open>The field \<open>tlsCertKeyPair\<close> of the NaiveProxy server, which nothing else uses, is the argument \<open>pair\<close>.\<close>

definition np_ListenAndServe ::
  "tls_env \<Rightarrow> TLSCertKeyPair option \<Rightarrow> (string \<Rightarrow> nat res) \<Rightarrow> goerr option \<Rightarrow> nat set \<Rightarrow> np_server \<Rightarrow> tls_state \<Rightarrow> 'c served \<times> tls_state" where
  "np_ListenAndServe tenv pair listen serveErr reg srv t =
     (case TLSServerConfig tenv (nps_host srv) pair False t of
        (Inl err, t') \<Rightarrow> ((Some err, [], reg), t')
      | (Inr tlsConfig, t') \<Rightarrow>
          (served_of (ListenTLSAndServe (listen (JoinHostPort (nps_host srv) (nps_port srv))) serveErr reg), t'))"

section \<open>Context values\<close>

text \<open>
  The values that a context carries for the log, newest first, \<open>util/contextutil/util.go\<close>. \<open>WithValues\<close>
  takes keys and values in turn.
\<close>

type_synonym ctx_values = "(string \<times> string) list"

fun with_pairs :: "ctx_values \<Rightarrow> string list \<Rightarrow> ctx_values" where
  "with_pairs ctx (k # v # kv) = with_pairs ((k, v) # ctx) kv"
| "with_pairs ctx kv = ctx"

definition WithValues :: "ctx_values \<Rightarrow> string list \<Rightarrow> ctx_values res" where
  "WithValues ctx kv =
     (if length kv mod 2 \<noteq> 0 then Inl (Panic ''odd numbers of key-value pairs'') else Inr (with_pairs ctx kv))"

definition WithSourceAndInboundValues :: "ctx_values \<Rightarrow> string \<Rightarrow> string \<Rightarrow> ctx_values res" where
  "WithSourceAndInboundValues ctx sourceAddr inbound = WithValues ctx [''source'', sourceAddr, ''inbound'', inbound]"

lemma WithSourceAndInboundValues_lookup:
  "\<exists>ctx'. WithSourceAndInboundValues ctx sourceAddr inbound = Inr ctx' \<and>
     map_of ctx' = (map_of ctx)(''source'' \<mapsto> sourceAddr, ''inbound'' \<mapsto> inbound)"
  by (simp add: WithSourceAndInboundValues_def WithValues_def)

section \<open>The requests of the program itself\<close>

text \<open>
  \<open>HTTPClientThroughRouter\<close>: the \<open>DialContext\<close> of the client that downloads updates. \<open>dial\<close> is \<open>DialTCP\<close> of
  the router.
\<close>

definition HTTPClientThroughRouter ::
  "(string \<Rightarrow> string \<Rightarrow> u16 res) \<Rightarrow> (SocketAddress \<Rightarrow> ('s, 'c) io) \<Rightarrow> string \<Rightarrow> string \<Rightarrow> ('s, 'c) io" where
  "HTTPClientThroughRouter LookupPort dial network host =
     io_bind (io_lift (toSocketAddrFromNetworkAddr LookupPort network host)) dial"

text \<open>\<open>DialTCP\<close> of a Trojan client, which sends nothing before its first write.\<close>

definition tr_DialTCP :: "(string \<Rightarrow> tls_config \<Rightarrow> netconn res) \<Rightarrow> tr_client \<Rightarrow> SocketAddress \<Rightarrow> tr_clientConn res" where
  "tr_DialTCP DialTLS c address =
     (case DialTLS (trn_serverHostWithPort c) (trn_tlsConfig c) of
        Inl err \<Rightarrow> Inl (ErrWrap ''fail to connect to the server'' err)
      | Inr tlsConn \<Rightarrow> Inr (tr_newClientConn tlsConn address (trn_passwordHash c)))"

section \<open>What a running start listens on\<close>

text \<open>
  The address of each service, of the TCP ones and of the QUIC one; the local port may have a second
  address.
\<close>

fun tcp_addrs :: "service \<Rightarrow> string list" where
  "tcp_addrs (ProfilingServer addr) = [addr]"
| "tcp_addrs (SsServer srv) = [ssv_hostWithPort srv]"
| "tcp_addrs (TlsServer tr np) = [JoinHostPort (trs_host tr) (trs_port tr)]"
| "tcp_addrs (LocalServer c) =
     (case listen_addrs (hss_httpSOCKS c) of (addr, addr2) \<Rightarrow> addr # (case addr2 of None \<Rightarrow> [] | Some a \<Rightarrow> [a]))"
| "tcp_addrs s = []"

fun udp_addrs :: "service \<Rightarrow> string list" where
  "udp_addrs (QuicServer sq) = [JoinHostPort (sqs_host sq) (sqs_port sq)]"
| "udp_addrs s = []"

section \<open>Lemmas\<close>

text \<open>A listening loop returns with the registry it found, whether or not it could listen.\<close>

lemma served_registry:
  "(\<And>ln. listen addr = Inr ln \<Longrightarrow> ln \<notin> reg) \<Longrightarrow> snd (snd (served_of (listenTCPAndAccept (listen addr) h onFinish reg))) = reg"
  by (auto simp: served_of_def listenTCPAndAccept_def split: sum.splits prod.splits)

lemma TLSServerConfig_error:
  "TLSServerConfig tenv host pair http3 t = (Inl err, t') \<Longrightarrow> t' = t"
  by (auto simp: TLSServerConfig_def store_server_configs_def Let_def split: option.splits)

text \<open>The servers of an accepted \<open>hg\<close> inbound and where they listen.\<close>

lemma start_hg_addrs:
  assumes "start_hg cenv now fallbackStart hg = Inr services"
  shows "concat (map tcp_addrs services) =
      (case hg_TCPPort hg of None \<Rightarrow> [] | Some port \<Rightarrow> [JoinHostPort (hg_Host hg) port]) @ [JoinHostPort (hg_Host hg) (hg_TLSPort hg)] \<and>
    concat (map udp_addrs services) = [JoinHostPort (hg_Host hg) (hg_QUICPort hg)]"
proof -
  from assms obtain pw where pw: "hg_Password hg = Some pw"
    by (auto simp: start_hg_def tr_np_NewServer_def tr_NewServer_def split: sum.splits if_splits)
  show ?thesis
    using assms by (auto simp: start_hg_def newServers_Inr [OF pw] ss_NewServer_def pw split: sum.splits if_splits option.splits)
qed

text \<open>
  An update is downloaded by the rules as any local program would be: the host of its URL is routed
  as a domain, so a router that rejects it rejects the update.
\<close>

lemma update_is_routed:
  assumes "CHR ''['' \<notin> set host" "CHR '']'' \<notin> set host" "ParseAddr host = None" "LookupPort network (ToA port) = Inr port"
  shows "HTTPClientThroughRouter LookupPort (router_DialTCP env cenv netDial dialCarrier) network (JoinHostPort host port) =
    router_DialTCP env cenv netDial dialCarrier (NewSocketAddressByDomain host port)"
  using assms by (simp add: HTTPClientThroughRouter_def toSocketAddrFromNetworkAddr_def toSocketAddr_def io_bind_def fun_eq_iff)

section \<open>Properties\<close>

text \<open>
  What the program listens on once it has started is what the configuration says, each address
  once and in this order: the profiling port on the loopback address, the Shadowsocks port if there
  is one, the TLS port, the local port with its IPv4 twin for \<open>::1\<close>; and over UDP the QUIC port.
\<close>

theorem main_listens:
  assumes "start_all cenv now fallbackStart config = Inr services"
  shows "concat (map tcp_addrs services) =
      (if mi_Profiling (co_Misc config) then [JoinHostPort ''127.0.0.1'' (mi_ProfilingPort (co_Misc config))] else []) @
      (case in_Hg (co_Inbounds config) of
         None \<Rightarrow> []
       | Some hg \<Rightarrow> (case hg_TCPPort hg of None \<Rightarrow> [] | Some port \<Rightarrow> [JoinHostPort (hg_Host hg) port]) @
           [JoinHostPort (hg_Host hg) (hg_TLSPort hg)]) @
      (case in_HTTPSOCKS (co_Inbounds config) of
         None \<Rightarrow> []
       | Some c \<Rightarrow>
           (if hs_Host c = ''::'' then [JoinHostPort [] (hs_Port c)]
            else if hs_Host c = ''::1'' then [JoinHostPort ''::1'' (hs_Port c), JoinHostPort ''127.0.0.1'' (hs_Port c)]
            else [JoinHostPort (hs_Host c) (hs_Port c)])) \<and>
    concat (map udp_addrs services) =
      (case in_Hg (co_Inbounds config) of None \<Rightarrow> [] | Some hg \<Rightarrow> [JoinHostPort (hg_Host hg) (hg_QUICPort hg)])"
proof -
  let ?inb = "co_Inbounds config"
  obtain hgs where hgs: "(case in_Hg ?inb of None \<Rightarrow> Inr [] | Some hg \<Rightarrow> start_hg cenv now fallbackStart hg) = Inr hgs"
    and s: "services = (if mi_Profiling (co_Misc config) then [ProfilingServer (JoinHostPort ''127.0.0.1'' (mi_ProfilingPort (co_Misc config)))] else []) @
      (if mi_RulesFileAutoUpdate (co_Misc config) then [RulesUpdates] else []) @ hgs @
      (case in_HTTPSOCKS ?inb of None \<Rightarrow> [] | Some c \<Rightarrow> [LocalServer (http_socks_NewServer c)]) @
      (if mi_HgBinaryAutoUpdate (co_Misc config) then [BinaryUpdates] else [])"
    using assms by (auto simp: start_all_def Let_def split: sum.splits)
  have "concat (map tcp_addrs hgs) = (case in_Hg ?inb of None \<Rightarrow> []
      | Some hg \<Rightarrow> (case hg_TCPPort hg of None \<Rightarrow> [] | Some port \<Rightarrow> [JoinHostPort (hg_Host hg) port]) @ [JoinHostPort (hg_Host hg) (hg_TLSPort hg)])"
    "concat (map udp_addrs hgs) = (case in_Hg ?inb of None \<Rightarrow> [] | Some hg \<Rightarrow> [JoinHostPort (hg_Host hg) (hg_QUICPort hg)])"
    using hgs start_hg_addrs by (auto split: option.splits)
  then show ?thesis
    unfolding s by (auto simp: http_socks_NewServer_def listen_addrs_def Let_def split: option.split)
qed

theorem main_listens_witness:
  "\<exists>services. start_all sample_cenv 0 (\<lambda>_. Inl EOF) sample_resolved = Inr services \<and>
     concat (map tcp_addrs services) = [JoinHostPort ''a'' 1080] \<and> concat (map udp_addrs services) = []"
proof -
  obtain services where s: "start_all sample_cenv 0 (\<lambda>_. Inl EOF) sample_resolved = Inr services"
    by (simp add: start_all_def sample_resolved_def sample_conf_def Let_def)
  from main_listens [OF s] s show ?thesis
    by (simp add: sample_resolved_def sample_conf_def zero_Misc_def)
qed

text \<open>
  A server whose certificate cannot be loaded returns the error before it listens: the port stays
  free, no listener is registered, and no configuration is kept for the host. A server that could
  listen leaves the registry as it found it when it returns.
\<close>

theorem tls_server_fails_early:
  assumes "\<And>addr ln. listen addr = Inr ln \<Longrightarrow> ln \<notin> reg"
    and "tr_np_ListenAndServe tenv listen incoming reg srv t = ((err, ev, reg'), t')"
  shows "reg' = reg \<and> (\<forall>pair e. trs_tlsCertKeyPair srv = Some pair \<and> tlsH2ServerConfigMap t (trs_host srv) = None \<and>
    te_LoadX509KeyPair tenv (ck_CertFile pair) (ck_KeyFile pair) = Some e \<longrightarrow> err = Some e \<and> ev = [] \<and> t' = t)"
proof (cases "fst (TLSServerConfig tenv (trs_host srv) (trs_tlsCertKeyPair srv) False t)")
  case (Inl e)
  then have "TLSServerConfig tenv (trs_host srv) (trs_tlsCertKeyPair srv) False t = (Inl e, t)"
    using TLSServerConfig_error by (metis prod.collapse)
  with assms(2) show ?thesis by (auto simp: tr_np_ListenAndServe_def TLSServerConfig_def split: option.splits)
next
  case (Inr cfg)
  then obtain t1 where cfg: "TLSServerConfig tenv (trs_host srv) (trs_tlsCertKeyPair srv) False t = (Inr cfg, t1)" by (metis prod.collapse)
  have "snd (snd (served_of (listenTCPAndAccept (listen (JoinHostPort (trs_host srv) (trs_port srv)))
      (\<lambda>ln. acceptNetConn incoming) False reg))) = reg"
    by (rule served_registry) (rule assms(1))
  moreover have "served_of (listenTCPAndAccept (listen (JoinHostPort (trs_host srv) (trs_port srv)))
      (\<lambda>ln. acceptNetConn incoming) False reg) = (err, ev, reg')"
    using assms(2) cfg by (simp add: tr_np_ListenAndServe_def ListenTLSAndAccept_def)
  ultimately have "reg' = reg" by simp
  with cfg show ?thesis by (auto simp: TLSServerConfig_def)
qed

theorem tls_server_fails_early_witness:
  "\<exists>srv t'. trs_tlsCertKeyPair srv = Some \<lparr>ck_CertFile = ''c'', ck_KeyFile = ''k''\<rparr> \<and>
    tr_np_ListenAndServe (sample_tls_env\<lparr>te_LoadX509KeyPair := (\<lambda>c k. Some EOF)\<rparr>) (\<lambda>addr. Inr 0) ([] :: nat res list) {} srv empty_tls =
      ((Some EOF, [], {}), empty_tls)"
proof -
  define srv where "srv = \<lparr>trs_host = ''h'', trs_port = 443, trs_passwordHash = [],
    trs_tlsCertKeyPair = Some \<lparr>ck_CertFile = ''c'', ck_KeyFile = ''k''\<rparr>\<rparr>"
  let ?tenv = "sample_tls_env\<lparr>te_LoadX509KeyPair := (\<lambda>c k. Some EOF)\<rparr>"
  obtain err ev reg' t' where r: "tr_np_ListenAndServe ?tenv (\<lambda>addr. Inr 0) ([] :: nat res list) {} srv empty_tls = ((err, ev, reg'), t')"
    by (metis prod_cases3 surj_pair)
  have "reg' = {} \<and> err = Some EOF \<and> ev = [] \<and> t' = empty_tls"
    using tls_server_fails_early [OF _ r] by (simp add: srv_def empty_tls_def)
  with r show ?thesis by (intro exI [of _ srv]) (simp add: srv_def)
qed

end
