(* ===== verification/Restart.thy ===== *)
theory Restart
  imports Updater NetUtil
begin

text \<open>
  The update of the program while it runs: the endless loop of \<open>util/updater/cron.go\<close>, the callback
  that \<open>main.go\<close> gives to it and \<open>selfRestart\<close>. A process that goes on, one replaced by \<open>execve\<close> and one
  that exits are the outcomes; starting a program is an argument.
\<close>

section \<open>The loop of the updates\<close>


section \<open>Starting the new program\<close>






section \<open>The names of the downloads\<close>

lemma HasSuffix_append [simp]: "HasSuffix (x @ suf) suf"
  by (simp add: HasSuffix_def)



section \<open>One update\<close>















section \<open>Properties\<close>













end
