(* ===== verification/EndToEnd.thy ===== *)
theory EndToEnd
  imports Servers
begin

text \<open>
  A connection all the way: a local program speaks SOCKS to the local port, the router decides for
  an outbound, its Trojan or Shadowsocks client sends the request, and the server of the same
  password at the other end tunnels it. This composes \<open>SocksServer\<close>, \<open>Router\<close>, \<open>Carriers\<close>, \<open>TrCarrier\<close> and
  \<open>SsCarrier\<close>.
\<close>

section \<open>Where a router's clients come from\<close>

text \<open>
  Every client that a router keeps was built from the outbound of its name, with the transport of
  the routing.
\<close>

definition built_client :: "carrier_env \<Rightarrow> ('re, 'ps) router \<Rightarrow> string \<Rightarrow> carrier \<Rightarrow> bool" where
  "built_client cenv s name c \<longleftrightarrow> (\<exists>r node tls tls'. rt_routing s = Some r \<and> map_of (rt_outbounds s) name = Some (Some node) \<and>
     newCarrierClient cenv (tp_TCP (ro_Transport r)) (Some node) (rt_tlsKeyLog s) tls = (Inr c, tls'))"

definition clients_built :: "carrier_env \<Rightarrow> ('re, 'ps) router \<Rightarrow> bool" where
  "clients_built cenv s \<longleftrightarrow> (\<forall>name c. rt_carrierClients s name = Some c \<longrightarrow> built_client cenv s name c)"

lemma newCarrierClient_node: "newCarrierClient cenv tr node k tls = (Inr c, tls') \<Longrightarrow> \<exists>n. node = Some n"
  by (cases node) (auto simp: newCarrierClient_def split: if_splits)

lemma built_client_cong:
  assumes "rt_outbounds t = rt_outbounds s" "rt_tlsKeyLog t = rt_tlsKeyLog s"
    "map_option ro_Transport (rt_routing t) = map_option ro_Transport (rt_routing s)"
  shows "built_client cenv t name c \<longleftrightarrow> built_client cenv s name c"
  using assms unfolding built_client_def by (cases "rt_routing t"; cases "rt_routing s") auto

lemma getCarrierClient_built:
  assumes "getCarrierClient cenv name s = (r, t)" "clients_built cenv s"
  shows "clients_built cenv t \<and> (\<forall>c. r = Inr c \<longrightarrow> built_client cenv s name c)"
proof -
  have frame: "built_client cenv t n c \<longleftrightarrow> built_client cenv s n c" for n c
    using getCarrierClient_frame [OF assms(1)] by (intro built_client_cong) simp_all
  show ?thesis
  proof (cases "rt_carrierClients s name")
    case (Some c)
    with assms show ?thesis by (auto simp: getCarrierClient_def clients_built_def)
  next
    case None
    have "(\<forall>c. r = Inr c \<longrightarrow> built_client cenv s name c \<and> rt_carrierClients t = (rt_carrierClients s)(name \<mapsto> c)) \<and>
        ((\<exists>e. r = Inl e) \<longrightarrow> rt_carrierClients t = rt_carrierClients s)"
    proof (cases "rt_routing s")
      case (Some ro)
      let ?node = "case map_of (rt_outbounds s) name of None \<Rightarrow> None | Some node \<Rightarrow> node"
      obtain got tls where n: "newCarrierClient cenv (tp_TCP (ro_Transport ro)) ?node (rt_tlsKeyLog s) (rt_tls s) = (got, tls)"
        by (metis surj_pair)
      then have "got = Inr c \<Longrightarrow> \<exists>node. map_of (rt_outbounds s) name = Some (Some node)" for c
        using newCarrierClient_node by (fastforce split: option.splits)
      with n assms(1) None Some show ?thesis
        by (cases got) (fastforce simp: getCarrierClient_def built_client_def)+
    qed (use assms(1) None in \<open>auto simp: getCarrierClient_def\<close>)
    then show ?thesis using assms(2) frame by (cases r) (auto simp: clients_built_def)
  qed
qed

lemma router_next_built:
  assumes "router_next env cenv addr s = (r, t)" "clients_built cenv s"
  shows "clients_built cenv t"
  using assms getCarrierClient_built [of cenv _ s]
  by (auto simp: router_next_def split: sum.splits prod.splits if_splits)

lemma updateRouting_built:
  assumes "updateRouting env openStore upd s = (r, t)" "clients_built cenv s"
  shows "clients_built cenv t"
proof -
  have "rt_outbounds t = rt_outbounds s \<and> rt_tlsKeyLog t = rt_tlsKeyLog s \<and> rt_carrierClients t = rt_carrierClients s \<and>
      map_option ro_Transport (rt_routing t) = map_option ro_Transport (rt_routing s)"
    using assms(1) by (auto simp: updateRouting_def split: sum.splits option.splits goerr.splits if_splits)
  then show ?thesis using assms(2) built_client_cong [of t s] by (auto simp: clients_built_def)
qed

lemma clients_built_reachable:
  "(router_step env cenv)\<^sup>*\<^sup>* (router_NewClient routing outbounds path keyLog tls) s \<Longrightarrow> clients_built cenv s"
proof (induction rule: rtranclp_induct)
  case base
  show ?case by (simp add: clients_built_def router_NewClient_def)
next
  case (step s t)
  from step(2,3) show ?case by cases (auto intro: router_next_built updateRouting_built)
qed

text \<open>The Trojan client that is used for an outbound holds the hash and the address of the outbound.\<close>

lemma built_trojan_client:
  assumes "built_client cenv s name c" "rt_routing s = Some r" "tp_TCP (ro_Transport r) \<in> {TrojanTransport, TrojanTransportAlias}"
    "map_of (rt_outbounds s) name = Some (Some node)"
  shows "\<exists>cfg pw. pn_Password node = Some pw \<and> c = TrClient \<lparr>trn_serverHostWithPort = JoinHostPort (pn_Host node) (pn_TLSPort node),
    trn_passwordHash = toTrojanPasswordHash (ce_SHA224 cenv) (ce_DeriveN cenv) pw, trn_tlsConfig = cfg\<rparr>"
  using assms by (auto simp: built_client_def newCarrierClient_def transport_defs newClient_Inr)

lemma built_ss_client:
  assumes "built_client cenv s name c" "rt_routing s = Some r" "is_ss (tp_TCP (ro_Transport r))"
    "map_of (rt_outbounds s) name = Some (Some node)"
  shows "\<exists>cl pw. c = SsClient cl \<and> ss_NewClient (ce_DeriveN cenv) (ce_weights cenv) node = Inr cl \<and> pn_Password node = Some pw"
  using assms by (auto simp: built_client_def newCarrierClient_def is_ss_def ss_NewClient_Inr split: if_splits)

section \<open>What a handler leaves of a connection\<close>

text \<open>
  Reading takes bytes off the front of a stream: the error that ends it stays the same through the
  whole SOCKS handler. The rules follow the structure of the handlers.
\<close>

definition keeps :: "('s \<Rightarrow> 'b) \<Rightarrow> ('s, 'a) io \<Rightarrow> bool" where
  "keeps g m \<longleftrightarrow> (\<forall>s. g (snd (m s)) = g s)"

named_theorems keep "rules for what an operation keeps of a state"

lemma keeps_bind [keep]: "keeps g m \<Longrightarrow> (\<And>x. keeps g (f x)) \<Longrightarrow> keeps g (io_bind m f)"
  unfolding keeps_def io_bind_def by (auto split: prod.splits sum.splits) (metis snd_conv)+

lemma keeps_ret [keep]: "keeps g (io_ret x)" "keeps g (io_fail e)"
  by (simp_all add: keeps_def)

lemma keeps_if [keep]: "keeps g m \<Longrightarrow> keeps g n \<Longrightarrow> keeps g (if b then m else n)"
  by simp

lemma keeps_on_cin [keep]: "keeps fin m \<Longrightarrow> keeps (\<lambda>c. fin (cin c)) (on_cin m)"
  by (simp add: keeps_def on_cin_apply split: prod.splits)

lemma keeps_on_cout [keep]: "keeps (\<lambda>c. fin (cin c)) (on_cout m)" "keeps (\<lambda>c. fin (cin c)) (fail_with_reply err reply)"
  by (simp_all add: keeps_def on_cout_apply fail_with_reply_def split: prod.splits sum.splits)

lemma keeps_ReadFull [keep]: "keeps fin (ReadFull n)" "keeps fin (ReadN n)"
  using rd_adv_fin by (simp_all add: keeps_def ReadN_def ReadFull_def rd_adv_def split: prod.splits) (metis snd_conv)+

lemma keeps_readers [keep]: "keeps fin Read1" "keeps fin ReadByUint8" "keeps fin ReadStringByUint8" "keeps fin ReadSOCKS5Address"
proof -
  show r1: "keeps fin Read1" by (simp add: Read1_def keep del: io_ret_apply)
  show r2: "keeps fin ReadByUint8" unfolding ReadByUint8_def by (intro keep r1)
  show r3: "keeps fin ReadStringByUint8" unfolding ReadStringByUint8_def by (intro keep r2)
  show "keeps fin ReadSOCKS5Address" unfolding ReadSOCKS5Address_def ReadAddressWithType_def Let_def by (intro keep r1 r3)
qed

lemma keeps_socks_Serve: "keeps (\<lambda>c. fin (cin c)) (socks_Serve auth)"
  unfolding socks_Serve_def handleClientHelloRequest_def handleClientAuthenticationRequest_def readClientAuthUsernamePassword_def
    handleClientConnectionRequest_def
  by (intro keep)

lemma socks_Serve_fin: "socks_Serve auth c = (r, c') \<Longrightarrow> fin (cin c') = fin (cin c)"
  using keeps_socks_Serve [of auth] unfolding keeps_def by (metis snd_conv)

section \<open>From the local program to the client of the outbound\<close>

text \<open>
  A local program that speaks SOCKS: it offers the method of the configuration among others, sends
  the credentials when they are asked for, the request for an address, and its payload.
\<close>

definition speaks_socks :: "HTTPSOCKSAuthInfo option \<Rightarrow> SocketAddress \<Rightarrow> bytes \<Rightarrow> netconn \<Rightarrow> bool" where
  "speaks_socks auth a payload conn \<longleftrightarrow> wire_addr a \<and> wplan (cout conn) = [] \<and> fin (cin conn) = EOF \<and>
     (\<not> auth_IsEmpty auth \<longrightarrow> length (Username (the auth)) \<le> 255 \<and> length (Password (the auth)) \<le> 255) \<and>
     (\<exists>ms rsv ab. length ms \<le> 255 \<and> (if auth_IsEmpty auth then helloNoAuthRequired else helloUsernamePassword) \<in> set ms \<and>
       WriteSOCKSLikeAddr a = Inr ab \<and>
       contents (cin conn) = [5, of_nat (length ms)] @ ms @
         (if auth_IsEmpty auth then []
          else [1, of_nat (length (Username (the auth)))] @ str_bytes (Username (the auth)) @
            [of_nat (length (Password (the auth)))] @ str_bytes (Password (the auth))) @
         [5, 1, rsv] @ ab @ payload)"

lemma speaks_socks_served:
  assumes "speaks_socks auth a payload conn"
  shows "\<exists>local. socks_Serve auth conn = (Inr a, local) \<and> contents (cin local) = payload \<and> fin (cin local) = EOF"
proof -
  let ?m = "if auth_IsEmpty auth then helloNoAuthRequired else helloUsernamePassword"
  from assms obtain ms rsv ab where h: "?m \<in> set ms" "length ms \<le> 255" "WriteSOCKSLikeAddr a = Inr ab"
    "contents (cin conn) = [5, of_nat (length ms)] @ ms @
       (if auth_IsEmpty auth then []
        else [1, of_nat (length (Username (the auth)))] @ str_bytes (Username (the auth)) @
          [of_nat (length (Password (the auth)))] @ str_bytes (Password (the auth))) @
       [5, 1, rsv] @ ab @ payload"
    unfolding speaks_socks_def by blast
  from assms have c: "wire_addr a" "wplan (cout conn) = []" "fin (cin conn) = EOF"
    "\<not> auth_IsEmpty auth \<Longrightarrow> length (Username (the auth)) \<le> 255 \<and> length (Password (the auth)) \<le> 255"
    by (simp_all add: speaks_socks_def)
  obtain local where l: "socks_Serve auth conn = (Inr a, local)" "contents (cin local) = payload"
    using socks_Serve_ok [OF h(1,2) refl c(4,1) h(3,4) c(2)] by blast
  with socks_Serve_fin [OF l(1)] c(3) show ?thesis by auto
qed

text \<open>When the connection is piped, its other side was dialed by a client that was built for the outbound.\<close>

lemma tunnel_front:
  assumes "(router_step env cenv)\<^sup>*\<^sup>* (router_NewClient routing outbounds path keyLog tls) s"
    "route_policy env (rt_routing s) a = Inr (policy, a')" "policy \<noteq> DirectPolicy" "policy \<noteq> RejectPolicy"
    "speaks_socks auth a payload conn"
    "socks_Serve_forward auth None (\<lambda>x. fst (router_DialTCP env cenv netDial dialCarrier x s)) conn = Piped local cc"
  shows "contents (cin local) = payload \<and> fin (cin local) = EOF \<and> (\<exists>c. built_client cenv s policy c \<and> dialCarrier c a' = Inr cc)"
proof -
  obtain local' where l: "socks_Serve auth conn = (Inr a, local')" "contents (cin local') = payload" "fin (cin local') = EOF"
    using speaks_socks_served [OF assms(5)] by blast
  from assms(6) l(1) have cc: "local = local'" "fst (router_DialTCP env cenv netDial dialCarrier a s) = Inr cc"
    by (auto simp: socks_Serve_forward_def ForwardTCP_def split: sum.splits)
  obtain got s' where g: "getCarrierClient cenv policy s = (got, s')" by (metis surj_pair)
  with cc(2) assms(2-4) obtain c where c: "got = Inr c" "dialCarrier c a' = Inr cc"
    by (cases got) (auto simp: router_DialTCP_def router_next_def io_bind_def)
  have "built_client cenv s policy c"
    using getCarrierClient_built [OF g clients_built_reachable [OF assms(1)]] c(1) by blast
  with l cc(1) c(2) show ?thesis by blast
qed

section \<open>Properties\<close>

text \<open>
  C3. A program that uses the local port gets through a Trojan outbound to the other end: it speaks
  SOCKS with the configured credentials and asks for an address, the rules choose an outbound while
  the transport of the routing is Trojan, and the server that runs with the password of this outbound
  opens a tunnel to the address the rules gave, in which exactly the bytes that the program sends
  after its request arrive. The connection goes to the host and TLS port of the outbound. This holds
  in every state that the router reaches, with a client that was built before or now. The address
  the rules gave must have a SOCKS form that is read back, which excludes domains of more than 255
  bytes and zones; the dial gives a new connection on which no write fails; the program ends its
  stream; and what the server reads is what the client's connection was given to write, in any
  segmentation. The other transports are not part of this statement.
\<close>

theorem tunnel_end_to_end:
  assumes router: "(router_step env cenv)\<^sup>*\<^sup>* (router_NewClient routing outbounds path keyLog tls) s"
    and route: "route_policy env (rt_routing s) a = Inr (policy, a')" "policy \<noteq> DirectPolicy" "policy \<noteq> RejectPolicy" "wire_addr a'"
    and outbound: "map_of (rt_outbounds s) policy = Some (Some node)" "rt_routing s = Some r"
      "tp_TCP (ro_Transport r) \<in> {TrojanTransport, TrojanTransportAlias}"
    and server: "hg_Password hg = pn_Password node" "tr_np_NewServer cenv hg = Inr (tr, np)" "\<And>x. length (ce_SHA224 cenv x) = 28"
    and program: "speaks_socks auth a payload conn"
    and dial: "\<And>c x. dialCarrier (TrClient c) x = tr_DialTCP DialTLS c x"
      "\<And>host cfg nc. DialTLS host cfg = Inr nc \<Longrightarrow> cout nc = \<lparr>wout = [], wplan = []\<rparr>"
    and served: "socks_Serve_forward auth None (\<lambda>x. fst (router_DialTCP env cenv netDial dialCarrier x s)) conn = Piped local cc"
    and relayed: "tr_ReadFrom (cin local) cc = (n, err, cc')" "contents remote = sent (cout (trc_conn cc'))"
  shows "err = None \<and> (\<exists>tunnel. tr_np_serve (trs_passwordHash tr) remote = TrTunnel a' tunnel \<and> contents tunnel = payload) \<and>
    (\<exists>cfg nc. DialTLS (JoinHostPort (pn_Host node) (pn_TLSPort node)) cfg = Inr nc)"
proof -
  from tunnel_front [OF router route(1-3) program served] obtain c where
    l: "contents (cin local) = payload" "fin (cin local) = EOF" and c: "built_client cenv s policy c" "dialCarrier c a' = Inr cc" by blast
  from built_trojan_client [OF c(1) outbound(2,3,1)] obtain cfg pw where pw: "pn_Password node = Some pw"
    and tc: "c = TrClient \<lparr>trn_serverHostWithPort = JoinHostPort (pn_Host node) (pn_TLSPort node),
      trn_passwordHash = toTrojanPasswordHash (ce_SHA224 cenv) (ce_DeriveN cenv) pw, trn_tlsConfig = cfg\<rparr>" by blast
  let ?hash = "toTrojanPasswordHash (ce_SHA224 cenv) (ce_DeriveN cenv) pw"
  from c(2) obtain nc where nc: "DialTLS (JoinHostPort (pn_Host node) (pn_TLSPort node)) cfg = Inr nc" "cc = tr_newClientConn nc a' ?hash"
    by (auto simp: tc dial(1) tr_DialTCP_def split: sum.splits)
  have hash: "trs_passwordHash tr = ?hash"
    using server(2) newServers_Inr [of hg pw cenv] by (simp add: server(1) pw) auto
  have "wf_hash ?hash" by (rule wf_toTrojanPasswordHash) (rule server(3))
  then show ?thesis
    using tr_request_arrives [of cc "cin local" n err cc' remote] l relayed route(4) nc dial(2) [OF nc(1)]
    by (auto simp: tr_newClientConn_def hash)
qed

text \<open>
  C4. The same way through a Shadowsocks outbound: the server of the outbound's password accepts the
  request, dials the address the rules gave, and relays to it exactly the bytes that the program
  sends after its request, for every draw of salt, prefix and padding and every segmentation whose first read
  covers the salt and the fixed header, 43 bytes. The salt must be new to the server, the clocks at most 30
  seconds apart, and the address the rules gave one that has a SOCKS form that is read back: no
  domain of more than 255 bytes and no zone. The connection goes to the host and TCP port of the outbound.
\<close>

theorem ss_tunnel_end_to_end:
  assumes router: "(router_step env cenv)\<^sup>*\<^sup>* (router_NewClient routing outbounds path keyLog tls) s"
    and route: "route_policy env (rt_routing s) a = Inr (policy, a')" "policy \<noteq> DirectPolicy" "policy \<noteq> RejectPolicy" "wire_addr a'"
    and outbound: "map_of (rt_outbounds s) policy = Some (Some node)" "rt_routing s = Some r" "is_ss (tp_TCP (ro_Transport r))"
    and server: "hg_Password hg = pn_Password node" "ss_NewServer (ce_DeriveN cenv) now hg = Inr s0" "srv = s0\<lparr>ssv_saltPool := sp\<rparr>"
    and crypto: "crypto_ok senv" "derive_ok (ce_DeriveN cenv)" "\<And>n. length (dd_salt d n) = n" "padding_ok inp"
    and clock: "0 \<le> in_unix inp" "in_unix inp < 2 ^ 63" "0 \<le> in_unix inp'" "in_unix inp' < 2 ^ 63"
      "\<bar>in_unix inp - in_unix inp'\<bar> \<le> 30"
    and program: "speaks_socks auth a payload conn"
    and dial: "\<And>c x. dialCarrier (SsClient c) x = ss_DialTCP d DialTCP c x"
      "\<And>host nc. DialTCP host = Inr nc \<Longrightarrow> cout nc = \<lparr>wout = [], wplan = []\<rparr>"
    and served: "socks_Serve_forward auth None (\<lambda>x. fst (router_DialTCP env cenv netDial dialCarrier x s)) conn = Piped local cc"
    and relayed: "ReadFrom senv inp (cin local) cc = (n, err, r', cc')"
    and net: "contents (cin sc) = ss_out cc'" "fin (cin sc) = EOF" "first_read_ok 43 (cin sc)"
    and fresh: "fst (checkAndAdd (in_nanos inp') (clientSalt cc) sp)" and target: "dialTarget a' = Inr target"
    and fuel: "length payload + length (ss_out cc') < k"
  shows "err = None \<and> (\<exists>port nc. pn_TCPPort node = Some port \<and> DialTCP (JoinHostPort (pn_Host node) port) = Inr nc) \<and>
    (\<exists>sc' srv' w' sc''. ss_serve senv inp' None dialTarget sc srv = (SsPiped sc' target, srv') \<and> accessAddr sc' = Some a' \<and>
       WriteTo senv inp' k 0 (Wr \<lparr>wout = [], wplan = []\<rparr>) sc' = Some (length payload, None, Wr w', sc'') \<and> sent w' = payload)"
proof -
  from tunnel_front [OF router route(1-3) program served] obtain c where
    l: "contents (cin local) = payload" "fin (cin local) = EOF" and c: "built_client cenv s policy c" "dialCarrier c a' = Inr cc" by blast
  from built_ss_client [OF c(1) outbound(2,3,1)] obtain cl pw where cl: "c = SsClient cl"
    "ss_NewClient (ce_DeriveN cenv) (ce_weights cenv) node = Inr cl" "pn_Password node = Some pw" by blast
  have dialed: "ss_DialTCP d DialTCP cl a' = Inr cc" using c(2) by (simp add: cl(1) dial(1))
  have "6 \<le> length (scl_preSharedKey cl)"
    using ss_NewClient_fields [OF cl(2,3)] crypto(2) by (simp add: derive_ok_def toShadowsocksSharedKey_def blake3Aes128GcmKeySize_def)
  from ss_DialTCP_conn [OF dialed this crypto(3)] obtain nc salt where
    nc: "DialTCP (scl_serverHostWithPort cl) = Inr nc" "cc = newClientConn nc a' (scl_preSharedKey cl) salt (scl_aeadOverhead cl)" by blast
  have out: "cout (tcp cc) = \<lparr>wout = [], wplan = []\<rparr>" using dial(2) [OF nc(1)] by (simp add: nc(2) newClientConn_def)
  have pw: "hg_Password hg = Some pw" using server(1) cl(3) by simp
  have "length (contents (cin local)) + length (ss_out cc') < k" using fuel l(1) by simp
  from ss_request_carried [where dialTarget = dialTarget and netDial = DialTCP and a = a', OF cl(2,3) server(2) pw server(3) crypto clock route(4) dialed out relayed l(2) net fresh target this]
  have "err = None \<and> (\<exists>sc' srv' w' sc''. ss_serve senv inp' None dialTarget sc srv = (SsPiped sc' target, srv') \<and> accessAddr sc' = Some a' \<and>
       WriteTo senv inp' k 0 (Wr \<lparr>wout = [], wplan = []\<rparr>) sc' = Some (length payload, None, Wr w', sc'') \<and> sent w' = payload)"
    using l(1) by auto
  moreover have "\<exists>port nc. pn_TCPPort node = Some port \<and> DialTCP (JoinHostPort (pn_Host node) port) = Inr nc"
    using cl(2) nc(1) by (auto simp: ss_NewClient_Inr)
  ultimately show ?thesis by blast
qed

text \<open>
  C7. The client a router uses for an outbound is one that the server of the outbound's password
  accepts: in every state the router reaches, whatever connections and updates of the rules came
  before, the client of \<open>getCarrierClient\<close>, built now or kept from before, is of the kind that the transport of the routing
  names, dials the port of its protocol on the host of the outbound, and presents what the server
  compares with: the Shadowsocks key, the Trojan hash, the header of NaiveProxy, or the SunnyQUIC hash.
\<close>

theorem router_clients_accepted:
  assumes "(router_step env cenv)\<^sup>*\<^sup>* (router_NewClient routing outbounds path keyLog tls) s"
    "getCarrierClient cenv name s = (Inr c, s')" "map_of (rt_outbounds s) name = Some (Some node)" "hg_Password hg = pn_Password node"
  shows "\<exists>r. rt_routing s = Some r \<and> (let transport = tp_TCP (ro_Transport r) in case c of
      SsClient cl \<Rightarrow> is_ss transport \<and> (\<exists>port. pn_TCPPort node = Some port \<and>
        scl_serverHostWithPort cl = JoinHostPort (pn_Host node) port) \<and>
        (\<forall>now. case ss_NewServer (ce_DeriveN cenv) now hg of
           Inr srv \<Rightarrow> scl_preSharedKey cl = ssv_preSharedKey srv | Inl _ \<Rightarrow> hg_TCPPort hg = None)
    | TrClient cl \<Rightarrow> transport \<in> {TrojanTransport, TrojanTransportAlias} \<and>
        trn_serverHostWithPort cl = JoinHostPort (pn_Host node) (pn_TLSPort node) \<and>
        (\<exists>tr np. tr_np_NewServer cenv hg = Inr (tr, np) \<and> trn_passwordHash cl = trs_passwordHash tr)
    | NpClient cl cfg \<Rightarrow> transport \<in> {NaiveProxyTransport, NaiveProxyTransportAlias} \<and>
        npc_serverHostWithPort cl = JoinHostPort (pn_Host node) (pn_TLSPort node) \<and>
        (\<exists>tr np. tr_np_NewServer cenv hg = Inr (tr, np) \<and> basicAuthEqual (npc_basicAuthToken cl) (nps_authToken np))
    | SqClient cl cfg \<Rightarrow> transport \<in> {SunnyQUICTransport, SunnyQUICTransportAlias} \<and>
        sqc_serverHostWithPort cl = JoinHostPort (pn_Host node) (pn_QUICPort node) \<and>
        (\<exists>srv. sq_NewServer cenv hg = Inr srv \<and> sqc_authHash cl = sqs_authHash srv))"
proof -
  have "built_client cenv s name c"
    using getCarrierClient_built [OF assms(2) clients_built_reachable [OF assms(1)]] by blast
  then obtain r tls1 tls2 where r: "rt_routing s = Some r"
    "newCarrierClient cenv (tp_TCP (ro_Transport r)) (Some node) (rt_tlsKeyLog s) tls1 = (Inr c, tls2)"
    using assms(3) by (auto simp: built_client_def)
  from newCarrierClient_accepted [OF r(2) assms(4)] r(1) show ?thesis by (simp add: client_accepted_def Let_def)
qed

section \<open>Witness\<close>

text \<open>The dialogue of \<open>sample_dialogue\<close>, after which the program sends two bytes and closes.\<close>

definition sample_tunnel_conn :: netconn where
  "sample_tunnel_conn = mk_conn (mk_reader [[5, 2], [0, 2, 1, 1, 117, 2, 112], [119, 5, 1, 0, 1, 1, 2, 3, 4, 0, 80, 8], [9]])"

definition sample_tunnel_router :: "(string, prefix list) router" where
  "sample_tunnel_router = router_NewClient (Some (sample_routing\<lparr>ro_Rules := []\<rparr>)) [(''n'', Some sample_ss_node)] ''d'' False empty_tls"

definition sample_tls_dial :: "string \<Rightarrow> tls_config \<Rightarrow> netconn res" where
  "sample_tls_dial host cfg = Inr (mk_conn (mk_reader []))"

definition sample_carrier_dial :: "carrier \<Rightarrow> SocketAddress \<Rightarrow> tr_clientConn res" where
  "sample_carrier_dial c x = (case c of TrClient t \<Rightarrow> tr_DialTCP sample_tls_dial t x | _ \<Rightarrow> Inl EOF)"

abbreviation "sample_tunnel_addr \<equiv> NewSocketAddressByIP (Addr4 16909060) 80"

lemma sample_tunnel_route: "route_policy sample_env (rt_routing sample_tunnel_router) sample_tunnel_addr = Inr (''n'', sample_tunnel_addr)"
  by (simp add: route_policy_def sample_tunnel_router_def router_NewClient_def sample_routing_def matchAgain_def match_ip_def Is4_def)

lemma sample_tunnel_dialed:
  "\<exists>cc. fst (router_DialTCP sample_env sample_cenv (\<lambda>_. Inl EOF) sample_carrier_dial sample_tunnel_addr sample_tunnel_router) = Inr cc"
proof -
  obtain cfg t where "TLSClientConfig sample_tls_env ''h'' [] False False empty_tls = (Inr cfg, t)" using sample_tls_client by blast
  then have "\<exists>cl s'. getCarrierClient sample_cenv ''n'' sample_tunnel_router = (Inr (TrClient cl), s')"
    by (simp add: getCarrierClient_def sample_tunnel_router_def router_NewClient_def sample_routing_def newCarrierClient_def transport_defs
        tr_NewClient_def io_map_def io_bind_def sample_cenv_def sample_ss_node_def zero_ProxyNode_def)
  then show ?thesis
    using sample_tunnel_route
    by (auto simp: router_DialTCP_def router_next_def io_bind_def DirectPolicy_def RejectPolicy_def sample_carrier_dial_def
        tr_DialTCP_def sample_tls_dial_def)
qed

lemma sample_speaks_socks: "speaks_socks (Some sample_auth) sample_tunnel_addr [8, 9] sample_tunnel_conn"
proof -
  have auth: "\<not> auth_IsEmpty (Some sample_auth)" by (simp add: auth_IsEmpty_def sample_auth_def)
  show ?thesis
    unfolding speaks_socks_def
    by (intro conjI exI [of _ "[0, 2 :: byte]"] exI [of _ 0] exI [of _ "[1, 1, 2, 3, 4, 0, 80]"] sample_dialogue_wire)
       (simp_all add: auth, simp_all add: sample_auth_def sample_tunnel_conn_def mk_conn_def mk_reader_def contents_def str_bytes_def
         byte_of_char_def helloUsernamePassword_def)
qed

theorem tunnel_end_to_end_witness:
  "\<exists>local cc n cc' tunnel tr np. tr_np_NewServer sample_cenv sample_ss_hg = Inr (tr, np) \<and>
     socks_Serve_forward (Some sample_auth) None
       (\<lambda>x. fst (router_DialTCP sample_env sample_cenv (\<lambda>_. Inl EOF) sample_carrier_dial x sample_tunnel_router)) sample_tunnel_conn =
       Piped local cc \<and>
     tr_ReadFrom (cin local) cc = (n, None, cc') \<and>
     tr_np_serve (trs_passwordHash tr) (mk_reader [sent (cout (trc_conn cc'))]) = TrTunnel sample_tunnel_addr tunnel \<and>
     contents tunnel = [8, 9]"
proof -
  let ?dial = "\<lambda>x. fst (router_DialTCP sample_env sample_cenv (\<lambda>_. Inl EOF) sample_carrier_dial x sample_tunnel_router)"
  have pw: "hg_Password sample_ss_hg = Some (replicate 16 3)" by (simp add: sample_ss_hg_def)
  obtain tr np where srv: "tr_np_NewServer sample_cenv sample_ss_hg = Inr (tr, np)" using newServers_Inr(1) [OF pw] by blast
  obtain cc where "?dial sample_tunnel_addr = Inr cc" using sample_tunnel_dialed by blast
  moreover obtain c' where "socks_Serve (Some sample_auth) sample_tunnel_conn = (Inr sample_tunnel_addr, c')"
    using speaks_socks_served [OF sample_speaks_socks] by blast
  ultimately have fwd: "socks_Serve_forward (Some sample_auth) None ?dial sample_tunnel_conn = Piped c' cc"
    by (simp add: socks_Serve_forward_def ForwardTCP_def)
  obtain n err cc' where run: "tr_ReadFrom (cin c') cc = (n, err, cc')" by (metis prod_cases3)
  have router: "(router_step sample_env sample_cenv)\<^sup>*\<^sup>* (router_NewClient (Some (sample_routing\<lparr>ro_Rules := []\<rparr>)) [(''n'', Some sample_ss_node)]
      ''d'' False empty_tls) sample_tunnel_router" by (simp add: sample_tunnel_router_def)
  have fields: "map_of (rt_outbounds sample_tunnel_router) ''n'' = Some (Some sample_ss_node)"
    "rt_routing sample_tunnel_router = Some (sample_routing\<lparr>ro_Rules := []\<rparr>)"
    "tp_TCP (ro_Transport (sample_routing\<lparr>ro_Rules := []\<rparr>)) \<in> {TrojanTransport, TrojanTransportAlias}"
    by (simp_all add: sample_tunnel_router_def router_NewClient_def sample_routing_def transport_defs)
  have policy: "''n'' \<noteq> DirectPolicy" "''n'' \<noteq> RejectPolicy" by (simp_all add: DirectPolicy_def RejectPolicy_def)
  have sha: "\<And>x. length (ce_SHA224 sample_cenv x) = 28" by (simp add: sample_cenv_def)
  have dial: "\<And>c x. sample_carrier_dial (TrClient c) x = tr_DialTCP sample_tls_dial c x"
    "\<And>host cfg nc. sample_tls_dial host cfg = Inr nc \<Longrightarrow> cout nc = \<lparr>wout = [], wplan = []\<rparr>"
    by (auto simp: sample_carrier_dial_def sample_tls_dial_def mk_conn_def)
  have "err = None \<and> (\<exists>tunnel. tr_np_serve (trs_passwordHash tr) (mk_reader [sent (cout (trc_conn cc'))]) = TrTunnel sample_tunnel_addr tunnel \<and>
      contents tunnel = [8, 9]) \<and> (\<exists>cfg nc. sample_tls_dial (JoinHostPort (pn_Host sample_ss_node) (pn_TLSPort sample_ss_node)) cfg = Inr nc)"
    by (rule tunnel_end_to_end [OF router sample_tunnel_route policy sample_dialogue_wire(1) fields sample_passwords srv sha sample_speaks_socks
          dial fwd run]) simp_all
  with srv fwd run show ?thesis by blast
qed

text \<open>The same program and router with the Shadowsocks transport.\<close>

definition sample_ss_router :: "(string, prefix list) router" where
  "sample_ss_router = router_NewClient (Some \<lparr>ro_Transport = \<lparr>tp_TCP = ''ss'', tp_UDP = []\<rparr>, ro_Rules = [], ro_Final = ''n''\<rparr>)
     [(''n'', Some sample_ss_node)] ''d'' False empty_tls"

definition sample_ss_carrier_dial :: "carrier \<Rightarrow> SocketAddress \<Rightarrow> ss_conn res" where
  "sample_ss_carrier_dial c x =
     (case c of SsClient cl \<Rightarrow> ss_DialTCP sample_draws (\<lambda>_. Inr (mk_conn (mk_reader []))) cl x | _ \<Rightarrow> Inl EOF)"

lemma sample_ss_router_client:
  "\<exists>s'. getCarrierClient sample_cenv ''n'' sample_ss_router = (Inr (SsClient sample_ss_client), s')"
  using sample_ss_new(1)
  by (simp add: getCarrierClient_def sample_ss_router_def router_NewClient_def newCarrierClient_def transport_defs io_map_def
      io_bind_def sample_cenv_def)

lemma sample_ss_route: "route_policy sample_env (rt_routing sample_ss_router) sample_tunnel_addr = Inr (''n'', sample_tunnel_addr)"
  by (simp add: route_policy_def sample_ss_router_def router_NewClient_def matchAgain_def match_ip_def Is4_def)

lemma sample_ss_dialed:
  "\<exists>salt. length salt = 16 \<and> fst (router_DialTCP sample_env sample_cenv (\<lambda>_. Inl EOF) sample_ss_carrier_dial sample_tunnel_addr sample_ss_router) =
     Inr (newClientConn (mk_conn (mk_reader [])) sample_tunnel_addr sample_psk salt 16)"
proof -
  have "\<exists>salt. ss_DialTCP sample_draws (\<lambda>_. Inr (mk_conn (mk_reader []))) sample_ss_client sample_tunnel_addr =
     Inr (newClientConn (mk_conn (mk_reader [])) sample_tunnel_addr sample_psk salt 16) \<and> length salt = 16"
    by (simp add: ss_DialTCP_def sample_ss_client_def sample_draws_def sample_pick customFirstReqPrefixes_def
        generateSalt_def sample_psk_def copy_into_def) (intro exI conjI, rule refl, simp)
  then show ?thesis
    using sample_ss_router_client sample_ss_route
    by (auto simp: router_DialTCP_def router_next_def io_bind_def DirectPolicy_def RejectPolicy_def sample_ss_carrier_dial_def)
qed

theorem ss_tunnel_end_to_end_witness:
  "\<exists>local cc n r' cc' sc sc' srv' k w' sc''.
     socks_Serve_forward (Some sample_auth) None
       (\<lambda>x. fst (router_DialTCP sample_env sample_cenv (\<lambda>_. Inl EOF) sample_ss_carrier_dial x sample_ss_router)) sample_tunnel_conn =
       Piped local cc \<and>
     ReadFrom tag_crypto sample_inputs (cin local) cc = (n, None, r', cc') \<and> contents (cin sc) = ss_out cc' \<and>
     ss_serve tag_crypto sample_inputs None (\<lambda>a. Inr (sa_Port a)) sc sample_ss_server = (SsPiped sc' 80, srv') \<and>
     WriteTo tag_crypto sample_inputs k 0 (Wr \<lparr>wout = [], wplan = []\<rparr>) sc' = Some (2, None, Wr w', sc'') \<and> sent w' = [8, 9]"
proof -
  let ?dial = "\<lambda>x. fst (router_DialTCP sample_env sample_cenv (\<lambda>_. Inl EOF) sample_ss_carrier_dial x sample_ss_router)"
  obtain salt where salt: "length salt = 16"
    "?dial sample_tunnel_addr = Inr (newClientConn (mk_conn (mk_reader [])) sample_tunnel_addr sample_psk salt 16)"
    using sample_ss_dialed by blast
  let ?cc = "newClientConn (mk_conn (mk_reader [])) sample_tunnel_addr sample_psk salt 16"
  obtain l where l: "socks_Serve (Some sample_auth) sample_tunnel_conn = (Inr sample_tunnel_addr, l)" "fin (cin l) = EOF"
    using speaks_socks_served [OF sample_speaks_socks] by blast
  with salt(2) have fwd: "socks_Serve_forward (Some sample_auth) None ?dial sample_tunnel_conn = Piped l ?cc"
    by (simp add: socks_Serve_forward_def ForwardTCP_def)
  obtain n err r' cc' where run: "ReadFrom tag_crypto sample_inputs (cin l) ?cc = (n, err, r', cc')" by (metis prod_cases4)
  let ?sc = "mk_conn (mk_reader [ss_out cc'])"
  have read: "first_read_ok 43 (cin ?sc)"
    using sample_first_read [OF run salt(1) l(2)] sample_dialogue_wire(1) by (simp add: mk_conn_def)
  have router: "(router_step sample_env sample_cenv)\<^sup>*\<^sup>* (router_NewClient (Some \<lparr>ro_Transport = \<lparr>tp_TCP = ''ss'', tp_UDP = []\<rparr>,
      ro_Rules = [], ro_Final = ''n''\<rparr>) [(''n'', Some sample_ss_node)] ''d'' False empty_tls) sample_ss_router"
    by (simp add: sample_ss_router_def)
  have fields: "map_of (rt_outbounds sample_ss_router) ''n'' = Some (Some sample_ss_node)"
    "rt_routing sample_ss_router = Some \<lparr>ro_Transport = \<lparr>tp_TCP = ''ss'', tp_UDP = []\<rparr>, ro_Rules = [], ro_Final = ''n''\<rparr>"
    "is_ss (tp_TCP (ro_Transport \<lparr>ro_Transport = \<lparr>tp_TCP = ''ss'', tp_UDP = []\<rparr>, ro_Rules = [], ro_Final = ''n''\<rparr>))"
    by (simp_all add: sample_ss_router_def router_NewClient_def is_ss_def transport_defs)
  have policy: "''n'' \<noteq> DirectPolicy" "''n'' \<noteq> RejectPolicy" by (simp_all add: DirectPolicy_def RejectPolicy_def)
  have srv: "ss_NewServer (ce_DeriveN sample_cenv) 0 sample_ss_hg = Inr sample_ss_server"
    "sample_ss_server = sample_ss_server\<lparr>ssv_saltPool := newSaltPool 0\<rparr>"
    using sample_ss_new(2) by (simp_all add: sample_cenv_def sample_ss_server_def)
  have ok: "derive_ok (ce_DeriveN sample_cenv)" "\<And>n. length (dd_salt sample_draws n) = n"
    by (simp_all add: derive_ok_def sample_cenv_def sample_derive_def sample_draws_def)
  have clock: "0 \<le> in_unix sample_inputs" "in_unix sample_inputs < 2 ^ 63" "\<bar>in_unix sample_inputs - in_unix sample_inputs\<bar> \<le> 30"
    by (simp_all add: sample_inputs_def)
  have dial: "\<And>c x. sample_ss_carrier_dial (SsClient c) x = ss_DialTCP sample_draws (\<lambda>_. Inr (mk_conn (mk_reader []))) c x"
    "\<And>host nc. (\<lambda>_. Inr (mk_conn (mk_reader []))) host = Inr nc \<Longrightarrow> cout nc = \<lparr>wout = [], wplan = []\<rparr>"
    by (auto simp: sample_ss_carrier_dial_def mk_conn_def)
  have net: "contents (cin ?sc) = ss_out cc'" "fin (cin ?sc) = EOF"
    by (simp_all add: mk_conn_def mk_reader_def contents_def)
  let ?k = "3 + length (ss_out cc')"
  have "err = None \<and> (\<exists>sc' srv' w' sc''. ss_serve tag_crypto sample_inputs None (\<lambda>a. Inr (sa_Port a)) ?sc sample_ss_server = (SsPiped sc' 80, srv') \<and>
      accessAddr sc' = Some sample_tunnel_addr \<and>
      WriteTo tag_crypto sample_inputs ?k 0 (Wr \<lparr>wout = [], wplan = []\<rparr>) sc' = Some (length [8 :: byte, 9], None, Wr w', sc'') \<and> sent w' = [8, 9])"
    using ss_tunnel_end_to_end [where dialTarget = "\<lambda>a. Inr (sa_Port a)" and target = 80 and k = ?k, OF router sample_ss_route policy
        sample_dialogue_wire(1) fields sample_passwords srv crypto_ok_tag ok sample_padding clock(1,2,1,2,3) sample_speaks_socks
        dial fwd run net read]
    by simp
  then obtain sc' srv' w' sc'' where r: "err = None" "sent w' = [8, 9]"
    "ss_serve tag_crypto sample_inputs None (\<lambda>a. Inr (sa_Port a)) ?sc sample_ss_server = (SsPiped sc' 80, srv')"
    "WriteTo tag_crypto sample_inputs ?k 0 (Wr \<lparr>wout = [], wplan = []\<rparr>) sc' = Some (2, None, Wr w', sc'')"
    by (auto simp: numeral_2_eq_2)
  show ?thesis
    by (rule exI [of _ l], rule exI [of _ ?cc], rule exI [of _ n], rule exI [of _ r'], rule exI [of _ cc'], rule exI [of _ ?sc],
        rule exI [of _ sc'], rule exI [of _ srv'], rule exI [of _ ?k], rule exI [of _ w'], rule exI [of _ sc''])
       (intro conjI fwd run [unfolded r(1)] net(1) r(2-4))
qed

theorem router_clients_accepted_witness:
  "\<exists>s' srv. getCarrierClient sample_cenv ''n'' sample_ss_router = (Inr (SsClient sample_ss_client), s') \<and>
     ss_NewServer sample_derive 0 sample_ss_hg = Inr srv \<and> scl_preSharedKey sample_ss_client = ssv_preSharedKey srv"
proof -
  obtain s' where c: "getCarrierClient sample_cenv ''n'' sample_ss_router = (Inr (SsClient sample_ss_client), s')"
    using sample_ss_router_client by blast
  have router: "(router_step sample_env sample_cenv)\<^sup>*\<^sup>* (router_NewClient (Some \<lparr>ro_Transport = \<lparr>tp_TCP = ''ss'', tp_UDP = []\<rparr>,
      ro_Rules = [], ro_Final = ''n''\<rparr>) [(''n'', Some sample_ss_node)] ''d'' False empty_tls) sample_ss_router"
    by (simp add: sample_ss_router_def)
  have node: "map_of (rt_outbounds sample_ss_router) ''n'' = Some (Some sample_ss_node)"
    by (simp add: sample_ss_router_def router_NewClient_def)
  have "\<forall>now. case ss_NewServer (ce_DeriveN sample_cenv) now sample_ss_hg of
      Inr srv \<Rightarrow> scl_preSharedKey sample_ss_client = ssv_preSharedKey srv | Inl _ \<Rightarrow> hg_TCPPort sample_ss_hg = None"
    using router_clients_accepted [OF router c node sample_passwords] by (auto simp: Let_def)
  from spec [OF this, of 0] c sample_ss_new(2) show ?thesis by (auto simp: sample_cenv_def)
qed

end
