(* ===== verification/Shutdown.thy ===== *)
theory Shutdown
  imports HttpSocks
begin

text \<open>
  How the program ends: \<open>util/osutil\<close> with the handlers that run before the end, the log of
  \<open>util/log/log.go\<close> with its fatal entries and the printed errors of \<open>util/errors/errors.go\<close>, and what a signal leaves of the system proxy, over the runs
  of \<open>HttpSocks\<close>. Running the registered handlers is \<open>github.com/tebeka/atexit\<close> and an argument.
\<close>

section \<open>Handlers, exits and signals\<close>

datatype signal = SIGTERM | SIGINT | SIGQUIT | SIGHUP | SIGKILL | OtherSignal nat

text \<open>The signals that are waited for on each system.\<close>

definition end_signals_unix :: "signal list" where
  "end_signals_unix = [SIGTERM, SIGINT, SIGQUIT, SIGHUP]"

definition end_signals_windows :: "signal list" where
  "end_signals_windows = [SIGTERM, SIGINT, SIGQUIT, SIGKILL, SIGHUP]"

datatype ending = ExitCode nat | KilledBy signal | Panicked goerr

text \<open>
  \<open>'s\<close> is what the handlers change outside the program, and \<open>runHandlers\<close> how \<open>atexit\<close> runs those that
  are registered.
\<close>

type_synonym 's handlers = "('s \<Rightarrow> 's) list"

definition RegisterProgramTerminationHandler :: "('s \<Rightarrow> 's) \<Rightarrow> 's handlers \<Rightarrow> 's handlers" where
  "RegisterProgramTerminationHandler f hs = hs @ [f]"

definition os_Exit :: "('s handlers \<Rightarrow> 's \<Rightarrow> 's) \<Rightarrow> nat \<Rightarrow> 's handlers \<Rightarrow> 's \<Rightarrow> ending \<times> 's" where
  "os_Exit runHandlers code hs s = (ExitCode code, runHandlers hs s)"

text \<open>
  The goroutine that waits for the end, given the signals that come, in order: the first one that it
  was told of ends the program. \<open>kill\<close> is \<open>syscall.Kill\<close> of the own process, which does not come back
  when it succeeds.
\<close>

definition listenEndSignal_unix ::
  "('s handlers \<Rightarrow> 's \<Rightarrow> 's) \<Rightarrow> (signal \<Rightarrow> goerr option) \<Rightarrow> signal list \<Rightarrow> 's handlers \<Rightarrow> 's \<Rightarrow> (ending \<times> 's) option" where
  "listenEndSignal_unix runHandlers kill sigs hs s =
     (case filter (\<lambda>sig. sig \<in> set end_signals_unix) sigs of
        [] \<Rightarrow> None
      | sig # _ \<Rightarrow> Some (case kill sig of None \<Rightarrow> KilledBy sig | Some err \<Rightarrow> Panicked err, runHandlers hs s))"

definition listenEndSignal_windows ::
  "('s handlers \<Rightarrow> 's \<Rightarrow> 's) \<Rightarrow> signal list \<Rightarrow> 's handlers \<Rightarrow> 's \<Rightarrow> (ending \<times> 's) option" where
  "listenEndSignal_windows runHandlers sigs hs s =
     (case filter (\<lambda>sig. sig \<in> set end_signals_windows) sigs of
        [] \<Rightarrow> None
      | sig # _ \<Rightarrow> Some (os_Exit runHandlers 1 hs s))"

section \<open>The log\<close>

datatype level = Debug | InfoLevel | WarnLevel | ErrorLevel

fun level_rank :: "level \<Rightarrow> int" where
  "level_rank Debug = - 4"
| "level_rank InfoLevel = 0"
| "level_rank WarnLevel = 4"
| "level_rank ErrorLevel = 8"

text \<open>An entry of \<open>slog\<close> with its attributes, where an error may be a value, or an error printed with its stack.\<close>

datatype attribute = Attr string string | ErrAttr goerr

datatype log_line = Entry level string "attribute list" | Printed goerr

record log_state =
  lg_verbose :: bool
  lg_level :: level
  lg_lines :: "log_line list"

definition slog_log :: "level \<Rightarrow> string \<Rightarrow> attribute list \<Rightarrow> log_state \<Rightarrow> log_state" where
  "slog_log lv msg args l =
     (if level_rank (lg_level l) \<le> level_rank lv then l\<lparr>lg_lines := lg_lines l @ [Entry lv msg args]\<rparr> else l)"

definition errors_Print :: "goerr \<Rightarrow> log_state \<Rightarrow> log_state" where
  "errors_Print err l = l\<lparr>lg_lines := lg_lines l @ [Printed err]\<rparr>"

definition SetVerbose :: "bool \<Rightarrow> log_state \<Rightarrow> log_state" where
  "SetVerbose b l = l\<lparr>lg_verbose := b, lg_level := (if b then Debug else InfoLevel)\<rparr>"

definition InfoWithError :: "string \<Rightarrow> goerr \<Rightarrow> attribute list \<Rightarrow> log_state \<Rightarrow> log_state" where
  "InfoWithError msg err args l =
     (if lg_verbose l then errors_Print err (slog_log InfoLevel msg args l)
      else slog_log InfoLevel msg (args @ [ErrAttr err]) l)"

definition WarnWithError :: "string \<Rightarrow> goerr \<Rightarrow> attribute list \<Rightarrow> log_state \<Rightarrow> log_state" where
  "WarnWithError msg err args l = errors_Print err (slog_log WarnLevel msg args l)"

definition log_Error :: "string \<Rightarrow> goerr \<Rightarrow> attribute list \<Rightarrow> log_state \<Rightarrow> log_state" where
  "log_Error msg err args l = errors_Print err (slog_log ErrorLevel msg args l)"

definition log_Fatal ::
  "('s handlers \<Rightarrow> 's \<Rightarrow> 's) \<Rightarrow> string \<Rightarrow> goerr \<Rightarrow> attribute list \<Rightarrow> 's handlers \<Rightarrow> 's \<Rightarrow> log_state \<Rightarrow> (ending \<times> 's) \<times> log_state" where
  "log_Fatal runHandlers msg err args hs s l =
     (os_Exit runHandlers 1 hs s, errors_Print err (slog_log ErrorLevel msg args l))"

text \<open>
  No error is lost: once \<open>SetVerbose\<close> was called, whatever it was given, an error that is reported with
  any of the functions is on the log, as an attribute or printed.
\<close>

definition logged :: "goerr \<Rightarrow> log_line \<Rightarrow> bool" where
  "logged err x \<longleftrightarrow> x = Printed err \<or> (\<exists>lv msg args. x = Entry lv msg args \<and> ErrAttr err \<in> set args)"

lemma errors_logged:
  assumes "lg_level l \<in> {Debug, InfoLevel}"
  shows "\<exists>x \<in> set (lg_lines (InfoWithError msg err args l)). logged err x"
    "\<exists>x \<in> set (lg_lines (WarnWithError msg err args l)). logged err x"
    "\<exists>x \<in> set (lg_lines (log_Error msg err args l)). logged err x"
  using assms by (auto simp: InfoWithError_def WarnWithError_def log_Error_def errors_Print_def slog_log_def logged_def)

lemma SetVerbose_level: "lg_level (SetVerbose b l) \<in> {Debug, InfoLevel}"
  by (simp add: SetVerbose_def)

section \<open>Errors on the terminal\<close>

text \<open>
  \<open>PrintNoStack\<close> of \<open>util/errors/errors.go\<close>: an error with what it wraps, outermost first, each with its
  message and, where it is a \<open>DetailedError\<close>, its details. \<open>errors.AsType\<close> finds the first one with details.
\<close>

type_synonym err_chain = "(string \<times> string option) list"

fun as_detailed :: "err_chain \<Rightarrow> string option" where
  "as_detailed [] = None"
| "as_detailed ((msg, None) # errs) = as_detailed errs"
| "as_detailed ((msg, Some d) # errs) = Some d"

fun print_loop :: "bool \<Rightarrow> err_chain \<Rightarrow> string" where
  "print_loop first [] = []"
| "print_loop first (err # errs) =
     (let errDetails = (case as_detailed (err # errs) of None \<Rightarrow> [] | Some d \<Rightarrow> d) in
      (if errDetails \<noteq> [] then (if first then ''Error: '' else []) @ fst err @ [CHR 0x0A] else []) @ print_loop False errs)"

definition PrintNoStack :: "err_chain \<Rightarrow> string" where
  "PrintNoStack err = print_loop True err"

text \<open>
  When details are never empty, every line is the message of an error that has details or wraps
  one that has, in order, and what is printed starts with \<open>Error:\<close>. An error without any details is not printed
  at all.
\<close>

lemma as_detailed_Some:
  "\<forall>x \<in> set errs. snd x \<noteq> Some [] \<Longrightarrow>
   (case as_detailed errs of None \<Rightarrow> [] | Some d \<Rightarrow> d) \<noteq> [] \<longleftrightarrow> (\<exists>x \<in> set errs. snd x \<noteq> None)"
  by (induction errs rule: as_detailed.induct) auto

lemma print_loop_lines:
  "\<forall>x \<in> set errs. snd x \<noteq> Some [] \<Longrightarrow>
   print_loop first errs = (if first \<and> (\<exists>x \<in> set errs. snd x \<noteq> None) then ''Error: '' else []) @
     concat (map (\<lambda>i. if \<exists>x \<in> set (drop i errs). snd x \<noteq> None then fst (errs ! i) @ [CHR 0x0A] else []) [0..<length errs])"
proof (induction errs arbitrary: first)
  case (Cons err errs)
  have "\<forall>x \<in> set (err # errs). snd x \<noteq> Some []" using Cons.prems .
  note details = as_detailed_Some [OF this]
  have "map (\<lambda>i. if \<exists>x \<in> set (drop i (err # errs)). snd x \<noteq> None then fst ((err # errs) ! i) @ [CHR 0x0A] else []) [0..<length (err # errs)] =
      (if \<exists>x \<in> set (err # errs). snd x \<noteq> None then fst err @ [CHR 0x0A] else []) #
      map (\<lambda>i. if \<exists>x \<in> set (drop i errs). snd x \<noteq> None then fst (errs ! i) @ [CHR 0x0A] else []) [0..<length errs]"
    by (simp add: upt_conv_Cons map_Suc_upt [symmetric] del: upt_Suc)
  moreover have "print_loop False errs =
      concat (map (\<lambda>i. if \<exists>x \<in> set (drop i errs). snd x \<noteq> None then fst (errs ! i) @ [CHR 0x0A] else []) [0..<length errs])"
    using Cons.IH [of False] Cons.prems by simp
  ultimately show ?case using details by (simp add: Let_def)
qed simp

lemma PrintNoStack_prefix:
  assumes "\<forall>x \<in> set errs. snd x \<noteq> Some []"
  shows "if \<exists>x \<in> set errs. snd x \<noteq> None then take 7 (PrintNoStack errs) = ''Error: '' else PrintNoStack errs = []"
proof (cases "\<exists>x \<in> set errs. snd x \<noteq> None")
  case True
  with print_loop_lines [OF assms, of True] show ?thesis by (simp add: PrintNoStack_def)
next
  case False
  then have "\<not> (\<exists>x \<in> set (drop i errs). snd x \<noteq> None)" for i using in_set_dropD by fastforce
  with print_loop_lines [OF assms, of True] False show ?thesis by (simp add: PrintNoStack_def)
qed

section \<open>The system proxy at the end\<close>

text \<open>
  When the handlers have run and the listener is neither unsetting the proxy nor set it after them, it
  has been unset.
\<close>

lemma ended_proxy:
  assumes "hs_inv t" "hs_term t = TDone" "hs_unset t = Some u" "hs_hasUnset t" "\<forall>err. hs_f1 t \<noteq> LUnset err"
  shows "hs_ran t = [u]"
  using assms by (simp add: hs_inv_def hs_proxy_inv_def)

lemma hasUnset_stays: "hs_step os exec c own s t \<Longrightarrow> hs_hasUnset s \<Longrightarrow> hs_hasUnset t"
  by (induction rule: hs_step.induct) auto

lemma hasUnset_stays_any: "(hs_any os exec c)\<^sup>*\<^sup>* s t \<Longrightarrow> hs_hasUnset s \<Longrightarrow> hs_hasUnset t"
  by (induction rule: rtranclp_induct) (auto simp: hs_any_def dest: hasUnset_stays)

lemma hs_any_step: "(hs_any os exec c)\<^sup>*\<^sup>* a b \<Longrightarrow> hs_step os exec c own b d \<Longrightarrow> (hs_any os exec c)\<^sup>*\<^sup>* a d"
  by (rule rtranclp.rtrancl_into_rtrancl) (auto simp: hs_any_def)

text \<open>
  The safe order: a signal that comes when the handler is registered and nobody is unsetting the proxy
  is handled by a handler that wins the flag, and when it is done the proxy is unset. Both hold from any
  state of a run.
\<close>

lemma signal_unsets_proxy:
  assumes "(hs_any os exec c)\<^sup>*\<^sup>* (hs_init c h) s" "hs_term s = TIdle" "hs_unset s = Some u" "\<not> hs_hasUnset s"
    "(hs_any os exec c)\<^sup>*\<^sup>* (s\<lparr>hs_term := TUnset, hs_hasUnset := True\<rparr>) t" "hs_term t = TDone" "hs_unset t = Some u"
    "\<forall>err. hs_f1 t \<noteq> LUnset err"
  shows "hs_step os exec c False s (s\<lparr>hs_term := TUnset, hs_hasUnset := True\<rparr>) \<and> hs_ran t = [u]"
proof -
  have inv: "hs_inv s" by (rule hs_inv_steps [OF assms(1) hs_inv_init])
  with assms(3) have "hs_handler s" by (simp add: hs_inv_def hs_proxy_inv_def)
  with assms(2-4) have step: "hs_step os exec c False s (s\<lparr>hs_term := TUnset, hs_hasUnset := True\<rparr>)"
    by (intro SignalUnset) simp_all
  then have "hs_inv (s\<lparr>hs_term := TUnset, hs_hasUnset := True\<rparr>)"
    by (intro hs_inv_step [OF _ inv]) (auto simp: hs_any_def)
  then have "hs_inv t" using hs_inv_steps [OF assms(5)] by blast
  moreover have "hs_hasUnset t" by (rule hasUnset_stays_any [OF assms(5)]) simp
  ultimately show ?thesis using step assms ended_proxy by blast
qed

section \<open>Properties\<close>

text \<open>
  C31. The handler of the program's end does not wait, so that the system proxy can be left behind: for
  every configuration with a system proxy on Linux and whatever its commands do, there are runs in which
  the handlers have all returned, so that the process goes away, while the proxy is set and no function
  has unset it. In one, the listener has won the flag and is still unsetting; in the other, the
  proxy was set after the handlers had run. Either way the unset function comes, if at all, after
  the handlers.
\<close>

theorem shutdown_races:
  assumes "hs_SystemProxy c"
  shows "(\<exists>t err. (hs_any Linux exec c)\<^sup>*\<^sup>* (hs_init c h) t \<and> hs_term t = TDone \<and> hs_unset t = Some UnsetLinux \<and>
      hs_f1 t = LUnset err \<and> hs_ran t = []) \<and>
    (\<exists>t. (hs_any Linux exec c)\<^sup>*\<^sup>* (hs_init c h) t \<and> hs_term t = TDone \<and> hs_unset t = Some UnsetLinux \<and>
      hs_f1 t = LServe \<and> hs_ran t = [] \<and> \<not> hs_hasUnset t)"
proof -
  let ?R = "hs_any Linux exec c"
  define s0 where "s0 = hs_init c h"
  define s1 where "s1 = s0\<lparr>hs_f1 := LOpen\<rparr>"
  define s2 where "s2 = (listenSuccessCallback Linux exec c s1)\<lparr>hs_f1 := LServe\<rparr>"
  define s3 where "s3 = s2\<lparr>hs_f1 := LStopped (ignoreClosed (Some EOF))\<rparr>"
  define s4 where "s4 = s3\<lparr>hs_f1 := LUnset (ignoreClosed (Some EOF)), hs_hasUnset := True\<rparr>"
  define s5 where "s5 = s4\<lparr>hs_term := TDone\<rparr>"
  define r2 where "r2 = s1\<lparr>hs_term := TDone\<rparr>"
  define r3 where "r3 = (listenSuccessCallback Linux exec c r2)\<lparr>hs_f1 := LServe\<rparr>"
  have init: "hs_f1 s0 = LStart" "hs_term s0 = TIdle" "hs_hasUnset s0 = False" "hs_ran s0 = []" "hs_handler s0 = False"
    "hs_commands s0 = h"
    by (simp_all add: s0_def hs_init_def)
  have set_proxy: "hs_unset s2 = Some UnsetLinux" "hs_unset r3 = Some UnsetLinux"
    using assms init linux_proxy_credentials [of exec "hs_Host c" "hs_Port c" "ToHTTPSOCKSAuthInfo c" h]
    by (auto simp: s2_def r3_def r2_def s1_def listenSuccessCallback_def)
  have R1: "?R\<^sup>*\<^sup>* s0 s1" unfolding s1_def by (rule hs_any_step [OF rtranclp.rtrancl_refl]) (rule Listens1, simp add: init)
  then have "?R\<^sup>*\<^sup>* s0 s2" unfolding s2_def by (rule hs_any_step) (rule Callback1, simp add: s1_def)
  then have "?R\<^sup>*\<^sup>* s0 s3" unfolding s3_def by (rule hs_any_step) (rule AcceptFails1, simp add: s2_def)
  then have "?R\<^sup>*\<^sup>* s0 s4" unfolding s4_def
    by (rule hs_any_step) (rule FinishUnset1, simp_all add: s3_def set_proxy, simp add: s2_def s1_def init)
  then have "?R\<^sup>*\<^sup>* s0 s5" unfolding s5_def
    by (rule hs_any_step) (rule Signal, simp_all add: s4_def s3_def s2_def s1_def init)
  moreover have "hs_term s5 = TDone" "hs_unset s5 = Some UnsetLinux" "hs_f1 s5 = LUnset (ignoreClosed (Some EOF))" "hs_ran s5 = []"
    using set_proxy init by (simp_all add: s5_def s4_def s3_def, simp add: s2_def s1_def)
  moreover from R1 have "?R\<^sup>*\<^sup>* s0 r2" unfolding r2_def by (rule hs_any_step) (rule Signal, simp_all add: s1_def init)
  then have "?R\<^sup>*\<^sup>* s0 r3" unfolding r3_def by (rule hs_any_step) (rule Callback1, simp add: r2_def s1_def)
  moreover have "hs_term r3 = TDone" "hs_f1 r3 = LServe" "hs_ran r3 = []" "\<not> hs_hasUnset r3"
    using init by (simp_all add: r3_def r2_def s1_def)
  ultimately show ?thesis using set_proxy unfolding s0_def by blast
qed

theorem shutdown_races_witness:
  "hs_SystemProxy sample_hs_conf \<and>
   (\<exists>t err. (hs_any Linux sample_exec sample_hs_conf)\<^sup>*\<^sup>* (hs_init sample_hs_conf []) t \<and> hs_term t = TDone \<and>
      hs_unset t = Some UnsetLinux \<and> hs_f1 t = LUnset err \<and> hs_ran t = [])"
  using shutdown_races [of sample_hs_conf sample_exec "[]"] by (simp add: sample_hs_conf_def)

end
