(* ===== verification/Dialer.thy ===== *)
theory Dialer
  imports Shutdown Servers
begin

text \<open>
  The dialing half of the network layer, \<open>util/netutil/dialer.go\<close>, with the time-outs and limits of
  \<open>util/netutil/util.go\<close>, the automatic certificates of \<open>util/netutil/acme_cert.go\<close> and the derived passwords of
  \<open>util/passwordutil\<close>. Times are in seconds. How long the network takes, and what it answers, are
  arguments.
\<close>

section \<open>Time-outs\<close>

definition keepAliveIdleTimeout :: nat where "keepAliveIdleTimeout = 120"
definition keepAliveInterval :: nat where "keepAliveInterval = 30"
definition dialerTimeout :: nat where "dialerTimeout = 15"
definition httpClientTimeout :: nat where "httpClientTimeout = 120"
definition httpReadHeaderTimeout :: nat where "httpReadHeaderTimeout = 15"
definition httpClientTLSHandshakeTimeout :: nat where "httpClientTLSHandshakeTimeout = 10"
definition httpClientIdleConnTimeout :: nat where "httpClientIdleConnTimeout = 2 * 60"
definition httpServerIdleTimeout :: nat where "httpServerIdleTimeout = 5 * 60"
definition quicMaxIdleTimeout :: nat where "quicMaxIdleTimeout = 60"

lemmas timeout_defs = keepAliveIdleTimeout_def keepAliveInterval_def dialerTimeout_def httpClientTimeout_def httpReadHeaderTimeout_def
  httpClientTLSHandshakeTimeout_def httpClientIdleConnTimeout_def httpServerIdleTimeout_def quicMaxIdleTimeout_def

text \<open>A shift by 20 bits is a megabyte.\<close>

definition MB :: "nat \<Rightarrow> nat" where "MB n = push_bit 20 n"

record KeepAliveConfig =
  ka_Enable :: bool
  ka_Idle :: nat
  ka_Interval :: nat

definition keepAliveConfig :: KeepAliveConfig where
  "keepAliveConfig = \<lparr>ka_Enable = True, ka_Idle = keepAliveIdleTimeout, ka_Interval = keepAliveInterval\<rparr>"

section \<open>HTTP and QUIC configurations\<close>

text \<open>
  The fields that the program sets; one it leaves alone is \<open>None\<close>. \<open>'h\<close> is a handler and \<open>'k\<close> the
  context that \<open>BaseContext\<close> gives for every listener.
\<close>

record HTTP2Config =
  h2_MaxConcurrentStreams :: "nat option"
  h2_MaxReceiveBufferPerConnection :: "nat option"
  h2_MaxReceiveBufferPerStream :: "nat option"
  h2_SendPingTimeout :: nat

record ('h, 'k) http_Server =
  sv_Handler :: 'h
  sv_ReadHeaderTimeout :: nat
  sv_IdleTimeout :: nat
  sv_ErrorLog :: level
  sv_BaseContext :: 'k
  sv_ConnContext :: "('k \<Rightarrow> netconn \<Rightarrow> 'k) option"
  sv_HTTP2 :: "HTTP2Config option"
  sv_Protocols :: "(bool \<times> bool) option"

text \<open>A standard logger that writes to \<open>slog\<close> is its level; \<open>Protocols\<close> is HTTP/1 and unencrypted HTTP/2.\<close>

definition NewStdLogger :: level where "NewStdLogger = InfoLevel"

definition NewHTTPServer :: "'k \<Rightarrow> ('k \<Rightarrow> netconn \<Rightarrow> 'k) \<Rightarrow> 'h \<Rightarrow> ('h, 'k) http_Server" where
  "NewHTTPServer ctx connContext handler =
     \<lparr>sv_Handler = handler, sv_ReadHeaderTimeout = httpReadHeaderTimeout, sv_IdleTimeout = httpServerIdleTimeout,
       sv_ErrorLog = NewStdLogger, sv_BaseContext = ctx, sv_ConnContext = Some connContext,
       sv_HTTP2 = Some \<lparr>h2_MaxConcurrentStreams = Some 200, h2_MaxReceiveBufferPerConnection = Some (MB 30),
         h2_MaxReceiveBufferPerStream = Some (MB 2), h2_SendPingTimeout = keepAliveInterval\<rparr>,
       sv_Protocols = None\<rparr>"

definition NewUnencryptedHTTPServer :: "'k \<Rightarrow> 'h \<Rightarrow> ('h, 'k) http_Server" where
  "NewUnencryptedHTTPServer ctx handler =
     \<lparr>sv_Handler = handler, sv_ReadHeaderTimeout = httpReadHeaderTimeout, sv_IdleTimeout = httpServerIdleTimeout,
       sv_ErrorLog = NewStdLogger, sv_BaseContext = ctx, sv_ConnContext = None, sv_HTTP2 = None, sv_Protocols = Some (True, True)\<rparr>"

record http_Transport =
  tr_ForceAttemptHTTP2 :: bool
  tr_MaxIdleConns :: nat
  tr_IdleConnTimeout :: nat
  tr_TLSHandshakeTimeout :: nat
  tr_ResponseHeaderTimeout :: nat
  tr_HTTP2 :: HTTP2Config

definition NewHTTPTransport :: http_Transport where
  "NewHTTPTransport =
     \<lparr>tr_ForceAttemptHTTP2 = True, tr_MaxIdleConns = 200, tr_IdleConnTimeout = httpClientIdleConnTimeout,
       tr_TLSHandshakeTimeout = httpClientTLSHandshakeTimeout, tr_ResponseHeaderTimeout = httpReadHeaderTimeout,
       tr_HTTP2 = \<lparr>h2_MaxConcurrentStreams = None, h2_MaxReceiveBufferPerConnection = None,
         h2_MaxReceiveBufferPerStream = None, h2_SendPingTimeout = keepAliveInterval\<rparr>\<rparr>"

record http_Client =
  hc_Transport :: http_Transport
  hc_Timeout :: nat

definition NewHTTPClient :: "http_Transport \<Rightarrow> http_Client" where
  "NewHTTPClient tr = \<lparr>hc_Transport = tr, hc_Timeout = httpClientTimeout\<rparr>"

record quic_Config =
  qc_HandshakeIdleTimeout :: nat
  qc_MaxIdleTimeout :: nat
  qc_KeepAlivePeriod :: nat
  qc_MaxIncomingStreams :: nat
  qc_InitialStreamReceiveWindow :: nat
  qc_MaxStreamReceiveWindow :: nat
  qc_InitialConnectionReceiveWindow :: nat
  qc_MaxConnectionReceiveWindow :: nat
  qc_Allow0RTT :: bool

definition newQUICConfig :: quic_Config where
  "newQUICConfig =
     \<lparr>qc_HandshakeIdleTimeout = dialerTimeout, qc_MaxIdleTimeout = quicMaxIdleTimeout, qc_KeepAlivePeriod = keepAliveInterval,
       qc_MaxIncomingStreams = 200, qc_InitialStreamReceiveWindow = MB 1, qc_MaxStreamReceiveWindow = MB 12,
       qc_InitialConnectionReceiveWindow = MB 1, qc_MaxConnectionReceiveWindow = MB 30, qc_Allow0RTT = True\<rparr>"

text \<open>
  The values fit together: a client drops an idle connection before the server would, so that it never
  writes into one that is being closed; a QUIC connection gets a keep-alive before it is
  idle for too long; no window or buffer starts above its limit or exceeds that of its connection; and a request
  that waits for its headers is given up within the time of the whole exchange.
\<close>

theorem limits_fit:
  "tr_IdleConnTimeout NewHTTPTransport < sv_IdleTimeout (NewHTTPServer ctx connContext handler) \<and>
   tr_IdleConnTimeout NewHTTPTransport < sv_IdleTimeout (NewUnencryptedHTTPServer ctx handler) \<and>
   h2_SendPingTimeout (tr_HTTP2 NewHTTPTransport) < tr_IdleConnTimeout NewHTTPTransport \<and>
   tr_TLSHandshakeTimeout NewHTTPTransport + tr_ResponseHeaderTimeout NewHTTPTransport + dialerTimeout < hc_Timeout (NewHTTPClient NewHTTPTransport) \<and>
   qc_KeepAlivePeriod newQUICConfig < qc_MaxIdleTimeout newQUICConfig \<and>
   qc_HandshakeIdleTimeout newQUICConfig < qc_MaxIdleTimeout newQUICConfig \<and>
   qc_InitialStreamReceiveWindow newQUICConfig \<le> qc_MaxStreamReceiveWindow newQUICConfig \<and>
   qc_InitialConnectionReceiveWindow newQUICConfig \<le> qc_MaxConnectionReceiveWindow newQUICConfig \<and>
   qc_MaxStreamReceiveWindow newQUICConfig \<le> qc_MaxConnectionReceiveWindow newQUICConfig"
  by (simp add: NewHTTPTransport_def NewHTTPServer_def NewUnencryptedHTTPServer_def NewHTTPClient_def newQUICConfig_def timeout_defs
      MB_def push_bit_eq_mult)

section \<open>Dialing\<close>

definition DeadlineExceeded :: goerr where "DeadlineExceeded = ErrNew ''context deadline exceeded''"

text \<open>
  The deadline of a context, if it has one, and one that is derived with a time-out. What an
  operation that starts at \<open>now\<close> comes to, when the network would answer after some seconds: the time
  and the result.
\<close>

definition WithTimeout :: "nat \<Rightarrow> nat \<Rightarrow> nat option \<Rightarrow> nat option" where
  "WithTimeout now timeout deadline =
     Some (case deadline of None \<Rightarrow> now + timeout | Some d \<Rightarrow> min d (now + timeout))"

definition until :: "nat option \<Rightarrow> nat \<Rightarrow> nat \<times> 'a res \<Rightarrow> nat \<times> 'a res" where
  "until deadline now answer =
     (case answer of (took, r) \<Rightarrow>
        (case deadline of
           None \<Rightarrow> (now + took, r)
         | Some d \<Rightarrow> if d \<le> now + took then (max now d, Inl DeadlineExceeded) else (now + took, r)))"

record net_Dialer =
  nd_Timeout :: nat
  nd_KeepAliveConfig :: KeepAliveConfig

definition dialer :: net_Dialer where
  "dialer = \<lparr>nd_Timeout = dialerTimeout, nd_KeepAliveConfig = keepAliveConfig\<rparr>"

text \<open>
  \<open>connect\<close> is the network: a connection is a TCP connection, with the keep-alive of its dialer, or one of another kind.
\<close>

datatype sys_conn = TCPConn netconn KeepAliveConfig | OtherConn

type_synonym net_connect = "KeepAliveConfig \<Rightarrow> string \<Rightarrow> string \<Rightarrow> nat \<times> sys_conn res"

definition DialContext :: "net_connect \<Rightarrow> net_Dialer \<Rightarrow> nat option \<Rightarrow> nat \<Rightarrow> string \<Rightarrow> string \<Rightarrow> nat \<times> sys_conn res" where
  "DialContext connect d deadline now network addr =
     until (WithTimeout now (nd_Timeout d) deadline) now (connect (nd_KeepAliveConfig d) network addr)"

definition dial :: "net_connect \<Rightarrow> nat option \<Rightarrow> nat \<Rightarrow> string \<Rightarrow> string \<Rightarrow> nat \<times> sys_conn res" where
  "dial connect deadline now network addr = DialContext connect dialer deadline now network addr"

definition DialTCP :: "net_connect \<Rightarrow> nat option \<Rightarrow> nat \<Rightarrow> string \<Rightarrow> nat \<times> netconn res" where
  "DialTCP connect deadline now addr =
     (case dial connect deadline now ''tcp'' addr of
        (t, Inl err) \<Rightarrow> (t, Inl err)
      | (t, Inr (TCPConn c ka)) \<Rightarrow> (t, Inr c)
      | (t, Inr OtherConn) \<Rightarrow> (t, Inl (Panic ''interface conversion'')))"

definition DialTLS :: "net_connect \<Rightarrow> nat option \<Rightarrow> nat \<Rightarrow> string \<Rightarrow> tls_config \<Rightarrow> nat \<times> (sys_conn \<times> tls_config) res" where
  "DialTLS connect deadline now addr tlsConfig =
     (case dial connect deadline now ''tcp'' addr of
        (t, Inl err) \<Rightarrow> (t, Inl err)
      | (t, Inr conn) \<Rightarrow> (t, Inr (conn, tlsConfig)))"

definition HandshakeTLS ::
  "(sys_conn \<times> tls_config \<Rightarrow> nat \<times> unit res) \<Rightarrow> nat option \<Rightarrow> nat \<Rightarrow> sys_conn \<times> tls_config \<Rightarrow> nat \<times> unit res" where
  "HandshakeTLS handshake deadline now tlsConn = until (WithTimeout now dialerTimeout deadline) now (handshake tlsConn)"

definition DialQUICEarly ::
  "(string \<Rightarrow> tls_config \<Rightarrow> quic_Config \<Rightarrow> nat \<times> 'q res) \<Rightarrow> nat option \<Rightarrow> nat \<Rightarrow> string \<Rightarrow> tls_config \<Rightarrow> nat \<times> 'q res" where
  "DialQUICEarly quic_dial deadline now addr tlsConf = until deadline now (quic_dial addr tlsConf newQUICConfig)"

lemma until_bounds: "until (Some d) now x = (t, r) \<Longrightarrow> now \<le> t \<and> t \<le> max now d"
  by (auto simp: until_def split: prod.splits if_splits)

lemma WithTimeout_bound: "WithTimeout now n deadline = Some d \<Longrightarrow> d \<le> now + n \<and> (\<forall>d0. deadline = Some d0 \<longrightarrow> d \<le> d0)"
  by (auto simp: WithTimeout_def split: option.splits)

lemma until_timeout_bounds:
  assumes "until (WithTimeout now n deadline) now x = (t, r)"
  shows "now \<le> t \<and> t \<le> now + n \<and> (\<forall>d0. deadline = Some d0 \<longrightarrow> t \<le> max now d0)"
proof -
  obtain d where "WithTimeout now n deadline = Some d" by (simp add: WithTimeout_def)
  with assms WithTimeout_bound [OF this] show ?thesis by (auto dest!: until_bounds simp: max_def split: if_splits)
qed

text \<open>
  A connection to a carrier's server is there, or has failed, within 30 seconds: 15 for the TCP
  connection and 15 for the handshake, whatever the network does, and never later than the
  deadline of the caller. A TCP connection that comes has the keep-alive of the program.
\<close>

theorem dial_bounded:
  assumes "DialTLS connect deadline now addr cfg = (t, r)"
  shows "now \<le> t \<and> t \<le> now + 15 \<and> (\<forall>d. deadline = Some d \<longrightarrow> t \<le> max now d) \<and>
    (\<forall>conn. r = Inr conn \<longrightarrow> (\<forall>t' r'. HandshakeTLS handshake deadline t conn = (t', r') \<longrightarrow>
       t' \<le> now + 30 \<and> (\<forall>d. deadline = Some d \<longrightarrow> t' \<le> max now d)))"
proof -
  obtain r0 where "until (WithTimeout now (nd_Timeout dialer) deadline) now (connect (nd_KeepAliveConfig dialer) ''tcp'' addr) = (t, r0)"
    using assms by (auto simp: DialTLS_def dial_def DialContext_def split: prod.splits sum.splits)
  from until_timeout_bounds [OF this]
  have t: "now \<le> t \<and> t \<le> now + 15 \<and> (\<forall>d. deadline = Some d \<longrightarrow> t \<le> max now d)" by (simp add: dialer_def dialerTimeout_def)
  have "t' \<le> now + 30 \<and> (\<forall>d. deadline = Some d \<longrightarrow> t' \<le> max now d)" if "HandshakeTLS handshake deadline t conn = (t', r')" for conn t' r'
    using until_timeout_bounds [OF that [unfolded HandshakeTLS_def]] t by (auto simp: dialerTimeout_def)
  with t show ?thesis by blast
qed

theorem dial_bounded_witness:
  "DialTLS (\<lambda>ka network addr. (100, Inr OtherConn)) (Some 8) 5 ''h:1'' new_tls_config = (8, Inl DeadlineExceeded) \<and>
   DialTLS (\<lambda>ka network addr. (100, Inr OtherConn)) None 5 ''h:1'' new_tls_config = (20, Inl DeadlineExceeded) \<and> (20 :: nat) \<le> 5 + 15"
proof -
  have "DialTLS (\<lambda>ka network addr. (100, Inr OtherConn)) None 5 ''h:1'' new_tls_config = (20, Inl DeadlineExceeded)"
    by (simp add: DialTLS_def dial_def DialContext_def until_def WithTimeout_def dialer_def dialerTimeout_def)
  moreover have "DialTLS (\<lambda>ka network addr. (100, Inr OtherConn)) (Some 8) 5 ''h:1'' new_tls_config = (8, Inl DeadlineExceeded)"
    by (simp add: DialTLS_def dial_def DialContext_def until_def WithTimeout_def dialer_def dialerTimeout_def)
  ultimately show ?thesis using dial_bounded [of "\<lambda>ka network addr. (100, Inr OtherConn)" None 5 "''h:1''" new_tls_config 20] by blast
qed

text \<open>The type assertion of \<open>DialTCP\<close> holds when the network answers \<open>tcp\<close> with TCP connections.\<close>

lemma DialTCP_no_panic:
  assumes "snd (connect keepAliveConfig ''tcp'' addr) \<noteq> Inr OtherConn" "DialTCP connect deadline now addr = (t, Inl (Panic msg))"
  shows "snd (connect keepAliveConfig ''tcp'' addr) = Inl (Panic msg)"
  using assms by (auto simp: DialTCP_def dial_def DialContext_def until_def WithTimeout_def dialer_def DeadlineExceeded_def
      split: prod.splits sum.splits sys_conn.splits option.splits if_splits)

section \<open>Automatic certificates and derived passwords\<close>

text \<open>
  The server of port 80 that \<open>autocert\<close> needs runs beside the program, and an error of it ends the
  program. The configuration asks \<open>autocert\<close> for a certificate of the host, as \<open>TLSServerConfig\<close> expects it.
\<close>

record autocert_Manager =
  am_Cache :: string
  am_HostPolicy :: "string list"
  am_RenewBefore :: nat

definition tlsConfigWithAutomatedCertificate ::
  "('s handlers \<Rightarrow> 's \<Rightarrow> 's) \<Rightarrow> (string \<Rightarrow> nat res) \<Rightarrow> goerr option \<Rightarrow> nat set \<Rightarrow> 's handlers \<Rightarrow> 's \<Rightarrow> log_state \<Rightarrow> string \<Rightarrow>
   tls_config \<times> autocert_Manager \<times> ((ending \<times> 's) \<times> log_state) option" where
  "tlsConfigWithAutomatedCertificate runHandlers listen serveErr reg hs s l host =
     (new_tls_config\<lparr>tc_AutoCertHost := Some host\<rparr>,
      \<lparr>am_Cache = ''certs'', am_HostPolicy = [host], am_RenewBefore = 10 * 24 * 3600\<rparr>,
      (case (ListenUnencryptedHTTPAndServe (listen '':80'') serveErr reg :: _ \<times> unit ln_event list \<times> _) of
         (None, _) \<Rightarrow> None
       | (Some err, _) \<Rightarrow>
           Some (log_Fatal runHandlers ''fail to start a HTTP server for automatic renewing certificate'' err [] hs s l)))"

lemma automated_certificate_config:
  "fst (TLSServerConfig env host None False empty_tls) =
     Inr (h2_of (fst (tlsConfigWithAutomatedCertificate runHandlers listen serveErr reg hs s l host)) 0)"
  by (simp add: TLSServerConfig_def empty_tls_def store_server_configs_def tlsConfigWithAutomatedCertificate_def Let_def)

definition defaultKeyLen :: nat where "defaultKeyLen = 16"

definition app_salt :: bytes where "app_salt = str_bytes ''hg-app-salt-v1''"

text \<open>\<open>hkdfKey\<close> is \<open>hkdf.Key\<close> with SHA-256; an error of it ends the program.\<close>

definition DeriveN :: "(bytes \<Rightarrow> bytes \<Rightarrow> string \<Rightarrow> nat \<Rightarrow> bytes res) \<Rightarrow> bytes \<Rightarrow> string \<Rightarrow> nat \<Rightarrow> ending + bytes" where
  "DeriveN hkdfKey password info keyLen =
     (case hkdfKey password app_salt info keyLen of
        Inl err \<Rightarrow> Inl (ExitCode 1)
      | Inr derived \<Rightarrow> Inr derived)"

definition DeriveBase64 :: "(bytes \<Rightarrow> string \<Rightarrow> nat \<Rightarrow> bytes) \<Rightarrow> bytes \<Rightarrow> string \<Rightarrow> string" where
  "DeriveBase64 derive password info = base64_EncodeToString (derive password info defaultKeyLen)"

text \<open>The passwords of three carriers are derived this way, each with the label of its carrier.\<close>

lemma AuthPassword_derived:
  "np_AuthPassword D password = DeriveBase64 D password ''hg/naiveproxy/auth-password/v1''"
  "tr_AuthPassword D password = DeriveBase64 D password ''hg/trojan/auth-password/v1''"
  "sq_AuthPassword D password = DeriveBase64 D password ''hg/sunnyquic/auth-password/v1''"
  by (simp_all add: np_AuthPassword_def tr_AuthPassword_def sq_AuthPassword_def DeriveBase64_def defaultKeyLen_def)

end
