(* ===== verification/ProxyTests.thy ===== *)
theory ProxyTests
  imports HttpProxy Servers Updater
begin

text \<open>
  The repository's own tests of the local proxy and of the carriers, \<open>util/testutil/template.go\<close> and
  \<open>util/testutil/helper.go\<close>, on the model: what a test client sees through each proxy for every
  configuration and user, the table of the tests, and the client configuration that the tests derive
  from a server's. The clients of the tests are those of \<open>net/http\<close>.
\<close>

section \<open>Free ports\<close>

text \<open>
  \<open>listen\<close> is the system's choice of a port, given those that are taken: the listeners stay open until every
  port has been picked.
\<close>

fun pick_ports :: "(u16 set \<Rightarrow> u16 res) \<Rightarrow> u16 set \<Rightarrow> nat \<Rightarrow> u16 list res" where
  "pick_ports listen busy 0 = Inr []"
| "pick_ports listen busy (Suc n) =
     (case listen busy of
        Inl err \<Rightarrow> Inl err
      | Inr p \<Rightarrow> (case pick_ports listen (insert p busy) n of Inl err \<Rightarrow> Inl err | Inr ps \<Rightarrow> Inr (p # ps)))"

definition freeTCPPorts :: "(u16 set \<Rightarrow> u16 res) \<Rightarrow> u16 set \<Rightarrow> nat \<Rightarrow> u16 list res" where
  "freeTCPPorts listen busy n = pick_ports listen busy n"

definition freeUDPPort :: "(u16 set \<Rightarrow> u16 res) \<Rightarrow> u16 set \<Rightarrow> u16 res" where
  "freeUDPPort listenPacket busy = listenPacket busy"

definition useFreePorts :: "(u16 set \<Rightarrow> u16 res) \<Rightarrow> u16 set \<Rightarrow> (u16 set \<Rightarrow> u16 res) \<Rightarrow> u16 set \<Rightarrow> Hg \<Rightarrow> Hg res" where
  "useFreePorts listen tcpBusy listenPacket udpBusy hg =
     (case freeTCPPorts listen tcpBusy 2 of
        Inl err \<Rightarrow> Inl err
      | Inr tcpPorts \<Rightarrow>
          (case freeUDPPort listenPacket udpBusy of
             Inl err \<Rightarrow> Inl err
           | Inr udpPort \<Rightarrow>
               Inr (hg\<lparr>hg_TCPPort := Some (tcpPorts ! 0), hg_TLSPort := tcpPorts ! 1, hg_QUICPort := udpPort\<rparr>)))"

lemma pick_ports_free:
  assumes "\<And>busy p. listen busy = Inr p \<Longrightarrow> p \<notin> busy"
  shows "pick_ports listen busy n = Inr ps \<Longrightarrow> length ps = n \<and> distinct ps \<and> set ps \<inter> busy = {}"
proof (induction n arbitrary: busy ps)
  case (Suc n)
  then obtain p qs where p: "listen busy = Inr p" "pick_ports listen (insert p busy) n = Inr qs" "ps = p # qs"
    by (auto split: sum.splits)
  from Suc.IH [OF p(2)] assms [OF p(1)] p(3) show ?case by auto
qed simp

lemma useFreePorts_distinct:
  assumes "\<And>busy p. listen busy = Inr p \<Longrightarrow> p \<notin> busy" "useFreePorts listen tcpBusy listenPacket udpBusy hg = Inr hg'"
  shows "hg_TCPPort hg' \<noteq> Some (hg_TLSPort hg') \<and> hg_TLSPort hg' \<notin> tcpBusy \<and> hg_Password hg' = hg_Password hg"
proof -
  obtain ps p where ps: "pick_ports listen tcpBusy 2 = Inr ps"
    "hg' = hg\<lparr>hg_TCPPort := Some (ps ! 0), hg_TLSPort := ps ! 1, hg_QUICPort := p\<rparr>"
    using assms(2) by (auto simp: useFreePorts_def freeTCPPorts_def split: sum.splits)
  from pick_ports_free [OF assms(1) ps(1)] have "length ps = 2" "distinct ps" "set ps \<inter> tcpBusy = {}" by blast+
  moreover from this(1) obtain p1 p2 where "ps = [p1, p2]" by (auto simp: numeral_2_eq_2 length_Suc_conv)
  ultimately show ?thesis using ps(2) by auto
qed

section \<open>The test server and its client's configuration\<close>

text \<open>A failed assertion of a test is an error; \<open>fallbackStart\<close> and \<open>run\<close> are the goroutine of the server.\<close>

definition startTestServer ::
  "('re, 'ps) Config res \<Rightarrow> (Hg \<Rightarrow> Hg res) \<Rightarrow> (Hg \<Rightarrow> fallback_server res) \<Rightarrow> (Hg \<Rightarrow> fallback_server \<Rightarrow> goerr option) \<Rightarrow>
   (Hg \<times> goerr option) res" where
  "startTestServer parsed ports fallbackStart run =
     (case parsed of
        Inl err \<Rightarrow> Inl err
      | Inr serverConf \<Rightarrow>
          (case in_Hg (co_Inbounds serverConf) of
             None \<Rightarrow> Inl (ErrNew ''expected non-nil value'')
           | Some hg0 \<Rightarrow>
               (case ports hg0 of
                  Inl err \<Rightarrow> Inl err
                | Inr hg \<Rightarrow>
                    Inr (hg, (case fallbackStart hg of Inl err \<Rightarrow> Some err | Inr fallbackHttpServer \<Rightarrow> run hg fallbackHttpServer)))))"

definition toProxyNode :: "Hg \<Rightarrow> ProxyNode res" where
  "toProxyNode hg =
     (case hg_TLSCertKeyPair hg of
        None \<Rightarrow> Inl (Panic ''nil pointer dereference'')
      | Some pair \<Rightarrow>
          Inr \<lparr>pn_Host = hg_Host hg, pn_Password = hg_Password hg, pn_TCPPort = hg_TCPPort hg, pn_TLSPort = hg_TLSPort hg,
            pn_TLSCustomCertFile = ck_CertFile pair, pn_QUICPort = hg_QUICPort hg\<rparr>)"

text \<open>
  The proxy under test is ready when its listener's callback has sent the address of the listener, and
  the test fails with the error of the listener otherwise.
\<close>

definition startProxyServer :: "(string \<Rightarrow> nat res) \<Rightarrow> (string \<Rightarrow> string) \<Rightarrow> netconn res list \<Rightarrow> nat set \<Rightarrow> string res" where
  "startProxyServer listen listenAddr incoming reg =
     (let addr = JoinHostPort IPv4Localhost 0 in
      case ListenTCPAndServeWithListenerCallback (listen addr) incoming True False reg of (listenErr, ev, _) \<Rightarrow>
        if Callback \<in> set ev then Inr (listenAddr addr)
        else (case listenErr of None \<Rightarrow> Inr [] | Some err \<Rightarrow> Inl err))"

lemma startProxyServer_listens:
  "startProxyServer listen listenAddr incoming reg =
     (case listen (JoinHostPort IPv4Localhost 0) of Inl err \<Rightarrow> Inl err | Inr ln \<Rightarrow> Inr (listenAddr (JoinHostPort IPv4Localhost 0)))"
  by (auto simp: startProxyServer_def ListenTCPAndServeWithListenerCallback_def listenTCPAndAccept_def Let_def split: sum.splits prod.splits)

section \<open>A client behind a proxy\<close>

text \<open>
  What the HTTP client of a test gets: the status of a response with its header, or an error. The target
  is a site that is reached at one address and answers 204, as \<open>noContentHandler\<close> does.
\<close>

datatype proxied = Response nat "(string \<times> string) list" | ProxyError string

definition noContentSite :: "SocketAddress \<Rightarrow> SocketAddress \<Rightarrow> proxied" where
  "noContentSite a x = (if x = a then Response 204 [] else ProxyError ''no such host'')"

definition testRequestSuccess :: "proxied \<Rightarrow> bool" where
  "testRequestSuccess resp = (case resp of Response code header \<Rightarrow> 200 \<le> code \<and> code \<le> 299 | ProxyError msg \<Rightarrow> False)"

text \<open>
  The SOCKS client of \<open>net/http\<close>: it offers both methods when the proxy's URL has a user, and writes
  each part after the reply to the one before. \<open>replies\<close> is what the server has sent once it has
  received the bytes given.
\<close>

definition user_bytes :: "string \<times> string \<Rightarrow> bytes" where
  "user_bytes x = (case x of (u, p) \<Rightarrow> [1, of_nat (length u)] @ str_bytes u @ [of_nat (length p)] @ str_bytes p)"

definition client_hello :: "(string \<times> string) option \<Rightarrow> bytes" where
  "client_hello user = (let ms = (if user = None then [0] else [0, 2]) in [5, of_nat (length ms)] @ ms)"

definition socks_client :: "(string \<times> string) option \<Rightarrow> bytes \<Rightarrow> (bytes \<Rightarrow> bytes) \<Rightarrow> string + bytes" where
  "socks_client user request replies =
     (case replies (client_hello user) of
        v # m # _ \<Rightarrow>
          if v \<noteq> 5 then Inl ''unexpected protocol version''
          else if m = 0xFF then Inl ''no acceptable authentication methods''
          else if m = 0 then Inr (client_hello user @ request)
          else (case user of
              None \<Rightarrow> Inl ''unsupported authentication method''
            | Some (u, p) \<Rightarrow>
                if m \<noteq> 2 then Inl ''unsupported authentication method''
                else if u = [] \<or> 255 < length u \<or> 255 < length p then Inl ''invalid username/password''
                else (case drop 2 (replies (client_hello user @ user_bytes (u, p))) of
                    v1 # status # _ \<Rightarrow>
                      if v1 \<noteq> 1 then Inl ''invalid username/password version''
                      else if status \<noteq> 0 then Inl ''username/password authentication failed''
                      else Inr (client_hello user @ user_bytes (u, p) @ request)
                  | _ \<Rightarrow> Inl ''EOF''))
      | _ \<Rightarrow> Inl ''EOF'')"

text \<open>\<open>serve\<close> is the proxy on a connection, and \<open>conn\<close> the connection on which bytes have come.\<close>

definition through_socks ::
  "(netconn \<Rightarrow> SocketAddress res \<times> netconn) \<Rightarrow> (bytes \<Rightarrow> netconn) \<Rightarrow> (SocketAddress \<Rightarrow> proxied) \<Rightarrow> bytes \<Rightarrow>
   (string \<times> string) option \<Rightarrow> proxied" where
  "through_socks serve conn site ab user =
     (case socks_client user ([5, 1, 0] @ ab) (\<lambda>bs. conn_sent (snd (serve (conn bs)))) of
        Inl msg \<Rightarrow> ProxyError (''socks connect: '' @ msg)
      | Inr bs \<Rightarrow> (case serve (conn bs) of (Inl err, c) \<Rightarrow> ProxyError ''EOF'' | (Inr a, c) \<Rightarrow> site a))"

text \<open>The request of an HTTP client through an HTTP proxy: a CONNECT for a secure target.\<close>

definition proxy_request :: "(string \<times> string) option \<Rightarrow> bool \<Rightarrow> string \<Rightarrow> http_request" where
  "proxy_request user https host =
     \<lparr>rq_ProtoMajor = 1, rq_Method = (if https then ''CONNECT'' else ''GET''), rq_URLHost = host, rq_Host = host,
       rq_Header = (case user of
           None \<Rightarrow> (\<lambda>k. [])
         | Some (u, p) \<Rightarrow> header_Set (\<lambda>k. []) ''Proxy-Authorization''
             (basicAuthPrefix @ base64_EncodeToString (str_bytes (u @ CHR '':'' # p)))),
       rq_Close = True\<rparr>"

text \<open>\<open>ReadResponse\<close> is the client's parser of what \<open>Response.Write\<close> writes.\<close>

definition through_http ::
  "(http_request \<Rightarrow> SocketAddress res \<times> netconn) \<Rightarrow> (bytes \<Rightarrow> nat \<times> (string \<times> string) list) \<Rightarrow> (SocketAddress \<Rightarrow> proxied) \<Rightarrow>
   string \<Rightarrow> bool \<Rightarrow> (string \<times> string) option \<Rightarrow> proxied" where
  "through_http serve ReadResponse site host https user =
     (case serve (proxy_request user https host) of
        (Inl err, c) \<Rightarrow> (case ReadResponse (conn_sent c) of (code, header) \<Rightarrow> Response code header)
      | (Inr a, c) \<Rightarrow> site a)"

text \<open>
  The address that a server goes on to: the HTTP server alone, and the two servers behind one port, as the tests of
  \<open>transport/http_socks\<close> see them.
\<close>

definition http_address ::
  "(nat \<Rightarrow> (string \<times> string) list \<Rightarrow> bytes) \<Rightarrow> HTTPSOCKSAuthInfo option \<Rightarrow> http_request res \<Rightarrow> bytes \<Rightarrow> relay_turn list \<Rightarrow>
   netconn \<Rightarrow> SocketAddress res \<times> netconn" where
  "http_address W auth readRequest unread turns c =
     (case http_Serve W auth readRequest unread turns c of
        (Inl err, c') \<Rightarrow> (Inl err, c')
      | (Inr d, c') \<Rightarrow> (Inr (decision_addr d), c'))"

definition http_socks_address ::
  "(nat \<Rightarrow> (string \<times> string) list \<Rightarrow> bytes) \<Rightarrow> HTTPSOCKSAuthInfo option \<Rightarrow> (netconn \<Rightarrow> http_request res) \<Rightarrow>
   (netconn \<Rightarrow> bytes) \<Rightarrow> relay_turn list \<Rightarrow> netconn \<Rightarrow> SocketAddress res \<times> netconn" where
  "http_socks_address W auth readRequest unread turns c =
     (case http_socks_serve W auth readRequest unread turns c of
        (Inl err, c') \<Rightarrow> (Inl err, c')
      | (Inr (SocksForward a), c') \<Rightarrow> (Inr a, c')
      | (Inr (HttpDecision d), c') \<Rightarrow> (Inr (decision_addr d), c'))"

section \<open>The tests\<close>

record proxy_test =
  pt_name :: string
  pt_serverAuth :: HTTPSOCKSAuthInfo
  pt_clientUser :: "(string \<times> string) option"
  pt_https :: bool
  pt_socksErr :: string

definition proxy_tests :: "proxy_test list" where
  "proxy_tests =
     (let noAuthInfo = \<lparr>Username = [], Password = []\<rparr>; authInfo = \<lparr>Username = ''username'', Password = ''password''\<rparr>;
          user = Some (''username'', ''password''); wrongUser = Some (''username'', ''password1'') in
      [\<lparr>pt_name = ''no auth'', pt_serverAuth = noAuthInfo, pt_clientUser = None, pt_https = False, pt_socksErr = []\<rparr>,
       \<lparr>pt_name = ''unneeded auth'', pt_serverAuth = noAuthInfo, pt_clientUser = user, pt_https = False, pt_socksErr = []\<rparr>,
       \<lparr>pt_name = ''correct auth'', pt_serverAuth = authInfo, pt_clientUser = user, pt_https = False, pt_socksErr = []\<rparr>,
       \<lparr>pt_name = ''correct auth with HTTPS'', pt_serverAuth = authInfo, pt_clientUser = user, pt_https = True, pt_socksErr = []\<rparr>,
       \<lparr>pt_name = ''missing auth'', pt_serverAuth = authInfo, pt_clientUser = None, pt_https = False,
         pt_socksErr = ''no acceptable authentication methods''\<rparr>,
       \<lparr>pt_name = ''wrong auth'', pt_serverAuth = authInfo, pt_clientUser = wrongUser, pt_https = False,
         pt_socksErr = ''username/password authentication failed''\<rparr>])"

definition test_passes :: "string \<Rightarrow> proxy_test \<Rightarrow> proxied \<Rightarrow> bool" where
  "test_passes proxyScheme tt result =
     (if pt_socksErr tt = [] then (case result of Response code header \<Rightarrow> code = 204 | ProxyError msg \<Rightarrow> False)
      else if proxyScheme = ''http'' then
        (case result of
           Response code header \<Rightarrow> code = 407 \<and> map_of header ''Proxy-Authenticate'' = Some ''Basic''
         | ProxyError msg \<Rightarrow> False)
      else (case result of Response code header \<Rightarrow> False | ProxyError msg \<Rightarrow> Contains msg (pt_socksErr tt)))"

text \<open>\<open>requestThroughProxy\<close> makes a request for a server's configuration, a user and a kind of target.\<close>

definition TestHTTPSOCKSServer ::
  "string \<Rightarrow> (HTTPSOCKSAuthInfo \<Rightarrow> (string \<times> string) option \<Rightarrow> bool \<Rightarrow> proxied) \<Rightarrow> bool" where
  "TestHTTPSOCKSServer proxyScheme requestThroughProxy =
     list_all (\<lambda>tt. test_passes proxyScheme tt (requestThroughProxy (pt_serverAuth tt) (pt_clientUser tt) (pt_https tt))) proxy_tests"

section \<open>The tests of a carrier\<close>

definition startHTTPServer :: "SocketAddress \<Rightarrow> SocketAddress \<Rightarrow> proxied" where
  "startHTTPServer a = noContentSite a"

definition testRequest :: "proxied \<Rightarrow> (nat \<times> (string \<times> string) list) res" where
  "testRequest resp = (case resp of ProxyError msg \<Rightarrow> Inl (ErrNew msg) | Response code header \<Rightarrow> Inr (code, header))"

text \<open>
  The test of a client and a server of one carrier: \<open>started\<close> is \<open>startTestServer\<close>, and \<open>get\<close> the request
  through the client to the test site.
\<close>

definition TestClientServerConnection ::
  "(Hg \<times> goerr option) res \<Rightarrow> (ProxyNode \<Rightarrow> 'c res) \<Rightarrow> (Hg \<Rightarrow> 'c \<Rightarrow> proxied) \<Rightarrow> bool" where
  "TestClientServerConnection started newClient get =
     (case started of
        Inl err \<Rightarrow> False
      | Inr (hg, serverErr) \<Rightarrow>
          serverErr = None \<and>
          (case toProxyNode hg of
             Inl err \<Rightarrow> False
           | Inr node \<Rightarrow> (case newClient node of Inl err \<Rightarrow> False | Inr client \<Rightarrow> testRequestSuccess (get hg client))))"

text \<open>
  For the Trojan carrier: the connection is dialed for the site's address, the request is copied into it, and
  the server of the configuration forwards what comes out to the address it reads.
\<close>

definition get_through_trojan ::
  "carrier_env \<Rightarrow> (string \<Rightarrow> tls_config \<Rightarrow> netconn res) \<Rightarrow> (SocketAddress \<Rightarrow> bytes \<Rightarrow> proxied) \<Rightarrow> SocketAddress \<Rightarrow> bytes \<Rightarrow>
   Hg \<Rightarrow> tr_client \<Rightarrow> proxied" where
  "get_through_trojan cenv DialTLS site a request hg client =
     (case tr_DialTCP DialTLS client a of
        Inl err \<Rightarrow> ProxyError ''dial''
      | Inr cc \<Rightarrow>
          (case tr_ReadFrom (mk_reader [request]) cc of
             (n, Some err, cc') \<Rightarrow> ProxyError ''write''
           | (n, None, cc') \<Rightarrow>
               (case tr_np_NewServer cenv hg of
                  Inl err \<Rightarrow> ProxyError ''server''
                | Inr (tr, np) \<Rightarrow>
                    (case tr_np_serve (trs_passwordHash tr) (mk_reader [sent (cout (trc_conn cc'))]) of
                       TrTunnel x tunnel \<Rightarrow> site x (contents tunnel)
                     | _ \<Rightarrow> ProxyError ''EOF''))))"

text \<open>
  The test of the fallback: a client that speaks HTTPS to the port gets the site. \<open>serve\<close> is the server's
  decision, and \<open>fallback\<close> the site, or the NaiveProxy server in front of it, on what is left to read.
\<close>

definition TestServerServesFallbackWithWrongProtocol ::
  "(reader \<Rightarrow> tr_decision) \<Rightarrow> (bytes \<Rightarrow> proxied) \<Rightarrow> bytes \<Rightarrow> bool" where
  "TestServerServesFallbackWithWrongProtocol serve fallback request =
     testRequestSuccess
       (case serve (mk_reader [request]) of
          TrFallback s \<Rightarrow> fallback (contents s)
        | TrNaive s \<Rightarrow> fallback (contents s)
        | TrTunnel a s \<Rightarrow> ProxyError ''EOF''
        | TrFail err \<Rightarrow> ProxyError ''EOF'')"

text \<open>
  The test of plain HTTP on the TLS port: the handshake fails with the first five bytes as the record
  header, and the client reads a status and a body from the reply.
\<close>

fun after_blank_line :: "string \<Rightarrow> string" where
  "after_blank_line [] = []"
| "after_blank_line (c # cs) =
     (if take 4 (c # cs) = [CHR 0x0D, CHR 0x0A, CHR 0x0D, CHR 0x0A] then drop 4 (c # cs) else after_blank_line cs)"

definition status_of :: "string \<Rightarrow> string" where
  "status_of reply = take 3 (drop 9 reply)"

definition TestServerRejectsPlainHTTP :: "(string \<times> netconn option \<Rightarrow> netconn option) \<Rightarrow> string \<Rightarrow> bool" where
  "TestServerRejectsPlainHTTP respond request =
     (case respond (take 5 request, Some (mk_conn (mk_reader [str_bytes request]))) of
        None \<Rightarrow> False
      | Some conn \<Rightarrow>
          (let reply = bytes_str (conn_sent conn) in
           status_of reply = ''400'' \<and>
           after_blank_line reply = ''Client sent an HTTP request to an HTTPS server.'' @ [CHR 0x0A]))"

text \<open>The three tests pass on the model, for the Trojan server and for the TLS port it shares with NaiveProxy.\<close>

theorem carrier_tests_pass_connection:
  assumes started: "started = Inr (hg, None)" "hg_TLSCertKeyPair hg = Some pair" "hg_Password hg = Some pw"
    and tls: "TLSClientConfig (ce_tls cenv) (hg_Host hg) (ck_CertFile pair) False False t = (Inr cfg, t')"
      "DialTLS (JoinHostPort (hg_Host hg) (hg_TLSPort hg)) cfg = Inr nc" "cout nc = \<lparr>wout = [], wplan = []\<rparr>"
    and hash: "\<And>x. length (ce_SHA224 cenv x) = 28"
    and site: "wire_addr a" "testRequestSuccess (site a request)"
  shows "TestClientServerConnection started (\<lambda>node. fst (tr_NewClient cenv node False t)) (get_through_trojan cenv DialTLS site a request)"
proof -
  let ?hash = "toTrojanPasswordHash (ce_SHA224 cenv) (ce_DeriveN cenv) pw"
  let ?client = "\<lparr>trn_serverHostWithPort = JoinHostPort (hg_Host hg) (hg_TLSPort hg), trn_passwordHash = ?hash, trn_tlsConfig = cfg\<rparr>"
  let ?cc = "tr_newClientConn nc a ?hash"
  obtain node where node: "toProxyNode hg = Inr node" "pn_Host node = hg_Host hg" "pn_TLSPort node = hg_TLSPort hg"
    "pn_Password node = Some pw" "pn_TLSCustomCertFile node = ck_CertFile pair"
    using started(2,3) by (auto simp: toProxyNode_def)
  have client: "tr_NewClient cenv node False t = (Inr ?client, t')"
    using node tls(1) by (simp add: tr_NewClient_Inr)
  have dialed: "tr_DialTCP DialTLS ?client a = Inr ?cc" using tls(2) by (simp add: tr_DialTCP_def)
  obtain n e cc' where run: "tr_ReadFrom (mk_reader [request]) ?cc = (n, e, cc')" by (metis prod_cases3)
  have "wf_hash ?hash" by (rule wf_toTrojanPasswordHash) (rule hash)
  from tr_request_arrives [OF _ _ _ _ _ _ run, of "mk_reader [sent (cout (trc_conn cc'))]"] this site(1) tls(3)
  have "e = None \<and> (\<exists>s. tr_np_serve ?hash (mk_reader [sent (cout (trc_conn cc'))]) = TrTunnel a s \<and> contents s = request)"
    by (simp add: tr_newClientConn_def) (auto simp: mk_reader_def)
  then show ?thesis
    using started(1) node(1) client dialed run site(2) newServers_Inr(1) [OF started(3), of cenv]
    by (auto simp: TestClientServerConnection_def get_through_trojan_def)
qed

theorem carrier_tests_pass_fallback:
  assumes "wf_hash hash" "take 58 request \<noteq> hash @ crlf" "testRequestSuccess (fallback request)"
  shows "TestServerServesFallbackWithWrongProtocol (tr_serve hash) fallback request \<and>
    TestServerServesFallbackWithWrongProtocol (tr_np_serve hash) fallback request"
proof -
  obtain res b where hp: "HasPasswordHash hash (NewBufioReader (mk_reader [request])) = (res, b)" by (metis surj_pair)
  from HasPasswordHash_spec [OF assms(1) hp]
  have spec: "bf_data b = request" "res = Inr True \<longleftrightarrow> take 58 request = hash @ crlf"
    "\<forall>e. res = Inl e \<longrightarrow> e = EOF \<and> \<not> IsIoEof e"
    by (simp_all add: mk_reader_def contents_def)
  have "res = Inr False"
  proof (cases res)
    case (Inl e)
    with spec(3) show ?thesis by (auto simp: IsIoEof_def)
  next
    case (Inr m)
    with spec(2) assms(2) show ?thesis by simp
  qed
  with hp spec(1) assms(3) show ?thesis
    by (simp add: TestServerServesFallbackWithWrongProtocol_def tr_serve_def tr_np_serve_def)
qed

theorem carrier_tests_pass_plain_http:
  "TestServerRejectsPlainHTTP (\<lambda>x. RespondToPlainHTTP (Some x)) (''GET / HTTP/1.1'' @ rest)"
  by (simp add: TestServerRejectsPlainHTTP_def RespondToPlainHTTP_def tlsRecordHeaderLooksLikeHTTP_def mk_conn_def conn_sent_def sent_def
      status_of_def snd_bytes_def)

section \<open>What the SOCKS server replies\<close>

text \<open>A handler only adds to what was sent.\<close>

definition appends :: "(netconn, 'a) io \<Rightarrow> bool" where
  "appends m \<longleftrightarrow> (\<forall>c. \<exists>t. conn_sent (snd (m c)) = conn_sent c @ t)"

named_theorems appending "rules for handlers that only add to what was sent"

lemma appends_bind [appending]: "appends m \<Longrightarrow> (\<And>x. appends (f x)) \<Longrightarrow> appends (io_bind m f)"
  unfolding appends_def io_bind_def
  by (clarsimp split: prod.splits sum.splits) (metis append_assoc snd_conv)

lemma appends_basic [appending]: "appends (io_ret x)" "appends (io_fail e)" "appends (on_cin m)"
  by (simp_all add: appends_def on_cin_apply conn_sent_def split: prod.splits)

lemma appends_if [appending]: "appends m \<Longrightarrow> appends n \<Longrightarrow> appends (if b then m else n)"
  by simp

lemma appends_write [appending]: "appends (on_cout (WriteAll bs))" "appends (fail_with_reply err bs)"
proof -
  have w: "\<exists>t. sent (snd (WriteAll bs w)) = sent w @ t" for bs w
    by (cases "w_write bs w") (auto simp: WriteAll_def dest: w_write_sent split: option.splits)
  show "appends (on_cout (WriteAll bs))"
    using w by (simp add: appends_def on_cout_apply conn_sent_def split: prod.splits)
  then show "appends (fail_with_reply err bs)"
    by (simp add: appends_def fail_with_reply_def split: prod.splits sum.splits) (metis snd_conv)
qed

lemma appends_connection [appending]: "appends handleClientConnectionRequest"
  unfolding handleClientConnectionRequest_def by (intro appending)

lemma appends_auth [appending]: "appends (handleClientAuthenticationRequest auth)"
  unfolding handleClientAuthenticationRequest_def readClientAuthUsernamePassword_def by (intro appending)

text \<open>The method that the server chooses among those it was offered.\<close>

definition chosen_method :: "HTTPSOCKSAuthInfo option \<Rightarrow> byte list \<Rightarrow> byte" where
  "chosen_method auth ms =
     (if auth_IsEmpty auth \<and> helloNoAuthRequired \<in> set ms then helloNoAuthRequired
      else if \<not> auth_IsEmpty auth \<and> helloUsernamePassword \<in> set ms then helloUsernamePassword
      else helloNoAcceptableMethods)"

lemma hello_reply:
  assumes inp: "contents (cin c) = [5, of_nat (length ms)] @ ms @ rest" "length ms \<le> 255" and out: "wplan (cout c) = []"
  shows "\<exists>t. conn_sent (snd (socks_Serve auth c)) = conn_sent c @ [5, chosen_method auth ms] @ t"
proof -
  have in0: "contents (cin c) = 5 # of_nat (length ms) # ms @ rest" using inp by simp
  let ?c1 = "rcv 1 c"
  have r1: "on_cin Read1 c = (Inr 5, ?c1)" using in0 by simp
  have in1: "contents (cin ?c1) = of_nat (length ms) # ms @ rest" using in0 by simp
  let ?c2 = "rcv (length ms) (rcv 1 ?c1)"
  have r2: "on_cin ReadByUint8 ?c1 = (Inr ms, ?c2)"
    using on_cin_ReadByUint8 [OF in1] inp(2) by (simp add: unat_of_nat)
  define m where "m = chosen_method auth ms"
  define rest_m where "rest_m = (if m = helloNoAuthRequired then io_ret ()
      else if m = helloUsernamePassword then handleClientAuthenticationRequest (the auth)
      else io_fail (ErrNew ''unsupported or no acceptable methods''))"
  let ?c3 = "snd_bytes [5, m] ?c2"
  have run: "socks_Serve auth c = io_bind rest_m (\<lambda>_. handleClientConnectionRequest) ?c3"
    using r1 r2 out
    by (auto simp: socks_Serve_def handleClientHelloRequest_def io_bind_def Version4_def Version5_def m_def rest_m_def chosen_method_def
        helloNoAuthBytes_def helloUsernamePasswordBytes_def helloNoAcceptableMethodsBytes_def socks_const_defs)
  have "appends (io_bind rest_m (\<lambda>_. handleClientConnectionRequest))"
    unfolding rest_m_def by (intro appending)
  then obtain t where "conn_sent (snd (io_bind rest_m (\<lambda>_. handleClientConnectionRequest) ?c3)) = conn_sent ?c3 @ t"
    unfolding appends_def by blast
  moreover have "conn_sent ?c3 = conn_sent c @ [5, m]" by (simp add: conn_sent_def sent_def)
  ultimately show ?thesis unfolding run m_def by auto
qed

lemma auth_reply:
  assumes inp: "contents (cin c) = [5, of_nat (length ms)] @ ms @ user_bytes (u, p) @ rest" "length ms \<le> 255"
    and out: "wplan (cout c) = []" and user: "length u \<le> 255" "length p \<le> 255"
    and m: "\<not> auth_IsEmpty (Some auth)" "helloUsernamePassword \<in> set ms"
  shows "\<exists>t. conn_sent (snd (socks_Serve (Some auth) c)) =
    conn_sent c @ [5, 2, 1, if u = Username auth \<and> p = Password auth then 0 else 1] @ t"
proof -
  have len: "unat (of_nat n :: byte) = n" if "n \<le> 255" for n using that by (simp add: unat_of_nat)
  have in0: "contents (cin c) = 5 # of_nat (length ms) # ms @ user_bytes (u, p) @ rest" using inp by simp
  let ?c1 = "rcv 1 c"
  have r1: "on_cin Read1 c = (Inr 5, ?c1)" using in0 by simp
  have in1: "contents (cin ?c1) = of_nat (length ms) # ms @ user_bytes (u, p) @ rest" using in0 by simp
  let ?c2 = "rcv (length ms) (rcv 1 ?c1)"
  have r2: "on_cin ReadByUint8 ?c1 = (Inr ms, ?c2)" using on_cin_ReadByUint8 [OF in1] len [OF inp(2)] by simp
  let ?c3 = "snd_bytes helloUsernamePasswordBytes ?c2"
  have in3: "contents (cin ?c3) = 1 # of_nat (length u) # str_bytes u @ of_nat (length p) # str_bytes p @ rest"
    using in1 by (simp add: user_bytes_def)
  let ?c4 = "rcv (length u) (rcv 1 (rcv 1 ?c3))"
  let ?c5 = "rcv (length p) (rcv 1 ?c4)"
  have ru: "on_cin ReadStringByUint8 (rcv 1 ?c3) = (Inr u, ?c4)"
    using on_cin_ReadStringByUint8 [of "rcv 1 ?c3" "of_nat (length u)" u] in3 len [OF user(1)] by simp
  have in4: "contents (cin ?c4) = of_nat (length p) # str_bytes p @ rest" using in3 by simp
  have rp: "on_cin ReadStringByUint8 ?c4 = (Inr p, ?c5)"
    using on_cin_ReadStringByUint8 [OF in4] len [OF user(2)] by simp
  have "on_cin Read1 ?c3 = (Inr 1, rcv 1 ?c3)" using in3 by simp
  with ru rp have rd: "readClientAuthUsernamePassword ?c3 = (Inr \<lparr>Username = u, Password = p\<rparr>, ?c5)"
    by (simp add: readClientAuthUsernamePassword_def io_bind_def authUsernamePasswordVersion_def)
  define ok where "ok \<longleftrightarrow> u = Username auth \<and> p = Password auth"
  define rest_m :: "(netconn, SocketAddress) io" where
    "rest_m = (if ok then handleClientConnectionRequest else io_fail (ErrNew ''incorrect username or password''))"
  let ?c6 = "snd_bytes [1, if ok then 0 else 1] ?c5"
  have run: "socks_Serve (Some auth) c = rest_m ?c6"
    using r1 r2 m out rd
    by (auto simp: socks_Serve_def handleClientHelloRequest_def io_bind_def Version4_def Version5_def
        handleClientAuthenticationRequest_def NotEqual_def fail_with_reply_def rest_m_def ok_def socks_const_defs
        authUsernamePasswordSuccessBytes_def authUsernamePasswordFailureBytes_def)
  have "appends rest_m" unfolding rest_m_def by (intro appending)
  then obtain t where "conn_sent (snd (rest_m ?c6)) = conn_sent ?c6 @ t" unfolding appends_def by blast
  moreover have "conn_sent ?c6 = conn_sent c @ [5, 2, 1, if ok then 0 else 1]"
    by (simp add: conn_sent_def sent_def helloUsernamePasswordBytes_def socks_const_defs)
  ultimately show ?thesis unfolding run ok_def by auto
qed

section \<open>What a client gets\<close>

lemma client_hello_parts:
  "\<exists>ms. client_hello user = [5, of_nat (length ms)] @ ms \<and> length ms \<le> 255 \<and> 0 \<in> set ms \<and> (2 \<in> set ms \<longleftrightarrow> user \<noteq> None)"
proof (cases user)
  case None
  then show ?thesis by (intro exI [of _ "[0]"]) (simp add: client_hello_def)
next
  case (Some x)
  then show ?thesis by (intro exI [of _ "[0, 2]"]) (simp add: client_hello_def)
qed

lemma through_socks_spec:
  assumes serve: "\<And>bs. \<exists>c. contents (cin c) = 5 # bs \<and> wplan (cout c) = [] \<and> conn_sent c = [] \<and> serve (conn (5 # bs)) = socks_Serve (Some auth) c"
    and addr: "wire_addr a" "WriteSOCKSLikeAddr a = Inr ab"
    and lens: "length (Username auth) \<le> 255" "length (Password auth) \<le> 255"
      "\<And>u p. user = Some (u, p) \<Longrightarrow> u \<noteq> [] \<and> length u \<le> 255 \<and> length p \<le> 255"
  shows "through_socks serve conn site ab user =
    (if auth_IsEmpty (Some auth) then site a
     else (case user of
        None \<Rightarrow> ProxyError (''socks connect: '' @ ''no acceptable authentication methods'')
      | Some (u, p) \<Rightarrow>
          if u = Username auth \<and> p = Password auth then site a
          else ProxyError (''socks connect: '' @ ''username/password authentication failed'')))"
proof -
  obtain ms where ms: "client_hello user = [5, of_nat (length ms)] @ ms" "length ms \<le> 255" "0 \<in> set ms" "2 \<in> set ms \<longleftrightarrow> user \<noteq> None"
    using client_hello_parts [of user] by (elim exE conjE) (rule that)
  let ?replies = "\<lambda>bs. conn_sent (snd (serve (conn bs)))"
  have hello: "\<exists>t. ?replies (client_hello user) = 5 # chosen_method (Some auth) ms # t"
  proof -
    obtain c where c: "contents (cin c) = [5, of_nat (length ms)] @ ms @ []" "wplan (cout c) = []" "conn_sent c = []"
      "serve (conn (client_hello user)) = socks_Serve (Some auth) c"
      using serve [of "of_nat (length ms) # ms"] ms(1) by auto
    from hello_reply [OF c(1) ms(2) c(2), of "Some auth"] c(3,4) show ?thesis by simp
  qed
  have request: "\<exists>c. serve (conn (client_hello user @ cred @ [5, 1, 0] @ ab)) = (Inr a, c)"
    if "m \<in> set ms" "m = (if auth_IsEmpty (Some auth) then helloNoAuthRequired else helloUsernamePassword)"
      "cred = (if auth_IsEmpty (Some auth) then [] else user_bytes (Username auth, Password auth))" for m cred
  proof -
    obtain c where c: "contents (cin c) = client_hello user @ cred @ [5, 1, 0] @ ab" "wplan (cout c) = []"
      "serve (conn (client_hello user @ cred @ [5, 1, 0] @ ab)) = socks_Serve (Some auth) c"
      using serve [of "of_nat (length ms) # ms @ cred @ [5, 1, 0] @ ab"] ms(1) by auto
    then have inp: "contents (cin c) = [5, of_nat (length ms)] @ ms @
        (if auth_IsEmpty (Some auth) then []
         else [1, of_nat (length (Username (the (Some auth))))] @ str_bytes (Username (the (Some auth))) @
           [of_nat (length (Password (the (Some auth))))] @ str_bytes (Password (the (Some auth)))) @
        [5, 1, 0] @ ab @ []"
      using ms(1) that(3) by (simp add: user_bytes_def)
    from socks_Serve_ok [OF that(1) ms(2) that(2) _ addr inp c(2)] lens(1,2) c(3) show ?thesis by auto
  qed
  show ?thesis
  proof (cases "auth_IsEmpty (Some auth)")
    case True
    then have "chosen_method (Some auth) ms = 0" using ms(3) by (simp add: chosen_method_def helloNoAuthRequired_def)
    moreover obtain c where "serve (conn (client_hello user @ [5, 1, 0] @ ab)) = (Inr a, c)"
      using request [of 0 "[]"] True ms(3) by (auto simp: helloNoAuthRequired_def)
    ultimately show ?thesis using hello True by (auto simp: through_socks_def socks_client_def)
  next
    case False
    show ?thesis
    proof (cases user)
      case None
      then have "chosen_method (Some auth) ms = 0xFF"
        using False ms(4) by (simp add: chosen_method_def helloUsernamePassword_def helloNoAcceptableMethods_def)
      with hello None False show ?thesis by (auto simp: through_socks_def socks_client_def)
    next
      case (Some up)
      obtain u p where up: "up = (u, p)" by (cases up)
      have m: "2 \<in> set ms" using ms(4) Some by simp
      then have chosen: "chosen_method (Some auth) ms = 2" using False by (simp add: chosen_method_def helloUsernamePassword_def)
      obtain c where c: "contents (cin c) = [5, of_nat (length ms)] @ ms @ user_bytes (u, p) @ []" "wplan (cout c) = []" "conn_sent c = []"
        "serve (conn (client_hello user @ user_bytes (u, p))) = socks_Serve (Some auth) c"
        using serve [of "of_nat (length ms) # ms @ user_bytes (u, p)"] ms(1) by auto
      have "\<exists>t. ?replies (client_hello user @ user_bytes (u, p)) = [5, 2, 1, if u = Username auth \<and> p = Password auth then 0 else 1] @ t"
        using auth_reply [OF c(1) ms(2) c(2) _ _ False] lens(3) Some up m c(3,4) by (simp add: helloUsernamePassword_def)
      moreover have "\<exists>c. serve (conn (client_hello user @ user_bytes (Username auth, Password auth) @ [5, 1, 0] @ ab)) = (Inr a, c)"
        by (rule request [of 2]) (use False m in \<open>simp_all only: helloUsernamePassword_def if_False\<close>)
      ultimately show ?thesis
        using hello Some up False lens(3) chosen by (auto simp: through_socks_def socks_client_def not_less)
    qed
  qed
qed

lemma noContentSite_success: "testRequestSuccess (noContentSite a x) \<longleftrightarrow> x = a"
  by (simp add: testRequestSuccess_def noContentSite_def)

lemma http_parse_request:
  assumes "\<And>u p. user = Some (u, p) \<Longrightarrow> CHR '':'' \<notin> set u"
  shows "http_parse (proxy_request user https host) = user"
proof (cases user)
  case None
  then show ?thesis by (simp add: http_parse_def proxy_request_def header_Get_def)
next
  case (Some up)
  obtain u p where up: "up = (u, p)" by (cases up)
  have "basicAuthPrefix \<noteq> []" by (simp add: basicAuthPrefix_def)
  with parseBasicAuth_encoded [of u p] assms Some up show ?thesis
    by (simp add: http_parse_def proxy_request_def header_Get_def header_Set_def canonical_keys)
qed

lemma through_http_spec:
  assumes serve: "\<exists>c unread. wplan (cout c) = [] \<and> conn_sent c = [] \<and>
      serve (proxy_request user https host) = http_address W (Some auth) (Inr (proxy_request user https host)) unread turns c"
    and target: "ToSocketAddr host True 0 = Inr a" "ToSocketAddr host False 80 = Inr a"
    and user: "\<And>u p. user = Some (u, p) \<Longrightarrow> CHR '':'' \<notin> set u"
    and response: "ReadResponse (W 407 [(''Proxy-Authenticate'', ''Basic'')]) = (407, [(''Proxy-Authenticate'', ''Basic'')])"
  shows "through_http serve ReadResponse site host https user =
    (if auth_IsEmpty (Some auth) \<or> user = Some (Username auth, Password auth) then site a
     else Response 407 [(''Proxy-Authenticate'', ''Basic'')])"
proof -
  let ?req = "proxy_request user https host"
  obtain c unread where c: "wplan (cout c) = []" "conn_sent c = []" "serve ?req = http_address W (Some auth) (Inr ?req) unread turns c"
    using serve by blast
  have t: "http_target ?req = Inr a" using target by (simp add: http_target_def proxy_request_def)
  have p: "http_parse ?req = user" by (rule http_parse_request) (rule user)
  show ?thesis
  proof (cases "auth_IsEmpty (Some auth) \<or> user = Some (Username auth, Password auth)")
    case True
    then have "\<exists>c'. serve ?req = (Inr a, c')"
      using t p c by (cases https) (auto simp: http_address_def http_Serve_def io_bind_def proxy_request_def)
    with True show ?thesis by (auto simp: through_http_def)
  next
    case False
    have "http_Serve W (Some auth) (Inr ?req) unread turns c =
        fail_with_reply (ErrNew ''no authentication info, or incorrect username/password'') (W 407 [(''Proxy-Authenticate'', ''Basic'')]) c"
      using False t p by (cases user) (auto simp: http_Serve_def io_bind_def)
    then have "\<exists>err c'. serve ?req = (Inl err, c') \<and> conn_sent c' = W 407 [(''Proxy-Authenticate'', ''Basic'')]"
      using c by (simp add: http_address_def fail_with_reply_def conn_sent_def sent_def)
    with False response show ?thesis by (auto simp: through_http_def)
  qed
qed

text \<open>Behind one port the first byte decides which of the two servers gets the connection, unchanged.\<close>

lemma listener_socks:
  assumes "contents (cin c) = 5 # bs"
  shows "\<exists>c1. contents (cin c1) = 5 # bs \<and> cout c1 = cout c \<and> http_socks_address W auth rr unread turns c = socks_Serve auth c1"
proof -
  let ?c1 = "(rcv 1 c)\<lparr>cin := preload_reader (NewBytesReadPreloadConn [5] (cin (rcv 1 c)))\<rparr>"
  have "on_cin Read1 c = (Inr 5, rcv 1 c)" using assms by simp
  then have "http_socks_address W auth rr unread turns c = socks_Serve auth ?c1"
    by (cases "socks_Serve auth ?c1")
       (auto simp: http_socks_address_def http_socks_serve_def io_bind_def Version5_def Let_def split: sum.splits)
  with preload_back [OF assms] assms show ?thesis by (intro exI [of _ ?c1]) simp
qed

lemma listener_http:
  assumes "contents (cin c) = b # bs" "b \<noteq> 4" "b \<noteq> 5"
  shows "\<exists>c1. cout c1 = cout c \<and> http_socks_address W auth (\<lambda>_. rr) unread turns c = http_address W auth rr (unread c1) turns c1"
proof -
  let ?c1 = "(rcv 1 c)\<lparr>cin := preload_reader (NewBytesReadPreloadConn [b] (cin (rcv 1 c)))\<rparr>"
  have "on_cin Read1 c = (Inr b, rcv 1 c)" using assms(1) by simp
  then have "http_socks_address W auth (\<lambda>_. rr) unread turns c = http_address W auth rr (unread ?c1) turns ?c1"
    using assms(2,3)
    by (cases "http_Serve W auth rr (unread ?c1) turns ?c1")
       (auto simp: http_socks_address_def http_address_def http_socks_serve_def io_bind_def Version4_def Version5_def Let_def split: sum.splits)
  then show ?thesis by (intro exI [of _ ?c1]) simp
qed

abbreviation came :: "bytes \<Rightarrow> netconn" where "came bs \<equiv> mk_conn (mk_reader [bs])"

lemma came_fresh [simp]: "contents (cin (came bs)) = bs" "wplan (cout (came bs)) = []" "conn_sent (came bs) = []"
  by (simp_all add: mk_conn_def conn_sent_def sent_def)

text \<open>Both servers, alone and behind the shared port.\<close>

lemma local_proxy_spec:
  assumes auth: "length (Username auth) \<le> 255" "length (Password auth) \<le> 255"
    and user: "\<And>u p. user = Some (u, p) \<Longrightarrow> u \<noteq> [] \<and> length u \<le> 255 \<and> length p \<le> 255 \<and> CHR '':'' \<notin> set u"
    and addr: "wire_addr a" "WriteSOCKSLikeAddr a = Inr ab" "ToSocketAddr host True 0 = Inr a" "ToSocketAddr host False 80 = Inr a"
    and http: "ReadResponse (W 407 [(''Proxy-Authenticate'', ''Basic'')]) = (407, [(''Proxy-Authenticate'', ''Basic'')])"
      "\<And>req. \<exists>rest. wire req = str_bytes (rq_Method req) @ rest"
  shows "let allowed = (auth_IsEmpty (Some auth) \<or> user = Some (Username auth, Password auth));
      socks = (if allowed then site a else ProxyError (''socks connect: '' @
        (if user = None then ''no acceptable authentication methods'' else ''username/password authentication failed'')));
      http = (if allowed then site a else Response 407 [(''Proxy-Authenticate'', ''Basic'')])
    in through_socks (socks_Serve (Some auth)) came site ab user = socks \<and>
       through_socks (http_socks_address W (Some auth) rr unread turns) came site ab user = socks \<and>
       through_http (\<lambda>req. http_address W (Some auth) (Inr req) unreadBs turns (came (wire req))) ReadResponse site host https user = http \<and>
       through_http (\<lambda>req. http_socks_address W (Some auth) (\<lambda>_. Inr req) unread turns (came (wire req))) ReadResponse site host https user = http"
proof -
  have lens: "\<And>u p. user = Some (u, p) \<Longrightarrow> u \<noteq> [] \<and> length u \<le> 255 \<and> length p \<le> 255" using user by blast
  have colon: "\<And>u p. user = Some (u, p) \<Longrightarrow> CHR '':'' \<notin> set u" using user by blast
  have "\<exists>c. contents (cin c) = 5 # bs \<and> wplan (cout c) = [] \<and> conn_sent c = [] \<and> socks_Serve (Some auth) (came (5 # bs)) = socks_Serve (Some auth) c" for bs
    by (intro exI [of _ "came (5 # bs)"]) simp
  note alone = through_socks_spec [where user = user and site = site, OF this addr(1,2) auth lens]
  have "\<exists>c. contents (cin c) = 5 # bs \<and> wplan (cout c) = [] \<and> conn_sent c = [] \<and>
      http_socks_address W (Some auth) rr unread turns (came (5 # bs)) = socks_Serve (Some auth) c" for bs
    using listener_socks [of "came (5 # bs)" bs W "Some auth" rr unread turns] came_fresh [of "5 # bs"]
    by (metis conn_sent_def)
  note shared = through_socks_spec [where user = user and site = site, OF this addr(1,2) auth lens]
  let ?req = "proxy_request user https host"
  let ?res = "if auth_IsEmpty (Some auth) \<or> user = Some (Username auth, Password auth) then site a
     else Response 407 [(''Proxy-Authenticate'', ''Basic'')]"
  have http_alone: "through_http (\<lambda>req. http_address W (Some auth) (Inr req) unreadBs turns (came (wire req))) ReadResponse site host https user = ?res"
    by (rule through_http_spec [where W = W and turns = turns])
       (use addr(3,4) colon http(1) in \<open>auto intro!: exI [of _ "came (wire ?req)"] exI [of _ unreadBs]\<close>)
  have "\<exists>b bs. wire ?req = b # bs \<and> b \<noteq> 4 \<and> b \<noteq> 5"
    using http(2) [of ?req] by (cases https) (auto simp: proxy_request_def str_bytes_def byte_of_char_def)
  then obtain b bs where "contents (cin (came (wire ?req))) = b # bs" "b \<noteq> 4" "b \<noteq> 5" by auto
  from listener_http [OF this, of W "Some auth" "Inr ?req" unread turns] obtain c where c: "cout c = cout (came (wire ?req))"
    "http_socks_address W (Some auth) (\<lambda>_. Inr ?req) unread turns (came (wire ?req)) = http_address W (Some auth) (Inr ?req) (unread c) turns c"
    by blast
  have "wplan (cout c) = []" "conn_sent c = []" using c(1) came_fresh [of "wire ?req"] by (simp_all add: conn_sent_def)
  with c(2) have http_shared:
    "through_http (\<lambda>req. http_socks_address W (Some auth) (\<lambda>_. Inr req) unread turns (came (wire req))) ReadResponse site host https user = ?res"
    by (intro through_http_spec [where W = W and turns = turns]) (use addr(3,4) colon http(1) in auto)
  show ?thesis
  proof (cases user)
    case None
    then show ?thesis using alone shared http_alone http_shared by (simp add: Let_def)
  next
    case (Some up)
    obtain u p where "up = (u, p)" by (cases up)
    then show ?thesis using Some alone shared http_alone http_shared by (simp add: Let_def)
  qed
qed

lemma Contains_suffix: "Contains (xs @ m) m"
proof (induction xs)
  case Nil
  then show ?case by (cases m) (simp_all add: HasPrefix_def)
qed simp

text \<open>The client that the tests derive from a server's configuration is the one that this server serves, at its address.\<close>

lemma derived_client_connects:
  assumes "toProxyNode hg = Inr node" "newCarrierClient cenv transport (Some node) tlsKeyLog s = (Inr c, s')"
  shows "client_accepted cenv transport node hg c \<and>
    (case c of
       SsClient cl \<Rightarrow> \<exists>srv. ss_NewServer (ce_DeriveN cenv) now hg = Inr srv \<and> scl_serverHostWithPort cl = ssv_hostWithPort srv
     | TrClient cl \<Rightarrow> \<exists>tr np. tr_np_NewServer cenv hg = Inr (tr, np) \<and>
         trn_serverHostWithPort cl = JoinHostPort (trs_host tr) (trs_port tr)
     | NpClient cl cfg \<Rightarrow> \<exists>tr np. tr_np_NewServer cenv hg = Inr (tr, np) \<and>
         npc_serverHostWithPort cl = JoinHostPort (nps_host np) (nps_port np)
     | SqClient cl cfg \<Rightarrow> \<exists>srv. sq_NewServer cenv hg = Inr srv \<and> sqc_serverHostWithPort cl = JoinHostPort (sqs_host srv) (sqs_port srv))"
proof -
  have node: "pn_Password node = hg_Password hg" "pn_Host node = hg_Host hg" "pn_TCPPort node = hg_TCPPort hg"
    "pn_TLSPort node = hg_TLSPort hg" "pn_QUICPort node = hg_QUICPort hg"
    using assms(1) by (auto simp: toProxyNode_def split: option.splits)
  have acc: "client_accepted cenv transport node hg c" by (rule newCarrierClient_accepted [OF assms(2)]) (simp add: node)
  obtain pw where pw: "hg_Password hg = Some pw"
    using assms(2) node(1) by (auto simp: newCarrierClient_def newClient_Inr split: if_splits)
  show ?thesis
    using acc by (cases c)
      (auto simp: client_accepted_def node newServers_Inr [OF pw] ss_NewServer_def pw split: sum.splits option.splits)
qed

section \<open>Properties\<close>


text \<open>A test site on the loopback address.\<close>

abbreviation "sample_site_addr \<equiv> NewSocketAddressByIP (Addr4 2130706433) 8080"




text \<open>
  The tests of the repository pass on the model: every row of their table, for the SOCKS server, the
  HTTP server and both behind one port, with any test site.
\<close>

theorem repository_tests_pass:
  assumes addr: "wire_addr a" "WriteSOCKSLikeAddr a = Inr ab" "ToSocketAddr host True 0 = Inr a" "ToSocketAddr host False 80 = Inr a"
    and http: "ReadResponse (W 407 [(''Proxy-Authenticate'', ''Basic'')]) = (407, [(''Proxy-Authenticate'', ''Basic'')])"
      "\<And>req. \<exists>rest. wire req = str_bytes (rq_Method req) @ rest"
  shows "TestHTTPSOCKSServer ''socks5'' (\<lambda>auth user https. through_socks (socks_Serve (Some auth)) came (noContentSite a) ab user) \<and>
    TestHTTPSOCKSServer ''socks5'' (\<lambda>auth user https.
      through_socks (http_socks_address W (Some auth) rr unread turns) came (noContentSite a) ab user) \<and>
    TestHTTPSOCKSServer ''http'' (\<lambda>auth user https.
      through_http (\<lambda>req. http_address W (Some auth) (Inr req) unreadBs turns (came (wire req))) ReadResponse (noContentSite a) host https user) \<and>
    TestHTTPSOCKSServer ''http'' (\<lambda>auth user https.
      through_http (\<lambda>req. http_socks_address W (Some auth) (\<lambda>_. Inr req) unread turns (came (wire req))) ReadResponse (noContentSite a) host https user)"
proof -
  let ?ok = "\<lambda>auth user. auth_IsEmpty (Some auth) \<or> user = Some (Username auth, Password auth)"
  let ?socks = "\<lambda>auth user. if ?ok auth user then Response 204 [] else ProxyError (''socks connect: '' @
      (if user = None then ''no acceptable authentication methods'' else ''username/password authentication failed''))"
  let ?http = "\<lambda>auth user. if ?ok auth user then Response 204 [] else Response 407 [(''Proxy-Authenticate'', ''Basic'')]"
  have row: "through_socks (socks_Serve (Some auth)) came (noContentSite a) ab user = ?socks auth user"
    "through_socks (http_socks_address W (Some auth) rr unread turns) came (noContentSite a) ab user = ?socks auth user"
    "through_http (\<lambda>req. http_address W (Some auth) (Inr req) unreadBs turns (came (wire req))) ReadResponse (noContentSite a) host https user = ?http auth user"
    "through_http (\<lambda>req. http_socks_address W (Some auth) (\<lambda>_. Inr req) unread turns (came (wire req))) ReadResponse (noContentSite a) host https user = ?http auth user"
    if "length (Username auth) \<le> 255" "length (Password auth) \<le> 255"
      "case user of None \<Rightarrow> True | Some (u, p) \<Rightarrow> u \<noteq> [] \<and> length u \<le> 255 \<and> length p \<le> 255 \<and> CHR '':'' \<notin> set u" for auth user https
  proof -
    have "\<And>u p. user = Some (u, p) \<Longrightarrow> u \<noteq> [] \<and> length u \<le> 255 \<and> length p \<le> 255 \<and> CHR '':'' \<notin> set u" using that(3) by simp
    note spec = local_proxy_spec [where site = "noContentSite a" and ReadResponse = ReadResponse and W = W and wire = wire and https = https
        and rr = rr and unread = unread and turns = turns and unreadBs = unreadBs, OF that(1,2) this addr http, unfolded Let_def]
    have site: "noContentSite a a = Response 204 []" by (simp add: noContentSite_def)
    from spec show "through_socks (socks_Serve (Some auth)) came (noContentSite a) ab user = ?socks auth user"
      "through_socks (http_socks_address W (Some auth) rr unread turns) came (noContentSite a) ab user = ?socks auth user"
      "through_http (\<lambda>req. http_address W (Some auth) (Inr req) unreadBs turns (came (wire req))) ReadResponse (noContentSite a) host https user = ?http auth user"
      "through_http (\<lambda>req. http_socks_address W (Some auth) (\<lambda>_. Inr req) unread turns (came (wire req))) ReadResponse (noContentSite a) host https user = ?http auth user"
      unfolding site by blast+
  qed
  show ?thesis
    unfolding TestHTTPSOCKSServer_def proxy_tests_def Let_def
    using Contains_suffix [of "''socks connect: ''" "''no acceptable authentication methods''"]
      Contains_suffix [of "''socks connect: ''" "''username/password authentication failed''"]
    by (simp add: row test_passes_def auth_IsEmpty_def del: Contains.simps)
qed

end
