(* ===== verification/Spec2Isabelle.thy ===== *)
theory Spec2Isabelle
  imports SsConn Relay NpCarrier HttpProxy TrCarrier Conf NetUtil SqCarrier SsCarrier Carriers Router Updater
    SystemProxy HttpSocks Startup NpFastOpen NpConn Servers Restart EndToEnd Shutdown Dialer ProxyTests
begin

text \<open>
  heteroglossia is a proxy: it takes connections from local programs on an HTTP and SOCKS port,
  decides for each by rules whether it goes out directly, is rejected or goes through a carrier
  (Shadowsocks 2022, Trojan, NaiveProxy or SunnyQUIC) to another heteroglossia, and it serves the other
  end of those carriers. This development models the decisions, the wire formats and the state of
  the program, file by file, and proves what a user relies on.

  How the parts interact. \<open>main.go\<close> parses the configuration (\<open>Conf\<close>), builds the router from it
  (\<open>Router\<close>) and starts the servers. The local port (\<open>HttpProxy\<close>, \<open>SocksServer\<close>) reads a request and
  hands its target to the router. The router finds the first rule that matches (\<open>RuleMatcher\<close>, over
  the trie of \<open>RuleTrie\<close>), takes the client the policy names (a carrier client of \<open>Carriers\<close>, built
  once, or the direct or rejecting client of \<open>Relay\<close>) and dials. The bytes of both connections are
  then copied by the pipe of \<open>Relay\<close>. At the other end the server of the carrier (\<open>SsCarrier\<close>,
  \<open>TrCarrier\<close>, \<open>NpCarrier\<close>, \<open>SqCarrier\<close>) authenticates the stream, reads the target in the format of
  \<open>SocketAddr\<close> and forwards through a router of its own, or hands an unauthenticated stream to the
  fallback site. \<open>Updater\<close> replaces the database of rules while the program runs, and the
  composition with the router is in this theory; \<open>Restart\<close> replaces the program itself. \<open>Startup\<close> is
  \<open>main\<close>: what it starts from a command line and a configuration; \<open>Servers\<close> says where that listens.

  The theories and the code they model:
  \<^item> \<open>Prelude\<close>: bytes, Go strings, error values (\<open>goerr\<close>, with \<open>Panic\<close> for a run-time panic), the
    state-and-error functions \<open>io\<close> with \<open>io_bind\<close>, and the locale \<open>memo\<close> of caches: what a cache
    answers once, it answers always. \<open>GoStd\<close> and \<open>GoHttp\<close>: what the program uses of Go's \<open>strings\<close>,
    \<open>strconv\<close>, \<open>net\<close>, \<open>net/netip\<close>, \<open>encoding/base64\<close> and \<open>net/http\<close> headers.
  \<^item> \<open>IoUtil\<close>: \<open>util/ioutil\<close> and \<open>util/errors\<close>. A \<open>reader\<close> is the script of the segments the network
    will deliver, so a theorem for every reader holds for every way the bytes are cut into
    reads; a \<open>writer\<close> is the bytes written and the failures to come. The locale \<open>byte_source\<close> is what
    a consumer relies on of a reader; it is interpreted for the plain connection, the
    preloading one, the padding reader and the Shadowsocks connection.
  \<^item> \<open>SocketAddr\<close>: \<open>transport/socket_addr.go\<close>, \<open>transport/socks/util.go\<close>, \<open>addr.go\<close>. Round trip of the
    wire format and its limit at 255 bytes.
  \<^item> \<open>RuleTrie\<close>, \<open>RuleMatcher\<close>: \<open>conf/rule\<close>. The trie and the matcher accept exactly what the written
    rules denote; the locale \<open>rule_store\<close> is the contract of a store of rules.
  \<^item> \<open>Conf\<close>: \<open>conf/conf.go\<close>, \<open>conf/parser.go\<close>. Decoding a JSON tree with defaults, rule set-up,
    validation, \<open>Parse\<close>; an accepted configuration is well formed (\<open>config_ok\<close>).
  \<^item> \<open>NetUtil\<close>: \<open>util/netutil/tls.go\<close>, \<open>listener.go\<close>. The caches of TLS configurations (two
    interpretations of \<open>memo\<close>), the loops of the listeners, and the connection listener as the step
    relation \<open>cl_step\<close>.
  \<^item> \<open>Relay\<close>: \<open>ioutil.Pipe\<close> as the step relation \<open>pipe_step\<close> of two copying goroutines (\<open>pipe_own\<close>) and of
    two peers whose bytes arrive when they like (\<open>peer_step\<close>), \<open>ForwardTCP\<close>, \<open>transport/direct\<close> and
    \<open>transport/reject\<close>. What a pipe that returned has delivered, when one waits for ever, and that a
    side is shut down only after its last byte or a failed write. The locale \<open>direction\<close> has what
    holds of one copy and is interpreted for both.
  \<^item> \<open>SocksServer\<close>, \<open>HttpProxy\<close>: \<open>transport/socks/server.go\<close>, \<open>transport/http\<close>, \<open>transport/http_socks\<close>.
    No connection is forwarded without the configured authentication.
  \<^item> \<open>SsUtil\<close>, \<open>SsConn\<close>, \<open>SsCarrier\<close>: \<open>transport/ss_carrier\<close>. The salt pool, nonces and timestamps; both
    ends of the encrypted stream with every check; client and server of a configuration. A
    request and a response arrive unchanged, what is accepted is authentic and fresh.
  \<^item> \<open>TrCarrier\<close>: \<open>transport/tr_carrier\<close> and \<open>tr_np_carrier\<close>. Only streams with the hash are tunnelled; all
    others reach the fallback with every byte, once they have 58 bytes, a line end or their end.
  \<^item> \<open>NpPadding\<close>, \<open>NpCarrier\<close>: \<open>transport/np_carrier\<close>. The padding is transparent, and the cached HTTP/2
    connection has a reserved slot.
  \<^item> \<open>SqCarrier\<close>: \<open>transport/sq_carrier\<close>. The server's connection is the step relation \<open>sq_step\<close> of its
    streams, timer and QUIC events, of which \<open>sq_own\<close> is what the goroutines do by themselves and \<open>sq_env\<close>
    what comes from outside; nothing is forwarded before authentication and handshake, and no
    stream waits for an authentication beyond the time-out.
  \<^item> \<open>Carriers\<close>: \<open>NewClient\<close> and \<open>NewServer\<close> of every carrier, \<open>newCarrierClient\<close>, \<open>util/cli/info.go\<close>. Client and
    server of one password agree, and the NaiveProxy server forwards exactly the requests with its
    credentials.
  \<^item> \<open>Router\<close>: \<open>transport/router/client.go\<close>, \<open>transport/fallback_http\<close>. Routing refines \<open>spec_route\<close>, a
    router of an accepted configuration never panics, updates are all or nothing.
  \<^item> \<open>Updater\<close>, \<open>Restart\<close>: \<open>util/updater\<close> and \<open>selfRestart\<close> of \<open>main.go\<close>. A file system (\<open>fsys\<close>) that keeps
    the history of its states, so that a claim about the destination holds at every moment, a crash
    included, and on Windows, where the destination is moved away first. The loop of \<open>cron.go\<close> runs over a
    list of what the world is at each tick; only the program of a verified release replaces the
    process, or runs as its child on Windows. \<open>released\<close> says which bytes that is.
  \<^item> \<open>SystemProxy\<close>: \<open>util/proxy\<close>, \<open>util/cmd\<close>. The commands for GNOME, KDE and macOS; the state is the
    history of the commands, and what they answer (\<open>exec\<close>) may depend on it.
  \<^item> \<open>HttpSocks\<close>: \<open>transport/http_socks/server.go\<close> as the step relation \<open>hs_step\<close> of its one or two
    listeners, the callback that sets the system proxy, the handler of the program's end and the
    channel of the results. The proxy is unset at most once, and the port always comes to its end.
  \<^item> \<open>NpFastOpen\<close>: fast open of \<open>np_carrier/client.go\<close> as the step relation \<open>fo_step\<close> of the request, the
    reads that wait for its response, the body that arrives piece by piece and the closing of the
    tunnel.
  \<^item> \<open>Startup\<close>: \<open>main.go\<close>, \<open>util/cli\<close>, \<open>fallback_http.Start\<close>. An accepted configuration starts
    exactly its servers, and its connection details are shown in full.
  \<^item> \<open>Servers\<close>: \<open>ListenAndServe\<close> of every carrier server, the HTTP client for updates, which dials through
    the router, and \<open>util/contextutil\<close>.
  \<^item> \<open>NpConn\<close>: \<open>np_carrier/conn.go\<close>, the connection of both ends of a NaiveProxy tunnel with its close
    functions; it is a \<open>byte_source\<close>, and a tunnel delivers with padding and without.
  \<^item> \<open>EndToEnd\<close>: the composition of the local port, the router, a Trojan or Shadowsocks client and its
    server: what a program sends arrives at the other end, for the address the rules gave; and
    every client that a router uses is one the server of the same password accepts.
  \<^item> \<open>Shutdown\<close>: \<open>util/osutil\<close>, \<open>util/log\<close> and printed errors. What a signal does, which errors are
    logged, and the runs of \<open>hs_step\<close> in which the process ends before the system proxy is unset.
  \<^item> \<open>Dialer\<close>: \<open>util/netutil/dialer.go\<close>, \<open>util.go\<close>, \<open>acme_cert.go\<close> and \<open>util/passwordutil\<close>. Times are seconds; a
    dial with its handshake ends within 30 of them, and the time-outs and limits fit together.
  \<^item> \<open>ProxyTests\<close>: \<open>util/testutil\<close>. The repository's tests pass on the model: the table of the local proxy, as
    a case of what holds for every configuration and user, and the tests of the Trojan carrier, of its
    fallback and of plain HTTP; the client that the tests derive from a server is the one it serves.

  State and effects. A handler is a function from the state of its connection to its result and the
  state it leaves; an error is a value of \<open>goerr\<close>, and every early return, failed write and
  panic of the source is a branch. Locked regions are single operations, and where goroutines
  interleave there is a step relation. Clocks and random draws are arguments. Machine
  integers have their width: ports, lengths and nonces are words, timestamps wrap around at 64 bits.

  Fuel. \<open>copy_loop\<close>, which is \<open>io.Copy\<close>, and \<open>WriteTo\<close> of \<open>SsConn\<close> take the number of reads as fuel and
  answer \<open>None\<close> without enough of it. Every read but the last makes progress, so the number of
  bytes and segments left bounds the reads: the theorems that speak of delivery either ask for
  fuel above that bound or, as \<open>tr_copy\<close>, take it from the reader itself, and the witnesses meet the
  bound. All other recursions are structural or end by a measure.

  Arguments of the model, because their code is not in the repository: the regular expression
  engine, the prefix table and the SQLite rows (\<open>rule_env\<close>), AES-GCM and BLAKE3 (\<open>ss_crypto\<close>), HKDF, SHA-224
  and SHA-256 (\<open>carrier_env\<close>), certificates (\<open>tls_env\<close>), for updates HTTP, archives, semantic versions
  and failures of system calls (\<open>upd_env\<close>), and for the system proxy the commands (\<open>exec\<close>).
  What a theorem relies on of them is a named hypothesis, such as opening what was sealed with the same key and nonce.

  The waiting steps of the relations. \<open>hs_step\<close>, \<open>fo_step\<close>, \<open>pipe_step\<close> and \<open>sq_step\<close> tell the steps the
  program takes by itself from those that wait for the network, a user, a clock or a signal: a claim that
  something happens is about the runs in which the program's own steps are taken until none is
  left, and comes with a measure that bounds them. A peer may stay idle for ever; then the claim says
  for what the program waits.

  Not modelled: a connection without a \<open>CloseWrite\<close> in a pipe, which is the server side of a NaiveProxy
  tunnel; a peer that never reads; the alignment of columns by \<open>text/tabwriter\<close>, the shell and the desktop programs that
  the commands call; how the operating system delivers a signal, and what \<open>atexit\<close> does with the
  handlers; the text of log entries; \<open>autocert\<close> and random numbers, which are arguments; the HTTP,
  HTTP/2, TLS and QUIC libraries themselves, beyond the limits they are given; the test of a whole
  carrier for other carriers than Trojan, whose content is in \<open>EndToEnd\<close> and \<open>derived_client_connects\<close>.
\<close>

section \<open>Updating the rules of a running router\<close>

text \<open>
  The whole of \<open>updateRouting\<close>: the database file is updated when it is old, and the rules are read
  from it again. \<open>readStore\<close> opens the bytes of a database file.
\<close>

definition open_rules_db :: "(bytes \<Rightarrow> DomainIPSetRulesQueryStore res) \<Rightarrow> fsys \<Rightarrow> string \<Rightarrow> DomainIPSetRulesQueryStore res" where
  "open_rules_db readStore fs path =
     (case fs_files fs path of None \<Rightarrow> Inl ErrNotExist | Some f \<Rightarrow> readStore (fi_data f))"

definition update_rules ::
  "('re, 'ps) rule_env \<Rightarrow> upd_env \<Rightarrow> (bytes \<Rightarrow> DomainIPSetRulesQueryStore res) \<Rightarrow> ('re, 'ps) router \<Rightarrow> fsys \<Rightarrow>
   (unit res \<times> ('re, 'ps) router) \<times> fsys" where
  "update_rules env uenv readStore s fs =
     (case UpdateRuleDBFile uenv (rt_ruleDBFilePath s) fs of
        (success, fs') \<Rightarrow> (updateRouting env (open_rules_db readStore fs') success s, fs'))"

lemma rule_db_url: "\<not> HasSuffix (path_Base domainIPSetRulesFileURL) ''.tar.gz''"
  by code_simp

lemma UpdateRuleDBFile_True:
  assumes "os_ok uenv path" "UpdateRuleDBFile uenv path fs = (Inr True, fs')"
  shows "\<exists>f. fs_files fs' path = Some f \<and> verified uenv domainIPSetRulesFileURL domainIPSetRulesFileSHA256SumURL (fi_data f)"
proof -
  from assms(2) obtain fs1 where "updateFile uenv path domainIPSetRulesFileURL domainIPSetRulesFileSHA256SumURL fs1 = (Inr (), fs')"
    by (auto simp: UpdateRuleDBFile_def io_bind_eq_Inr split: if_splits)
  moreover have "updates (ue_GOOS uenv = ''windows'') (\<lambda>f. verified uenv domainIPSetRulesFileURL domainIPSetRulesFileSHA256SumURL (fi_data f)) path
      (updateFile uenv path domainIPSetRulesFileURL domainIPSetRulesFileSHA256SumURL) fs1"
    by (rule updates_updateFile [OF assms(1) refl rule_db_url])
  ultimately show ?thesis unfolding updates_def updated_def by fastforce
qed

text \<open>
  C19. A running router only ever takes rules from a verified database, on every system: when the
  database was updated, the file is one whose SHA-256 is the one published for it, and the
  router has the rules it had, or the same written rules built from this file; otherwise it has
  the rules it had.
\<close>

theorem rules_from_verified_db:
  assumes "os_ok uenv (rt_ruleDBFilePath s)"
    and "update_rules env uenv readStore s fs = ((res, t), fs')"
  shows "if fst (UpdateRuleDBFile uenv (rt_ruleDBFilePath s) fs) = Inr True
    then \<exists>f. fs_files fs' (rt_ruleDBFilePath s) = Some f \<and>
      verified uenv domainIPSetRulesFileURL domainIPSetRulesFileSHA256SumURL (fi_data f) \<and>
      (t = s \<or> (\<exists>store r r'. readStore (fi_data f) = Inr store \<and>
        rt_routing s = Some r \<and> rt_routing t = Some r' \<and> map written (ro_Rules r') = map written (ro_Rules r) \<and>
        (\<forall>rule \<in> set (ro_Rules r'). rule_built env store rule)))
    else t = s"
proof -
  obtain success where u: "UpdateRuleDBFile uenv (rt_ruleDBFilePath s) fs = (success, fs')"
    "updateRouting env (open_rules_db readStore fs') success s = (res, t)"
    using assms(2) by (auto simp: update_rules_def split: prod.splits)
  show ?thesis
  proof (cases "success = Inr True")
    case True
    with UpdateRuleDBFile_True [OF assms(1)] u(1) obtain f where
      "fs_files fs' (rt_ruleDBFilePath s) = Some f"
      "verified uenv domainIPSetRulesFileURL domainIPSetRulesFileSHA256SumURL (fi_data f)" by blast
    with updateRouting_cases [OF u(2)] True u(1) show ?thesis by (auto simp: open_rules_db_def)
  qed (use updateRouting_idle [OF u(2)] u(1) in simp)
qed

text \<open>An old database is replaced, and a rule that was not built yet is built from the new one.\<close>

definition sample_db_upd :: upd_env where
  "sample_db_upd = sample_upd\<lparr>ue_Get := (\<lambda>url. Inr (200, if url = domainIPSetRulesFileURL then [7]
     else str_bytes ''01 domain-ip-set-rules.db'', None)), ue_now := 10 ^ 15,
     ue_TempName := (\<lambda>base files. if files ''/a'' = None then Inr ''/a'' else if files ''/b'' = None then Inr ''/b''
       else Inl (ErrNew ''exists''))\<rparr>"

lemma sample_db_simps:
  "ue_TempName sample_db_upd base files = (if files ''/a'' = None then Inr ''/a'' else if files ''/b'' = None then Inr ''/b''
     else Inl (ErrNew ''exists''))"
  "ue_Get sample_db_upd url = Inr (200, if url = domainIPSetRulesFileURL then [7] else str_bytes ''01 domain-ip-set-rules.db'', None)"
  "ue_fault sample_db_upd op path = None" "ue_write sample_db_upd path data = (length data, None)" "ue_GOOS sample_db_upd = ''linux''"
  "ue_now sample_db_upd = 10 ^ 15"
  by (simp_all add: sample_db_upd_def sample_upd_def)

lemma sample_sum_line: "sum_line (CHR ''d'' # name) (CHR ''0'' # CHR ''1'' # CHR '' '' # CHR ''d'' # name) = Some ''01''"
  by (simp add: sum_line_def Updater.is_space_def)

lemma Split_none: "c \<notin> set t \<Longrightarrow> Split t c = [t]"
  by (induction t) auto

lemma scan_lines_one:
  assumes "CHR 0x0A \<notin> set l" "CHR 0x0D \<notin> set l" "l \<noteq> []" "length l < 65536"
  shows "scan_lines l = [l]"
proof -
  have "drop_cr l = l" using assms(2,3) last_in_set by (force simp: drop_cr_def)
  with assms show ?thesis by (simp add: scan_lines_def Split_none Let_def)
qed

lemma sample_db_sum:
  "verifyRulesFileSHA256Sum sample_db_upd [7] (str_bytes ''01 domain-ip-set-rules.db'') ''domain-ip-set-rules.db'' = Inr ()"
proof -
  have "scan_lines ''01 domain-ip-set-rules.db'' = [''01 domain-ip-set-rules.db'']" by (rule scan_lines_one) simp_all
  moreover have "sum_line ''domain-ip-set-rules.db'' ''01 domain-ip-set-rules.db'' = Some ''01''" by (rule sample_sum_line)
  moreover have "bytes_str (hex_Encode [1]) = ''01''" by code_simp
  moreover have "ue_SHA256 sample_db_upd bs = [1]" for bs by (simp add: sample_db_upd_def sample_upd_def)
  ultimately show ?thesis
    unfolding verifyRulesFileSHA256Sum_def bytes_str_str_bytes by (simp only: expected_sum.simps option.case if_False simp_thms)
qed

lemma sample_db_paths:
  "path_Base domainIPSetRulesFileURL = ''domain-ip-set-rules.db''"
  "path_Base domainIPSetRulesFileSHA256SumURL = ''domain-ip-set-rules.db.sha256sum''"
  "domainIPSetRulesFileSHA256SumURL \<noteq> domainIPSetRulesFileURL" "\<not> HasSuffix ''domain-ip-set-rules.db'' ''.tar.gz''"
  by code_simp+

lemma sample_db_update:
  "fst (updateFile sample_db_upd ''/d'' domainIPSetRulesFileURL domainIPSetRulesFileSHA256SumURL sample_fs) = Inr ()"
  by (simp add: updateFile_def downloadFile_def io_bind_def os_CreateTemp_def on_error_def deferred_def io_Copy_def sys_def
      read_file_def scan_file_def Let_def sample_db_paths fs_put_def os_Remove_def replaceFile_def os_Create_def os_Rename_def
      sample_fs_def sample_db_sum sample_db_simps)

definition sample_old_router :: "(string, prefix list) router" where
  "sample_old_router = sample_router\<lparr>rt_ruleDBFilePath := ''/d'',
     rt_routing := Some (sample_routing\<lparr>ro_Rules := [\<lparr>ru_Matcher = Some (newMatcher [''domain-full/x'']), ru_Policy = ''reject''\<rparr>]\<rparr>)\<rparr>"

theorem rules_from_verified_db_witness:
  "\<exists>t fs' f. update_rules sample_env sample_db_upd (\<lambda>bs. Inr sample_store) sample_old_router sample_fs = ((Inr (), t), fs') \<and>
    rt_routing t = Some sample_routing \<and> fs_files fs' ''/d'' = Some f \<and>
    verified sample_db_upd domainIPSetRulesFileURL domainIPSetRulesFileSHA256SumURL (fi_data f)"
proof -
  let ?s = sample_old_router
  have path: "rt_ruleDBFilePath ?s = ''/d''" by (simp add: sample_old_router_def)
  have os: "os_ok sample_db_upd (rt_ruleDBFilePath ?s)"
    by (auto simp: path os_ok_def sample_db_simps dst_paths_def split: if_splits)
  obtain fs' where upd: "updateFile sample_db_upd ''/d'' domainIPSetRulesFileURL domainIPSetRulesFileSHA256SumURL sample_fs = (Inr (), fs')"
    using sample_db_update by (metis prod.collapse)
  then have db: "UpdateRuleDBFile sample_db_upd (rt_ruleDBFilePath ?s) sample_fs = (Inr True, fs')"
    by (simp add: path UpdateRuleDBFile_def needUpdateFile_def io_bind_def sample_db_simps ruleFileNeedUpdateInterval_def sample_fs_def)
  obtain res t where run: "update_rules sample_env sample_db_upd (\<lambda>bs. Inr sample_store) ?s sample_fs = ((res, t), fs')"
    using db by (simp add: update_rules_def) (metis surj_pair)
  from rules_from_verified_db [OF os run] db path obtain f where f: "fs_files fs' ''/d'' = Some f"
    "verified sample_db_upd domainIPSetRulesFileURL domainIPSetRulesFileSHA256SumURL (fi_data f)" by auto
  have "CopyWithNewRulesData sample_env (open_rules_db (\<lambda>bs. Inr sample_store) fs')
      [\<lparr>ru_Matcher = Some (newMatcher [''domain-full/x'']), ru_Policy = ''reject''\<rparr>] ''/d'' = Inr [sample_ready]"
    using sample_setup f(1) by (simp add: CopyWithNewRulesData_def CopyWithBakedRulesOnly_def setupRulesData_def open_rules_db_def)
  then have "res = Inr ()" "rt_routing t = Some sample_routing"
    using run db by (auto simp: update_rules_def updateRouting_def sample_old_router_def sample_routing_def)
  with run f show ?thesis by auto
qed

end
